(* ===== verification/Prelude.thy ===== *)
theory Prelude
  imports Complex_Main "HOL-Library.AList" "HOL-Library.Char_ord" "HOL-Library.List_Lexorder"
    "HOL-Library.Multiset"
begin

text \<open>
  What the component theories share: Go's fixed-width integers with their wrap-around, Go maps,
  the collections of facts the component proofs are carried by, and generic lemmas on lists.

  A Go map is an association list with distinct keys. The order of the list is the order in which a
  \<^verbatim>\<open>range\<close> loop visits the map; Go leaves that order open, and a theorem about every list is a
  theorem about every order. Reads go through \<^const>\<open>map_of\<close>, stores through \<^const>\<open>AList.update\<close>,
  \<^verbatim>\<open>delete\<close> is \<^const>\<open>AList.delete\<close>.

  A value of \<^verbatim>\<open>sets.Set[T]\<close> is a HOL set; that it is finite is part of the well-formedness of the
  structure that holds it.
\<close>

named_theorems wf_intros \<open>introduction rules: an operation keeps a well-formedness invariant\<close>
named_theorems gomap_simps \<open>rewrite rules for reads after writes on Go maps\<close>

section \<open>Fixed-width integers\<close>

definition MaxInt64 :: int where "MaxInt64 = 9223372036854775807"
definition MinInt64 :: int where "MinInt64 = - 9223372036854775808"
definition MaxInt32 :: int where "MaxInt32 = 2147483647"
definition MinInt32 :: int where "MinInt32 = - 2147483648"

definition in_int64 :: "int \<Rightarrow> bool" where
  "in_int64 n \<longleftrightarrow> MinInt64 \<le> n \<and> n \<le> MaxInt64"

definition in_int32 :: "int \<Rightarrow> bool" where
  "in_int32 n \<longleftrightarrow> MinInt32 \<le> n \<and> n \<le> MaxInt32"

text \<open>The value an \<^verbatim>\<open>int\<close> (64 bit) or \<^verbatim>\<open>int32\<close> variable holds after an arithmetic operation.\<close>

definition wrap64 :: "int \<Rightarrow> int" where
  "wrap64 n = (n + 9223372036854775808) mod 18446744073709551616 - 9223372036854775808"

definition wrap32 :: "int \<Rightarrow> int" where
  "wrap32 n = (n + 2147483648) mod 4294967296 - 2147483648"

lemmas int_bounds = MaxInt64_def MinInt64_def MaxInt32_def MinInt32_def

lemma wrap64_id: "in_int64 n \<Longrightarrow> wrap64 n = n"
  by (simp add: in_int64_def wrap64_def int_bounds)

lemma wrap32_id: "in_int32 n \<Longrightarrow> wrap32 n = n"
  by (simp add: in_int32_def wrap32_def int_bounds)

lemma wrap64_in_int64 [simp]: "in_int64 (wrap64 n)"
proof -
  have "0 \<le> (n + 9223372036854775808) mod 18446744073709551616"
    and "(n + 9223372036854775808) mod 18446744073709551616 < 18446744073709551616"
    by simp_all
  then show ?thesis unfolding in_int64_def wrap64_def int_bounds by linarith
qed

lemma wrap32_in_int32 [simp]: "in_int32 (wrap32 n)"
proof -
  have "0 \<le> (n + 2147483648) mod 4294967296" and "(n + 2147483648) mod 4294967296 < 4294967296"
    by simp_all
  then show ?thesis unfolding in_int32_def wrap32_def int_bounds by linarith
qed

section \<open>Go maps\<close>

type_synonym ('k, 'v) gomap = "('k \<times> 'v) list"

abbreviation wf_map :: "('k, 'v) gomap \<Rightarrow> bool" where
  "wf_map m \<equiv> distinct (map fst m)"

abbreviation mhas :: "('k, 'v) gomap \<Rightarrow> 'k \<Rightarrow> bool" where
  "mhas m k \<equiv> map_of m k \<noteq> None"

text \<open>\<^verbatim>\<open>m[k]\<close> as an expression: the zero value of the element type where the key is absent.\<close>

definition mget :: "'v \<Rightarrow> ('k, 'v) gomap \<Rightarrow> 'k \<Rightarrow> 'v" where
  "mget z m k = (case map_of m k of None \<Rightarrow> z | Some v \<Rightarrow> v)"

abbreviation mput :: "'k \<Rightarrow> 'v \<Rightarrow> ('k, 'v) gomap \<Rightarrow> ('k, 'v) gomap" where
  "mput k v m \<equiv> AList.update k v m"

abbreviation mdel :: "'k \<Rightarrow> ('k, 'v) gomap \<Rightarrow> ('k, 'v) gomap" where
  "mdel k m \<equiv> AList.delete k m"

lemma map_of_mput [gomap_simps]: "map_of (mput k v m) = (map_of m)(k \<mapsto> v)"
  by (rule update_conv')

lemma map_of_mdel [gomap_simps]: "map_of (mdel k m) = (map_of m)(k := None)"
  by (rule delete_conv')

lemma wf_map_mput [wf_intros]: "wf_map m \<Longrightarrow> wf_map (mput k v m)"
  by (rule distinct_update)

lemma wf_map_mdel [wf_intros]: "wf_map m \<Longrightarrow> wf_map (mdel k m)"
  by (rule distinct_delete)

lemma mget_mput [gomap_simps]: "mget z (mput k v m) k' = (if k' = k then v else mget z m k')"
  by (simp add: mget_def map_of_mput)

lemma mget_mdel [gomap_simps]: "mget z (mdel k m) k' = (if k' = k then z else mget z m k')"
  by (simp add: mget_def map_of_mdel)

lemma map_of_in_set: "wf_map m \<Longrightarrow> map_of m k = Some v \<longleftrightarrow> (k, v) \<in> set m"
  by (rule map_of_eq_Some_iff)

lemma map_entries_iff:
  "wf_map m \<Longrightarrow> (\<forall>(k, v) \<in> set m. P k v) \<longleftrightarrow> (\<forall>k v. map_of m k = Some v \<longrightarrow> P k v)"
  by (auto simp: map_of_in_set)

lemma list_all_entries_iff:
  "wf_map m \<Longrightarrow> list_all (\<lambda>(k, v). P k v) m \<longleftrightarrow> (\<forall>k v. map_of m k = Some v \<longrightarrow> P k v)"
  by (auto simp: list_all_iff map_of_in_set)

lemma list_ex_entries_iff:
  "wf_map m \<Longrightarrow> list_ex (\<lambda>(k, v). P k v) m \<longleftrightarrow> (\<exists>k v. map_of m k = Some v \<and> P k v)"
  by (auto simp: list_ex_iff map_of_in_set)

lemma map_of_map_values: "map_of (map (\<lambda>(k, v). (k, f k v)) m) k = map_option (f k) (map_of m k)"
  by (induction m) auto

section \<open>Results\<close>

text \<open>What a Go function that returns a value and an error can do; a panic is a third outcome.\<close>

datatype ('e, 'a) result = Ok 'a | Err 'e | Panic

fun rbind :: "('e, 'a) result \<Rightarrow> ('a \<Rightarrow> ('e, 'b) result) \<Rightarrow> ('e, 'b) result" where
  "rbind (Ok x) f = f x"
| "rbind (Err e) f = Err e"
| "rbind Panic f = Panic"

lemma rbind_Ok_iff: "rbind r f = Ok y \<longleftrightarrow> (\<exists>x. r = Ok x \<and> f x = Ok y)"
  by (cases r) auto

lemma rbind_Panic_iff: "rbind r f = Panic \<longleftrightarrow> r = Panic \<or> (\<exists>x. r = Ok x \<and> f x = Panic)"
  by (cases r) auto

section \<open>Runs of a state machine\<close>

text \<open>
  Several components are a state with operations that may panic. Their runs share one contract: a
  step that returns keeps the invariant. The consequence for runs of any length is proved once here
  and used by every component through an interpretation on its own step function.
\<close>

fun run_steps :: "('op \<Rightarrow> 's \<Rightarrow> 's option) \<Rightarrow> 'op list \<Rightarrow> 's \<Rightarrow> 's option" where
  "run_steps step [] s = Some s"
| "run_steps step (x # xs) s = (case step x s of None \<Rightarrow> None | Some t \<Rightarrow> run_steps step xs t)"

locale step_machine =
  fixes step :: "'op \<Rightarrow> 's \<Rightarrow> 's option"
    and inv :: "'s \<Rightarrow> bool"
  assumes step_inv: "inv s \<Longrightarrow> step x s = Some t \<Longrightarrow> inv t"
begin

lemma run_inv: "inv s \<Longrightarrow> run_steps step xs s = Some t \<Longrightarrow> inv t"
  by (induction xs arbitrary: s) (auto split: option.splits intro: step_inv)

lemma run_append:
  "run_steps step (xs @ ys) s =
     (case run_steps step xs s of None \<Rightarrow> None | Some t \<Rightarrow> run_steps step ys t)"
  by (induction xs arbitrary: s) (auto split: option.splits)

lemma run_total_on:
  assumes "\<And>s x. inv s \<Longrightarrow> ok x \<Longrightarrow> \<exists>t. step x s = Some t"
  shows "\<forall>x \<in> set xs. ok x \<Longrightarrow> inv s \<Longrightarrow> \<exists>t. run_steps step xs s = Some t \<and> inv t"
proof (induction xs arbitrary: s)
  case Nil
  then show ?case by simp
next
  case (Cons x xs)
  then obtain t where t: "step x s = Some t" using assms by (metis list.set_intros(1))
  with step_inv[OF Cons.prems(2)] have "inv t" by blast
  with Cons t show ?case by simp
qed

end

text \<open>Where no step can panic from a state that satisfies the invariant, a run always returns.\<close>

locale total_machine = step_machine +
  assumes step_total: "inv s \<Longrightarrow> \<exists>t. step x s = Some t"
begin

lemma run_total: "inv s \<Longrightarrow> \<exists>t. run_steps step xs s = Some t \<and> inv t"
  using run_total_on[of "\<lambda>_. True"] step_total by blast

end

text \<open>
  Where the steps come from outside, such as the events of a watch, the invariant is kept by the steps
  that respect the contract of the environment.
\<close>

locale guarded_machine =
  fixes step :: "'op \<Rightarrow> 's \<Rightarrow> 's option"
    and inv :: "'s \<Rightarrow> bool"
    and allowed :: "'op \<Rightarrow> bool"
  assumes step_allowed: "inv s \<Longrightarrow> allowed x \<Longrightarrow> \<exists>t. step x s = Some t \<and> inv t"
begin

lemma run_allowed: "inv s \<Longrightarrow> \<forall>x \<in> set xs. allowed x \<Longrightarrow> \<exists>t. run_steps step xs s = Some t \<and> inv t"
proof (induction xs arbitrary: s)
  case Nil
  then show ?case by simp
next
  case (Cons x xs)
  then obtain t where "step x s = Some t" "inv t" using step_allowed by (meson list.set_intros(1))
  with Cons show ?case by simp
qed

end

section \<open>Sums over the entries of a map\<close>

definition map_sum :: "('v \<Rightarrow> 'a::ab_group_add) \<Rightarrow> ('k, 'v) gomap \<Rightarrow> 'a" where
  "map_sum f m = sum_list (map (f \<circ> snd) m)"

lemma map_sum_Nil [simp]: "map_sum f [] = 0"
  by (simp add: map_sum_def)

lemma map_sum_mput:
  "map_sum f (mput k v m) = map_sum f m + f v - (case map_of m k of None \<Rightarrow> 0 | Some w \<Rightarrow> f w)"
  by (induction m) (auto simp: map_sum_def algebra_simps split: option.splits)

lemma map_sum_mdel:
  "wf_map m \<Longrightarrow> map_sum f (mdel k m) = map_sum f m - (case map_of m k of None \<Rightarrow> 0 | Some w \<Rightarrow> f w)"
proof (induction m)
  case Nil
  then show ?case by simp
next
  case (Cons e m)
  obtain k' v' where e: "e = (k', v')" by (cases e)
  have "mdel k m = m" if "k' = k" using Cons.prems that e by (simp add: delete_idem)
  then show ?case using Cons e by (auto simp: map_sum_def algebra_simps split: option.splits)
qed

lemma map_sum_cong: "(\<And>k v. (k, v) \<in> set m \<Longrightarrow> f v = g v) \<Longrightarrow> map_sum f m = map_sum g m"
  unfolding map_sum_def by (rule arg_cong[where f = sum_list]) auto

lemma map_sum_values: "(\<And>k v. (k, v) \<in> set m \<Longrightarrow> f (h v) = f v) \<Longrightarrow> map_sum f (map (\<lambda>(k, v). (k, h v)) m) = map_sum f m"
  unfolding map_sum_def by (rule arg_cong[where f = sum_list]) auto

end
