(* ===== verification/Strconv.thy ===== *)
theory Strconv
  imports Prelude
begin

text \<open>
  The two functions of Go's \<^verbatim>\<open>strconv\<close> package the program uses on label values: \<^verbatim>\<open>Atoi\<close> and
  \<^verbatim>\<open>FormatInt\<close> in base ten, on 64-bit integers.
\<close>

datatype NumError = ErrSyntax | ErrRange

definition digit_of :: "char \<Rightarrow> int option" where
  "digit_of c = (let n = of_char c :: int in if 48 \<le> n \<and> n \<le> 57 then Some (n - 48) else None)"

text \<open>
  The scan of \<^verbatim>\<open>ParseUint\<close>: left to right, a byte that is no digit is a syntax error, and a value
  beyond 64 bits is a range error at once, before the rest of the string is looked at.
\<close>

fun ParseUint_loop :: "int \<Rightarrow> string \<Rightarrow> NumError + int" where
  "ParseUint_loop n [] = Inr n"
| "ParseUint_loop n (c # cs) =
     (case digit_of c of
        None \<Rightarrow> Inl ErrSyntax
      | Some d \<Rightarrow> if 10 * n + d > 18446744073709551615 then Inl ErrRange
                  else ParseUint_loop (10 * n + d) cs)"

text \<open>
  \<^verbatim>\<open>ParseInt(s, 10, 64)\<close> after the sign has been read: the value and the error, both returned. On a
  range error the value is the bound that was passed.
\<close>

definition ParseInt_body :: "bool \<Rightarrow> string \<Rightarrow> int \<times> NumError option" where
  "ParseInt_body neg s =
     (if s = [] then (0, Some ErrSyntax)
      else case ParseUint_loop 0 s of
        Inl ErrSyntax \<Rightarrow> (0, Some ErrSyntax)
      | Inl ErrRange \<Rightarrow> (if neg then MinInt64 else MaxInt64, Some ErrRange)
      | Inr n \<Rightarrow>
          if \<not> neg \<and> n \<ge> 9223372036854775808 then (MaxInt64, Some ErrRange)
          else if neg \<and> n > 9223372036854775808 then (MinInt64, Some ErrRange)
          else (if neg then - n else n, None))"

definition Atoi :: "string \<Rightarrow> int \<times> NumError option" where
  "Atoi s =
     (case s of
        [] \<Rightarrow> (0, Some ErrSyntax)
      | c # cs \<Rightarrow>
          if c = CHR ''-'' then ParseInt_body True cs
          else if c = CHR ''+'' then ParseInt_body False cs
          else ParseInt_body False (c # cs))"

text \<open>The integer a string denotes, None where \<^const>\<open>Atoi\<close> reports an error.\<close>

definition atoi :: "string \<Rightarrow> int option" where
  "atoi s = (case Atoi s of (n, None) \<Rightarrow> Some n | (_, Some _) \<Rightarrow> None)"

fun dec_digits :: "nat \<Rightarrow> string" where
  "dec_digits n = (if n < 10 then [char_of (48 + n)] else dec_digits (n div 10) @ [char_of (48 + n mod 10)])"

declare dec_digits.simps [simp del]

definition FormatInt :: "int \<Rightarrow> string" where
  "FormatInt n = (if n < 0 then CHR ''-'' # dec_digits (nat (- n)) else dec_digits (nat n))"

section \<open>Round trip\<close>

lemma digit_of_char_of [simp]: "d < 10 \<Longrightarrow> digit_of (char_of (48 + d :: nat)) = Some (int d)"
proof -
  assume "d < 10"
  then have "(of_char (char_of (48 + d) :: char) :: nat) = 48 + d" by simp
  then have "(of_char (char_of (48 + d) :: char) :: int) = int (48 + d)"
    by (metis of_nat_of_char)
  with \<open>d < 10\<close> show ?thesis by (simp add: digit_of_def Let_def)
qed

lemma dec_digits_nonempty [simp]: "dec_digits n \<noteq> []"
  by (subst dec_digits.simps) simp

text \<open>Scanning the decimal digits of a number from an accumulator appends them to it.\<close>

lemma ParseUint_loop_append:
  "ParseUint_loop a (xs @ ys) =
     (case ParseUint_loop a xs of Inl e \<Rightarrow> Inl e | Inr n \<Rightarrow> ParseUint_loop n ys)"
  by (induction xs arbitrary: a) (auto split: option.splits)

lemma ParseUint_loop_dec_digits:
  "int n \<le> 18446744073709551615 \<Longrightarrow> ParseUint_loop 0 (dec_digits n) = Inr (int n)"
proof (induction n rule: dec_digits.induct)
  case (1 n)
  show ?case
  proof (cases "n < 10")
    case True
    then show ?thesis by (simp add: dec_digits.simps[of n])
  next
    case False
    have "ParseUint_loop 0 (dec_digits (n div 10)) = Inr (int (n div 10))"
      using "1.IH"[OF False] "1.prems" by (simp add: zdiv_int)
    moreover have "10 * int (n div 10) + int (n mod 10) = int n"
      by (metis mult_div_mod_eq of_nat_add of_nat_mult of_nat_numeral)
    ultimately show ?thesis
      using False "1.prems" by (simp add: dec_digits.simps[of n] ParseUint_loop_append)
  qed
qed

text \<open>Leading zeros change nothing, so every integer has infinitely many spellings.\<close>

lemma ParseUint_loop_zeros: "ParseUint_loop 0 (replicate k (CHR ''0'') @ s) = ParseUint_loop 0 s"
  by (induction k) (simp_all add: digit_of_def Let_def)

definition zero_padded :: "nat \<Rightarrow> int \<Rightarrow> string" where
  "zero_padded k n =
     (if n < 0 then CHR ''-'' # replicate k (CHR ''0'') @ dec_digits (nat (- n))
      else replicate k (CHR ''0'') @ dec_digits (nat n))"

lemma zero_padded_0: "zero_padded 0 n = FormatInt n"
  by (simp add: zero_padded_def FormatInt_def)

lemma dec_digits_first: "\<exists>c cs. dec_digits n = c # cs \<and> c \<noteq> CHR ''-'' \<and> c \<noteq> CHR ''+''"
proof (induction n rule: dec_digits.induct)
  case (1 n)
  show ?case
  proof (cases "n < 10")
    case True
    then have "digit_of (char_of (48 + n)) \<noteq> None" by simp
    then have "char_of (48 + n) \<noteq> CHR ''-''" "char_of (48 + n) \<noteq> CHR ''+''"
      by (auto simp: digit_of_def Let_def)
    with True show ?thesis by (simp add: dec_digits.simps[of n])
  next
    case False
    with "1.IH" show ?thesis by (auto simp: dec_digits.simps[of n])
  qed
qed

lemma Atoi_zero_padded: "in_int64 n \<Longrightarrow> Atoi (zero_padded k n) = (n, None)"
proof -
  assume n: "in_int64 n"
  have loop: "ParseUint_loop 0 (replicate k (CHR ''0'') @ dec_digits m) = Inr (int m)"
    if "int m \<le> 18446744073709551615" for m
    using that by (simp add: ParseUint_loop_zeros ParseUint_loop_dec_digits)
  show ?thesis
  proof (cases "n < 0")
    case True
    with n have "int (nat (- n)) = - n" "- n \<le> 9223372036854775808"
      by (simp_all add: in_int64_def int_bounds)
    with True loop[of "nat (- n)"] show ?thesis
      by (simp add: zero_padded_def Atoi_def ParseInt_body_def)
  next
    case False
    with n have m: "int (nat n) = n" "n \<le> 9223372036854775807"
      by (simp_all add: in_int64_def int_bounds)
    obtain c cs where hd: "replicate k (CHR ''0'') @ dec_digits (nat n) = c # cs"
      "c \<noteq> CHR ''-''" "c \<noteq> CHR ''+''"
      using dec_digits_first[of "nat n"] by (cases k) auto
    with False have "zero_padded k n = c # cs" by (simp add: zero_padded_def)
    with hd loop[of "nat n"] m show ?thesis
      by (simp add: Atoi_def ParseInt_body_def)
  qed
qed

lemma atoi_zero_padded: "in_int64 n \<Longrightarrow> atoi (zero_padded k n) = Some n"
  by (simp add: atoi_def Atoi_zero_padded)

lemma Atoi_FormatInt [simp]: "in_int64 n \<Longrightarrow> Atoi (FormatInt n) = (n, None)"
  using Atoi_zero_padded[of n 0] by (simp add: zero_padded_0)

lemma atoi_FormatInt [simp]: "in_int64 n \<Longrightarrow> atoi (FormatInt n) = Some n"
  by (simp add: atoi_def)

lemma length_zero_padded: "length (zero_padded k n) = k + length (FormatInt n)"
  by (simp add: zero_padded_def FormatInt_def)

lemma zero_padded_inj: "inj (\<lambda>k. zero_padded k n)"
  by (rule injI) (metis add_right_cancel length_zero_padded)

text \<open>Infinitely many strings denote the same integer.\<close>

lemma infinite_spellings: "in_int64 n \<Longrightarrow> infinite {s. atoi s = Some n}"
proof -
  assume n: "in_int64 n"
  have "infinite (range (\<lambda>k. zero_padded k n))"
    using zero_padded_inj by (simp add: finite_image_iff)
  moreover have "range (\<lambda>k. zero_padded k n) \<subseteq> {s. atoi s = Some n}"
    using n by (auto simp: atoi_zero_padded)
  ultimately show ?thesis by (metis finite_subset)
qed

lemma spelling_avoiding:
  assumes "in_int64 n" "finite S"
  obtains s where "atoi s = Some n" "s \<notin> S"
proof -
  have "infinite ({s. atoi s = Some n} - S)"
    using infinite_spellings[OF assms(1)] assms(2) by simp
  then have "{s. atoi s = Some n} - S \<noteq> {}" by (metis finite.emptyI)
  then obtain s where "s \<in> {s. atoi s = Some n} - S" by blast
  then show ?thesis using that by blast
qed

lemma ParseUint_loop_nonneg: "ParseUint_loop a s = Inr n \<Longrightarrow> 0 \<le> a \<Longrightarrow> 0 \<le> n"
  by (induction a s rule: ParseUint_loop.induct)
    (auto simp: digit_of_def Let_def split: option.splits if_splits)

lemma ParseInt_body_in_int64: "in_int64 (fst (ParseInt_body neg s))"
  by (auto simp: ParseInt_body_def in_int64_def int_bounds
      split: sum.splits NumError.splits dest: ParseUint_loop_nonneg)

lemma Atoi_in_int64 [simp]: "in_int64 (fst (Atoi s))"
  using ParseInt_body_in_int64
  by (auto simp: Atoi_def in_int64_def int_bounds split: list.splits)

lemma atoi_in_int64: "atoi s = Some n \<Longrightarrow> in_int64 n"
  by (cases "Atoi s") (use Atoi_in_int64[of s] in \<open>auto simp: atoi_def split: option.splits\<close>)

lemma infinite_strings: "infinite (UNIV :: string set)"
proof
  assume "finite (UNIV :: string set)"
  then have "finite {s. atoi s = Some 0}" by (rule finite_subset[rotated]) simp
  moreover have "in_int64 0" by (simp add: in_int64_def int_bounds)
  ultimately show False using infinite_spellings by blast
qed

end
