(* ===== verification/Labels.thy ===== *)
theory Labels
  imports Strconv "HOL-Library.Sublist"
begin

text \<open>
  Label keys, node selector requirements and their validation:
  \<^verbatim>\<open>pkg/apis/v1/labels.go\<close> and the requirement part of \<^verbatim>\<open>pkg/apis/v1/nodeclaim_validation.go\<close>.

  The package variables of \<^verbatim>\<open>labels.go\<close> are mutable: cloud providers add to them when they start. They
  are the fields of \<open>label_env\<close>, which every function that reads them takes as an argument;
  \<open>core_labels\<close> is the value the package gives them.
\<close>

section \<open>Constants and package variables\<close>

definition Group :: string where "Group = ''karpenter.sh''"

definition NodePoolLabelKey :: string where "NodePoolLabelKey = Group @ ''/nodepool''"
definition CapacityTypeLabelKey :: string where "CapacityTypeLabelKey = Group @ ''/capacity-type''"

definition CapacityTypeSpot :: string where "CapacityTypeSpot = ''spot''"
definition CapacityTypeOnDemand :: string where "CapacityTypeOnDemand = ''on-demand''"
definition CapacityTypeReserved :: string where "CapacityTypeReserved = ''reserved''"

text \<open>Label keys of the Kubernetes API (\<^verbatim>\<open>k8s.io/api/core/v1\<close>), by their documented values.\<close>

definition LabelHostname :: string where "LabelHostname = ''kubernetes.io/hostname''"
definition LabelTopologyZone :: string where "LabelTopologyZone = ''topology.kubernetes.io/zone''"
definition LabelTopologyRegion :: string where "LabelTopologyRegion = ''topology.kubernetes.io/region''"
definition LabelInstanceTypeStable :: string where
  "LabelInstanceTypeStable = ''node.kubernetes.io/instance-type''"
definition LabelInstanceType :: string where "LabelInstanceType = ''beta.kubernetes.io/instance-type''"
definition LabelArchStable :: string where "LabelArchStable = ''kubernetes.io/arch''"
definition LabelOSStable :: string where "LabelOSStable = ''kubernetes.io/os''"
definition LabelWindowsBuild :: string where
  "LabelWindowsBuild = ''node.kubernetes.io/windows-build''"
definition LabelFailureDomainBetaZone :: string where
  "LabelFailureDomainBetaZone = ''failure-domain.beta.kubernetes.io/zone''"
definition LabelFailureDomainBetaRegion :: string where
  "LabelFailureDomainBetaRegion = ''failure-domain.beta.kubernetes.io/region''"

lemmas label_key_defs =
  Group_def NodePoolLabelKey_def CapacityTypeLabelKey_def LabelHostname_def LabelTopologyZone_def
  LabelTopologyRegion_def LabelInstanceTypeStable_def LabelInstanceType_def LabelArchStable_def
  LabelOSStable_def LabelWindowsBuild_def LabelFailureDomainBetaZone_def
  LabelFailureDomainBetaRegion_def

record label_env =
  RestrictedLabelDomains :: "string list"
  WellKnownLabels :: "string list"
  WellKnownValuesForRequirements :: "(string, string set) gomap"
  RestrictedLabels :: "string set"
  NormalizedLabels :: "(string, string) gomap"
  NormalizedLabelValues :: "(string, (string, string) gomap) gomap"

definition core_labels :: label_env where
  "core_labels = \<lparr>
     RestrictedLabelDomains = [Group],
     WellKnownLabels = [NodePoolLabelKey, LabelTopologyZone, LabelTopologyRegion,
       LabelInstanceTypeStable, LabelArchStable, LabelOSStable, CapacityTypeLabelKey,
       LabelWindowsBuild],
     WellKnownValuesForRequirements =
       [(CapacityTypeLabelKey, {CapacityTypeOnDemand, CapacityTypeSpot, CapacityTypeReserved})],
     RestrictedLabels = {LabelHostname},
     NormalizedLabels =
       [(LabelFailureDomainBetaZone, LabelTopologyZone),
        (''beta.kubernetes.io/arch'', LabelArchStable),
        (''beta.kubernetes.io/os'', LabelOSStable),
        (LabelInstanceType, LabelInstanceTypeStable),
        (LabelFailureDomainBetaRegion, LabelTopologyRegion)],
     NormalizedLabelValues = []\<rparr>"

text \<open>
  What every configuration of the variables is expected to keep, and the package's own value does:
  the two normalisation tables map onto keys and values that are not themselves renamed again.
\<close>

definition wf_label_env :: "label_env \<Rightarrow> bool" where
  "wf_label_env E \<longleftrightarrow>
     (\<forall>k k'. map_of (NormalizedLabels E) k = Some k' \<longrightarrow> map_of (NormalizedLabels E) k' = None) \<and>
     (\<forall>k m v v'. map_of (NormalizedLabelValues E) k = Some m \<longrightarrow> map_of m v = Some v' \<longrightarrow>
        (case map_of m v' of None \<Rightarrow> True | Some v'' \<Rightarrow> v'' = v'))"

section \<open>Requirements as the API writes them\<close>

text \<open>\<^verbatim>\<open>corev1.NodeSelectorOperator\<close> with the two operators the program adds. The type is a string, so
  a value outside the eight names can occur.\<close>

datatype operator =
  OpIn | OpNotIn | OpExists | OpDoesNotExist | OpGt | OpLt | OpGte | OpLte | OpOther string

record NodeSelectorRequirement =
  nsKey :: string
  nsOperator :: operator
  nsValues :: "string list"
  nsMinValues :: "int option"

definition SupportedNodeSelectorOps :: "operator set" where
  "SupportedNodeSelectorOps = {OpIn, OpNotIn, OpExists, OpDoesNotExist, OpGt, OpLt, OpGte, OpLte}"

section \<open>Functions of labels.go\<close>

text \<open>\<^verbatim>\<open>strings.SplitN(key, "/", 2)\<close> and \<^verbatim>\<open>strings.Cut(key, "/")\<close>: the text before and after the first slash.\<close>

fun cut_slash :: "string \<Rightarrow> string \<times> string option" where
  "cut_slash [] = ([], None)"
| "cut_slash (c # cs) =
     (if c = CHR ''/'' then ([], Some cs)
      else (let (a, b) = cut_slash cs in (c # a, b)))"

definition GetLabelDomain :: "string \<Rightarrow> string" where
  "GetLabelDomain key = (case cut_slash key of (a, Some _) \<Rightarrow> a | (_, None) \<Rightarrow> [])"

datatype label_error = RestrictedDomainError string | RestrictedLabelError string | UnknownValuesError string

definition IsRestrictedLabel :: "label_env \<Rightarrow> string \<Rightarrow> label_error option" where
  "IsRestrictedLabel E key =
     (if key \<in> set (WellKnownLabels E) then None
      else if list_ex (\<lambda>d. GetLabelDomain key = d \<or> suffix (CHR ''.'' # d) (GetLabelDomain key))
                (RestrictedLabelDomains E)
      then Some (RestrictedDomainError key)
      else if key \<in> RestrictedLabels E then Some (RestrictedLabelError key)
      else None)"

text \<open>Reading an absent key of \<^verbatim>\<open>WellKnownValuesForRequirements\<close> gives the nil set, which has no member.\<close>

definition HasKnownValues :: "label_env \<Rightarrow> NodeSelectorRequirement \<Rightarrow> label_error option" where
  "HasKnownValues E r =
     (if nsKey r \<notin> set (WellKnownLabels E) then None
      else if \<not> list_ex (\<lambda>v. v \<in> mget {} (WellKnownValuesForRequirements E) (nsKey r)) (nsValues r)
      then Some (UnknownValuesError (nsKey r))
      else None)"

section \<open>Validation\<close>

datatype validation_error =
    UnsupportedOperator operator
  | Restricted label_error
  | NoValidValues
  | NotEnoughValidValues
  | NotQualifiedName
  | InvalidLabelValue string
  | InWithoutValues
  | TooFewValuesForMinValues
  | NotSingleInteger

definition validateWellKnownValues :: "label_env \<Rightarrow> NodeSelectorRequirement \<Rightarrow> validation_error option" where
  "validateWellKnownValues E r =
     (if nsKey r \<notin> set (WellKnownLabels E) \<or> nsOperator r \<noteq> OpIn then None
      else case map_of (WellKnownValuesForRequirements E) (nsKey r) of
        None \<Rightarrow> None
      | Some known \<Rightarrow>
          (let values = filter (\<lambda>v. v \<in> known) (nsValues r) in
           if values = [] then Some NoValidValues
           else case nsMinValues r of
             Some m \<Rightarrow> if int (length values) < m then Some NotEnoughValidValues else None
           | None \<Rightarrow> None))"

text \<open>
  \<^verbatim>\<open>validation.IsQualifiedName\<close> and \<^verbatim>\<open>validation.IsValidLabelValue\<close> are library functions; each is a
  parameter giving the number of complaints about a string.
\<close>

definition normalize_key :: "label_env \<Rightarrow> string \<Rightarrow> string" where
  "normalize_key E key = (case map_of (NormalizedLabels E) key of None \<Rightarrow> key | Some k \<Rightarrow> k)"

definition ValidateRequirement ::
  "(string \<Rightarrow> nat) \<Rightarrow> (string \<Rightarrow> nat) \<Rightarrow> label_env \<Rightarrow> NodeSelectorRequirement \<Rightarrow> validation_error list" where
  "ValidateRequirement IsQualifiedName IsValidLabelValue E r0 =
     (let r = r0\<lparr>nsKey := normalize_key E (nsKey r0)\<rparr>; op = nsOperator r in
      (if op \<notin> SupportedNodeSelectorOps then [UnsupportedOperator op] else []) @
      (case IsRestrictedLabel E (nsKey r) of None \<Rightarrow> [] | Some e \<Rightarrow> [Restricted e]) @
      (case validateWellKnownValues E r of None \<Rightarrow> [] | Some e \<Rightarrow> [e]) @
      replicate (IsQualifiedName (nsKey r)) NotQualifiedName @
      concat (map (\<lambda>v. replicate (IsValidLabelValue v) (InvalidLabelValue v)) (nsValues r)) @
      (if op = OpIn \<and> nsValues r = [] then [InWithoutValues] else []) @
      (case nsMinValues r of
         Some m \<Rightarrow> if op = OpIn \<and> int (length (nsValues r)) < m then [TooFewValuesForMinValues] else []
       | None \<Rightarrow> []) @
      (if op \<in> {OpGt, OpLt, OpGte, OpLte} then
         (case nsValues r of
            [v] \<Rightarrow> (case Atoi v of
                      (n, err) \<Rightarrow> if err \<noteq> None \<or> n < 0 then [NotSingleInteger] else [])
          | _ \<Rightarrow> [NotSingleInteger])
       else []))"

definition validateRequirements ::
  "(string \<Rightarrow> nat) \<Rightarrow> (string \<Rightarrow> nat) \<Rightarrow> label_env \<Rightarrow> NodeSelectorRequirement list \<Rightarrow> validation_error list" where
  "validateRequirements qn lv E rs = concat (map (ValidateRequirement qn lv E) rs)"

section \<open>Lemmas\<close>

lemma wf_core_labels: "wf_label_env core_labels"
  by (auto simp: wf_label_env_def core_labels_def label_key_defs split: if_splits)

lemma normalize_key_idem [simp]: "wf_label_env E \<Longrightarrow> normalize_key E (normalize_key E k) = normalize_key E k"
  by (auto simp: normalize_key_def wf_label_env_def split: option.splits)

text \<open>What a requirement that passes validation guarantees to the code that reads it later.\<close>

lemma validated_bound:
  assumes "ValidateRequirement qn lv E r = []" "nsOperator r \<in> {OpGt, OpLt, OpGte, OpLte}"
  obtains v n where "nsValues r = [v]" "Atoi v = (n, None)" "0 \<le> n"
  using assms
  by (fastforce simp: ValidateRequirement_def Let_def split: list.splits prod.splits if_splits)

lemma validated_operator:
  "ValidateRequirement qn lv E r = [] \<Longrightarrow> nsOperator r \<in> SupportedNodeSelectorOps"
  by (simp add: ValidateRequirement_def Let_def split: if_splits)

lemma validated_key: "ValidateRequirement qn lv E r = [] \<Longrightarrow> IsRestrictedLabel E (normalize_key E (nsKey r)) = None"
  by (simp add: ValidateRequirement_def Let_def split: option.splits)

lemma validateRequirements_Nil:
  "validateRequirements qn lv E rs = [] \<longleftrightarrow> (\<forall>r \<in> set rs. ValidateRequirement qn lv E r = [])"
  by (simp add: validateRequirements_def)

lemma cut_slash_append: "CHR ''/'' \<notin> set a \<Longrightarrow> cut_slash (a @ CHR ''/'' # b) = (a, Some b)"
  by (induction a) auto

lemma GetLabelDomain_append: "CHR ''/'' \<notin> set a \<Longrightarrow> GetLabelDomain (a @ CHR ''/'' # b) = a"
  by (simp add: GetLabelDomain_def cut_slash_append)

end
