(* ===== verification/Kube.thy ===== *)
theory Kube
  imports Labels
begin

text \<open>
  The Kubernetes API objects the program reads (\<^verbatim>\<open>k8s.io/api/core/v1\<close>), with the fields it uses.
  Pointers are options: None is the nil pointer. Nothing here is code of the repository; the
  functions Kubernetes attaches to these types are parameters of the definitions that call them.
\<close>

type_synonym NamespacedName = "string \<times> string"

datatype TaintEffect = NoSchedule | PreferNoSchedule | NoExecute | OtherEffect string

record Taint =
  taintKey :: string
  taintValue :: string
  taintEffect :: TaintEffect

record Toleration =
  tolKey :: string
  tolOperator :: string
  tolValue :: string
  tolEffect :: "TaintEffect option"

record PreferredSchedulingTerm =
  pstWeight :: int
  pstPreference :: "NodeSelectorRequirement list"

text \<open>A node selector term is its list of match expressions; the terms of a selector are alternatives.\<close>

record NodeAffinity =
  naRequired :: "NodeSelectorRequirement list list option"
  naPreferred :: "PreferredSchedulingTerm list"

record LabelSelector =
  matchLabels :: "(string, string) gomap"
  matchExpressions :: "NodeSelectorRequirement list"

record PodAffinityTerm =
  patTopologyKey :: string
  patLabelSelector :: "LabelSelector option"
  patNamespaces :: "string list"
  patNamespaceSelector :: "LabelSelector option"

record WeightedPodAffinityTerm =
  wptWeight :: int
  wptTerm :: PodAffinityTerm

record PodAffinity =
  paRequired :: "PodAffinityTerm list"
  paPreferred :: "WeightedPodAffinityTerm list"

record Affinity =
  nodeAffinity :: "NodeAffinity option"
  podAffinity :: "PodAffinity option"
  podAntiAffinity :: "PodAffinity option"

datatype UnsatisfiableConstraintAction = DoNotSchedule | ScheduleAnyway

text \<open>A policy is a string; the zero value, the empty string, is neither of the two names.\<close>

datatype NodeInclusionPolicy = Ignore | Honor | UnsetPolicy

record TopologySpreadConstraint =
  tscMaxSkew :: int
  tscTopologyKey :: string
  tscWhenUnsatisfiable :: UnsatisfiableConstraintAction
  tscLabelSelector :: "LabelSelector option"
  tscMinDomains :: "int option"
  tscNodeTaintsPolicy :: "NodeInclusionPolicy option"
  tscNodeAffinityPolicy :: "NodeInclusionPolicy option"
  tscMatchLabelKeys :: "string list"

record ContainerPort =
  cpHostPort :: int
  cpHostIP :: string
  cpProtocol :: string

record PodCondition =
  pcType :: string
  pcStatus :: string
  pcReason :: string

record OwnerReference =
  orAPIVersion :: string
  orKind :: string

text \<open>A volume of a pod: a claim by name, an ephemeral volume with a generated claim, or neither.\<close>

record Volume =
  volName :: string
  volClaimName :: "string option"
  volEphemeral :: bool

text \<open>Times are nanoseconds; an unset time is None.\<close>

record Pod =
  podName :: string
  podNamespace :: string
  podUID :: string
  podLabels :: "(string, string) gomap"
  podAnnotations :: "(string, string) gomap"
  podOwnerReferences :: "OwnerReference list"
  podCreated :: int
  podDeletionTimestamp :: "int option"
  podNodeSelector :: "(string, string) gomap"
  podAffinities :: "Affinity option"
  podSpread :: "TopologySpreadConstraint list"
  podTolerations :: "Toleration list"
  podContainerPorts :: "ContainerPort list list"
  podVolumes :: "Volume list"
  podNodeName :: string
  podSchedulerName :: string
  podResourceClaims :: "string list"
  podInitContainerClaims :: "string list list"
  podContainerClaims :: "string list list"
  podPhase :: string
  podConditions :: "PodCondition list"
  podNominatedNodeName :: string
  podStartTime :: "int option"
  podPriority :: "int option"

text \<open>
  \<^verbatim>\<open>t.Sub(u)\<close> is the distance in nanoseconds, at the largest or smallest duration where it does not
  fit in 64 bits.
\<close>

definition time_Sub :: "int \<Rightarrow> int \<Rightarrow> int" where
  "time_Sub t u = max MinInt64 (min MaxInt64 (t - u))"

definition Minute :: int where "Minute = 60000000000"

text \<open>\<^verbatim>\<open>client.ObjectKeyFromObject\<close>.\<close>

definition podKey :: "Pod \<Rightarrow> NamespacedName" where
  "podKey p = (podNamespace p, podName p)"

text \<open>A pod with nothing but a name, the starting point of concrete pods.\<close>

definition bare_pod :: "string \<Rightarrow> Pod" where
  "bare_pod n = \<lparr>podName = n, podNamespace = ''default'', podUID = n, podLabels = [],
     podAnnotations = [], podOwnerReferences = [], podCreated = 0, podDeletionTimestamp = None,
     podNodeSelector = [], podAffinities = None, podSpread = [], podTolerations = [],
     podContainerPorts = [], podVolumes = [], podNodeName = [], podSchedulerName = [],
     podResourceClaims = [], podInitContainerClaims = [], podContainerClaims = [],
     podPhase = ''Pending'', podConditions = [], podNominatedNodeName = [], podStartTime = None,
     podPriority = None\<rparr>"

text \<open>
  \<^verbatim>\<open>sort.Slice\<close> and \<^verbatim>\<open>sort.Sort\<close> leave the order of equal elements open. A sorting routine is a parameter of
  the code that sorts, and this is all that code relies on.
\<close>

definition sorts_by :: "('a \<Rightarrow> 'a \<Rightarrow> bool) \<Rightarrow> ('a list \<Rightarrow> 'a list) \<Rightarrow> bool" where
  "sorts_by lt f \<longleftrightarrow>
     (\<forall>xs. mset (f xs) = mset xs \<and> sorted_wrt (\<lambda>x y. \<not> lt y x) (f xs))"

text \<open>The insertion sort Go's routine uses on short slices, for any strict weak order.\<close>

fun insert_by :: "('a \<Rightarrow> 'a \<Rightarrow> bool) \<Rightarrow> 'a \<Rightarrow> 'a list \<Rightarrow> 'a list" where
  "insert_by lt x [] = [x]"
| "insert_by lt x (y # ys) = (if lt y x then y # insert_by lt x ys else x # y # ys)"

definition insertion_sort :: "('a \<Rightarrow> 'a \<Rightarrow> bool) \<Rightarrow> 'a list \<Rightarrow> 'a list" where
  "insertion_sort lt xs = foldr (insert_by lt) xs []"

lemma mset_insert_by [simp]: "mset (insert_by lt x xs) = add_mset x (mset xs)"
  by (induction xs) auto

lemma set_insert_by [simp]: "set (insert_by lt x xs) = insert x (set xs)"
  by (induction xs) auto

text \<open>The order on keys that a comparison of numbers, or of pairs of numbers, induces.\<close>

locale key_order =
  fixes lt :: "'a \<Rightarrow> 'a \<Rightarrow> bool"
  assumes asym: "lt x y \<Longrightarrow> \<not> lt y x"
    and neg_trans: "\<not> lt x y \<Longrightarrow> \<not> lt y z \<Longrightarrow> \<not> lt x z"
begin

lemma sorted_insert_by:
  "sorted_wrt (\<lambda>x y. \<not> lt y x) xs \<Longrightarrow> sorted_wrt (\<lambda>x y. \<not> lt y x) (insert_by lt x xs)"
  by (induction xs) (auto dest: asym neg_trans)

lemma insertion_sort_sorts: "sorts_by lt (insertion_sort lt)"
proof -
  have "mset (insertion_sort lt xs) = mset xs \<and> sorted_wrt (\<lambda>x y. \<not> lt y x) (insertion_sort lt xs)" for xs
    by (induction xs) (simp_all add: insertion_sort_def sorted_insert_by)
  then show ?thesis by (simp add: sorts_by_def)
qed

end

lemma sorts_by_set: "sorts_by lt f \<Longrightarrow> set (f xs) = set xs"
  unfolding sorts_by_def by (metis set_mset_mset)

lemma sorts_by_length: "sorts_by lt f \<Longrightarrow> length (f xs) = length xs"
  unfolding sorts_by_def by (metis size_mset)

lemma sorts_by_hd:
  assumes "sorts_by lt f" "f xs = y # ys" "x \<in> set xs"
  shows "\<not> lt x y \<or> x = y"
proof -
  have "x \<in> set (y # ys)" using assms sorts_by_set by metis
  moreover have "sorted_wrt (\<lambda>x y. \<not> lt y x) (y # ys)" using assms by (metis sorts_by_def)
  ultimately show ?thesis by auto
qed

text \<open>
  \<^verbatim>\<open>UnsortedList\<close> of a set lists its elements once each, in an order Go leaves open. It is a parameter
  of the code that iterates over a set, and this is all that code relies on.
\<close>

definition enumerates :: "('a set \<Rightarrow> 'a list) \<Rightarrow> bool" where
  "enumerates f \<longleftrightarrow> (\<forall>S. finite S \<longrightarrow> set (f S) = S \<and> distinct (f S))"

lemma enumerates_sorted: "enumerates (sorted_list_of_set :: 'a::linorder set \<Rightarrow> 'a list)"
  by (simp add: enumerates_def)

lemma enumerates_set: "enumerates f \<Longrightarrow> finite S \<Longrightarrow> set (f S) = S"
  by (simp add: enumerates_def)

lemma enumerates_length: "enumerates f \<Longrightarrow> finite S \<Longrightarrow> length (f S) = card S"
  by (metis enumerates_def distinct_card)

text \<open>Preferred terms are tried heaviest first.\<close>

definition heavier :: "PreferredSchedulingTerm \<Rightarrow> PreferredSchedulingTerm \<Rightarrow> bool" where
  "heavier s t \<longleftrightarrow> pstWeight s > pstWeight t"

interpretation heavier: key_order heavier
  by unfold_locales (auto simp: heavier_def)

end
