(* ===== verification/HostPort.thy ===== *)
theory HostPort
  imports Kube
begin

text \<open>
  Host ports in use on a node (\<^verbatim>\<open>pkg/scheduling/hostportusage.go\<close>), with the part of the standard
  library's \<^verbatim>\<open>net\<close> package it uses: parsing an address, equality of addresses in their 4-byte and
  16-byte forms, and the unspecified addresses.
\<close>

section \<open>Addresses\<close>

text \<open>A \<^verbatim>\<open>net.IP\<close> is its list of bytes; the nil address is the empty list.\<close>

type_synonym IP = "nat list"

definition v4InV6Prefix :: "nat list" where "v4InV6Prefix = replicate 10 0 @ [255, 255]"

definition IP_Equal :: "IP \<Rightarrow> IP \<Rightarrow> bool" where
  "IP_Equal ip x =
     (if length ip = length x then ip = x
      else if length ip = 4 \<and> length x = 16 then take 12 x = v4InV6Prefix \<and> ip = drop 12 x
      else if length ip = 16 \<and> length x = 4 then take 12 ip = v4InV6Prefix \<and> drop 12 ip = x
      else False)"

definition IPv4zero :: IP where "IPv4zero = v4InV6Prefix @ [0, 0, 0, 0]"
definition IPv6unspecified :: IP where "IPv6unspecified = replicate 16 0"

definition IsUnspecified :: "IP \<Rightarrow> bool" where
  "IsUnspecified ip \<longleftrightarrow> IP_Equal ip IPv4zero \<or> IP_Equal ip IPv6unspecified"

definition hex_val :: "char \<Rightarrow> nat option" where
  "hex_val c =
     (let n = (of_char c :: nat) in
      if 48 \<le> n \<and> n \<le> 57 then Some (n - 48)
      else if 97 \<le> n \<and> n \<le> 102 then Some (n - 87)
      else if 65 \<le> n \<and> n \<le> 70 then Some (n - 55)
      else None)"

fun split_on :: "char \<Rightarrow> string \<Rightarrow> string list" where
  "split_on c [] = [[]]"
| "split_on c (x # xs) =
     (if x = c then [] # split_on c xs
      else case split_on c xs of [] \<Rightarrow> [[x]] | f # fs \<Rightarrow> (x # f) # fs)"

definition is_digit :: "char \<Rightarrow> bool" where
  "is_digit c \<longleftrightarrow> (let n = (of_char c :: nat) in 48 \<le> n \<and> n \<le> 57)"

text \<open>A field of a dotted address: decimal digits without a leading zero, at most 255.\<close>

definition parse_octet :: "string \<Rightarrow> nat option" where
  "parse_octet f =
     (let v = foldl (\<lambda>a c. a * 10 + (of_char c - 48)) 0 f in
      if f = [] \<or> \<not> list_all is_digit f \<or> (length f > 1 \<and> hd f = CHR ''0'') \<or> v > 255 then None
      else Some v)"

definition parseIPv4 :: "string \<Rightarrow> nat list option" where
  "parseIPv4 s =
     (let fields = split_on (CHR ''.'') s in
      if length fields = 4 then those (map parse_octet fields) else None)"

text \<open>
  The loop over the groups of an IPv6 address: \<open>n\<close> groups may still follow, \<open>ip\<close> holds the bytes
  read and \<open>ell\<close> the position of the double colon.
\<close>

fun parseIPv6_loop :: "nat \<Rightarrow> string \<Rightarrow> nat list \<Rightarrow> nat option \<Rightarrow> (nat list \<times> nat option) option" where
  "parseIPv6_loop 0 s ip ell = (if s = [] then Some (ip, ell) else None)"
| "parseIPv6_loop (Suc n) s ip ell =
     (let ds = takeWhile (\<lambda>c. hex_val c \<noteq> None) s;
          rest = dropWhile (\<lambda>c. hex_val c \<noteq> None) s;
          acc = foldl (\<lambda>a c. a * 16 + the (hex_val c)) 0 ds;
          ip' = ip @ [acc div 256, acc mod 256]
      in if ds = [] \<or> length ds > 4 then None
         else if rest \<noteq> [] \<and> hd rest = CHR ''.'' then
           (if ell = None \<and> length ip \<noteq> 12 then None
            else if length ip + 4 > 16 then None
            else map_option (\<lambda>q. (ip @ q, ell)) (parseIPv4 s))
         else case rest of
           [] \<Rightarrow> Some (ip', ell)
         | c # s' \<Rightarrow>
             if c \<noteq> CHR '':'' \<or> s' = [] then None
             else if hd s' = CHR '':'' then
               (if ell \<noteq> None then None
                else if tl s' = [] then Some (ip', Some (length ip'))
                else parseIPv6_loop n (tl s') ip' (Some (length ip')))
             else parseIPv6_loop n s' ip' ell)"

definition expand_ellipsis :: "nat list \<times> nat option \<Rightarrow> nat list option" where
  "expand_ellipsis r =
     (case r of (ip, ell) \<Rightarrow>
        if length ip < 16 then
          (case ell of
             None \<Rightarrow> None
           | Some e \<Rightarrow> Some (take e ip @ replicate (16 - length ip) 0 @ drop e ip))
        else if ell \<noteq> None then None else Some ip)"

definition parseIPv6 :: "string \<Rightarrow> nat list option" where
  "parseIPv6 s =
     (if CHR ''%'' \<in> set s then None
      else if take 2 s = ''::'' then
        (if drop 2 s = [] then Some IPv6unspecified
         else Option.bind (parseIPv6_loop 8 (drop 2 s) [] (Some 0)) expand_ellipsis)
      else Option.bind (parseIPv6_loop 8 s [] None) expand_ellipsis)"

text \<open>An address with a zone is not one that \<^verbatim>\<open>net.ParseIP\<close> accepts.\<close>

definition ParseIP :: "string \<Rightarrow> IP" where
  "ParseIP s =
     (case find (\<lambda>c. c = CHR ''.'' \<or> c = CHR '':'' \<or> c = CHR ''%'') s of
        None \<Rightarrow> []
      | Some c \<Rightarrow>
          if c = CHR ''.'' then (case parseIPv4 s of None \<Rightarrow> [] | Some q \<Rightarrow> v4InV6Prefix @ q)
          else if c = CHR '':'' then (case parseIPv6 s of None \<Rightarrow> [] | Some q \<Rightarrow> q)
          else [])"

section \<open>Usage\<close>

record HostPort =
  hpIP :: IP
  hpPort :: int
  hpProtocol :: string

record HostPortUsage =
  reserved :: "(NamespacedName, HostPort list) gomap"

definition Matches :: "HostPort \<Rightarrow> HostPort \<Rightarrow> bool" where
  "Matches p rhs =
     (if hpProtocol p \<noteq> hpProtocol rhs then False
      else if hpPort p \<noteq> hpPort rhs then False
      else if \<not> IP_Equal (hpIP p) (hpIP rhs) \<and> \<not> IsUnspecified (hpIP p) \<and> \<not> IsUnspecified (hpIP rhs)
      then False
      else True)"

definition NewHostPortUsage :: HostPortUsage where "NewHostPortUsage = \<lparr>reserved = []\<rparr>"

definition HostPortUsage_Add :: "HostPortUsage \<Rightarrow> Pod \<Rightarrow> HostPort list \<Rightarrow> HostPortUsage" where
  "HostPortUsage_Add u usedBy ports = u\<lparr>reserved := mput (podKey usedBy) ports (reserved u)\<rparr>"

text \<open>The entry that conflicts and the reserved entry it conflicts with; None is no error.\<close>

definition Conflicts :: "HostPortUsage \<Rightarrow> Pod \<Rightarrow> HostPort list \<Rightarrow> (HostPort \<times> NamespacedName \<times> HostPort) option" where
  "Conflicts u usedBy ports =
     find (\<lambda>(newEntry, key, existing). Matches newEntry existing \<and> key \<noteq> podKey usedBy)
       [(newEntry, key, existing). newEntry \<leftarrow> ports, (key, entries) \<leftarrow> reserved u, existing \<leftarrow> entries]"

definition HostPortUsage_DeletePod :: "HostPortUsage \<Rightarrow> NamespacedName \<Rightarrow> HostPortUsage" where
  "HostPortUsage_DeletePod u key = u\<lparr>reserved := mdel key (reserved u)\<rparr>"

definition GetHostPorts :: "Pod \<Rightarrow> HostPort list" where
  "GetHostPorts pod =
     concat (map (\<lambda>ports. concat (map (\<lambda>p.
        if cpHostPort p = 0 then []
        else [\<lparr>hpIP = ParseIP (if cpHostIP p = [] then ''0.0.0.0'' else cpHostIP p),
               hpPort = cpHostPort p, hpProtocol = cpProtocol p\<rparr>]) ports)) (podContainerPorts pod))"

section \<open>Lemmas\<close>

lemma IP_Equal_sym: "IP_Equal a b \<longleftrightarrow> IP_Equal b a"
  by (auto simp: IP_Equal_def)

lemma Matches_sym: "Matches a b \<longleftrightarrow> Matches b a"
  by (auto simp: Matches_def IP_Equal_sym)

lemma Conflicts_None:
  "Conflicts u usedBy ports = None \<longleftrightarrow>
     (\<forall>n \<in> set ports. \<forall>(key, entries) \<in> set (reserved u). key \<noteq> podKey usedBy \<longrightarrow>
        (\<forall>e \<in> set entries. \<not> Matches n e))"
  by (fastforce simp: Conflicts_def find_None_iff)

text \<open>The entries of distinct pods never match, whichever way they are compared.\<close>

definition ports_disjoint :: "HostPortUsage \<Rightarrow> bool" where
  "ports_disjoint u \<longleftrightarrow> wf_map (reserved u) \<and>
     (\<forall>j k es fs. map_of (reserved u) j = Some es \<longrightarrow> map_of (reserved u) k = Some fs \<longrightarrow> j \<noteq> k \<longrightarrow>
        (\<forall>e \<in> set es. \<forall>f \<in> set fs. \<not> Matches e f))"

lemma ports_disjoint_Add:
  assumes "ports_disjoint u" "Conflicts u pod ports = None"
  shows "ports_disjoint (HostPortUsage_Add u pod ports)"
proof -
  have free: "\<not> Matches n e" "\<not> Matches e n"
    if "n \<in> set ports" "map_of (reserved u) k = Some es" "k \<noteq> podKey pod" "e \<in> set es" for n k es e
    using assms that Matches_sym
    unfolding Conflicts_None ports_disjoint_def by (fastforce simp: map_of_in_set)+
  show ?thesis
    using assms(1) free
    by (cases "podKey pod")
      (auto simp: ports_disjoint_def HostPortUsage_Add_def gomap_simps intro: wf_intros split: if_splits)
qed

lemma ports_disjoint_DeletePod: "ports_disjoint u \<Longrightarrow> ports_disjoint (HostPortUsage_DeletePod u key)"
  by (auto simp: ports_disjoint_def HostPortUsage_DeletePod_def gomap_simps intro: wf_intros split: if_splits)

text \<open>
  A pod is placed on a node only when its ports do not conflict there, as the node types of the
  scheduler do before they call \<^verbatim>\<open>Add\<close>.
\<close>

datatype port_op = Place Pod "HostPort list" | Remove NamespacedName

fun port_step :: "port_op \<Rightarrow> HostPortUsage \<Rightarrow> HostPortUsage option" where
  "port_step (Place pod ports) u =
     Some (if Conflicts u pod ports = None then HostPortUsage_Add u pod ports else u)"
| "port_step (Remove key) u = Some (HostPortUsage_DeletePod u key)"

interpretation ports: total_machine port_step ports_disjoint
proof unfold_locales
  fix s x t
  assume "ports_disjoint s" "port_step x s = Some t"
  then show "ports_disjoint t"
    by (cases x) (auto intro: ports_disjoint_Add ports_disjoint_DeletePod split: if_splits)
next
  fix s x
  show "\<exists>t. port_step x s = Some t" by (cases x) auto
qed

lemma ports_disjoint_New: "ports_disjoint NewHostPortUsage"
  by (simp add: ports_disjoint_def NewHostPortUsage_def)

section \<open>Properties\<close>

text \<open>
  C28. However pods are placed on a node and removed from it, no two pods on the node ever hold host
  ports that collide, as long as a pod is added only when the conflict check is silent.
\<close>

theorem host_ports_never_collide:
  "\<exists>u. run_steps port_step ops NewHostPortUsage = Some u \<and>
     (\<forall>j k es fs. map_of (reserved u) j = Some es \<and> map_of (reserved u) k = Some fs \<and> j \<noteq> k \<longrightarrow>
        (\<forall>e \<in> set es. \<forall>f \<in> set fs. \<not> Matches e f \<and> \<not> Matches f e))"
proof -
  obtain u where "run_steps port_step ops NewHostPortUsage = Some u" "ports_disjoint u"
    using ports.run_total[OF ports_disjoint_New] by blast
  then show ?thesis unfolding ports_disjoint_def by blast
qed

definition port_80 :: "string \<Rightarrow> HostPort" where
  "port_80 ip = \<lparr>hpIP = ParseIP ip, hpPort = 80, hpProtocol = ''TCP''\<rparr>"

theorem host_ports_never_collide_witness:
  "\<exists>u. run_steps port_step
       [Place (bare_pod ''p'') [port_80 ''0.0.0.0''], Place (bare_pod ''q'') [port_80 ''10.0.0.1'']]
       NewHostPortUsage = Some u \<and>
     map_of (reserved u) (podKey (bare_pod ''q'')) \<noteq> Some [port_80 ''10.0.0.1'']"
proof -
  let ?ops = "[Place (bare_pod ''p'') [port_80 ''0.0.0.0''], Place (bare_pod ''q'') [port_80 ''10.0.0.1'']]"
  have ip: "ParseIP ''0.0.0.0'' = IPv4zero" by code_simp
  have clash: "Matches (port_80 ''0.0.0.0'') (port_80 ''10.0.0.1'')"
    by (simp add: Matches_def port_80_def IsUnspecified_def ip IP_Equal_def)
  obtain u where u: "run_steps port_step ?ops NewHostPortUsage = Some u"
    "\<And>j k es fs. map_of (reserved u) j = Some es \<and> map_of (reserved u) k = Some fs \<and> j \<noteq> k \<longrightarrow>
        (\<forall>e \<in> set es. \<forall>f \<in> set fs. \<not> Matches e f \<and> \<not> Matches f e)"
    using host_ports_never_collide[of ?ops] by auto
  have key: "podKey (bare_pod ''p'') \<noteq> podKey (bare_pod ''q'')" by (simp add: podKey_def bare_pod_def)
  have "map_of (reserved u) (podKey (bare_pod ''p'')) = Some [port_80 ''0.0.0.0'']"
    using u(1) key by (auto simp: NewHostPortUsage_def Conflicts_def HostPortUsage_Add_def gomap_simps
        split: if_splits)
  then show ?thesis using u(1) u(2)[of "podKey (bare_pod ''p'')" _ "podKey (bare_pod ''q'')"] key clash by auto
qed

end
