(* ===== verification/Taints.thy ===== *)
theory Taints
  imports Kube
begin

text \<open>
  Taints of nodes and their toleration (\<^verbatim>\<open>pkg/scheduling/taints.go\<close>, \<^verbatim>\<open>pkg/apis/v1/taints.go\<close>) and the
  validation of the taints of a NodePool (\<^verbatim>\<open>pkg/apis/v1/nodeclaim_validation.go\<close>). The methods
  \<^verbatim>\<open>MatchTaint\<close> and \<^verbatim>\<open>ToleratesTaint\<close> of the Kubernetes types are the parameters \<open>matchTaint\<close> and
  \<open>toleratesTaint\<close>.
\<close>

section \<open>Known taints\<close>

definition DisruptedTaintKey :: string where "DisruptedTaintKey = Group @ ''/disrupted''"
definition UnregisteredTaintKey :: string where "UnregisteredTaintKey = Group @ ''/unregistered''"

definition DisruptedNoScheduleTaint :: Taint where
  "DisruptedNoScheduleTaint = \<lparr>taintKey = DisruptedTaintKey, taintValue = [], taintEffect = NoSchedule\<rparr>"

definition UnregisteredNoExecuteTaint :: Taint where
  "UnregisteredNoExecuteTaint = \<lparr>taintKey = UnregisteredTaintKey, taintValue = [], taintEffect = NoExecute\<rparr>"

definition KnownEphemeralTaints :: "Taint list" where
  "KnownEphemeralTaints =
     [\<lparr>taintKey = ''node.kubernetes.io/not-ready'', taintValue = [], taintEffect = NoSchedule\<rparr>,
      \<lparr>taintKey = ''node.kubernetes.io/not-ready'', taintValue = [], taintEffect = NoExecute\<rparr>,
      \<lparr>taintKey = ''node.kubernetes.io/unreachable'', taintValue = [], taintEffect = NoSchedule\<rparr>,
      \<lparr>taintKey = ''node.cloudprovider.kubernetes.io/uninitialized'', taintValue = ''true'',
       taintEffect = NoSchedule\<rparr>,
      UnregisteredNoExecuteTaint]"

definition KnownEphemeralTaintKeyPrefixes :: "string list" where
  "KnownEphemeralTaintKeyPrefixes = [''readiness.k8s.io/'']"

definition HasPrefix :: "string \<Rightarrow> string \<Rightarrow> bool" where
  "HasPrefix s p \<longleftrightarrow> take (length p) s = p"

definition IsKnownEphemeralTaint :: "(Taint \<Rightarrow> Taint \<Rightarrow> bool) \<Rightarrow> Taint option \<Rightarrow> bool" where
  "IsKnownEphemeralTaint matchTaint taint =
     (case taint of
        None \<Rightarrow> False
      | Some t \<Rightarrow>
          if list_ex (\<lambda>k. matchTaint k t) KnownEphemeralTaints then True
          else list_ex (\<lambda>p. HasPrefix (taintKey t) p) KnownEphemeralTaintKeyPrefixes)"

section \<open>Toleration and merging\<close>

text \<open>The error of \<^verbatim>\<open>Tolerates\<close> lists the taints that no toleration covers; no error is the empty list.\<close>

definition Taints_Tolerates ::
  "(Toleration \<Rightarrow> Taint \<Rightarrow> bool) \<Rightarrow> Taint list \<Rightarrow> Toleration list \<Rightarrow> Taint list" where
  "Taints_Tolerates toleratesTaint ts tolerations =
     filter (\<lambda>taint. \<not> foldl (\<lambda>tolerates t. tolerates \<or> toleratesTaint t taint) False tolerations) ts"

definition ToleratesPod :: "(Toleration \<Rightarrow> Taint \<Rightarrow> bool) \<Rightarrow> Taint list \<Rightarrow> Pod \<Rightarrow> Taint list" where
  "ToleratesPod toleratesTaint ts pod = Taints_Tolerates toleratesTaint ts (podTolerations pod)"

definition Taints_Merge :: "(Taint \<Rightarrow> Taint \<Rightarrow> bool) \<Rightarrow> Taint list \<Rightarrow> Taint list \<Rightarrow> Taint list" where
  "Taints_Merge matchTaint ts ws =
     foldl (\<lambda>res taint. case find (\<lambda>t. matchTaint taint t) res of
                          Some _ \<Rightarrow> res
                        | None \<Rightarrow> res @ [taint]) ts ws"

section \<open>Validation\<close>

datatype taint_error =
    EmptyTaintKey
  | InvalidTaintKey string
  | InvalidTaintValue string
  | InvalidTaintEffect TaintEffect
  | DuplicateTaint string TaintEffect

text \<open>An unset effect is the empty string.\<close>

definition effect_valid :: "TaintEffect \<Rightarrow> bool" where
  "effect_valid e \<longleftrightarrow> e \<in> {NoSchedule, PreferNoSchedule, NoExecute, OtherEffect []}"

fun validateTaintsField ::
  "(string \<Rightarrow> nat) \<Rightarrow> Taint list \<Rightarrow> (string \<times> TaintEffect) set \<Rightarrow>
     taint_error list \<times> (string \<times> TaintEffect) set" where
  "validateTaintsField IsQualifiedName [] existing = ([], existing)"
| "validateTaintsField IsQualifiedName (taint # taints) existing =
     (let key = (taintKey taint, taintEffect taint);
          errs =
            (if taintKey taint = [] then [EmptyTaintKey] else []) @
            replicate (IsQualifiedName (taintKey taint)) (InvalidTaintKey (taintKey taint)) @
            (if taintValue taint \<noteq> []
             then replicate (IsQualifiedName (taintValue taint)) (InvalidTaintValue (taintValue taint))
             else []) @
            (if effect_valid (taintEffect taint) then [] else [InvalidTaintEffect (taintEffect taint)]) @
            (if key \<in> existing then [DuplicateTaint (taintKey taint) (taintEffect taint)] else []);
          (rest, existing') = validateTaintsField IsQualifiedName taints (insert key existing)
      in (errs @ rest, existing'))"

definition validateTaints :: "(string \<Rightarrow> nat) \<Rightarrow> Taint list \<Rightarrow> Taint list \<Rightarrow> taint_error list" where
  "validateTaints IsQualifiedName taints startupTaints =
     (let (e1, existing) = validateTaintsField IsQualifiedName taints {};
          (e2, _) = validateTaintsField IsQualifiedName startupTaints existing
      in e1 @ e2)"

section \<open>Lemmas\<close>

abbreviation key_effect :: "Taint \<Rightarrow> string \<times> TaintEffect" where
  "key_effect t \<equiv> (taintKey t, taintEffect t)"

lemma foldl_or: "foldl (\<lambda>b x. b \<or> P x) b xs \<longleftrightarrow> b \<or> (\<exists>x \<in> set xs. P x)"
  by (induction xs arbitrary: b) auto

lemma Tolerates_Nil:
  "Taints_Tolerates tol ts tols = [] \<longleftrightarrow> (\<forall>t \<in> set ts. \<exists>x \<in> set tols. tol x t)"
  by (simp add: Taints_Tolerates_def foldl_or filter_empty_conv)

lemma Merge_snoc:
  "Taints_Merge m ts (ws @ [t]) =
     (if \<exists>u \<in> set (Taints_Merge m ts ws). m t u then Taints_Merge m ts ws
      else Taints_Merge m ts ws @ [t])"
  by (auto simp: Taints_Merge_def find_None_iff find_Some_iff split: option.split)

lemma Merge_prefix: "\<exists>added. Taints_Merge m ts ws = ts @ added \<and> set added \<subseteq> set ws"
proof (induction ws rule: rev_induct)
  case Nil
  then show ?case by (simp add: Taints_Merge_def)
next
  case (snoc t ws)
  then show ?case unfolding Merge_snoc by auto
qed

lemma Merge_covers:
  assumes "\<And>t. m t t" "t \<in> set ws"
  shows "\<exists>u \<in> set (Taints_Merge m ts ws). m t u"
  using assms(2)
proof (induction ws rule: rev_induct)
  case Nil
  then show ?case by simp
next
  case (snoc x ws)
  then show ?case unfolding Merge_snoc using assms(1) by (cases "t = x") auto
qed

lemma Merge_distinct:
  assumes "\<And>t u. m t u \<longleftrightarrow> key_effect t = key_effect u" "distinct (map key_effect ts)"
  shows "distinct (map key_effect (Taints_Merge m ts ws))"
proof (induction ws rule: rev_induct)
  case Nil
  then show ?case using assms(2) by (simp add: Taints_Merge_def)
next
  case (snoc t ws)
  then show ?case unfolding Merge_snoc using assms(1)[of t] by auto
qed

definition taint_valid :: "(string \<Rightarrow> nat) \<Rightarrow> Taint \<Rightarrow> bool" where
  "taint_valid qn t \<longleftrightarrow> taintKey t \<noteq> [] \<and> qn (taintKey t) = 0 \<and>
     (taintValue t \<noteq> [] \<longrightarrow> qn (taintValue t) = 0) \<and> effect_valid (taintEffect t)"

lemma validateTaintsField_existing:
  "snd (validateTaintsField qn ts ex) = ex \<union> set (map key_effect ts)"
  by (induction ts arbitrary: ex) (simp_all add: Let_def split_def)

lemma validateTaintsField_Nil:
  "fst (validateTaintsField qn ts ex) = [] \<longleftrightarrow>
     (\<forall>t \<in> set ts. taint_valid qn t) \<and> distinct (map key_effect ts) \<and> set (map key_effect ts) \<inter> ex = {}"
proof (induction ts arbitrary: ex)
  case Nil
  then show ?case by simp
next
  case (Cons t ts)
  have "fst (validateTaintsField qn (t # ts) ex) = [] \<longleftrightarrow>
      taint_valid qn t \<and> key_effect t \<notin> ex \<and> fst (validateTaintsField qn ts (insert (key_effect t) ex)) = []"
    by (simp add: Let_def split_def taint_valid_def conj_ac)
  then show ?case unfolding Cons.IH by auto
qed

section \<open>Properties\<close>

text \<open>
  The taints of a NodePool pass validation exactly when each taint is well formed and no key and
  effect occur twice among the taints and the startup taints together.
\<close>

theorem validateTaints_exact:
  "validateTaints isQualifiedName taints startupTaints = [] \<longleftrightarrow>
     (\<forall>t \<in> set (taints @ startupTaints). taint_valid isQualifiedName t) \<and>
     distinct (map key_effect (taints @ startupTaints))"
proof -
  have "validateTaints isQualifiedName taints startupTaints = [] \<longleftrightarrow>
      fst (validateTaintsField isQualifiedName taints {}) = [] \<and>
      fst (validateTaintsField isQualifiedName startupTaints
        (snd (validateTaintsField isQualifiedName taints {}))) = []"
    by (simp add: validateTaints_def Let_def split_def)
  then show ?thesis
    unfolding validateTaintsField_Nil validateTaintsField_existing by auto
qed

theorem validateTaints_exact_witness:
  "validateTaints (\<lambda>_. 0) [DisruptedNoScheduleTaint] [UnregisteredNoExecuteTaint] = [] \<and>
   validateTaints (\<lambda>_. 0) [DisruptedNoScheduleTaint] [DisruptedNoScheduleTaint] \<noteq> []"
  unfolding validateTaints_exact
  by (simp add: taint_valid_def effect_valid_def DisruptedNoScheduleTaint_def
      UnregisteredNoExecuteTaint_def DisruptedTaintKey_def UnregisteredTaintKey_def Group_def)

text \<open>
  Merging taints keeps the taints already present, in order, adds only taints of the second
  list, leaves each taint of the second list represented by one with its key and effect, and never
  gives two taints the same key and effect.
\<close>

theorem Taints_Merge_exact:
  assumes matchTaint: "\<And>t u. matchTaint t u \<longleftrightarrow> key_effect t = key_effect u"
    and "distinct (map key_effect ts)"
  shows "(\<exists>added. Taints_Merge matchTaint ts ws = ts @ added \<and> set added \<subseteq> set ws) \<and>
     key_effect ` set ws \<subseteq> key_effect ` set (Taints_Merge matchTaint ts ws) \<and>
     distinct (map key_effect (Taints_Merge matchTaint ts ws))"
proof -
  have "key_effect ` set ws \<subseteq> key_effect ` set (Taints_Merge matchTaint ts ws)"
    using Merge_covers[of matchTaint _ ws ts] matchTaint by (fastforce simp: image_iff)
  then show ?thesis using Merge_prefix Merge_distinct[OF assms] by blast
qed

theorem Taints_Merge_exact_witness:
  "distinct (map key_effect (Taints_Merge (\<lambda>t u. key_effect t = key_effect u)
     [DisruptedNoScheduleTaint]
     [DisruptedNoScheduleTaint\<lparr>taintValue := ''x''\<rparr>, UnregisteredNoExecuteTaint]))"
  using Taints_Merge_exact[of "\<lambda>t u. key_effect t = key_effect u" "[DisruptedNoScheduleTaint]"
      "[DisruptedNoScheduleTaint\<lparr>taintValue := ''x''\<rparr>, UnregisteredNoExecuteTaint]"]
  by simp

end
