(* ===== verification/Pods.thy ===== *)
theory Pods
  imports Taints
begin

text \<open>
  The predicates on pods that provisioning, disruption and termination ask
  (\<^verbatim>\<open>pkg/utils/pod/scheduling.go\<close>) and the limits of pod disruption budgets
  (\<^verbatim>\<open>pkg/utils/pdb/pdb.go\<close>).

  The clock is its current reading \<open>now\<close>. \<^verbatim>\<open>time.ParseDuration\<close> is the parameter \<open>parseDuration\<close>, a
  duration or None for an error: nothing below depends on how a duration is spelled. The events that
  the code publishes to a recorder do not influence any result and are left out.
\<close>

section \<open>Owners and life cycle\<close>

text \<open>An owner kind is its API version, \<^verbatim>\<open>group/version\<close> or \<^verbatim>\<open>version\<close> for the core group, and its kind.\<close>

definition IsOwnedBy :: "Pod \<Rightarrow> (string \<times> string) list \<Rightarrow> bool" where
  "IsOwnedBy pod gvks =
     list_ex (\<lambda>(version, kind).
        list_ex (\<lambda>owner. orAPIVersion owner = version \<and> orKind owner = kind) (podOwnerReferences pod)) gvks"

definition IsOwnedByStatefulSet :: "Pod \<Rightarrow> bool" where
  "IsOwnedByStatefulSet pod = IsOwnedBy pod [(''apps/v1'', ''StatefulSet'')]"

definition IsOwnedByDaemonSet :: "Pod \<Rightarrow> bool" where
  "IsOwnedByDaemonSet pod = IsOwnedBy pod [(''apps/v1'', ''DaemonSet'')]"

definition IsOwnedByNode :: "Pod \<Rightarrow> bool" where
  "IsOwnedByNode pod = IsOwnedBy pod [(''v1'', ''Node'')]"

definition FailedToSchedule :: "Pod \<Rightarrow> bool" where
  "FailedToSchedule pod =
     list_ex (\<lambda>c. pcType c = ''PodScheduled'' \<and> pcReason c = ''Unschedulable'') (podConditions pod)"

definition IsScheduled :: "Pod \<Rightarrow> bool" where "IsScheduled pod \<longleftrightarrow> podNodeName pod \<noteq> []"

definition VolcanoSchedulerName :: string where "VolcanoSchedulerName = ''volcano''"

definition IsPreempting :: "Pod \<Rightarrow> bool" where
  "IsPreempting pod \<longleftrightarrow> podNominatedNodeName pod \<noteq> [] \<and> podSchedulerName pod \<noteq> VolcanoSchedulerName"

definition IsPending :: "Pod \<Rightarrow> bool" where "IsPending pod \<longleftrightarrow> podPhase pod = ''Pending''"

definition IsTerminal :: "Pod \<Rightarrow> bool" where
  "IsTerminal pod \<longleftrightarrow> podPhase pod = ''Failed'' \<or> podPhase pod = ''Succeeded''"

definition IsTerminating :: "Pod \<Rightarrow> bool" where "IsTerminating pod \<longleftrightarrow> podDeletionTimestamp pod \<noteq> None"

definition IsStuckTerminating :: "int \<Rightarrow> Pod \<Rightarrow> bool" where
  "IsStuckTerminating now pod \<longleftrightarrow>
     (case podDeletionTimestamp pod of None \<Rightarrow> False | Some t \<Rightarrow> time_Sub now t > Minute)"

definition IsActive :: "Pod \<Rightarrow> bool" where
  "IsActive pod \<longleftrightarrow> \<not> IsTerminal pod \<and> \<not> IsTerminating pod"

definition IsReschedulable :: "Pod \<Rightarrow> bool" where
  "IsReschedulable pod \<longleftrightarrow>
     (IsActive pod \<or> IsOwnedByStatefulSet pod \<and> IsTerminating pod) \<and>
     \<not> IsOwnedByDaemonSet pod \<and> \<not> IsOwnedByNode pod"

definition IsProvisionable :: "Pod \<Rightarrow> bool" where
  "IsProvisionable pod \<longleftrightarrow>
     FailedToSchedule pod \<and> \<not> IsScheduled pod \<and> \<not> IsPreempting pod \<and>
     \<not> IsOwnedByDaemonSet pod \<and> \<not> IsOwnedByNode pod"

section \<open>Disruption\<close>

definition DoNotDisruptAnnotationKey :: string where
  "DoNotDisruptAnnotationKey = Group @ ''/do-not-disrupt''"

definition parseDoNotDisrupt :: "(string \<Rightarrow> int option) \<Rightarrow> string \<Rightarrow> int option" where
  "parseDoNotDisrupt parseDuration v =
     (case parseDuration v of None \<Rightarrow> None | Some d \<Rightarrow> if d \<le> 0 then None else Some d)"

definition IsDoNotDisruptActive :: "(string \<Rightarrow> int option) \<Rightarrow> int \<Rightarrow> Pod \<Rightarrow> bool" where
  "IsDoNotDisruptActive parseDuration now pod =
     (case map_of (podAnnotations pod) DoNotDisruptAnnotationKey of
        None \<Rightarrow> False
      | Some v \<Rightarrow>
          if v = ''true'' then True
          else case parseDoNotDisrupt parseDuration v of
            None \<Rightarrow> False
          | Some duration \<Rightarrow>
              (case podStartTime pod of
                 None \<Rightarrow> True
               | Some start \<Rightarrow> time_Sub now start < duration))"

definition ToleratesDisruptedNoScheduleTaint :: "(Toleration \<Rightarrow> Taint \<Rightarrow> bool) \<Rightarrow> Pod \<Rightarrow> bool" where
  "ToleratesDisruptedNoScheduleTaint tol pod \<longleftrightarrow> ToleratesPod tol [DisruptedNoScheduleTaint] pod = []"

definition IsEvictable :: "(Toleration \<Rightarrow> Taint \<Rightarrow> bool) \<Rightarrow> (string \<Rightarrow> int option) \<Rightarrow> int \<Rightarrow> Pod \<Rightarrow> bool" where
  "IsEvictable tol parseDuration now pod \<longleftrightarrow>
     IsActive pod \<and> \<not> ToleratesDisruptedNoScheduleTaint tol pod \<and> \<not> IsOwnedByNode pod \<and>
     \<not> IsDoNotDisruptActive parseDuration now pod"

definition IsDrainable :: "(Toleration \<Rightarrow> Taint \<Rightarrow> bool) \<Rightarrow> int \<Rightarrow> Pod \<Rightarrow> bool" where
  "IsDrainable tol now pod \<longleftrightarrow>
     \<not> ToleratesDisruptedNoScheduleTaint tol pod \<and> \<not> IsStuckTerminating now pod \<and> \<not> IsOwnedByNode pod"

definition IsWaitingEviction :: "(Toleration \<Rightarrow> Taint \<Rightarrow> bool) \<Rightarrow> int \<Rightarrow> Pod \<Rightarrow> bool" where
  "IsWaitingEviction tol now pod \<longleftrightarrow> \<not> IsTerminal pod \<and> IsDrainable tol now pod"

definition IsPodEligibleForForcedEviction :: "Pod \<Rightarrow> int option \<Rightarrow> bool" where
  "IsPodEligibleForForcedEviction pod nodeGracePeriodExpirationTime =
     (case (nodeGracePeriodExpirationTime, podDeletionTimestamp pod) of
        (Some t, Some d) \<Rightarrow> d > t
      | _ \<Rightarrow> False)"

definition IsDisruptable :: "(string \<Rightarrow> int option) \<Rightarrow> int \<Rightarrow> Pod \<Rightarrow> bool" where
  "IsDisruptable parseDuration now pod \<longleftrightarrow>
     \<not> IsActive pod \<or> \<not> IsDoNotDisruptActive parseDuration now pod"

section \<open>Affinity and resource claims\<close>

definition HasPodAntiAffinity :: "Pod \<Rightarrow> bool" where
  "HasPodAntiAffinity pod =
     (case podAffinities pod of
        None \<Rightarrow> False
      | Some a \<Rightarrow>
          (case podAntiAffinity a of
             None \<Rightarrow> False
           | Some pa \<Rightarrow> paRequired pa \<noteq> [] \<or> paPreferred pa \<noteq> []))"

definition HasRequiredPodAntiAffinity :: "Pod \<Rightarrow> bool" where
  "HasRequiredPodAntiAffinity pod \<longleftrightarrow>
     HasPodAntiAffinity pod \<and>
     (case podAffinities pod of
        None \<Rightarrow> False
      | Some a \<Rightarrow> (case podAntiAffinity a of None \<Rightarrow> False | Some pa \<Rightarrow> paRequired pa \<noteq> []))"

definition HasDRARequirements :: "Pod \<Rightarrow> bool" where
  "HasDRARequirements pod =
     (if podResourceClaims pod \<noteq> [] then True
      else if list_ex (\<lambda>c. c \<noteq> []) (podInitContainerClaims pod) then True
      else list_ex (\<lambda>c. c \<noteq> []) (podContainerClaims pod))"

section \<open>Pod disruption budgets\<close>

datatype IntOrString = IntVal int | StrVal string

record PodDisruptionBudget =
  pdbNamespace :: string
  pdbName :: string
  pdbSelector :: "LabelSelector option"
  pdbMaxUnavailable :: "IntOrString option"
  pdbMinAvailable :: "IntOrString option"
  pdbUnhealthyPodEvictionPolicy :: "string option"
  pdbDisruptionsAllowed :: int

text \<open>A parsed selector is the predicate its \<^verbatim>\<open>Matches\<close> method computes on a set of labels.\<close>

type_synonym Selector = "(string, string) gomap \<Rightarrow> bool"

record pdbItem =
  piKey :: NamespacedName
  piSelector :: Selector
  piDisruptionsAllowed :: int
  piIsFullyBlocking :: bool
  piCanAlwaysEvictUnhealthyPods :: bool

text \<open>\<^verbatim>\<open>metav1.LabelSelectorAsSelector\<close> is the parameter \<open>asSelector\<close>; None is its error.\<close>

definition newPdb :: "(LabelSelector option \<Rightarrow> Selector option) \<Rightarrow> PodDisruptionBudget \<Rightarrow> pdbItem option" where
  "newPdb asSelector pdb =
     (case asSelector (pdbSelector pdb) of
        None \<Rightarrow> None
      | Some selector \<Rightarrow> Some
          \<lparr>piKey = (pdbNamespace pdb, pdbName pdb), piSelector = selector,
           piDisruptionsAllowed = pdbDisruptionsAllowed pdb,
           piIsFullyBlocking =
             (pdbMaxUnavailable pdb = Some (IntVal 0) \<or> pdbMaxUnavailable pdb = Some (StrVal ''0%'') \<or>
              pdbMinAvailable pdb = Some (StrVal ''100%'')),
           piCanAlwaysEvictUnhealthyPods = (pdbUnhealthyPodEvictionPolicy pdb = Some ''AlwaysAllow'')\<rparr>)"

fun NewLimits_loop ::
  "(LabelSelector option \<Rightarrow> Selector option) \<Rightarrow> PodDisruptionBudget list \<Rightarrow> pdbItem list \<Rightarrow> pdbItem list option" where
  "NewLimits_loop asSelector [] pdbs = Some pdbs"
| "NewLimits_loop asSelector (pdb # items) pdbs =
     (case newPdb asSelector pdb of
        None \<Rightarrow> None
      | Some item \<Rightarrow> NewLimits_loop asSelector items (pdbs @ [item]))"

text \<open>\<open>listed\<close> is the answer of the API server to the list call.\<close>

definition NewLimits ::
  "(LabelSelector option \<Rightarrow> Selector option) \<Rightarrow> PodDisruptionBudget list option \<Rightarrow> pdbItem list option" where
  "NewLimits asSelector listed =
     (case listed of None \<Rightarrow> None | Some items \<Rightarrow> NewLimits_loop asSelector items [])"

datatype evictionBlocker = zeroDisruptions | fullyBlockingPDBs

definition pod_unhealthy :: "Pod \<Rightarrow> bool" where
  "pod_unhealthy pod = list_ex (\<lambda>c. pcType c = ''Ready'' \<and> pcStatus c = ''False'') (podConditions pod)"

fun isEvictable_loop :: "Pod \<Rightarrow> evictionBlocker \<Rightarrow> pdbItem list \<Rightarrow> NamespacedName list \<times> bool" where
  "isEvictable_loop pod blocker [] = ([], True)"
| "isEvictable_loop pod blocker (pdb # pdbs) =
     (if piCanAlwaysEvictUnhealthyPods pdb \<and> pod_unhealthy pod then ([], True)
      else if blocker = zeroDisruptions \<and> piDisruptionsAllowed pdb = 0 then ([piKey pdb], False)
      else if blocker = fullyBlockingPDBs \<and> piIsFullyBlocking pdb then ([piKey pdb], False)
      else isEvictable_loop pod blocker pdbs)"

definition matchingPDBs :: "pdbItem list \<Rightarrow> Pod \<Rightarrow> pdbItem list" where
  "matchingPDBs l pod =
     filter (\<lambda>pdb. fst (piKey pdb) = podNamespace pod \<and> piSelector pdb (podLabels pod)) l"

definition Limits_isEvictable ::
  "(Toleration \<Rightarrow> Taint \<Rightarrow> bool) \<Rightarrow> (string \<Rightarrow> int option) \<Rightarrow> int \<Rightarrow> pdbItem list \<Rightarrow> Pod \<Rightarrow> evictionBlocker
     \<Rightarrow> NamespacedName list \<times> bool" where
  "Limits_isEvictable tol parseDuration now l pod blocker =
     (if \<not> IsEvictable tol parseDuration now pod then ([], True)
      else
        (let matching = matchingPDBs l pod in
         if length matching > 1 then (map piKey matching, False)
         else isEvictable_loop pod blocker matching))"

fun CanEvictPods ::
  "(Toleration \<Rightarrow> Taint \<Rightarrow> bool) \<Rightarrow> (string \<Rightarrow> int option) \<Rightarrow> int \<Rightarrow> pdbItem list \<Rightarrow> Pod list
     \<Rightarrow> NamespacedName list \<times> bool" where
  "CanEvictPods tol parseDuration now l [] = ([], True)"
| "CanEvictPods tol parseDuration now l (pod # pods) =
     (let (pdbs, evictable) = Limits_isEvictable tol parseDuration now l pod zeroDisruptions in
      if \<not> evictable then (pdbs, False) else CanEvictPods tol parseDuration now l pods)"

definition isFullyBlocked ::
  "(Toleration \<Rightarrow> Taint \<Rightarrow> bool) \<Rightarrow> (string \<Rightarrow> int option) \<Rightarrow> int \<Rightarrow> pdbItem list \<Rightarrow> Pod
     \<Rightarrow> NamespacedName list \<times> bool" where
  "isFullyBlocked tol parseDuration now l pod =
     (let (pdbs, evictable) = Limits_isEvictable tol parseDuration now l pod fullyBlockingPDBs in
      if \<not> evictable then (pdbs, True) else ([], False))"

definition IsCurrentlyReschedulable ::
  "(Toleration \<Rightarrow> Taint \<Rightarrow> bool) \<Rightarrow> (string \<Rightarrow> int option) \<Rightarrow> int \<Rightarrow> pdbItem list \<Rightarrow> Pod \<Rightarrow> bool" where
  "IsCurrentlyReschedulable tol parseDuration now l pod =
     (let (_, blocked) = isFullyBlocked tol parseDuration now l pod in
      IsReschedulable pod \<and> IsDisruptable parseDuration now pod \<and> \<not> blocked)"

section \<open>Lemmas\<close>

text \<open>Which budget stops the eviction of a pod.\<close>

definition blocks :: "evictionBlocker \<Rightarrow> pdbItem \<Rightarrow> bool" where
  "blocks b pdb = (case b of zeroDisruptions \<Rightarrow> piDisruptionsAllowed pdb = 0
                           | fullyBlockingPDBs \<Rightarrow> piIsFullyBlocking pdb)"

definition exempt :: "Pod \<Rightarrow> pdbItem \<Rightarrow> bool" where
  "exempt pod pdb \<longleftrightarrow> piCanAlwaysEvictUnhealthyPods pdb \<and> pod_unhealthy pod"

lemma isEvictable_single:
  "isEvictable_loop pod b [pdb] =
     (if exempt pod pdb \<or> \<not> blocks b pdb then ([], True) else ([piKey pdb], False))"
  by (cases b) (auto simp: exempt_def blocks_def)

lemma Limits_isEvictable_iff:
  "snd (Limits_isEvictable tol pd now l pod b) \<longleftrightarrow>
     (IsEvictable tol pd now pod \<longrightarrow>
        matchingPDBs l pod = [] \<or>
        (\<exists>pdb. matchingPDBs l pod = [pdb] \<and> (exempt pod pdb \<or> \<not> blocks b pdb)))"
proof (cases "matchingPDBs l pod")
  case Nil
  then show ?thesis by (simp add: Limits_isEvictable_def)
next
  case (Cons pdb rest)
  then show ?thesis
    by (cases rest) (simp_all add: Limits_isEvictable_def isEvictable_single del: isEvictable_loop.simps)
qed

lemma Limits_isEvictable_keys:
  assumes "Limits_isEvictable tol pd now l pod b = (ks, False)"
  shows "ks \<noteq> []" "set ks \<subseteq> piKey ` set (matchingPDBs l pod)"
proof -
  have "ks \<noteq> [] \<and> set ks \<subseteq> piKey ` set (matchingPDBs l pod)"
  proof (cases "matchingPDBs l pod")
    case Nil
    with assms show ?thesis by (simp add: Limits_isEvictable_def split: if_splits)
  next
    case (Cons pdb rest)
    with assms show ?thesis
      by (cases rest) (auto simp: Limits_isEvictable_def isEvictable_single simp del: isEvictable_loop.simps
          split: if_splits)
  qed
  then show "ks \<noteq> []" "set ks \<subseteq> piKey ` set (matchingPDBs l pod)" by blast+
qed

lemma CanEvictPods_iff:
  "snd (CanEvictPods tol pd now l pods) \<longleftrightarrow>
     (\<forall>pod \<in> set pods. snd (Limits_isEvictable tol pd now l pod zeroDisruptions))"
  by (induction pods) (simp_all add: split_def Let_def)

lemma CanEvictPods_keys:
  assumes "CanEvictPods tol pd now l pods = (ks, False)"
  shows "\<exists>pod \<in> set pods. ks \<noteq> [] \<and> set ks \<subseteq> piKey ` set (matchingPDBs l pod)"
  using assms
proof (induction pods)
  case Nil
  then show ?case by simp
next
  case (Cons pod pods)
  show ?case
  proof (cases "snd (Limits_isEvictable tol pd now l pod zeroDisruptions)")
    case True
    with Cons show ?thesis by (auto simp: split_def Let_def)
  next
    case False
    with Cons.prems have "Limits_isEvictable tol pd now l pod zeroDisruptions = (ks, False)"
      by (simp add: split_def Let_def prod_eq_iff)
    from Limits_isEvictable_keys[OF this] show ?thesis by simp
  qed
qed

lemma active_not_stuck: "IsActive pod \<Longrightarrow> \<not> IsStuckTerminating now pod"
  by (simp add: IsActive_def IsTerminating_def IsStuckTerminating_def)

section \<open>Properties\<close>

text \<open>
  A pod that Karpenter may evict is one that the drain of its node waits for, is disruptable, and,
  unless a DaemonSet owns it, is one for which new capacity is planned.
\<close>

theorem IsEvictable_consequences:
  assumes "IsEvictable tol parseDuration now pod"
  shows "IsWaitingEviction tol now pod \<and> IsDisruptable parseDuration now pod \<and>
     (IsReschedulable pod \<longleftrightarrow> \<not> IsOwnedByDaemonSet pod)"
  using assms active_not_stuck[of pod now]
  by (auto simp: IsEvictable_def IsWaitingEviction_def IsDrainable_def IsDisruptable_def
      IsReschedulable_def IsActive_def)

theorem IsEvictable_consequences_witness:
  "IsWaitingEviction (\<lambda>_ _. False) 0 (bare_pod ''p'') \<and> IsReschedulable (bare_pod ''p'')"
proof -
  have "IsEvictable (\<lambda>_ _. False) (\<lambda>_. None) 0 (bare_pod ''p'')"
    by (simp add: IsEvictable_def IsActive_def IsTerminal_def IsTerminating_def bare_pod_def IsOwnedByNode_def
        IsOwnedBy_def IsDoNotDisruptActive_def ToleratesDisruptedNoScheduleTaint_def ToleratesPod_def
        Taints_Tolerates_def)
  moreover have "\<not> IsOwnedByDaemonSet (bare_pod ''p'')"
    by (simp add: IsOwnedByDaemonSet_def IsOwnedBy_def bare_pod_def)
  ultimately show ?thesis using IsEvictable_consequences by blast
qed


definition web_pdb :: "int \<Rightarrow> pdbItem" where
  "web_pdb allowed = \<lparr>piKey = (''default'', ''web''), piSelector = (\<lambda>_. True), piDisruptionsAllowed = allowed,
     piIsFullyBlocking = False, piCanAlwaysEvictUnhealthyPods = False\<rparr>"


end
