(* ===== verification/Requirement.thy ===== *)
theory Requirement
  imports Labels
begin

text \<open>
  \<^verbatim>\<open>pkg/scheduling/requirement.go\<close>: one label key and the values a node may carry for it. A requirement
  stands for a set of strings; \<open>Requirement_Has\<close> is membership. The lemmas show that the
  optimised routines compute what they stand for: \<open>Requirement_Intersection\<close> is the
  intersection of these sets, \<open>HasIntersection\<close> decides whether it is empty and
  \<open>SubsetOf\<close> decides inclusion.
\<close>

section \<open>The data and the operations\<close>

record requirement =
  Key :: string
  complement :: bool
  rvalues :: "string set"
  gte :: "int option"
  lte :: "int option"
  MinValues :: "int option"

definition minIntPtr :: "int option \<Rightarrow> int option \<Rightarrow> int option" where
  "minIntPtr a b =
     (case a of None \<Rightarrow> b
      | Some x \<Rightarrow> (case b of None \<Rightarrow> a | Some y \<Rightarrow> if x < y then a else b))"

definition maxIntPtr :: "int option \<Rightarrow> int option \<Rightarrow> int option" where
  "maxIntPtr a b =
     (case a of None \<Rightarrow> b
      | Some x \<Rightarrow> (case b of None \<Rightarrow> a | Some y \<Rightarrow> if x > y then a else b))"

definition withinBounds :: "string \<Rightarrow> int option \<Rightarrow> int option \<Rightarrow> bool" where
  "withinBounds valueAsString g l =
     (if g = None \<and> l = None then True
      else case Atoi valueAsString of
        (_, Some _) \<Rightarrow> False
      | (val, None) \<Rightarrow>
          if (case g of Some a \<Rightarrow> val < a | None \<Rightarrow> False) then False
          else if (case l of Some b \<Rightarrow> val > b | None \<Rightarrow> False) then False
          else True)"

text \<open>The value normalisation loop at the head of the constructor.\<close>

definition normalize_values :: "label_env \<Rightarrow> string \<Rightarrow> string list \<Rightarrow> string list" where
  "normalize_values E key values =
     (case map_of (NormalizedLabelValues E) key of
        None \<Rightarrow> values
      | Some m \<Rightarrow> map (\<lambda>v. case map_of m v of None \<Rightarrow> v | Some v' \<Rightarrow> v') values)"

text \<open>
  The constructor. None is the index panic of \<^verbatim>\<open>values[0]\<close> when an ordering operator comes without a
  value. The integer errors of \<^verbatim>\<open>Atoi\<close> are ignored, as in the code, which keeps the value returned
  beside the error.
\<close>

definition DoesNotExist_requirement :: "label_env \<Rightarrow> string \<Rightarrow> int option \<Rightarrow> requirement" where
  "DoesNotExist_requirement E key minValues =
     \<lparr>Key = normalize_key E key, complement = False, rvalues = {}, gte = None, lte = None,
      MinValues = minValues\<rparr>"

definition NewRequirementWithFlexibility ::
  "label_env \<Rightarrow> string \<Rightarrow> operator \<Rightarrow> int option \<Rightarrow> string list \<Rightarrow> requirement option" where
  "NewRequirementWithFlexibility E key0 operator minValues values0 =
     (let key = normalize_key E key0;
          values = normalize_values E key values0;
          r = \<lparr>Key = key, complement = (operator \<noteq> OpIn \<and> operator \<noteq> OpDoesNotExist),
               rvalues = (if operator = OpIn \<or> operator = OpNotIn then set values else {}),
               gte = None, lte = None, MinValues = minValues\<rparr>
      in if operator \<in> {OpGt, OpLt, OpGte, OpLte} then
           (case values of
              [] \<Rightarrow> None
            | v # _ \<Rightarrow>
                (let value = fst (Atoi v) in
                 if operator = OpGt then
                   (if value = MaxInt64 then Some (DoesNotExist_requirement E key None)
                    else Some (r\<lparr>gte := Some (wrap64 (value + 1))\<rparr>))
                 else if operator = OpLt then Some (r\<lparr>lte := Some (wrap64 (value - 1))\<rparr>)
                 else if operator = OpGte then Some (r\<lparr>gte := Some value\<rparr>)
                 else Some (r\<lparr>lte := Some value\<rparr>)))
         else Some r)"

definition NewRequirement :: "label_env \<Rightarrow> string \<Rightarrow> operator \<Rightarrow> string list \<Rightarrow> requirement option" where
  "NewRequirement E key operator values = NewRequirementWithFlexibility E key operator None values"

definition Requirement_Len :: "requirement \<Rightarrow> int" where
  "Requirement_Len r =
     (if complement r then MaxInt64 - int (card (rvalues r)) else int (card (rvalues r)))"

definition Requirement_Operator :: "requirement \<Rightarrow> operator" where
  "Requirement_Operator r =
     (if complement r then (if Requirement_Len r < MaxInt64 then OpNotIn else OpExists)
      else if Requirement_Len r > 0 then OpIn else OpDoesNotExist)"

definition Requirement_Has :: "requirement \<Rightarrow> string \<Rightarrow> bool" where
  "Requirement_Has r value =
     (if complement r then value \<notin> rvalues r \<and> withinBounds value (gte r) (lte r)
      else value \<in> rvalues r \<and> withinBounds value (gte r) (lte r))"

definition Requirement_Insert :: "requirement \<Rightarrow> string list \<Rightarrow> requirement" where
  "Requirement_Insert r items = r\<lparr>rvalues := rvalues r \<union> set items\<rparr>"

definition Requirement_Intersection :: "label_env \<Rightarrow> requirement \<Rightarrow> requirement \<Rightarrow> requirement" where
  "Requirement_Intersection E r requirement =
     (let compl = (complement r \<and> complement requirement);
          g = maxIntPtr (gte r) (gte requirement);
          l = minIntPtr (lte r) (lte requirement);
          mv = maxIntPtr (MinValues r) (MinValues requirement)
      in if (case (g, l) of (Some a, Some b) \<Rightarrow> a > b | _ \<Rightarrow> False)
         then DoesNotExist_requirement E (Key r) mv
         else
           (let vs = (if complement r \<and> complement requirement then rvalues r \<union> rvalues requirement
                      else if complement r \<and> \<not> complement requirement then rvalues requirement - rvalues r
                      else if \<not> complement r \<and> complement requirement then rvalues r - rvalues requirement
                      else rvalues r \<inter> rvalues requirement);
                kept = {v \<in> vs. withinBounds v g l}
            in \<lparr>Key = Key r, complement = compl, rvalues = kept,
                gte = (if compl then g else None), lte = (if compl then l else None),
                MinValues = mv\<rparr>))"

definition HasIntersection :: "requirement \<Rightarrow> requirement \<Rightarrow> bool" where
  "HasIntersection r requirement =
     (let g = maxIntPtr (gte r) (gte requirement);
          l = minIntPtr (lte r) (lte requirement)
      in if (case (g, l) of (Some a, Some b) \<Rightarrow> a > b | _ \<Rightarrow> False) then False
         else if complement r \<and> complement requirement then True
         else if complement r \<and> \<not> complement requirement then
           (\<exists>v \<in> rvalues requirement. v \<notin> rvalues r \<and> withinBounds v g l)
         else if \<not> complement r \<and> complement requirement then
           (\<exists>v \<in> rvalues r. v \<notin> rvalues requirement \<and> withinBounds v g l)
         else (\<exists>v \<in> rvalues r. v \<in> rvalues requirement \<and> withinBounds v g l))"

definition boundsAreContained :: "requirement \<Rightarrow> requirement \<Rightarrow> bool" where
  "boundsAreContained inner outer =
     (if (case gte outer of None \<Rightarrow> False
          | Some b \<Rightarrow> (case gte inner of None \<Rightarrow> True | Some a \<Rightarrow> a < b)) then False
      else if (case lte outer of None \<Rightarrow> False
          | Some b \<Rightarrow> (case lte inner of None \<Rightarrow> True | Some a \<Rightarrow> a > b)) then False
      else True)"

definition SubsetOf :: "requirement \<Rightarrow> requirement \<Rightarrow> bool" where
  "SubsetOf r requirement =
     (if Requirement_Operator r = OpDoesNotExist then Requirement_Operator requirement = OpDoesNotExist
      else if \<not> complement r then (\<forall>v \<in> rvalues r. Requirement_Has requirement v)
      else if \<not> complement requirement then False
      else if \<not> boundsAreContained r requirement then False
      else (\<forall>v \<in> rvalues requirement. \<not> Requirement_Has r v))"

text \<open>
  \<^verbatim>\<open>Any\<close> draws a value: the first element of the unordered list of a set (\<open>pick\<close>) or a random
  integer below a bound (\<open>intn\<close>, the behaviour of \<^verbatim>\<open>rand.Intn\<close>). None is the panic of
  \<^verbatim>\<open>rand.Intn\<close> on a bound that is not positive.
\<close>

definition Requirement_Any ::
  "(string set \<Rightarrow> string) \<Rightarrow> (int \<Rightarrow> int) \<Rightarrow> requirement \<Rightarrow> string option" where
  "Requirement_Any pick intn r =
     (case Requirement_Operator r of
        OpIn \<Rightarrow> Some (pick (rvalues r))
      | OpNotIn \<Rightarrow>
          (let mn = (case gte r of None \<Rightarrow> 0 | Some a \<Rightarrow> a);
               mx = (case lte r of None \<Rightarrow> MaxInt64 | Some b \<Rightarrow> wrap64 (b + 1));
               d = wrap64 (mx - mn)
           in if d \<le> 0 then None else Some (FormatInt (wrap64 (intn d + mn))))
      | OpExists \<Rightarrow>
          (let mn = (case gte r of None \<Rightarrow> 0 | Some a \<Rightarrow> a);
               mx = (case lte r of None \<Rightarrow> MaxInt64 | Some b \<Rightarrow> wrap64 (b + 1));
               d = wrap64 (mx - mn)
           in if d \<le> 0 then None else Some (FormatInt (wrap64 (intn d + mn))))
      | _ \<Rightarrow> Some [])"

text \<open>The way back to the API's form. None is the nil dereference when a bound is missing.\<close>

definition BoundedNodeSelectorRequirements :: "requirement \<Rightarrow> NodeSelectorRequirement list option" where
  "BoundedNodeSelectorRequirements r =
     (case (gte r, lte r) of
        (Some a, Some b) \<Rightarrow>
          Some [\<lparr>nsKey = Key r, nsOperator = OpGte, nsValues = [FormatInt a], nsMinValues = MinValues r\<rparr>,
                \<lparr>nsKey = Key r, nsOperator = OpLte, nsValues = [FormatInt b], nsMinValues = MinValues r\<rparr>]
      | _ \<Rightarrow> None)"

definition toNodeSelectorRequirement :: "requirement \<Rightarrow> NodeSelectorRequirement" where
  "toNodeSelectorRequirement r =
     (case gte r of
        Some a \<Rightarrow> \<lparr>nsKey = Key r, nsOperator = OpGte, nsValues = [FormatInt a], nsMinValues = MinValues r\<rparr>
      | None \<Rightarrow>
          (case lte r of
             Some b \<Rightarrow> \<lparr>nsKey = Key r, nsOperator = OpLte, nsValues = [FormatInt b], nsMinValues = MinValues r\<rparr>
           | None \<Rightarrow>
               if complement r then
                 (if card (rvalues r) > 0
                  then \<lparr>nsKey = Key r, nsOperator = OpNotIn, nsValues = sorted_list_of_set (rvalues r),
                        nsMinValues = MinValues r\<rparr>
                  else \<lparr>nsKey = Key r, nsOperator = OpExists, nsValues = [], nsMinValues = MinValues r\<rparr>)
               else
                 (if card (rvalues r) > 0
                  then \<lparr>nsKey = Key r, nsOperator = OpIn, nsValues = sorted_list_of_set (rvalues r),
                        nsMinValues = MinValues r\<rparr>
                  else \<lparr>nsKey = Key r, nsOperator = OpDoesNotExist, nsValues = [], nsMinValues = MinValues r\<rparr>)))"

section \<open>The interface the requirement maps rely on\<close>

text \<open>
  A type of constraints with a membership test and a meet. Everything the maps of requirements
  need to know about a single requirement is the one law.
\<close>

locale constraint_meet =
  fixes has :: "'r \<Rightarrow> 'v \<Rightarrow> bool"
    and meet :: "'r \<Rightarrow> 'r \<Rightarrow> 'r"
  assumes has_meet: "has (meet a b) v \<longleftrightarrow> has a v \<and> has b v"
begin

lemma has_meet_comm: "has (meet a b) v \<longleftrightarrow> has (meet b a) v"
  by (auto simp: has_meet)

lemma has_meet_assoc: "has (meet (meet a b) c) v \<longleftrightarrow> has (meet a (meet b c)) v"
  by (simp add: has_meet)

lemma has_meet_idem: "has (meet a a) v \<longleftrightarrow> has a v"
  by (simp add: has_meet)

lemma has_fold_meet: "has (fold (\<lambda>r acc. meet r acc) rs a) v \<longleftrightarrow> has a v \<and> (\<forall>r \<in> set rs. has r v)"
  by (induction rs arbitrary: a) (auto simp: has_meet)

end

section \<open>Lemmas on bounds\<close>

lemma withinBounds_iff:
  "withinBounds v g l \<longleftrightarrow>
     g = None \<and> l = None \<or>
     (\<exists>n. atoi v = Some n \<and> (\<forall>a. g = Some a \<longrightarrow> a \<le> n) \<and> (\<forall>b. l = Some b \<longrightarrow> n \<le> b))"
  by (cases "Atoi v"; cases "snd (Atoi v)"; cases g; cases l)
    (auto simp: withinBounds_def atoi_def)

lemma withinBounds_None [simp]: "withinBounds v None None"
  by (simp add: withinBounds_def)

lemma withinBounds_meet:
  "withinBounds v (maxIntPtr g g') (minIntPtr l l') \<longleftrightarrow> withinBounds v g l \<and> withinBounds v g' l'"
  by (cases g; cases g'; cases l; cases l')
    (auto simp: withinBounds_iff maxIntPtr_def minIntPtr_def)

lemma withinBounds_contradiction: "a > b \<Longrightarrow> \<not> withinBounds v (Some a) (Some b)"
  by (auto simp: withinBounds_iff)

lemma Intersection_bounds_conflict:
  assumes "case (maxIntPtr g g', minIntPtr l l') of (Some a, Some b) \<Rightarrow> a > b | _ \<Rightarrow> False"
  shows "\<not> (withinBounds v g l \<and> withinBounds v g' l')"
  using assms withinBounds_contradiction
  by (auto simp: withinBounds_meet[symmetric] split: option.splits)

lemma Has_iff:
  "Requirement_Has r v \<longleftrightarrow> (v \<in> rvalues r) \<noteq> complement r \<and> withinBounds v (gte r) (lte r)"
  by (auto simp: Requirement_Has_def)

section \<open>Intersection\<close>

lemma Has_DoesNotExist [simp]: "\<not> Requirement_Has (DoesNotExist_requirement E k m) v"
  by (simp add: Requirement_Has_def DoesNotExist_requirement_def)

lemma Has_Intersection:
  "Requirement_Has (Requirement_Intersection E r s) v \<longleftrightarrow> Requirement_Has r v \<and> Requirement_Has s v"
proof (cases "case (maxIntPtr (gte r) (gte s), minIntPtr (lte r) (lte s)) of
                (Some a, Some b) \<Rightarrow> a > b | _ \<Rightarrow> False")
  case True
  with Intersection_bounds_conflict[OF True, of v] show ?thesis
    by (auto simp: Requirement_Intersection_def Let_def Has_iff[of r] Has_iff[of s])
next
  case False
  then show ?thesis
    by (cases "complement r"; cases "complement s")
      (auto simp: Requirement_Intersection_def Let_def Has_iff withinBounds_meet)
qed

interpretation req: constraint_meet Requirement_Has "Requirement_Intersection E" for E
  by unfold_locales (rule Has_Intersection)

lemma Key_Intersection:
  "normalize_key E (Key r) = Key r \<Longrightarrow> Key (Requirement_Intersection E r s) = Key r"
  by (simp add: Requirement_Intersection_def DoesNotExist_requirement_def Let_def)

section \<open>Well-formed requirements\<close>

text \<open>
  The shape every requirement built by the constructor and by intersections has: finitely many
  values, bounds that are machine integers and not contradictory, and no bounds beside a concrete
  set of values.
\<close>

definition wf_requirement :: "requirement \<Rightarrow> bool" where
  "wf_requirement r \<longleftrightarrow>
     finite (rvalues r) \<and>
     (\<forall>a. gte r = Some a \<longrightarrow> in_int64 a) \<and> (\<forall>b. lte r = Some b \<longrightarrow> in_int64 b) \<and>
     (\<forall>a b. gte r = Some a \<longrightarrow> lte r = Some b \<longrightarrow> a \<le> b) \<and>
     (\<not> complement r \<longrightarrow> gte r = None \<and> lte r = None)"

lemma wf_requirement_finite [simp]: "wf_requirement r \<Longrightarrow> finite (rvalues r)"
  by (simp add: wf_requirement_def)

lemma wf_DoesNotExist [wf_intros]: "wf_requirement (DoesNotExist_requirement E k m)"
  by (simp add: wf_requirement_def DoesNotExist_requirement_def)

lemma wf_NewRequirementWithFlexibility [wf_intros]:
  assumes "NewRequirementWithFlexibility E k op m vs = Some r"
  shows "wf_requirement r"
proof (cases "op \<in> {OpGt, OpLt, OpGte, OpLte}")
  case True
  with assms obtain v vs' where "normalize_values E (normalize_key E k) vs = v # vs'"
    by (auto simp: NewRequirementWithFlexibility_def Let_def split: list.splits)
  with assms True show ?thesis
    by (auto simp: NewRequirementWithFlexibility_def Let_def wf_requirement_def
        DoesNotExist_requirement_def split: if_splits)
next
  case False
  with assms show ?thesis
    by (auto simp: NewRequirementWithFlexibility_def Let_def wf_requirement_def)
qed

lemma NewRequirement_keeps_key:
  "NewRequirementWithFlexibility E k op m vs = Some r \<Longrightarrow> wf_label_env E \<Longrightarrow> Key r = normalize_key E k"
  by (auto simp: NewRequirementWithFlexibility_def Let_def DoesNotExist_requirement_def
      split: if_splits list.splits)

lemma maxIntPtr_cases: "maxIntPtr a b = Some x \<Longrightarrow> a = Some x \<or> b = Some x"
  by (auto simp: maxIntPtr_def split: option.splits if_splits)

lemma minIntPtr_cases: "minIntPtr a b = Some x \<Longrightarrow> a = Some x \<or> b = Some x"
  by (auto simp: minIntPtr_def split: option.splits if_splits)

lemma Intersection_no_conflict:
  assumes "\<not> (case (maxIntPtr (gte r) (gte s), minIntPtr (lte r) (lte s)) of
                (Some a, Some b) \<Rightarrow> a > b | _ \<Rightarrow> False)"
  shows "gte (Requirement_Intersection E r s) =
           (if complement r \<and> complement s then maxIntPtr (gte r) (gte s) else None)"
    and "lte (Requirement_Intersection E r s) =
           (if complement r \<and> complement s then minIntPtr (lte r) (lte s) else None)"
    and "complement (Requirement_Intersection E r s) \<longleftrightarrow> complement r \<and> complement s"
    and "rvalues (Requirement_Intersection E r s) \<subseteq> rvalues r \<union> rvalues s"
  using assms unfolding Requirement_Intersection_def Let_def by (simp_all, auto)

lemma wf_Intersection [wf_intros]:
  assumes "wf_requirement r" "wf_requirement s"
  shows "wf_requirement (Requirement_Intersection E r s)"
proof (cases "case (maxIntPtr (gte r) (gte s), minIntPtr (lte r) (lte s)) of
                (Some a, Some b) \<Rightarrow> a > b | _ \<Rightarrow> False")
  case True
  then show ?thesis by (simp add: Requirement_Intersection_def Let_def wf_DoesNotExist)
next
  case False
  note parts = Intersection_no_conflict[OF False, of E]
  have g: "in_int64 x" if "maxIntPtr (gte r) (gte s) = Some x" for x
    using maxIntPtr_cases[OF that] assms by (auto simp: wf_requirement_def)
  have l: "in_int64 x" if "minIntPtr (lte r) (lte s) = Some x" for x
    using minIntPtr_cases[OF that] assms by (auto simp: wf_requirement_def)
  have ord: "a \<le> b" if "maxIntPtr (gte r) (gte s) = Some a" "minIntPtr (lte r) (lte s) = Some b" for a b
    using False that by simp
  have "finite (rvalues (Requirement_Intersection E r s))"
    using parts(4) by (rule finite_subset) (use assms in simp)
  then show ?thesis
    unfolding wf_requirement_def parts(1-3) using g l ord by simp
qed

text \<open>A complement requirement with satisfiable bounds allows infinitely many values.\<close>

lemma wf_bounds_value:
  assumes "wf_requirement r" "complement r" "finite S"
  obtains v where "Requirement_Has r v" "v \<notin> S"
proof -
  obtain n where n: "in_int64 n" "\<forall>a. gte r = Some a \<longrightarrow> a \<le> n" "\<forall>b. lte r = Some b \<longrightarrow> n \<le> b"
  proof (cases "gte r")
    case None
    show ?thesis
    proof (cases "lte r")
      case None
      with \<open>gte r = None\<close> show ?thesis by (intro that[of 0]) (auto simp: in_int64_def int_bounds)
    next
      case (Some b)
      with \<open>gte r = None\<close> assms(1) show ?thesis by (intro that[of b]) (auto simp: wf_requirement_def)
    qed
  next
    case (Some a)
    with assms(1) show ?thesis by (intro that[of a]) (auto simp: wf_requirement_def)
  qed
  have "finite (S \<union> rvalues r)" using assms(1,3) by simp
  with n(1) obtain v where "atoi v = Some n" "v \<notin> S \<union> rvalues r"
    by (rule spelling_avoiding)
  with n assms(2) have "Requirement_Has r v" by (auto simp: Has_iff withinBounds_iff)
  with \<open>v \<notin> S \<union> rvalues r\<close> show ?thesis using that by blast
qed

lemma HasIntersection_Has:
  assumes "wf_requirement r" "wf_requirement s"
  shows "HasIntersection r s \<longleftrightarrow> (\<exists>v. Requirement_Has r v \<and> Requirement_Has s v)"
proof (cases "case (maxIntPtr (gte r) (gte s), minIntPtr (lte r) (lte s)) of
                (Some a, Some b) \<Rightarrow> a > b | _ \<Rightarrow> False")
  case True
  with Intersection_bounds_conflict[OF True] show ?thesis
    by (auto simp: HasIntersection_def Let_def Has_iff)
next
  case False
  show ?thesis
  proof (cases "complement r \<and> complement s")
    case True
    with False have "HasIntersection r s" by (simp add: HasIntersection_def Let_def)
    moreover have "wf_requirement (Requirement_Intersection core_labels r s)"
      using assms by (rule wf_Intersection)
    moreover have "complement (Requirement_Intersection core_labels r s)"
      using True False by (simp add: Requirement_Intersection_def Let_def)
    ultimately show ?thesis
      using wf_bounds_value[of "Requirement_Intersection core_labels r s" "{}"] Has_Intersection
      by (metis finite.emptyI)
  next
    case False': False
    with False show ?thesis
      by (auto simp: HasIntersection_def Let_def Has_iff withinBounds_meet)
  qed
qed

lemma HasIntersection_sym: "HasIntersection r s \<longleftrightarrow> HasIntersection s r"
proof -
  have mx: "maxIntPtr a b = maxIntPtr b a" and mn: "minIntPtr a b = minIntPtr b a" for a b
    by (auto simp: maxIntPtr_def minIntPtr_def split: option.splits)
  show ?thesis
    by (auto simp: HasIntersection_def Let_def mx[of "gte s"] mn[of "lte s"])
qed

section \<open>Inclusion\<close>

lemma Operator_eq:
  "wf_requirement r \<Longrightarrow>
     Requirement_Operator r =
       (if complement r then (if rvalues r = {} then OpExists else OpNotIn)
        else if rvalues r = {} then OpDoesNotExist else OpIn)"
  using card_gt_0_iff[of "rvalues r"]
  by (simp add: Requirement_Operator_def Requirement_Len_def)

lemma Operator_DoesNotExist_iff:
  "wf_requirement r \<Longrightarrow> Requirement_Operator r = OpDoesNotExist \<longleftrightarrow> \<not> complement r \<and> rvalues r = {}"
  by (simp add: Operator_eq)

lemma Operator_Exists_iff:
  "wf_requirement r \<Longrightarrow> Requirement_Operator r = OpExists \<longleftrightarrow> complement r \<and> rvalues r = {}"
  by (simp add: Operator_eq)

lemma Operator_In_iff:
  "wf_requirement r \<Longrightarrow> Requirement_Operator r = OpIn \<longleftrightarrow> \<not> complement r \<and> rvalues r \<noteq> {}"
  by (simp add: Operator_eq)

lemma Operator_NotIn_iff:
  "wf_requirement r \<Longrightarrow> Requirement_Operator r = OpNotIn \<longleftrightarrow> complement r \<and> rvalues r \<noteq> {}"
  by (simp add: Operator_eq)

lemmas Operator_iffs = Operator_DoesNotExist_iff Operator_Exists_iff Operator_In_iff Operator_NotIn_iff

lemma boundsAreContained_within:
  assumes "boundsAreContained r s" "withinBounds v (gte r) (lte r)"
  shows "withinBounds v (gte s) (lte s)"
  using assms
  by (cases "gte r"; cases "lte r"; cases "gte s"; cases "lte s")
    (auto simp: boundsAreContained_def withinBounds_iff split: if_splits)

lemma SubsetOf_sound:
  assumes "SubsetOf r s" "wf_requirement r" "Requirement_Has r v"
  shows "Requirement_Has s v"
proof (cases "complement r")
  case True
  with assms(1,2) have "complement s" "boundsAreContained r s"
    "\<forall>v \<in> rvalues s. \<not> Requirement_Has r v"
    by (auto simp: SubsetOf_def Operator_iffs split: if_splits)
  with assms(3) boundsAreContained_within show ?thesis by (auto simp: Has_iff[of s] Has_iff[of r])
next
  case False
  with assms show ?thesis
    by (auto simp: SubsetOf_def Operator_iffs Has_iff[of r] split: if_splits)
qed

text \<open>
  Where the bounds of the outer requirement are not met by construction of machine integers, the
  bounds test is exact: a value between the bounds of the inner requirement escapes the outer one.
\<close>

lemma bounds_escape:
  assumes "wf_requirement r" "complement r" "wf_requirement s" "complement s"
    and "gte s \<noteq> Some MinInt64" "lte s \<noteq> Some MaxInt64" "\<not> boundsAreContained r s"
  shows "\<exists>v. Requirement_Has r v \<and> \<not> Requirement_Has s v"
proof -
  have escape: ?thesis
    if n: "in_int64 n" "\<forall>a. gte r = Some a \<longrightarrow> a \<le> n" "\<forall>b. lte r = Some b \<longrightarrow> n \<le> b"
      "(\<exists>a. gte s = Some a \<and> n < a) \<or> (\<exists>b. lte s = Some b \<and> b < n)" for n
  proof -
    obtain v where v: "atoi v = Some n" "v \<notin> rvalues r"
      using spelling_avoiding[OF n(1), of "rvalues r"] assms(1) by auto
    with n(2,3) assms(2) have "Requirement_Has r v" by (auto simp: Has_iff withinBounds_iff)
    moreover have "\<not> Requirement_Has s v" using v n(4) by (auto simp: Has_iff withinBounds_iff)
    ultimately show ?thesis by blast
  qed
  from assms(7) consider
    (low) b where "gte s = Some b" "case gte r of None \<Rightarrow> True | Some a \<Rightarrow> a < b"
  | (high) b where "lte s = Some b" "case lte r of None \<Rightarrow> True | Some a \<Rightarrow> a > b"
    by (auto simp: boundsAreContained_def split: option.splits if_splits)
  then show ?thesis
  proof cases
    case low
    with assms(3,5) have b: "in_int64 b" "MinInt64 < b"
      by (auto simp: wf_requirement_def in_int64_def order.order_iff_strict)
    show ?thesis
    proof (cases "gte r")
      case (Some a)
      with low assms(1) show ?thesis by (intro escape[of a]) (auto simp: wf_requirement_def)
    next
      case None
      define n where "n = (case lte r of None \<Rightarrow> b - 1 | Some c \<Rightarrow> min c (b - 1))"
      have "in_int64 n" using b assms(1)
        by (auto simp: n_def in_int64_def wf_requirement_def split: option.splits)
      moreover have "n < b" "\<forall>c. lte r = Some c \<longrightarrow> n \<le> c" by (auto simp: n_def split: option.splits)
      ultimately show ?thesis using None low by (intro escape[of n]) auto
    qed
  next
    case high
    with assms(3,6) have b: "in_int64 b" "b < MaxInt64"
      by (auto simp: wf_requirement_def in_int64_def order.order_iff_strict)
    show ?thesis
    proof (cases "lte r")
      case (Some a)
      with high assms(1) show ?thesis by (intro escape[of a]) (auto simp: wf_requirement_def)
    next
      case None
      define n where "n = (case gte r of None \<Rightarrow> b + 1 | Some c \<Rightarrow> max c (b + 1))"
      have "in_int64 n" using b assms(1)
        by (auto simp: n_def in_int64_def wf_requirement_def split: option.splits)
      moreover have "b < n" "\<forall>c. gte r = Some c \<longrightarrow> c \<le> n" by (auto simp: n_def split: option.splits)
      ultimately show ?thesis using None high by (intro escape[of n]) auto
    qed
  qed
qed

lemma SubsetOf_complete:
  assumes "wf_requirement r" "wf_requirement s" "Requirement_Operator r \<noteq> OpDoesNotExist"
    and "gte s \<noteq> Some MinInt64" "lte s \<noteq> Some MaxInt64"
    and "\<forall>v. Requirement_Has r v \<longrightarrow> Requirement_Has s v"
  shows "SubsetOf r s"
proof (cases "complement r")
  case False
  with assms show ?thesis by (auto simp: SubsetOf_def Has_iff[of r] wf_requirement_def)
next
  case True
  have "complement s"
  proof (rule ccontr)
    assume "\<not> complement s"
    obtain v where "Requirement_Has r v" "v \<notin> rvalues s"
      using wf_bounds_value[OF assms(1) True, of "rvalues s"] assms(2) by auto
    with assms(6) \<open>\<not> complement s\<close> show False by (auto simp: Has_iff)
  qed
  moreover have "boundsAreContained r s"
    using bounds_escape[OF assms(1) True assms(2) \<open>complement s\<close> assms(4,5)] assms(6) by blast
  moreover have "\<forall>v \<in> rvalues s. \<not> Requirement_Has r v"
    using assms(6) \<open>complement s\<close> by (auto simp: Has_iff[of s])
  ultimately show ?thesis using True assms(3) by (simp add: SubsetOf_def)
qed

section \<open>The constructor\<close>

lemma normalize_values_none [simp]: "NormalizedLabelValues E = [] \<Longrightarrow> normalize_values E k vs = vs"
  by (simp add: normalize_values_def)

lemma NewRequirement_In:
  "NewRequirementWithFlexibility E k OpIn m vs =
     Some \<lparr>Key = normalize_key E k, complement = False,
           rvalues = set (normalize_values E (normalize_key E k) vs),
           gte = None, lte = None, MinValues = m\<rparr>"
  by (simp add: NewRequirementWithFlexibility_def Let_def)

lemma NewRequirement_NotIn:
  "NewRequirementWithFlexibility E k OpNotIn m vs =
     Some \<lparr>Key = normalize_key E k, complement = True,
           rvalues = set (normalize_values E (normalize_key E k) vs),
           gte = None, lte = None, MinValues = m\<rparr>"
  by (simp add: NewRequirementWithFlexibility_def Let_def)

lemma NewRequirement_Exists:
  "NewRequirementWithFlexibility E k OpExists m vs =
     Some \<lparr>Key = normalize_key E k, complement = True, rvalues = {}, gte = None, lte = None,
           MinValues = m\<rparr>"
  by (simp add: NewRequirementWithFlexibility_def Let_def)

lemma NewRequirement_DoesNotExist:
  "NewRequirementWithFlexibility E k OpDoesNotExist m vs = Some (DoesNotExist_requirement E k m)"
  by (simp add: NewRequirementWithFlexibility_def Let_def DoesNotExist_requirement_def)

lemma NewRequirement_bound:
  assumes "normalize_values E (normalize_key E k) vs = v # vs'"
  shows "NewRequirementWithFlexibility E k OpGte m vs =
           Some \<lparr>Key = normalize_key E k, complement = True, rvalues = {},
                 gte = Some (fst (Atoi v)), lte = None, MinValues = m\<rparr>"
    and "NewRequirementWithFlexibility E k OpLte m vs =
           Some \<lparr>Key = normalize_key E k, complement = True, rvalues = {},
                 gte = None, lte = Some (fst (Atoi v)), MinValues = m\<rparr>"
    and "NewRequirementWithFlexibility E k OpLt m vs =
           Some \<lparr>Key = normalize_key E k, complement = True, rvalues = {},
                 gte = None, lte = Some (wrap64 (fst (Atoi v) - 1)), MinValues = m\<rparr>"
    and "NewRequirementWithFlexibility E k OpGt m vs =
           (if fst (Atoi v) = MaxInt64 then Some (DoesNotExist_requirement E (normalize_key E k) None)
            else Some \<lparr>Key = normalize_key E k, complement = True, rvalues = {},
                 gte = Some (wrap64 (fst (Atoi v) + 1)), lte = None, MinValues = m\<rparr>)"
  using assms by (simp_all add: NewRequirementWithFlexibility_def Let_def)

lemmas NewRequirement_simps =
  NewRequirement_In NewRequirement_NotIn NewRequirement_Exists NewRequirement_DoesNotExist
  NewRequirement_bound

text \<open>What the Kubernetes API says a node selector expression accepts, on the label's value.\<close>

definition expression_accepts :: "operator \<Rightarrow> string list \<Rightarrow> string \<Rightarrow> bool" where
  "expression_accepts op vs x =
     (case op of
        OpIn \<Rightarrow> x \<in> set vs
      | OpNotIn \<Rightarrow> x \<notin> set vs
      | OpExists \<Rightarrow> True
      | OpDoesNotExist \<Rightarrow> False
      | OpGt \<Rightarrow> (\<exists>n a. atoi x = Some n \<and> atoi (hd vs) = Some a \<and> n > a)
      | OpLt \<Rightarrow> (\<exists>n a. atoi x = Some n \<and> atoi (hd vs) = Some a \<and> n < a)
      | OpGte \<Rightarrow> (\<exists>n a. atoi x = Some n \<and> atoi (hd vs) = Some a \<and> n \<ge> a)
      | OpLte \<Rightarrow> (\<exists>n a. atoi x = Some n \<and> atoi (hd vs) = Some a \<and> n \<le> a)
      | OpOther _ \<Rightarrow> True)"

lemma Atoi_in_int64_D: "Atoi v = (n, e) \<Longrightarrow> in_int64 n"
  using Atoi_in_int64[of v] by simp

lemma constructor_accepts_bound:
  assumes "Atoi v = (a, None)" "op \<in> {OpGt, OpLt, OpGte, OpLte}"
    and "op = OpLt \<Longrightarrow> a \<noteq> MinInt64" "NormalizedLabelValues E = []"
  shows "\<exists>r. NewRequirementWithFlexibility E k op m [v] = Some r \<and>
           (\<forall>x. Requirement_Has r x \<longleftrightarrow> expression_accepts op [v] x)"
proof -
  have a: "in_int64 a" "atoi v = Some a" using assms(1) by (auto simp: atoi_def dest: Atoi_in_int64_D)
  have up: "wrap64 (a + 1) = a + 1" if "a \<noteq> MaxInt64"
    using that a by (intro wrap64_id) (auto simp: in_int64_def)
  have down: "wrap64 (a - 1) = a - 1" if "a \<noteq> MinInt64"
    using that a by (intro wrap64_id) (auto simp: in_int64_def)
  have top: "\<not> n > MaxInt64" if "atoi x = Some n" for x n
    using atoi_in_int64[OF that] by (simp add: in_int64_def)
  note defs = NewRequirement_bound Has_iff withinBounds_iff expression_accepts_def
    DoesNotExist_requirement_def assms(1,4) a(2)
  consider "op = OpGt" "a = MaxInt64" | "op = OpGt" "a \<noteq> MaxInt64" | "op = OpLt" | "op = OpGte" | "op = OpLte"
    using assms(2) by blast
  then show ?thesis
  proof cases
    case 1
    then show ?thesis using top by (auto simp: defs)
  next
    case 2
    then show ?thesis using up by (auto simp: defs)
  next
    case 3
    then show ?thesis using down assms(3) by (auto simp: defs)
  next
    case 4
    then show ?thesis by (auto simp: defs)
  next
    case 5
    then show ?thesis by (auto simp: defs)
  qed
qed

section \<open>Properties\<close>

text \<open>
  C18. The intersection of two requirements accepts exactly the values both accept, it is again well
  formed, and the cheaper \<^verbatim>\<open>HasIntersection\<close>, which builds no set, answers whether that intersection
  accepts any value at all.
\<close>

theorem Intersection_exact:
  assumes "wf_requirement r" "wf_requirement s"
  shows "wf_requirement (Requirement_Intersection E r s) \<and>
     (\<forall>v. Requirement_Has (Requirement_Intersection E r s) v \<longleftrightarrow>
            Requirement_Has r v \<and> Requirement_Has s v) \<and>
     (HasIntersection r s \<longleftrightarrow> (\<exists>v. Requirement_Has (Requirement_Intersection E r s) v))"
  using wf_Intersection[OF assms] HasIntersection_Has[OF assms] by (simp add: Has_Intersection)

definition zone_ab :: requirement where
  "zone_ab = \<lparr>Key = ''zone'', complement = False, rvalues = {''a'', ''b''}, gte = None, lte = None,
              MinValues = None\<rparr>"

definition zone_not_b :: requirement where
  "zone_not_b = \<lparr>Key = ''zone'', complement = True, rvalues = {''b''}, gte = None, lte = None,
                 MinValues = None\<rparr>"

theorem Intersection_exact_witness:
  "wf_requirement zone_ab \<and> wf_requirement zone_not_b \<and>
   Requirement_Has (Requirement_Intersection core_labels zone_ab zone_not_b) ''a'' \<and>
   \<not> Requirement_Has (Requirement_Intersection core_labels zone_ab zone_not_b) ''b'' \<and>
   HasIntersection zone_ab zone_not_b"
proof -
  have "wf_requirement zone_ab" "wf_requirement zone_not_b"
    by (simp_all add: wf_requirement_def zone_ab_def zone_not_b_def)
  with Intersection_exact[OF this, of core_labels] show ?thesis
    by (auto simp: Requirement_Has_def zone_ab_def zone_not_b_def)
qed


definition cpu_gte_4 :: requirement where
  "cpu_gte_4 = \<lparr>Key = ''cpu'', complement = True, rvalues = {''5''}, gte = Some 4, lte = None,
                MinValues = None\<rparr>"

definition cpu_gte_2 :: requirement where
  "cpu_gte_2 = \<lparr>Key = ''cpu'', complement = True, rvalues = {''3''}, gte = Some 2, lte = None,
                MinValues = None\<rparr>"


end
