(* ===== verification/Requirements.thy ===== *)
theory Requirements
  imports Requirement Kube
begin

text \<open>
  \<^verbatim>\<open>pkg/scheduling/requirements.go\<close>: a map from label keys to requirements, built from pods, labels and
  node selector expressions, and the compatibility test the scheduler runs between a pod and a node.

  A key that is absent from the map puts no constraint on the label: \<open>Requirements_Get\<close>
  answers with the requirement that accepts every value. Errors are the list of what
  \<^verbatim>\<open>multierr\<close> collects; the nil error is the empty list.
\<close>

section \<open>The map and its operations\<close>

type_synonym requirements = "(string, requirement) gomap"

definition Requirements_Add1 :: "label_env \<Rightarrow> requirements \<Rightarrow> requirement \<Rightarrow> requirements" where
  "Requirements_Add1 E rs requirement =
     (let r = (case map_of rs (Key requirement) of
                 Some existing \<Rightarrow> Requirement_Intersection E requirement existing
               | None \<Rightarrow> requirement)
      in mput (Key r) r rs)"

definition Requirements_Add :: "label_env \<Rightarrow> requirements \<Rightarrow> requirement list \<Rightarrow> requirements" where
  "Requirements_Add E rs reqs = foldl (Requirements_Add1 E) rs reqs"

definition NewRequirements :: "label_env \<Rightarrow> requirement list \<Rightarrow> requirements" where
  "NewRequirements E reqs = Requirements_Add E [] reqs"

text \<open>The two loops over selector expressions; None is the constructor's panic.\<close>

fun add_expressions :: "label_env \<Rightarrow> requirements \<Rightarrow> NodeSelectorRequirement list \<Rightarrow> requirements option" where
  "add_expressions E rs [] = Some rs"
| "add_expressions E rs (n # ns) =
     (case NewRequirementWithFlexibility E (nsKey n) (nsOperator n) (nsMinValues n) (nsValues n) of
        None \<Rightarrow> None
      | Some r \<Rightarrow> add_expressions E (Requirements_Add E rs [r]) ns)"

definition NewNodeSelectorRequirementsWithMinValues ::
  "label_env \<Rightarrow> NodeSelectorRequirement list \<Rightarrow> requirements option" where
  "NewNodeSelectorRequirementsWithMinValues E ns = add_expressions E (NewRequirements E []) ns"

definition NewNodeSelectorRequirements ::
  "label_env \<Rightarrow> NodeSelectorRequirement list \<Rightarrow> requirements option" where
  "NewNodeSelectorRequirements E ns =
     add_expressions E (NewRequirements E []) (map (\<lambda>n. n\<lparr>nsMinValues := None\<rparr>) ns)"

definition NewLabelRequirements :: "label_env \<Rightarrow> (string, string) gomap \<Rightarrow> requirements option" where
  "NewLabelRequirements E labels =
     add_expressions E (NewRequirements E [])
       (map (\<lambda>(k, v). \<lparr>nsKey = k, nsOperator = OpIn, nsValues = [v], nsMinValues = None\<rparr>) labels)"

definition Requirements_Values :: "requirements \<Rightarrow> requirement list" where
  "Requirements_Values rs = map snd rs"

definition Requirements_Keys :: "requirements \<Rightarrow> string set" where
  "Requirements_Keys rs = set (map fst rs)"

definition Requirements_Has :: "requirements \<Rightarrow> string \<Rightarrow> bool" where
  "Requirements_Has rs key \<longleftrightarrow> mhas rs key"

definition Exists_requirement :: "label_env \<Rightarrow> string \<Rightarrow> requirement" where
  "Exists_requirement E key =
     \<lparr>Key = normalize_key E key, complement = True, rvalues = {}, gte = None, lte = None, MinValues = None\<rparr>"

definition Requirements_Get :: "label_env \<Rightarrow> requirements \<Rightarrow> string \<Rightarrow> requirement" where
  "Requirements_Get E rs key =
     (case map_of rs key of None \<Rightarrow> Exists_requirement E key | Some r \<Rightarrow> r)"

section \<open>Requirements of a pod\<close>

datatype podRequirementType = podRequirementTypeAll | podRequirementTypeRequiredOnly

definition newPodRequirements ::
  "label_env \<Rightarrow> (PreferredSchedulingTerm list \<Rightarrow> PreferredSchedulingTerm list) \<Rightarrow> Pod \<Rightarrow>
   podRequirementType \<Rightarrow> requirements option" where
  "newPodRequirements E sortSlice pod typ =
     (case NewLabelRequirements E (podNodeSelector pod) of
        None \<Rightarrow> None
      | Some rs \<Rightarrow>
          (case podAffinities pod of
             None \<Rightarrow> Some rs
           | Some aff \<Rightarrow>
               (case nodeAffinity aff of
                  None \<Rightarrow> Some rs
                | Some na \<Rightarrow>
                    (case (if typ = podRequirementTypeAll \<and> naPreferred na \<noteq> []
                           then (case sortSlice (naPreferred na) of
                                   [] \<Rightarrow> None
                                 | t # _ \<Rightarrow>
                                     map_option (\<lambda>q. Requirements_Add E rs (Requirements_Values q))
                                       (NewNodeSelectorRequirements E (pstPreference t)))
                           else Some rs) of
                       None \<Rightarrow> None
                     | Some rs' \<Rightarrow>
                         (case naRequired na of
                            Some (term # _) \<Rightarrow>
                              map_option (\<lambda>q. Requirements_Add E rs' (Requirements_Values q))
                                (NewNodeSelectorRequirements E term)
                          | _ \<Rightarrow> Some rs')))))"

definition NewPodRequirements ::
  "label_env \<Rightarrow> (PreferredSchedulingTerm list \<Rightarrow> PreferredSchedulingTerm list) \<Rightarrow> Pod \<Rightarrow> requirements option" where
  "NewPodRequirements E sortSlice pod = newPodRequirements E sortSlice pod podRequirementTypeAll"

definition NewStrictPodRequirements ::
  "label_env \<Rightarrow> (PreferredSchedulingTerm list \<Rightarrow> PreferredSchedulingTerm list) \<Rightarrow> Pod \<Rightarrow> requirements option" where
  "NewStrictPodRequirements E sortSlice pod = newPodRequirements E sortSlice pod podRequirementTypeRequiredOnly"

definition HasPreferredNodeAffinity :: "Pod option \<Rightarrow> bool" where
  "HasPreferredNodeAffinity p =
     (case p of None \<Rightarrow> False
      | Some pod \<Rightarrow>
          (case podAffinities pod of None \<Rightarrow> False
           | Some aff \<Rightarrow> (case nodeAffinity aff of None \<Rightarrow> False | Some na \<Rightarrow> naPreferred na \<noteq> [])))"

section \<open>Serialisation\<close>

definition NodeSelectorRequirements :: "requirements \<Rightarrow> NodeSelectorRequirement list option" where
  "NodeSelectorRequirements rs =
     map_option concat
       (those (map (\<lambda>(_, req).
          if gte req \<noteq> None \<and> lte req \<noteq> None then BoundedNodeSelectorRequirements req
          else Some [toNodeSelectorRequirement req]) rs))"

section \<open>Compatibility\<close>

datatype compat_error =
    UndefinedLabel string "string option"
  | BadKey string requirement requirement

definition getSuffix :: "string \<Rightarrow> string" where
  "getSuffix key = (case cut_slash key of (_, Some after) \<Rightarrow> after | (before, None) \<Rightarrow> before)"

text \<open>The label a typo may have meant: the first of the allowed labels, then of the known keys, that
  contains the key or ends in its suffix.\<close>

definition labelHint :: "requirements \<Rightarrow> string \<Rightarrow> string list \<Rightarrow> string option" where
  "labelHint rs key allowedUndefined =
     (case find (\<lambda>wellKnown. sublist key wellKnown \<or> suffix (getSuffix key) wellKnown) allowedUndefined of
        Some w \<Rightarrow> Some w
      | None \<Rightarrow> find (\<lambda>existing. sublist key existing \<or> suffix (getSuffix key) existing) (map fst rs))"

definition intersectKeys :: "requirements \<Rightarrow> requirements \<Rightarrow> string list" where
  "intersectKeys r rhs =
     (if length r > length rhs then filter (\<lambda>k. mhas r k) (map fst rhs)
      else filter (\<lambda>k. mhas rhs k) (map fst r))"

definition Requirements_Intersects :: "label_env \<Rightarrow> requirements \<Rightarrow> requirements \<Rightarrow> compat_error list" where
  "Requirements_Intersects E r requirements =
     map (\<lambda>key. BadKey key (Requirements_Get E requirements key) (Requirements_Get E r key))
       (filter (\<lambda>key.
          let existing = Requirements_Get E r key; incoming = Requirements_Get E requirements key in
          \<not> HasIntersection existing incoming \<and>
          \<not> (Requirement_Operator incoming \<in> {OpNotIn, OpDoesNotExist} \<and>
             Requirement_Operator existing \<in> {OpNotIn, OpDoesNotExist}))
        (intersectKeys r requirements))"

definition Requirements_Compatible ::
  "label_env \<Rightarrow> string list \<Rightarrow> requirements \<Rightarrow> requirements \<Rightarrow> compat_error list" where
  "Requirements_Compatible E AllowUndefined r requirements =
     (case find (\<lambda>key.
              key \<notin> set AllowUndefined \<and>
              \<not> (Requirements_Has r key \<or>
                 Requirement_Operator (Requirements_Get E requirements key) \<in> {OpNotIn, OpDoesNotExist}))
            (map fst requirements) of
        Some key \<Rightarrow> [UndefinedLabel key (labelHint r key AllowUndefined)]
      | None \<Rightarrow> Requirements_Intersects E r requirements)"

definition IsCompatible :: "label_env \<Rightarrow> string list \<Rightarrow> requirements \<Rightarrow> requirements \<Rightarrow> bool" where
  "IsCompatible E AllowUndefined r requirements \<longleftrightarrow> Requirements_Compatible E AllowUndefined r requirements = []"

definition HasMinValues :: "requirements \<Rightarrow> bool" where
  "HasMinValues rs = list_ex (\<lambda>(_, req). MinValues req \<noteq> None) rs"

section \<open>Well-formed maps\<close>

definition wf_requirements :: "label_env \<Rightarrow> requirements \<Rightarrow> bool" where
  "wf_requirements E rs \<longleftrightarrow>
     wf_map rs \<and> (\<forall>k r. map_of rs k = Some r \<longrightarrow> Key r = k \<and> normalize_key E k = k \<and> wf_requirement r)"

lemma wf_requirementsD:
  assumes "wf_requirements E rs" "map_of rs k = Some r"
  shows "Key r = k" "normalize_key E k = k" "wf_requirement r"
  using assms by (simp_all add: wf_requirements_def)

lemma wf_requirements_map: "wf_requirements E rs \<Longrightarrow> wf_map rs"
  by (simp add: wf_requirements_def)

lemma Has_Exists [simp]: "Requirement_Has (Exists_requirement E k) v"
  by (simp add: Requirement_Has_def Exists_requirement_def)

lemma wf_Exists [simp, wf_intros]: "wf_requirement (Exists_requirement E k)"
  by (simp add: wf_requirement_def Exists_requirement_def)

lemma wf_Get [wf_intros]: "wf_requirements E rs \<Longrightarrow> wf_requirement (Requirements_Get E rs k)"
  by (auto simp: Requirements_Get_def dest: wf_requirementsD split: option.splits)

lemma Key_Add1:
  assumes "normalize_key E (Key r) = Key r"
  shows "Requirements_Add1 E rs r =
    mput (Key r) (case map_of rs (Key r) of
                    Some e \<Rightarrow> Requirement_Intersection E r e | None \<Rightarrow> r) rs"
  using assms by (auto simp: Requirements_Add1_def Key_Intersection split: option.splits)

lemma wf_Add1 [wf_intros]:
  assumes "wf_requirements E rs" "wf_requirement r" "normalize_key E (Key r) = Key r"
  shows "wf_requirements E (Requirements_Add1 E rs r)"
  using assms
  by (auto simp: wf_requirements_def Key_Add1 map_of_mput Key_Intersection
      intro: wf_map_mput wf_Intersection split: option.splits if_splits)

lemma Has_Get_Add1:
  assumes "normalize_key E (Key r) = Key r"
  shows "Requirement_Has (Requirements_Get E (Requirements_Add1 E rs r) k) v \<longleftrightarrow>
     Requirement_Has (Requirements_Get E rs k) v \<and> (Key r = k \<longrightarrow> Requirement_Has r v)"
  using assms
  by (auto simp: Requirements_Get_def Key_Add1 map_of_mput Has_Intersection split: option.splits)

text \<open>The requirements a caller may add: well formed, under a key that is not an alias.\<close>

definition addable :: "label_env \<Rightarrow> requirement list \<Rightarrow> bool" where
  "addable E reqs \<longleftrightarrow> (\<forall>r \<in> set reqs. wf_requirement r \<and> normalize_key E (Key r) = Key r)"

lemma wf_Add [wf_intros]:
  "wf_requirements E rs \<Longrightarrow> addable E reqs \<Longrightarrow> wf_requirements E (Requirements_Add E rs reqs)"
  unfolding Requirements_Add_def addable_def
  by (induction reqs arbitrary: rs) (auto intro: wf_Add1)

lemma wf_empty [simp, wf_intros]: "wf_requirements E []"
  by (simp add: wf_requirements_def)

lemma Has_Get_Add:
  "addable E reqs \<Longrightarrow>
   Requirement_Has (Requirements_Get E (Requirements_Add E rs reqs) k) v \<longleftrightarrow>
     Requirement_Has (Requirements_Get E rs k) v \<and> (\<forall>r \<in> set reqs. Key r = k \<longrightarrow> Requirement_Has r v)"
  unfolding Requirements_Add_def addable_def
  by (induction reqs arbitrary: rs) (auto simp: Has_Get_Add1)

lemma Get_empty [simp]: "Requirements_Get E [] k = Exists_requirement E k"
  by (simp add: Requirements_Get_def)

lemma Has_Get_New:
  "addable E reqs \<Longrightarrow>
   Requirement_Has (Requirements_Get E (NewRequirements E reqs) k) v \<longleftrightarrow>
     (\<forall>r \<in> set reqs. Key r = k \<longrightarrow> Requirement_Has r v)"
  by (simp add: NewRequirements_def Has_Get_Add)

lemma addable_Values [intro]: "wf_requirements E rs \<Longrightarrow> addable E (Requirements_Values rs)"
  by (fastforce simp: addable_def Requirements_Values_def wf_requirements_def map_of_in_set)

lemma Has_Get_Values:
  assumes "wf_requirements E rs"
  shows "(\<forall>r \<in> set (Requirements_Values rs). Key r = k \<longrightarrow> Requirement_Has r v) \<longleftrightarrow>
         Requirement_Has (Requirements_Get E rs k) v"
proof -
  have vals: "r \<in> set (Requirements_Values rs) \<and> Key r = k \<longleftrightarrow> map_of rs k = Some r" for r
  proof
    assume "r \<in> set (Requirements_Values rs) \<and> Key r = k"
    then obtain k' where "map_of rs k' = Some r" "Key r = k"
      using assms by (auto simp: Requirements_Values_def wf_requirements_def)
    with wf_requirementsD[OF assms] show "map_of rs k = Some r" by metis
  next
    assume "map_of rs k = Some r"
    then show "r \<in> set (Requirements_Values rs) \<and> Key r = k"
      using wf_requirementsD(1)[OF assms] by (force simp: Requirements_Values_def dest: map_of_SomeD)
  qed
  show ?thesis
  proof (cases "map_of rs k")
    case None
    then have "\<not> (\<exists>r \<in> set (Requirements_Values rs). Key r = k)" using vals by auto
    then show ?thesis by (auto simp: Requirements_Get_def None)
  next
    case (Some q)
    then have "\<forall>r. r \<in> set (Requirements_Values rs) \<and> Key r = k \<longleftrightarrow> r = q" using vals by auto
    then show ?thesis by (auto simp: Requirements_Get_def Some)
  qed
qed

text \<open>Adding one map of requirements to another constrains every key by both.\<close>

lemma Has_Get_Add_Values:
  assumes "wf_requirements E qs"
  shows "Requirement_Has (Requirements_Get E (Requirements_Add E rs (Requirements_Values qs)) k) v \<longleftrightarrow>
     Requirement_Has (Requirements_Get E rs k) v \<and> Requirement_Has (Requirements_Get E qs k) v"
  using Has_Get_Add[OF addable_Values[OF assms]] Has_Get_Values[OF assms] by simp

section \<open>What compatibility means\<close>

text \<open>The operators that a node without the label satisfies.\<close>

definition absent_ok :: "requirement \<Rightarrow> bool" where
  "absent_ok r \<longleftrightarrow> Requirement_Operator r \<in> {OpNotIn, OpDoesNotExist}"

lemma intersectKeys_iff: "k \<in> set (intersectKeys r s) \<longleftrightarrow> mhas r k \<and> mhas s k"
  by (auto simp: intersectKeys_def dom_map_of_conv_image_fst[symmetric])

lemma both_defined:
  "(mhas rs k \<and> mhas qs k \<longrightarrow> P (Requirements_Get E rs k) (Requirements_Get E qs k)) \<longleftrightarrow>
   (\<forall>e q. map_of rs k = Some e \<longrightarrow> map_of qs k = Some q \<longrightarrow> P e q)"
  by (cases "map_of rs k"; cases "map_of qs k") (simp_all add: Requirements_Get_def)

lemma Intersects_Nil:
  assumes "wf_requirements E rs" "wf_requirements E qs"
  shows "Requirements_Intersects E rs qs = [] \<longleftrightarrow>
     (\<forall>k e q. map_of rs k = Some e \<longrightarrow> map_of qs k = Some q \<longrightarrow>
        (\<exists>v. Requirement_Has e v \<and> Requirement_Has q v) \<or> absent_ok e \<and> absent_ok q)"
proof -
  have meet: "HasIntersection e q \<longleftrightarrow> (\<exists>v. Requirement_Has e v \<and> Requirement_Has q v)"
    if "map_of rs k = Some e" "map_of qs k = Some q" for k e q
    using HasIntersection_Has wf_requirementsD(3)[OF assms(1) that(1)] wf_requirementsD(3)[OF assms(2) that(2)]
    by blast
  have "Requirements_Intersects E rs qs = [] \<longleftrightarrow>
     (\<forall>k. mhas rs k \<and> mhas qs k \<longrightarrow>
        HasIntersection (Requirements_Get E rs k) (Requirements_Get E qs k) \<or>
        absent_ok (Requirements_Get E rs k) \<and> absent_ok (Requirements_Get E qs k))"
    unfolding Requirements_Intersects_def Let_def map_is_Nil_conv filter_empty_conv absent_ok_def
    by (simp only: intersectKeys_iff[symmetric]) blast
  then have iff: "Requirements_Intersects E rs qs = [] \<longleftrightarrow>
     (\<forall>k e q. map_of rs k = Some e \<longrightarrow> map_of qs k = Some q \<longrightarrow>
        HasIntersection e q \<or> absent_ok e \<and> absent_ok q)"
    using both_defined[of rs _ qs "\<lambda>e q. HasIntersection e q \<or> absent_ok e \<and> absent_ok q" E] by presburger
  show ?thesis unfolding iff by (intro iff_allI imp_cong refl) (simp add: meet)
qed

lemma find_keys_None: "find P (map fst m) = None \<longleftrightarrow> (\<forall>k. mhas m k \<longrightarrow> \<not> P k)"
  by (auto simp: find_None_iff dom_map_of_conv_image_fst[symmetric])

lemma Compatible_Nil:
  assumes "wf_requirements E rs" "wf_requirements E qs"
  shows "Requirements_Compatible E allow rs qs = [] \<longleftrightarrow>
     (\<forall>k q. map_of qs k = Some q \<longrightarrow>
        (case map_of rs k of
           Some e \<Rightarrow> (\<exists>v. Requirement_Has e v \<and> Requirement_Has q v) \<or> absent_ok e \<and> absent_ok q
         | None \<Rightarrow> k \<in> set allow \<or> absent_ok q))"
proof -
  define bad where "bad = (\<lambda>key. key \<notin> set allow \<and>
    \<not> (Requirements_Has rs key \<or>
       Requirement_Operator (Requirements_Get E qs key) \<in> {OpNotIn, OpDoesNotExist}))"
  have split: "Requirements_Compatible E allow rs qs = [] \<longleftrightarrow>
     find bad (map fst qs) = None \<and> Requirements_Intersects E rs qs = []"
    by (simp add: Requirements_Compatible_def bad_def split: option.split)
  have key: "(mhas qs k \<longrightarrow> \<not> bad k) \<longleftrightarrow>
     (\<forall>q. map_of qs k = Some q \<longrightarrow> k \<in> set allow \<or> mhas rs k \<or> absent_ok q)" for k
    by (cases "map_of qs k") (auto simp: bad_def Requirements_Has_def absent_ok_def Requirements_Get_def)
  have entry: "(\<forall>q. map_of qs k = Some q \<longrightarrow> k \<in> set allow \<or> mhas rs k \<or> absent_ok q) \<and>
     (\<forall>e q. map_of rs k = Some e \<longrightarrow> map_of qs k = Some q \<longrightarrow>
        (\<exists>v. Requirement_Has e v \<and> Requirement_Has q v) \<or> absent_ok e \<and> absent_ok q) \<longleftrightarrow>
     (\<forall>q. map_of qs k = Some q \<longrightarrow>
        (case map_of rs k of
           Some e \<Rightarrow> (\<exists>v. Requirement_Has e v \<and> Requirement_Has q v) \<or> absent_ok e \<and> absent_ok q
         | None \<Rightarrow> k \<in> set allow \<or> absent_ok q))" for k
    by (cases "map_of qs k"; cases "map_of rs k") simp_all
  show ?thesis
    unfolding split find_keys_None key Intersects_Nil[OF assms]
    by (simp only: entry[symmetric] all_conj_distrib)
qed

section \<open>Selector expressions\<close>

text \<open>
  The expressions validation lets through: a known operator, and for an ordering operator one
  value that is an integer.
\<close>

definition sound_expr :: "NodeSelectorRequirement \<Rightarrow> bool" where
  "sound_expr n \<longleftrightarrow>
     nsOperator n \<in> SupportedNodeSelectorOps \<and>
     (nsOperator n \<in> {OpGt, OpLt, OpGte, OpLte} \<longrightarrow>
        (\<exists>v a. nsValues n = [v] \<and> Atoi v = (a, None) \<and> (nsOperator n = OpLt \<longrightarrow> a \<noteq> MinInt64)))"

lemma sound_expr_built:
  assumes "sound_expr n" "NormalizedLabelValues E = []" "wf_label_env E"
  shows "\<exists>r. NewRequirementWithFlexibility E (nsKey n) (nsOperator n) m (nsValues n) = Some r \<and>
           wf_requirement r \<and> Key r = normalize_key E (nsKey n) \<and>
           (\<forall>x. Requirement_Has r x \<longleftrightarrow> expression_accepts (nsOperator n) (nsValues n) x)"
proof -
  have "\<exists>r. NewRequirementWithFlexibility E (nsKey n) (nsOperator n) m (nsValues n) = Some r \<and>
           (\<forall>x. Requirement_Has r x \<longleftrightarrow> expression_accepts (nsOperator n) (nsValues n) x)"
  proof (cases "nsOperator n \<in> {OpGt, OpLt, OpGte, OpLte}")
    case True
    then obtain v a where v: "nsValues n = [v]" "Atoi v = (a, None)" "nsOperator n = OpLt \<Longrightarrow> a \<noteq> MinInt64"
      using assms(1) unfolding sound_expr_def by metis
    from constructor_accepts_bound[OF v(2) True v(3) assms(2)] v(1) show ?thesis by simp
  next
    case False
    then have "nsOperator n \<in> {OpIn, OpNotIn, OpExists, OpDoesNotExist}"
      using assms(1) by (auto simp: sound_expr_def SupportedNodeSelectorOps_def)
    with assms(2) show ?thesis
      by (elim insertE emptyE)
        (auto simp: NewRequirement_simps Requirement_Has_def expression_accepts_def
          DoesNotExist_requirement_def)
  qed
  then show ?thesis
    using wf_NewRequirementWithFlexibility NewRequirement_keeps_key assms(3) by metis
qed

lemma validated_sound_expr:
  assumes "ValidateRequirement qn lv E n = []"
  shows "sound_expr n"
proof (cases "nsOperator n \<in> {OpGt, OpLt, OpGte, OpLte}")
  case True
  obtain v a where "nsValues n = [v]" "Atoi v = (a, None)" "0 \<le> a"
    using validated_bound[OF assms True] .
  then show ?thesis
    using validated_operator[OF assms] by (auto simp: sound_expr_def int_bounds)
next
  case False
  with validated_operator[OF assms] show ?thesis by (auto simp: sound_expr_def)
qed

lemma addable_single: "wf_requirement r \<Longrightarrow> normalize_key E (Key r) = Key r \<Longrightarrow> addable E [r]"
  by (simp add: addable_def)

lemma add_expressions_sound:
  assumes "wf_label_env E" "NormalizedLabelValues E = []" "wf_requirements E rs" "\<forall>n \<in> set ns. sound_expr n"
  shows "\<exists>rs'. add_expressions E rs ns = Some rs' \<and> wf_requirements E rs' \<and>
     (\<forall>k v. Requirement_Has (Requirements_Get E rs' k) v \<longleftrightarrow>
        Requirement_Has (Requirements_Get E rs k) v \<and>
        (\<forall>n \<in> set ns. normalize_key E (nsKey n) = k \<longrightarrow> expression_accepts (nsOperator n) (nsValues n) v))"
  using assms(3,4)
proof (induction ns arbitrary: rs)
  case Nil
  then show ?case by simp
next
  case (Cons n ns)
  obtain r where r: "NewRequirementWithFlexibility E (nsKey n) (nsOperator n) (nsMinValues n) (nsValues n) = Some r"
    "wf_requirement r" "Key r = normalize_key E (nsKey n)"
    "\<forall>x. Requirement_Has r x \<longleftrightarrow> expression_accepts (nsOperator n) (nsValues n) x"
    using sound_expr_built[OF _ assms(2,1)] Cons.prems(2) by (metis list.set_intros(1))
  have add: "addable E [r]" using r assms(1) by (intro addable_single) auto
  have "wf_requirements E (Requirements_Add E rs [r])" using Cons.prems(1) add by (rule wf_Add)
  from Cons.IH[OF this] Cons.prems(2) obtain rs' where rs':
    "add_expressions E (Requirements_Add E rs [r]) ns = Some rs'" "wf_requirements E rs'"
    "\<forall>k v. Requirement_Has (Requirements_Get E rs' k) v \<longleftrightarrow>
        Requirement_Has (Requirements_Get E (Requirements_Add E rs [r]) k) v \<and>
        (\<forall>n \<in> set ns. normalize_key E (nsKey n) = k \<longrightarrow> expression_accepts (nsOperator n) (nsValues n) v)"
    by auto
  with r(1) have eq: "add_expressions E rs (n # ns) = Some rs'" by simp
  show ?case
    by (intro exI[of _ rs'] conjI eq rs'(2))
      (use r(3,4) rs'(3) in \<open>auto simp: Has_Get_Add[OF add]\<close>)
qed

lemma NewNodeSelectorRequirements_sound:
  assumes "wf_label_env E" "NormalizedLabelValues E = []" "\<forall>n \<in> set ns. sound_expr n"
  shows "\<exists>rs. NewNodeSelectorRequirements E ns = Some rs \<and> wf_requirements E rs \<and>
     (\<forall>k v. Requirement_Has (Requirements_Get E rs k) v \<longleftrightarrow>
        (\<forall>n \<in> set ns. normalize_key E (nsKey n) = k \<longrightarrow> expression_accepts (nsOperator n) (nsValues n) v))"
proof -
  have "\<forall>n \<in> set (map (\<lambda>n. n\<lparr>nsMinValues := None\<rparr>) ns). sound_expr n"
    using assms(3) by (auto simp: sound_expr_def)
  from add_expressions_sound[OF assms(1,2) wf_empty this] show ?thesis
    by (simp add: NewNodeSelectorRequirements_def NewRequirements_def Requirements_Add_def)
qed

lemma NewLabelRequirements_sound:
  assumes "wf_label_env E" "NormalizedLabelValues E = []"
  shows "\<exists>rs. NewLabelRequirements E labels = Some rs \<and> wf_requirements E rs \<and>
     (\<forall>k v. Requirement_Has (Requirements_Get E rs k) v \<longleftrightarrow>
        (\<forall>(l, x) \<in> set labels. normalize_key E l = k \<longrightarrow> v = x))"
proof -
  define ns where
    "ns = map (\<lambda>(k, v). \<lparr>nsKey = k, nsOperator = OpIn, nsValues = [v], nsMinValues = None\<rparr>) labels"
  have "\<forall>n \<in> set ns. sound_expr n" by (auto simp: ns_def sound_expr_def SupportedNodeSelectorOps_def)
  from add_expressions_sound[OF assms wf_empty this] show ?thesis
    by (fastforce simp: NewLabelRequirements_def NewRequirements_def Requirements_Add_def ns_def
        expression_accepts_def)
qed

text \<open>The expressions a pod's strict requirements are built from: those of its first required term.\<close>

definition first_required_term :: "Pod \<Rightarrow> NodeSelectorRequirement list" where
  "first_required_term pod =
     (case podAffinities pod of None \<Rightarrow> []
      | Some aff \<Rightarrow>
          (case nodeAffinity aff of None \<Rightarrow> []
           | Some na \<Rightarrow> (case naRequired na of Some (term # _) \<Rightarrow> term | _ \<Rightarrow> [])))"

lemma NewNodeSelectorRequirements_Nil [simp]: "NewNodeSelectorRequirements E [] = Some []"
  by (simp add: NewNodeSelectorRequirements_def NewRequirements_def Requirements_Add_def)

lemma Add_Values_Nil [simp]: "Requirements_Add E rs (Requirements_Values []) = rs"
  by (simp add: Requirements_Add_def Requirements_Values_def)

lemma strict_requirements_eq:
  "NewStrictPodRequirements E f pod =
     (case NewLabelRequirements E (podNodeSelector pod) of
        None \<Rightarrow> None
      | Some rs \<Rightarrow> map_option (\<lambda>q. Requirements_Add E rs (Requirements_Values q))
                    (NewNodeSelectorRequirements E (first_required_term pod)))"
  by (simp add: NewStrictPodRequirements_def newPodRequirements_def first_required_term_def
      split: option.split list.split)

section \<open>Serialisation\<close>

text \<open>A requirement whose selector form is complete: it has no bounds, or bounds and no values.\<close>

definition plain :: "requirement \<Rightarrow> bool" where
  "plain r \<longleftrightarrow> gte r = None \<and> lte r = None \<or> rvalues r = {}"

definition selectors_of :: "requirement \<Rightarrow> NodeSelectorRequirement list" where
  "selectors_of r =
     (if gte r \<noteq> None \<and> lte r \<noteq> None
      then (case BoundedNodeSelectorRequirements r of Some ns \<Rightarrow> ns | None \<Rightarrow> [])
      else [toNodeSelectorRequirement r])"

lemma NodeSelectorRequirements_eq:
  "NodeSelectorRequirements rs = Some (concat (map (\<lambda>(_, r). selectors_of r) rs))"
  by (induction rs)
    (auto simp: NodeSelectorRequirements_def selectors_of_def BoundedNodeSelectorRequirements_def
      split: option.splits)

lemma selectors_of_key: "n \<in> set (selectors_of r) \<Longrightarrow> nsKey n = Key r"
  by (auto simp: selectors_of_def BoundedNodeSelectorRequirements_def toNodeSelectorRequirement_def
      split: option.splits if_splits)

lemma selectors_of_sound:
  assumes "wf_requirement r" "n \<in> set (selectors_of r)"
  shows "sound_expr n"
proof -
  have "in_int64 a" if "gte r = Some a \<or> lte r = Some a" for a
    using assms(1) that by (auto simp: wf_requirement_def)
  then show ?thesis
    using assms(2)
    by (auto simp: selectors_of_def BoundedNodeSelectorRequirements_def toNodeSelectorRequirement_def
        sound_expr_def SupportedNodeSelectorOps_def split: option.splits if_splits)
qed

lemma selectors_of_accept:
  assumes "wf_requirement r" "plain r"
  shows "(\<forall>n \<in> set (selectors_of r). expression_accepts (nsOperator n) (nsValues n) v) \<longleftrightarrow>
         Requirement_Has r v"
proof -
  have bounds: "in_int64 a" if "gte r = Some a \<or> lte r = Some a" for a
    using assms(1) that by (auto simp: wf_requirement_def)
  have fin: "finite (rvalues r)" using assms(1) by simp
  have compl: "complement r" if "gte r \<noteq> None \<or> lte r \<noteq> None"
    using assms(1) that by (auto simp: wf_requirement_def)
  note defs = selectors_of_def BoundedNodeSelectorRequirements_def toNodeSelectorRequirement_def
    expression_accepts_def Has_iff withinBounds_iff
  show ?thesis
  proof (cases "gte r = None \<and> lte r = None")
    case True
    then show ?thesis
      using fin by (cases "complement r"; cases "rvalues r = {}") (simp_all add: defs card_gt_0_iff)
  next
    case False
    then have "complement r" "rvalues r = {}" using assms(2) compl by (auto simp: plain_def)
    with False bounds show ?thesis
      by (cases "gte r"; cases "lte r") (auto simp: defs)
  qed
qed

lemma reread_requirements:
  assumes "wf_label_env E" "NormalizedLabelValues E = []" "wf_requirements E rs"
    and "\<forall>k r. map_of rs k = Some r \<longrightarrow> plain r"
  shows "\<exists>ns rs'. NodeSelectorRequirements rs = Some ns \<and>
     NewNodeSelectorRequirementsWithMinValues E ns = Some rs' \<and> wf_requirements E rs' \<and>
     (\<forall>k v. Requirement_Has (Requirements_Get E rs' k) v \<longleftrightarrow> Requirement_Has (Requirements_Get E rs k) v)"
proof -
  define ns where "ns = concat (map (\<lambda>(_, r). selectors_of r) rs)"
  have entry: "map_of rs k = Some r \<longleftrightarrow> (k, r) \<in> set rs" for k r
    using assms(3) by (simp add: wf_requirements_def map_of_in_set)
  have in_ns: "n \<in> set ns \<longleftrightarrow> (\<exists>k r. map_of rs k = Some r \<and> n \<in> set (selectors_of r))" for n
    by (auto simp: ns_def entry)
  have "\<forall>n \<in> set ns. sound_expr n"
    using in_ns selectors_of_sound wf_requirementsD(3)[OF assms(3)] by blast
  from add_expressions_sound[OF assms(1,2) wf_empty this] obtain rs' where rs':
    "add_expressions E [] ns = Some rs'" "wf_requirements E rs'"
    "\<forall>k v. Requirement_Has (Requirements_Get E rs' k) v \<longleftrightarrow>
      (\<forall>n \<in> set ns. normalize_key E (nsKey n) = k \<longrightarrow> expression_accepts (nsOperator n) (nsValues n) v)"
    by auto
  have same: "n \<in> set ns \<and> normalize_key E (nsKey n) = k \<longleftrightarrow>
      (\<exists>r. map_of rs k = Some r \<and> n \<in> set (selectors_of r))" for n k
    using in_ns selectors_of_key wf_requirementsD(1,2)[OF assms(3)] by metis
  have acc: "Requirement_Has (Requirements_Get E rs' k) v \<longleftrightarrow> Requirement_Has (Requirements_Get E rs k) v" for k v
  proof (cases "map_of rs k")
    case None
    then have "\<not> (\<exists>n. n \<in> set ns \<and> normalize_key E (nsKey n) = k)" unfolding same by simp
    with rs'(3) None show ?thesis by (auto simp: Requirements_Get_def)
  next
    case (Some r)
    then have "\<forall>n. n \<in> set ns \<and> normalize_key E (nsKey n) = k \<longleftrightarrow> n \<in> set (selectors_of r)"
      unfolding same by simp
    then have "Requirement_Has (Requirements_Get E rs' k) v \<longleftrightarrow>
        (\<forall>n \<in> set (selectors_of r). expression_accepts (nsOperator n) (nsValues n) v)"
      using rs'(3) by blast
    also have "\<dots> \<longleftrightarrow> Requirement_Has r v"
      using selectors_of_accept wf_requirementsD(3)[OF assms(3) Some] assms(4) Some by blast
    finally show ?thesis by (simp add: Requirements_Get_def Some)
  qed
  have "NodeSelectorRequirements rs = Some ns" by (simp add: NodeSelectorRequirements_eq ns_def)
  moreover have "NewNodeSelectorRequirementsWithMinValues E ns = Some rs'"
    using rs'(1) by (simp add: NewNodeSelectorRequirementsWithMinValues_def NewRequirements_def
        Requirements_Add_def)
  ultimately show ?thesis using rs'(2) acc by blast
qed

section \<open>Properties\<close>

text \<open>
  C20. A map of requirements built by adding requirements one after the other accepts, for every label,
  exactly the values that all the requirements added for that label accept, and the order in which
  they were added makes no difference to what it accepts.
\<close>

theorem Requirements_Add_exact:
  assumes "wf_requirements E rs" "addable E reqs" "mset reqs' = mset reqs"
  shows "wf_requirements E (Requirements_Add E rs reqs) \<and>
     (\<forall>k v. Requirement_Has (Requirements_Get E (Requirements_Add E rs reqs) k) v \<longleftrightarrow>
        Requirement_Has (Requirements_Get E rs k) v \<and>
        (\<forall>r \<in> set reqs. Key r = k \<longrightarrow> Requirement_Has r v)) \<and>
     (\<forall>k v. Requirement_Has (Requirements_Get E (Requirements_Add E rs reqs') k) v \<longleftrightarrow>
        Requirement_Has (Requirements_Get E (Requirements_Add E rs reqs) k) v)"
proof -
  have set: "set reqs' = set reqs" using assms(3) by (metis set_mset_mset)
  then have "addable E reqs'" using assms(2) by (simp add: addable_def)
  with set show ?thesis using assms(1,2) by (simp add: wf_Add Has_Get_Add)
qed

theorem Requirements_Add_exact_witness:
  "\<not> Requirement_Has (Requirements_Get core_labels
       (Requirements_Add core_labels [] [zone_ab, zone_not_b]) ''zone'') ''b'' \<and>
   Requirement_Has (Requirements_Get core_labels
       (Requirements_Add core_labels [] [zone_not_b, zone_ab]) ''zone'') ''a''"
proof -
  have norm: "normalize_key core_labels ''zone'' = ''zone''"
    by (simp add: normalize_key_def core_labels_def label_key_defs)
  have add: "addable core_labels [zone_ab, zone_not_b]"
    using norm by (auto simp: addable_def zone_ab_def zone_not_b_def wf_requirement_def)
  have ms: "mset [zone_not_b, zone_ab] = mset [zone_ab, zone_not_b]" by simp
  have acc: "\<not> Requirement_Has zone_not_b ''b''" "Requirement_Has zone_ab ''a''"
    "Requirement_Has zone_not_b ''a''" "Key zone_ab = ''zone''" "Key zone_not_b = ''zone''"
    by (simp_all add: Requirement_Has_def zone_ab_def zone_not_b_def)
  show ?thesis
    using Requirements_Add_exact[OF wf_empty add ms] acc by (auto simp del: mset.simps)
qed

text \<open>
  C21. The compatibility test returns no error exactly when every label the incoming requirements name
  can be met: where the node defines the label, some value is accepted by both sides or both sides
  tolerate its absence; where it does not, the label may be left undefined or the requirement
  tolerates its absence. The answer does not depend on the order in which the maps are visited.
\<close>

theorem Compatible_exact:
  assumes "wf_requirements E rs" "wf_requirements E qs"
  shows "IsCompatible E allow rs qs \<longleftrightarrow>
     (\<forall>k q. map_of qs k = Some q \<longrightarrow>
        (case map_of rs k of
           Some e \<Rightarrow> (\<exists>v. Requirement_Has e v \<and> Requirement_Has q v) \<or> absent_ok e \<and> absent_ok q
         | None \<Rightarrow> k \<in> set allow \<or> absent_ok q))"
  unfolding IsCompatible_def by (rule Compatible_Nil[OF assms])

theorem Compatible_exact_witness:
  "IsCompatible core_labels [] [(''zone'', zone_ab)] [(''zone'', zone_not_b)] \<and>
   \<not> IsCompatible core_labels [] [] [(''zone'', zone_ab)]"
proof -
  have norm: "normalize_key core_labels ''zone'' = ''zone''"
    by (simp add: normalize_key_def core_labels_def label_key_defs)
  have wf: "wf_requirements core_labels [(''zone'', zone_ab)]"
    "wf_requirements core_labels [(''zone'', zone_not_b)]"
    using norm by (auto simp: wf_requirements_def zone_ab_def zone_not_b_def wf_requirement_def)
  have both: "Requirement_Has zone_ab ''a'' \<and> Requirement_Has zone_not_b ''a''"
    by (simp add: Requirement_Has_def zone_ab_def zone_not_b_def)
  have "\<not> absent_ok zone_ab"
    by (simp add: absent_ok_def Requirement_Operator_def Requirement_Len_def zone_ab_def)
  then show ?thesis
    using Compatible_exact[OF wf, of "[]"] Compatible_exact[OF wf_empty wf(1), of "[]"] both by auto
qed


definition gpu_pod :: Pod where
  "gpu_pod = (bare_pod ''p'')\<lparr>podNodeSelector := [(''arch'', ''amd64'')],
     podAffinities := Some \<lparr>nodeAffinity = Some \<lparr>naRequired =
         Some [[\<lparr>nsKey = ''gpus'', nsOperator = OpGt, nsValues = [''1''], nsMinValues = None\<rparr>], []],
       naPreferred = []\<rparr>, podAffinity = None, podAntiAffinity = None\<rparr>\<rparr>"


text \<open>
  An expression that passes the validation of a NodePool or NodeClaim is turned into a requirement
  without a panic, and the requirement accepts exactly the label values that the expression's
  operator and values describe, ordering operators included.
\<close>

theorem validated_requirement_exact:
  assumes "wf_label_env E" "NormalizedLabelValues E = []"
    and "ValidateRequirement isQualifiedName isValidLabelValue E n = []"
  shows "\<exists>r. NewRequirementWithFlexibility E (nsKey n) (nsOperator n) (nsMinValues n) (nsValues n) = Some r \<and>
     wf_requirement r \<and> Key r = normalize_key E (nsKey n) \<and>
     (\<forall>x. Requirement_Has r x \<longleftrightarrow> expression_accepts (nsOperator n) (nsValues n) x)"
  by (rule sound_expr_built[OF validated_sound_expr[OF assms(3)] assms(2,1)])

theorem validated_requirement_exact_witness:
  "\<exists>r. NewRequirementWithFlexibility core_labels ''gpus'' OpGt None [''1''] = Some r \<and>
     Requirement_Has r ''2'' \<and> \<not> Requirement_Has r ''1''"
proof -
  let ?n = "\<lparr>nsKey = ''gpus'', nsOperator = OpGt, nsValues = [''1''], nsMinValues = None\<rparr>"
  have num: "Atoi ''1'' = (1, None)" "Atoi ''2'' = (2, None)"
    by (simp_all add: Atoi_def ParseInt_body_def digit_of_def int_bounds)
  have none: "NormalizedLabelValues core_labels = []" by (simp add: core_labels_def)
  have valid: "ValidateRequirement (\<lambda>_. 0) (\<lambda>_. 0) core_labels ?n = []"
    by (simp add: ValidateRequirement_def Let_def SupportedNodeSelectorOps_def IsRestrictedLabel_def
        normalize_key_def validateWellKnownValues_def GetLabelDomain_def core_labels_def label_key_defs num)
  have acc: "expression_accepts OpGt [''1''] ''2''" "\<not> expression_accepts OpGt [''1''] ''1''"
    by (simp_all add: expression_accepts_def atoi_def num)
  show ?thesis
    using validated_requirement_exact[OF wf_core_labels none valid] acc by auto
qed

text \<open>
  C23. Writing a map of requirements out as selector expressions and reading them back gives a map that
  accepts the same values for every label, as long as no requirement has both bounds and values.
\<close>

theorem NodeSelectorRequirements_round_trip:
  assumes "wf_label_env E" "NormalizedLabelValues E = []" "wf_requirements E rs"
    and "\<forall>k r. map_of rs k = Some r \<longrightarrow> plain r"
  shows "\<exists>ns rs'. NodeSelectorRequirements rs = Some ns \<and>
     NewNodeSelectorRequirementsWithMinValues E ns = Some rs' \<and> wf_requirements E rs' \<and>
     (\<forall>k v. Requirement_Has (Requirements_Get E rs' k) v \<longleftrightarrow> Requirement_Has (Requirements_Get E rs k) v)"
  by (rule reread_requirements[OF assms])

theorem NodeSelectorRequirements_round_trip_witness:
  "\<exists>ns rs'. NodeSelectorRequirements [(''zone'', zone_not_b)] = Some ns \<and>
     NewNodeSelectorRequirementsWithMinValues core_labels ns = Some rs' \<and>
     \<not> Requirement_Has (Requirements_Get core_labels rs' ''zone'') ''b''"
proof -
  have norm: "normalize_key core_labels ''zone'' = ''zone''"
    by (simp add: normalize_key_def core_labels_def label_key_defs)
  have none: "NormalizedLabelValues core_labels = []" by (simp add: core_labels_def)
  have wf: "wf_requirements core_labels [(''zone'', zone_not_b)]"
    using norm by (auto simp: wf_requirements_def zone_not_b_def wf_requirement_def)
  have pl: "\<forall>k r. map_of [(''zone'', zone_not_b)] k = Some r \<longrightarrow> plain r"
    by (simp add: plain_def zone_not_b_def)
  have "\<not> Requirement_Has (Requirements_Get core_labels [(''zone'', zone_not_b)] ''zone'') ''b''"
    by (simp add: Requirements_Get_def Requirement_Has_def zone_not_b_def)
  then show ?thesis
    using NodeSelectorRequirements_round_trip[OF wf_core_labels none wf pl] by metis
qed


definition zone_in :: "string \<Rightarrow> requirement" where
  "zone_in z = \<lparr>Key = ''zone'', complement = False, rvalues = {z}, gte = None, lte = None, MinValues = None\<rparr>"



end
