(* ===== verification/Resources.thy ===== *)
theory Resources
  imports Kube
begin

text \<open>
  Arithmetic on resource lists (\<^verbatim>\<open>pkg/utils/resources/resources.go\<close>). A \<^verbatim>\<open>resource.Quantity\<close> is a value
  of any linearly ordered abelian group: the code adds, subtracts and compares quantities and
  nothing else. Reading an absent resource gives the zero quantity. Where a nil list matters it is
  None.
\<close>

type_synonym 'q ResourceList = "(string, 'q) gomap"

section \<open>Operations\<close>

definition add_list :: "'q::linordered_ab_group_add ResourceList \<Rightarrow> 'q ResourceList \<Rightarrow> 'q ResourceList" where
  "add_list acc l = foldl (\<lambda>result (name, quantity). mput name (mget 0 result name + quantity) result) acc l"

definition Merge :: "'q::linordered_ab_group_add ResourceList list \<Rightarrow> 'q ResourceList" where
  "Merge resources = (if resources = [] then [] else foldl add_list [] resources)"

definition MergeInto ::
  "'q::linordered_ab_group_add ResourceList option \<Rightarrow> 'q ResourceList \<Rightarrow> 'q ResourceList" where
  "MergeInto dest src = add_list (case dest of None \<Rightarrow> [] | Some d \<Rightarrow> d) src"

definition Subtract ::
  "'q::linordered_ab_group_add ResourceList \<Rightarrow> 'q ResourceList \<Rightarrow> 'q ResourceList" where
  "Subtract lhs rhs =
     map (\<lambda>(name, _).
       (name, case map_of rhs name of
                None \<Rightarrow> mget 0 lhs name
              | Some v \<Rightarrow> mget 0 lhs name - v)) lhs"

text \<open>
  \<^verbatim>\<open>SubtractFrom\<close> works in place. Given a nil map it fills a map of its own, which the caller never
  sees; the result here is the caller's map after the call.
\<close>

definition SubtractFrom ::
  "'q::linordered_ab_group_add ResourceList option \<Rightarrow> 'q ResourceList \<Rightarrow> 'q ResourceList option" where
  "SubtractFrom dest src =
     map_option (\<lambda>d. foldl (\<lambda>result (name, quantity).
        mput name (mget 0 result name - quantity) result) d src) dest"

definition MaxResources :: "'q::linordered_ab_group_add ResourceList list \<Rightarrow> 'q ResourceList" where
  "MaxResources resources =
     foldl (\<lambda>acc resource.
       foldl (\<lambda>result (name, quantity).
          if (case map_of result name of None \<Rightarrow> True | Some v \<Rightarrow> quantity > v)
          then mput name quantity result else result) acc resource) [] resources"

definition MinResources :: "'q::linordered_ab_group_add ResourceList list \<Rightarrow> 'q ResourceList" where
  "MinResources resources =
     (case resources of
        [] \<Rightarrow> []
      | first # rest \<Rightarrow>
          foldl (\<lambda>acc rl. List.map_filter (\<lambda>(name, quantity).
             case map_of rl name of
               None \<Rightarrow> None
             | Some r \<Rightarrow> Some (name, if r < quantity then r else quantity)) acc) first rest)"

definition Fits :: "'q::linordered_ab_group_add ResourceList \<Rightarrow> 'q ResourceList \<Rightarrow> bool" where
  "Fits candidate available =
     (if list_ex (\<lambda>(_, quantity). 0 > quantity) available then False
      else if list_ex (\<lambda>(name, quantity). quantity > mget 0 available name) candidate then False
      else True)"

text \<open>
  The request and limit of a pod are computed by a Kubernetes library (\<open>ceiling\<close>), and a count is
  made a quantity by \<open>newQuantity\<close>.
\<close>

definition ResourcePods :: string where "ResourcePods = ''pods''"

definition RequestsForPods ::
  "(Pod \<Rightarrow> 'q::linordered_ab_group_add ResourceList) \<Rightarrow> (int \<Rightarrow> 'q) \<Rightarrow> Pod list \<Rightarrow> 'q ResourceList" where
  "RequestsForPods requests newQuantity pods =
     mput ResourcePods (newQuantity (int (length pods))) (Merge (map requests pods))"

definition LimitsForPods ::
  "(Pod \<Rightarrow> 'q::linordered_ab_group_add ResourceList) \<Rightarrow> (int \<Rightarrow> 'q) \<Rightarrow> Pod list \<Rightarrow> 'q ResourceList" where
  "LimitsForPods limits newQuantity pods =
     mput ResourcePods (newQuantity (int (length pods))) (Merge (map limits pods))"

section \<open>Lemmas\<close>

text \<open>The quantity of a resource in a list, zero where the list does not have it.\<close>

abbreviation qty :: "'q::linordered_ab_group_add ResourceList \<Rightarrow> string \<Rightarrow> 'q" where
  "qty l k \<equiv> mget 0 l k"

lemma mget_entry: "wf_map m \<Longrightarrow> (k, v) \<in> set m \<Longrightarrow> mget z m k = v"
  by (simp add: mget_def)

lemma qty_Cons: "wf_map ((k, v) # l) \<Longrightarrow> qty ((k, v) # l) j = (if j = k then v else 0) + qty l j"
proof -
  assume "wf_map ((k, v) # l)"
  then have "map_of l k = None" by (simp add: map_of_eq_None_iff)
  then show ?thesis by (simp add: mget_def)
qed

lemma wf_add_list [wf_intros]: "wf_map acc \<Longrightarrow> wf_map (add_list acc l)"
  unfolding add_list_def by (induction l arbitrary: acc) (simp_all add: split_def wf_map_mput)

lemma qty_add_list: "wf_map l \<Longrightarrow> qty (add_list acc l) k = qty acc k + qty l k"
proof (induction l arbitrary: acc)
  case Nil
  then show ?case by (simp add: add_list_def mget_def)
next
  case (Cons e l)
  obtain j v where e: "e = (j, v)" by (cases e)
  have "add_list acc (e # l) = add_list (mput j (qty acc j + v) acc) l" by (simp add: add_list_def e)
  then show ?case using Cons qty_Cons[of j v l k] by (simp add: e gomap_simps ac_simps)
qed

lemma has_add_list: "mhas (add_list acc l) k \<longleftrightarrow> mhas acc k \<or> mhas l k"
proof -
  have "dom (map_of (add_list acc l)) = dom (map_of acc) \<union> dom (map_of l)"
    unfolding add_list_def by (induction l arbitrary: acc) (auto simp: split_def map_of_mput)
  then show ?thesis by blast
qed

lemma foldl_add_list:
  assumes "\<forall>l \<in> set ls. wf_map l"
  shows "qty (foldl add_list acc ls) k = qty acc k + (\<Sum>l\<leftarrow>ls. qty l k)"
    and "mhas (foldl add_list acc ls) k \<longleftrightarrow> mhas acc k \<or> (\<exists>l \<in> set ls. mhas l k)"
    and "wf_map acc \<Longrightarrow> wf_map (foldl add_list acc ls)"
  using assms
proof (induction ls arbitrary: acc)
  case Nil
  { case 1 show ?case by simp }
  { case 2 show ?case by simp }
  { case 3 then show ?case by simp }
next
  case (Cons l ls)
  { case 1 then show ?case using Cons.IH(1)[of "add_list acc l"] by (simp add: qty_add_list ac_simps) }
  { case 2 then show ?case using Cons.IH(2)[of "add_list acc l"] by (auto simp: has_add_list simp del: not_None_eq) }
  { case 3 then show ?case using Cons.IH(3)[of "add_list acc l"] by (simp add: wf_add_list) }
qed

lemma Merge_eq: "Merge ls = foldl add_list [] ls"
  by (simp add: Merge_def)

lemma qty_Merge: "\<forall>l \<in> set ls. wf_map l \<Longrightarrow> qty (Merge ls) k = (\<Sum>l\<leftarrow>ls. qty l k)"
  by (simp add: Merge_eq foldl_add_list(1)) (simp add: mget_def)

lemma has_Merge: "\<forall>l \<in> set ls. wf_map l \<Longrightarrow> mhas (Merge ls) k \<longleftrightarrow> (\<exists>l \<in> set ls. mhas l k)"
  by (simp add: Merge_eq foldl_add_list(2) del: not_None_eq)

lemma wf_Merge [wf_intros]: "\<forall>l \<in> set ls. wf_map l \<Longrightarrow> wf_map (Merge ls)"
  by (simp add: Merge_eq foldl_add_list(3))

lemma keys_Subtract: "map fst (Subtract l r) = map fst l"
  by (simp add: Subtract_def split_def)

lemma wf_Subtract [wf_intros]: "wf_map l \<Longrightarrow> wf_map (Subtract l r)"
  by (simp add: keys_Subtract)

lemma map_of_Subtract:
  "map_of (Subtract l r) k = map_option (\<lambda>_. qty l k - qty r k) (map_of l k)"
proof -
  have "Subtract l r = map (\<lambda>(n, _). (n, qty l n - qty r n)) l"
    by (auto simp: Subtract_def mget_def split: option.split)
  then show ?thesis by (simp add: map_of_map_values)
qed

lemma Fits_iff:
  assumes "wf_map c" "wf_map t"
  shows "Fits c t \<longleftrightarrow> (\<forall>k. 0 \<le> qty t k) \<and> (\<forall>k. mhas c k \<longrightarrow> qty c k \<le> qty t k)"
proof -
  have "Fits c t \<longleftrightarrow> (\<forall>k v. map_of t k = Some v \<longrightarrow> 0 \<le> v) \<and> (\<forall>k v. map_of c k = Some v \<longrightarrow> v \<le> qty t k)"
    unfolding Fits_def list_ex_entries_iff[OF assms(1)] list_ex_entries_iff[OF assms(2)]
    by (simp flip: not_less)
  then show ?thesis by (force simp: mget_def split: option.splits)
qed

definition sub_list :: "'q::linordered_ab_group_add ResourceList \<Rightarrow> 'q ResourceList \<Rightarrow> 'q ResourceList" where
  "sub_list d src = the (SubtractFrom (Some d) src)"

lemma SubtractFrom_Some: "SubtractFrom (Some d) src = Some (sub_list d src)"
  by (simp add: sub_list_def SubtractFrom_def)

lemma sub_list_Cons: "sub_list d ((j, v) # l) = sub_list (mput j (qty d j - v) d) l"
  by (simp add: sub_list_def SubtractFrom_def)

lemma wf_sub_list [wf_intros]: "wf_map d \<Longrightarrow> wf_map (sub_list d l)"
proof (induction l arbitrary: d)
  case Nil
  then show ?case by (simp add: sub_list_def SubtractFrom_def)
next
  case (Cons e l)
  then show ?case by (cases e) (simp add: sub_list_Cons wf_map_mput)
qed

lemma qty_sub_list: "wf_map l \<Longrightarrow> qty (sub_list d l) k = qty d k - qty l k"
proof (induction l arbitrary: d)
  case Nil
  then show ?case by (simp add: sub_list_def SubtractFrom_def mget_def)
next
  case (Cons e l)
  obtain j v where e: "e = (j, v)" by (cases e)
  show ?case using Cons qty_Cons[of j v l k] by (simp add: e sub_list_Cons gomap_simps)
qed

text \<open>
  Placing pods on a node with what is left of its resources: a request is taken off when it fits and
  turned away when it does not. The second component records the requests taken.
\<close>

definition place ::
  "'q::linordered_ab_group_add ResourceList \<Rightarrow> 'q ResourceList \<times> 'q ResourceList list
     \<Rightarrow> ('q ResourceList \<times> 'q ResourceList list) option" where
  "place request s =
     (case s of (remaining, taken) \<Rightarrow>
        if Fits request remaining
        then map_option (\<lambda>r. (r, taken @ [request])) (SubtractFrom (Some remaining) request)
        else Some (remaining, taken))"

definition accounted :: "'q::linordered_ab_group_add ResourceList \<Rightarrow> 'q ResourceList \<times> 'q ResourceList list \<Rightarrow> bool" where
  "accounted capacity s \<longleftrightarrow> wf_map (fst s) \<and> (\<forall>k. 0 \<le> qty (fst s) k) \<and>
     (\<forall>k. qty (fst s) k + (\<Sum>r\<leftarrow>snd s. qty r k) = qty capacity k)"

lemma accounted_place:
  assumes "accounted capacity s" "wf_map request" "place request s = Some t"
  shows "accounted capacity t"
proof (cases "Fits request (fst s)")
  case True
  then have t: "t = (sub_list (fst s) request, snd s @ [request])"
    using assms(3) by (simp add: place_def split_def SubtractFrom_Some)
  have acc: "wf_map (fst s)" "\<forall>k. 0 \<le> qty (fst s) k"
    "\<forall>k. qty (fst s) k + (\<Sum>r\<leftarrow>snd s. qty r k) = qty capacity k"
    using assms(1) by (simp_all add: accounted_def)
  have "0 \<le> qty (fst s) k - qty request k" for k
    using True acc unfolding Fits_iff[OF assms(2) acc(1)]
    by (cases "map_of request k") (auto simp: mget_def)
  then show ?thesis
    using acc by (simp add: t accounted_def qty_sub_list[OF assms(2)] wf_sub_list ac_simps)
next
  case False
  then show ?thesis using assms by (simp add: place_def split_def)
qed

section \<open>Properties\<close>

text \<open>
  Merging resource lists adds up each resource over all lists and has a resource exactly when one
  of the lists has it; the order of the lists makes no difference.
\<close>

theorem Merge_exact:
  assumes "\<forall>l \<in> set ls. wf_map l" "mset ls' = mset ls"
  shows "wf_map (Merge ls) \<and>
     (\<forall>k. qty (Merge ls) k = (\<Sum>l\<leftarrow>ls. qty l k) \<and> (mhas (Merge ls) k \<longleftrightarrow> (\<exists>l \<in> set ls. mhas l k))) \<and>
     (\<forall>k. map_of (Merge ls') k = map_of (Merge ls) k)"
proof -
  have set: "set ls' = set ls" using assms(2) by (metis set_mset_mset)
  have qty: "qty (Merge ls') k = qty (Merge ls) k" for k
  proof -
    have "(\<Sum>l\<leftarrow>ls'. qty l k) = (\<Sum>l\<leftarrow>ls. qty l k)"
      using assms(2) by (metis mset_map sum_mset_sum_list)
    then show ?thesis using assms(1) set by (simp add: qty_Merge)
  qed
  have has: "mhas (Merge ls') k \<longleftrightarrow> mhas (Merge ls) k" for k
    using assms(1) set by (simp add: has_Merge del: not_None_eq)
  have "map_of (Merge ls') k = map_of (Merge ls) k" for k
    using qty[of k] has[of k] by (cases "map_of (Merge ls') k"; cases "map_of (Merge ls) k") (auto simp: mget_def)
  then show ?thesis using assms(1) by (simp add: qty_Merge has_Merge wf_Merge del: not_None_eq)
qed

theorem Merge_exact_witness:
  "qty (Merge [[(''cpu'', 2 :: int)], [(''memory'', 5), (''cpu'', 1)]]) ''cpu'' = 3"
  using Merge_exact[of "[[(''cpu'', 2 :: int)], [(''memory'', 5), (''cpu'', 1)]]"
      "[[(''cpu'', 2 :: int)], [(''memory'', 5), (''cpu'', 1)]]"]
  by (simp add: mget_def)

text \<open>
  A node is never overcommitted: whatever requests arrive and in whatever order, when each is
  taken off the remaining resources only if it fits there, the requests taken never add up to more
  than the node's resources, and the remaining list is always the difference.
\<close>

theorem node_never_overcommitted:
  assumes "wf_map capacity" "\<forall>k. 0 \<le> qty capacity k" "\<forall>r \<in> set requests. wf_map r"
  shows "\<exists>remaining taken. run_steps place requests (capacity, []) = Some (remaining, taken) \<and>
     (\<forall>k. qty remaining k = qty capacity k - (\<Sum>r\<leftarrow>taken. qty r k) \<and> (\<Sum>r\<leftarrow>taken. qty r k) \<le> qty capacity k)"
proof -
  have "\<exists>t. run_steps place requests s = Some t \<and> accounted capacity t"
    if "accounted capacity s" "\<forall>r \<in> set requests. wf_map r" for s
    using that
  proof (induction requests arbitrary: s)
    case Nil
    then show ?case by simp
  next
    case (Cons r rs)
    have "\<exists>t. place r s = Some t" by (simp add: place_def split_def SubtractFrom_Some)
    then obtain t where t: "place r s = Some t" by blast
    with accounted_place Cons.prems have "accounted capacity t" by fastforce
    with Cons t show ?case by simp
  qed
  moreover have "accounted capacity (capacity, [])" using assms(1,2) by (simp add: accounted_def)
  ultimately obtain t where t: "run_steps place requests (capacity, []) = Some t" "accounted capacity t"
    using assms(3) by blast
  have "qty (fst t) k = qty capacity k - (\<Sum>r\<leftarrow>snd t. qty r k) \<and> (\<Sum>r\<leftarrow>snd t. qty r k) \<le> qty capacity k" for k
  proof -
    have "qty (fst t) k + (\<Sum>r\<leftarrow>snd t. qty r k) = qty capacity k" "0 \<le> qty (fst t) k"
      using t(2) by (simp_all add: accounted_def)
    then show ?thesis by (metis add_diff_cancel_right' diff_ge_0_iff_ge)
  qed
  with t(1) show ?thesis by (intro exI[of _ "fst t"] exI[of _ "snd t"]) simp
qed

theorem node_never_overcommitted_witness:
  "\<exists>remaining taken. run_steps place [[(''cpu'', 3)], [(''cpu'', 2)]] ([(''cpu'', 4 :: int)], []) =
     Some (remaining, taken) \<and> (\<Sum>r\<leftarrow>taken. qty r ''cpu'') \<le> 4"
proof -
  have wf: "wf_map [(''cpu'', 4 :: int)]" "\<forall>r \<in> set [[(''cpu'', 3 :: int)], [(''cpu'', 2)]]. wf_map r"
    by simp_all
  have "\<forall>k. 0 \<le> qty [(''cpu'', 4 :: int)] k" "qty [(''cpu'', 4 :: int)] ''cpu'' = 4"
    by (simp_all add: mget_def)
  then show ?thesis using node_never_overcommitted[OF wf(1) _ wf(2)] by metis
qed

end
