(* ===== verification/InstanceTypes.thy ===== *)
theory InstanceTypes
  imports Requirements Resources Taints
begin

text \<open>
  Instance types and their offerings (\<^verbatim>\<open>pkg/cloudprovider/types.go\<close>). Prices are only compared here, so
  a price is a rational number; the arithmetic of price overlays on floating-point numbers is not
  modelled. The allocatable resources are computed once and kept by the code; the definitions
  compute them at each use.

  The library functions \<^verbatim>\<open>lo.MinBy\<close> and \<^verbatim>\<open>lo.MaxBy\<close>, the sorting routine and the text that
  \<^verbatim>\<open>fmt.Sprintf\<close> prints for a resource list are parameters.
\<close>

section \<open>Data\<close>

record 'q InstanceTypeOverhead =
  KubeReserved :: "'q ResourceList"
  SystemReserved :: "'q ResourceList"
  EvictionThreshold :: "'q ResourceList"

record 'q Offering =
  ofRequirements :: requirements
  ofPrice :: rat
  ofAvailable :: bool
  ofReservationCapacity :: int
  ofCapacityOverride :: "'q ResourceList"
  ofOverheadOverride :: "'q InstanceTypeOverhead option"
  ofPriceOverlayApplied :: bool

record 'q InstanceType =
  itName :: string
  itRequirements :: requirements
  itOfferings :: "'q Offering list"
  itCapacity :: "'q ResourceList"
  itOverhead :: "'q InstanceTypeOverhead option"
  itCapacityOverlayApplied :: bool

record 'q AllocatableOfferings =
  aoAllocatable :: "'q ResourceList"
  aoOfferings :: "'q Offering list"

definition MaxFloat64 :: rat where "MaxFloat64 = (2 ^ 53 - 1) * 2 ^ 971"

section \<open>Offerings\<close>

definition Available :: "'q Offering list \<Rightarrow> 'q Offering list" where
  "Available ofs = filter ofAvailable ofs"

text \<open>\<^verbatim>\<open>AllowUndefinedWellKnownLabels\<close> lets the well-known labels be undefined.\<close>

definition offering_compatible :: "label_env \<Rightarrow> requirements \<Rightarrow> 'q Offering \<Rightarrow> bool" where
  "offering_compatible E reqs o1 = IsCompatible E (WellKnownLabels E) reqs (ofRequirements o1)"

definition Offerings_Compatible :: "label_env \<Rightarrow> 'q Offering list \<Rightarrow> requirements \<Rightarrow> 'q Offering list" where
  "Offerings_Compatible E ofs reqs = filter (offering_compatible E reqs) ofs"

definition HasCompatible :: "label_env \<Rightarrow> 'q Offering list \<Rightarrow> requirements \<Rightarrow> bool" where
  "HasCompatible E ofs reqs = list_ex (offering_compatible E reqs) ofs"

type_synonym 'a extremum = "('a \<Rightarrow> 'a \<Rightarrow> bool) \<Rightarrow> 'a list \<Rightarrow> 'a"

definition Cheapest :: "'q Offering extremum \<Rightarrow> 'q Offering list \<Rightarrow> 'q Offering" where
  "Cheapest minBy ofs = minBy (\<lambda>a b. ofPrice a < ofPrice b) ofs"

definition MostExpensive :: "'q Offering extremum \<Rightarrow> 'q Offering list \<Rightarrow> 'q Offering" where
  "MostExpensive maxBy ofs = maxBy (\<lambda>a b. ofPrice a > ofPrice b) ofs"

text \<open>The requirements \<^verbatim>\<open>SpotRequirement\<close>, \<^verbatim>\<open>OnDemandRequirement\<close> and \<^verbatim>\<open>ReservedRequirement\<close>.\<close>

definition capacity_type_requirement :: "label_env \<Rightarrow> string \<Rightarrow> requirements" where
  "capacity_type_requirement E ct =
     (case NewRequirement E CapacityTypeLabelKey OpIn [ct] of
        Some r \<Rightarrow> NewRequirements E [r]
      | None \<Rightarrow> [])"

definition launch_order :: "string list" where
  "launch_order = [CapacityTypeReserved, CapacityTypeSpot, CapacityTypeOnDemand]"

fun launch_price ::
  "label_env \<Rightarrow> ('q Offering list \<Rightarrow> 'q Offering) \<Rightarrow> 'q Offering list \<Rightarrow> requirements \<Rightarrow> string list \<Rightarrow> rat" where
  "launch_price E pick ofs reqs [] = MaxFloat64"
| "launch_price E pick ofs reqs (ct # cts) =
     (let compatOfs = Offerings_Compatible E (Offerings_Compatible E ofs reqs) (capacity_type_requirement E ct) in
      if compatOfs \<noteq> [] then ofPrice (pick compatOfs) else launch_price E pick ofs reqs cts)"

definition WorstLaunchPrice :: "label_env \<Rightarrow> 'q Offering extremum \<Rightarrow> 'q Offering list \<Rightarrow> requirements \<Rightarrow> rat" where
  "WorstLaunchPrice E maxBy ofs reqs = launch_price E (MostExpensive maxBy) ofs reqs launch_order"

definition CheapestLaunchPrice :: "label_env \<Rightarrow> 'q Offering extremum \<Rightarrow> 'q Offering list \<Rightarrow> requirements \<Rightarrow> rat" where
  "CheapestLaunchPrice E minBy ofs reqs = launch_price E (Cheapest minBy) ofs reqs launch_order"

text \<open>The label values of an offering; None is the panic of \<^verbatim>\<open>Any\<close>.\<close>

definition CapacityType :: "label_env \<Rightarrow> (string set \<Rightarrow> string) \<Rightarrow> (int \<Rightarrow> int) \<Rightarrow> 'q Offering \<Rightarrow> string option" where
  "CapacityType E pick intn o1 = Requirement_Any pick intn (Requirements_Get E (ofRequirements o1) CapacityTypeLabelKey)"

definition Zone :: "label_env \<Rightarrow> (string set \<Rightarrow> string) \<Rightarrow> (int \<Rightarrow> int) \<Rightarrow> 'q Offering \<Rightarrow> string option" where
  "Zone E pick intn o1 = Requirement_Any pick intn (Requirements_Get E (ofRequirements o1) LabelTopologyZone)"

definition ReservationID ::
  "label_env \<Rightarrow> (string set \<Rightarrow> string) \<Rightarrow> (int \<Rightarrow> int) \<Rightarrow> string \<Rightarrow> 'q Offering \<Rightarrow> string option" where
  "ReservationID E pick intn reservationIDLabel o1 =
     Requirement_Any pick intn (Requirements_Get E (ofRequirements o1) reservationIDLabel)"

section \<open>Allocatable resources\<close>

definition Total :: "'q::linordered_ab_group_add InstanceTypeOverhead \<Rightarrow> 'q ResourceList" where
  "Total i = Merge [KubeReserved i, SystemReserved i, EvictionThreshold i]"

definition ResourceMemory :: string where "ResourceMemory = ''memory''"
definition ResourceHugePagesPrefix :: string where "ResourceHugePagesPrefix = ''hugepages-''"

text \<open>None is the panic on an instance type without overhead.\<close>

definition computeAllocatable ::
  "'q::linordered_ab_group_add InstanceType \<Rightarrow> 'q ResourceList \<Rightarrow> 'q InstanceTypeOverhead option
     \<Rightarrow> 'q ResourceList option" where
  "computeAllocatable i capacityOverride overheadOverride =
     (case itOverhead i of
        None \<Rightarrow> None
      | Some base \<Rightarrow>
          (let capacity = (if capacityOverride \<noteq> [] then Merge [itCapacity i, capacityOverride] else itCapacity i);
               overhead = (case overheadOverride of
                             None \<Rightarrow> Total base
                           | Some ov \<Rightarrow> Merge [Total base, Total ov]);
               allocatable = Subtract capacity overhead
           in Some (foldl (\<lambda>acc (name, quantity).
                if HasPrefix name ResourceHugePagesPrefix
                then mput ResourceMemory (max 0 (mget 0 acc ResourceMemory - quantity)) acc
                else acc) allocatable capacity)))"

type_synonym override_key = "string \<times> string"

definition has_override :: "'q Offering \<Rightarrow> bool" where
  "has_override o1 \<longleftrightarrow> ofCapacityOverride o1 \<noteq> [] \<or> ofOverheadOverride o1 \<noteq> None"

text \<open>\<open>showC\<close> and \<open>showO\<close> are the texts printed for the two overrides of an offering.\<close>

definition override_key_of ::
  "('q Offering \<Rightarrow> string) \<Rightarrow> ('q Offering \<Rightarrow> string) \<Rightarrow> 'q Offering \<Rightarrow> override_key" where
  "override_key_of showC showO o1 = (showC o1, showO o1)"

definition group_offering ::
  "('q Offering \<Rightarrow> string) \<Rightarrow> ('q Offering \<Rightarrow> string) \<Rightarrow>
     override_key list \<times> (override_key, 'q Offering list) gomap \<Rightarrow> 'q Offering \<Rightarrow>
     override_key list \<times> (override_key, 'q Offering list) gomap" where
  "group_offering showC showO s o1 =
     (case s of (order, groups) \<Rightarrow>
        if \<not> ofAvailable o1 then (order, groups)
        else if \<not> has_override o1 then (order, mput ([], []) (mget [] groups ([], []) @ [o1]) groups)
        else
          (let key = override_key_of showC showO o1;
               order' = (if mhas groups key then order else order @ [key])
           in (order', mput key (mget [] groups key @ [o1]) groups)))"

text \<open>The first group takes the base resources, every other those of its first offering.\<close>

definition build_group ::
  "'q::linordered_ab_group_add InstanceType \<Rightarrow> (override_key, 'q Offering list) gomap \<Rightarrow> nat \<times> override_key
     \<Rightarrow> 'q AllocatableOfferings option" where
  "build_group i groups e =
     (case e of (idx, key) \<Rightarrow>
        (let ofs = mget [] groups key in
         if idx = 0 then
           map_option (\<lambda>a. \<lparr>aoAllocatable = a, aoOfferings = ofs\<rparr>) (computeAllocatable i [] None)
         else case ofs of
           [] \<Rightarrow> None
         | o1 # _ \<Rightarrow>
             map_option (\<lambda>a. \<lparr>aoAllocatable = a, aoOfferings = ofs\<rparr>)
               (computeAllocatable i (ofCapacityOverride o1) (ofOverheadOverride o1))))"

definition groupOfferingsByOverride ::
  "('q::linordered_ab_group_add Offering \<Rightarrow> string) \<Rightarrow> ('q Offering \<Rightarrow> string) \<Rightarrow>
     'q InstanceType \<Rightarrow> 'q AllocatableOfferings list option" where
  "groupOfferingsByOverride showC showO i =
     (case foldl (group_offering showC showO) ([([], [])], [(([], []), [])]) (itOfferings i) of
        (order, groups) \<Rightarrow> those (map (build_group i groups) (enumerate 0 order)))"

definition precompute ::
  "('q::linordered_ab_group_add Offering \<Rightarrow> string) \<Rightarrow> ('q Offering \<Rightarrow> string) \<Rightarrow>
     'q InstanceType \<Rightarrow> 'q AllocatableOfferings list option" where
  "precompute showC showO i =
     (if \<not> list_ex has_override (itOfferings i)
      then map_option (\<lambda>a. [\<lparr>aoAllocatable = a, aoOfferings = Available (itOfferings i)\<rparr>])
             (computeAllocatable i [] None)
      else groupOfferingsByOverride showC showO i)"

definition Allocatable ::
  "('q::linordered_ab_group_add Offering \<Rightarrow> string) \<Rightarrow> ('q Offering \<Rightarrow> string) \<Rightarrow>
     'q InstanceType \<Rightarrow> 'q ResourceList option" where
  "Allocatable showC showO i =
     (case precompute showC showO i of
        Some (g # _) \<Rightarrow> Some (aoAllocatable g)
      | _ \<Rightarrow> None)"

fun OfferingPrice ::
  "label_env \<Rightarrow> (string set \<Rightarrow> string) \<Rightarrow> (int \<Rightarrow> int) \<Rightarrow> 'q Offering list \<Rightarrow> string \<Rightarrow> string \<Rightarrow> (rat \<times> bool) option" where
  "OfferingPrice E pick intn [] zone capacityType = Some (0, False)"
| "OfferingPrice E pick intn (o1 # ofs) zone capacityType =
     (case Zone E pick intn o1 of
        None \<Rightarrow> None
      | Some z \<Rightarrow>
          if z \<noteq> zone then OfferingPrice E pick intn ofs zone capacityType
          else case CapacityType E pick intn o1 of
            None \<Rightarrow> None
          | Some ct \<Rightarrow>
              if ct = capacityType then Some (ofPrice o1, True)
              else OfferingPrice E pick intn ofs zone capacityType)"

definition IsPricingOverlayApplied :: "'q InstanceType \<Rightarrow> bool" where
  "IsPricingOverlayApplied i = list_ex ofPriceOverlayApplied (itOfferings i)"

text \<open>\<^verbatim>\<open>lo.Assign\<close> lets the entries of the later map win.\<close>

definition ApplyCapacityOverlay :: "'q InstanceType \<Rightarrow> 'q ResourceList \<Rightarrow> 'q InstanceType" where
  "ApplyCapacityOverlay i updatedCapacity =
     i\<lparr>itCapacity := foldl (\<lambda>m (k, v). mput k v m) (itCapacity i) updatedCapacity,
       itCapacityOverlayApplied := True\<rparr>"

section \<open>Lists of instance types\<close>

definition compatible_price :: "label_env \<Rightarrow> requirements \<Rightarrow> 'q InstanceType \<Rightarrow> rat" where
  "compatible_price E reqs it =
     foldl (\<lambda>price o1. if ofAvailable o1 \<and> ofPrice o1 < price \<and> offering_compatible E reqs o1
                       then ofPrice o1 else price) MaxFloat64 (itOfferings it)"

definition OrderByPrice ::
  "label_env \<Rightarrow> (('q InstanceType \<times> rat) list \<Rightarrow> ('q InstanceType \<times> rat) list) \<Rightarrow> 'q InstanceType list
     \<Rightarrow> requirements \<Rightarrow> 'q InstanceType list" where
  "OrderByPrice E sortByPrice its reqs =
     map fst (sortByPrice (map (\<lambda>it. (it, compatible_price E reqs it)) its))"

definition InstanceTypes_Compatible :: "label_env \<Rightarrow> 'q InstanceType list \<Rightarrow> requirements \<Rightarrow> 'q InstanceType list" where
  "InstanceTypes_Compatible E its reqs = filter (\<lambda>it. HasCompatible E (Available (itOfferings it)) reqs) its"

text \<open>
  One turn of the loop of \<^verbatim>\<open>SatisfiesMinValues\<close>: the values seen for each key with a minimum grow by
  those of the instance type, then the keys still short of their minimum are updated.
\<close>

definition min_values_collect ::
  "label_env \<Rightarrow> requirements \<Rightarrow> (string, string set) gomap \<Rightarrow> 'q InstanceType \<Rightarrow> (string, string set) gomap" where
  "min_values_collect E reqs valuesForKey it =
     foldl (\<lambda>m (_, req). if MinValues req = None then m
              else mput (Key req)
                     (mget {} m (Key req) \<union> rvalues (Requirements_Get E (itRequirements it) (Key req))) m)
       valuesForKey reqs"

definition min_values_short ::
  "label_env \<Rightarrow> requirements \<Rightarrow> (string, string set) gomap \<Rightarrow> (string, int) gomap \<Rightarrow> (string, int) gomap" where
  "min_values_short E reqs valuesForKey incompatibleKeys =
     foldl (\<lambda>m (k, v).
        if int (card v) < (case MinValues (Requirements_Get E reqs k) of None \<Rightarrow> 0 | Some n \<Rightarrow> n)
        then mput k (int (card v)) m else mdel k m) incompatibleKeys valuesForKey"

fun min_values_loop ::
  "label_env \<Rightarrow> requirements \<Rightarrow> nat \<Rightarrow> 'q InstanceType list \<Rightarrow> (string, string set) gomap \<Rightarrow> (string, int) gomap
     \<Rightarrow> nat \<times> (string, int) gomap" where
  "min_values_loop E reqs i [] vals inc = (i, inc)"
| "min_values_loop E reqs i (it # its) vals inc =
     (let vals' = min_values_collect E reqs vals it;
          inc' = min_values_short E reqs vals' inc
      in if inc' = [] then (i + 1, []) else min_values_loop E reqs (i + 1) its vals' inc')"

text \<open>The number of instance types needed, and the keys that fall short; no such key is no error.\<close>

definition SatisfiesMinValues ::
  "label_env \<Rightarrow> 'q InstanceType list \<Rightarrow> requirements \<Rightarrow> nat \<times> (string, int) gomap" where
  "SatisfiesMinValues E its reqs =
     (if \<not> HasMinValues reqs then (0, []) else min_values_loop E reqs 0 its [] [])"

text \<open>
  The sort works in place, so when the minimum fails the list handed back with the error is the
  sorted one. An empty map is no error.
\<close>

definition Truncate ::
  "label_env \<Rightarrow> (('q InstanceType \<times> rat) list \<Rightarrow> ('q InstanceType \<times> rat) list) \<Rightarrow> bool \<Rightarrow>
     'q InstanceType list \<Rightarrow> requirements \<Rightarrow> nat \<Rightarrow> 'q InstanceType list \<times> (string, int) gomap" where
  "Truncate E sortByPrice bestEffort its reqs maxItems =
     (let sorted = OrderByPrice E sortByPrice its reqs;
          truncated = take maxItems sorted;
          short = snd (SatisfiesMinValues E truncated reqs)
      in if HasMinValues reqs \<and> \<not> bestEffort \<and> short \<noteq> [] then (sorted, short) else (truncated, []))"

section \<open>Launch prices\<close>

text \<open>What the code relies on from \<^verbatim>\<open>lo.MinBy\<close> and \<^verbatim>\<open>lo.MaxBy\<close>: a member that no member beats.\<close>

definition extremal :: "'a extremum \<Rightarrow> bool" where
  "extremal f \<longleftrightarrow> (\<forall>better xs. xs \<noteq> [] \<longrightarrow> irreflp better \<longrightarrow> transp better \<longrightarrow>
     f better xs \<in> set xs \<and> (\<forall>x \<in> set xs. \<not> better x (f better xs)))"

text \<open>The offerings that a launch would use: those of the first capacity type that has any.\<close>

fun launchable :: "label_env \<Rightarrow> 'q Offering list \<Rightarrow> requirements \<Rightarrow> string list \<Rightarrow> 'q Offering list" where
  "launchable E ofs reqs [] = []"
| "launchable E ofs reqs (ct # cts) =
     (let compat = Offerings_Compatible E (Offerings_Compatible E ofs reqs) (capacity_type_requirement E ct) in
      if compat \<noteq> [] then compat else launchable E ofs reqs cts)"

lemma launch_price_eq:
  "launch_price E pick ofs reqs cts =
     (if launchable E ofs reqs cts = [] then MaxFloat64 else ofPrice (pick (launchable E ofs reqs cts)))"
  by (induction cts) (simp_all add: Let_def)

lemma extremal_price:
  assumes "extremal f" "xs \<noteq> []"
  shows "Cheapest f xs \<in> set xs \<and> (\<forall>x \<in> set xs. ofPrice (Cheapest f xs) \<le> ofPrice x)"
    and "MostExpensive f xs \<in> set xs \<and> (\<forall>x \<in> set xs. ofPrice x \<le> ofPrice (MostExpensive f xs))"
proof -
  have lt: "irreflp (\<lambda>a b. ofPrice a < ofPrice b)" "transp (\<lambda>a b. ofPrice a < ofPrice b)"
    and gt: "irreflp (\<lambda>a b. ofPrice a > ofPrice b)" "transp (\<lambda>a b. ofPrice a > ofPrice b)"
    by (auto intro!: irreflpI transpI)
  show "Cheapest f xs \<in> set xs \<and> (\<forall>x \<in> set xs. ofPrice (Cheapest f xs) \<le> ofPrice x)"
    using assms lt unfolding extremal_def Cheapest_def by (metis linorder_not_less)
  show "MostExpensive f xs \<in> set xs \<and> (\<forall>x \<in> set xs. ofPrice x \<le> ofPrice (MostExpensive f xs))"
    using assms gt unfolding extremal_def MostExpensive_def by (metis linorder_not_less)
qed

text \<open>The linear search that such a function performs.\<close>

definition first_best :: "'a extremum" where
  "first_best better xs = foldl (\<lambda>best x. if better x best then x else best) (hd xs) (tl xs)"

lemma fold_best:
  assumes "irreflp better" "transp better"
  shows "foldl (\<lambda>best x. if better x best then x else best) b xs \<in> set (b # xs) \<and>
     (\<forall>x \<in> set (b # xs). \<not> better x (foldl (\<lambda>best x. if better x best then x else best) b xs))"
proof (induction xs rule: rev_induct)
  case Nil
  then show ?case using assms(1) by (auto dest: irreflpD)
next
  case (snoc y xs)
  define m where "m = foldl (\<lambda>best x. if better x best then x else best) b xs"
  have m: "m \<in> set (b # xs)" "\<forall>x \<in> set (b # xs). \<not> better x m" using snoc by (simp_all add: m_def)
  show ?case
  proof (cases "better y m")
    case True
    have "\<not> better x y" if "x \<in> set (b # xs)" for x
      using m(2) that True assms(2) by (meson transpD)
    then show ?thesis using True irreflpD[OF assms(1)] by (auto simp: m_def[symmetric])
  next
    case False
    then show ?thesis using m by (auto simp: m_def[symmetric])
  qed
qed

lemma first_best_extremal: "extremal first_best"
proof -
  have "first_best better xs \<in> set xs \<and> (\<forall>x \<in> set xs. \<not> better x (first_best better xs))"
    if "xs \<noteq> []" "irreflp better" "transp better" for better and xs :: "'a list"
    using fold_best[OF that(2,3), of "hd xs" "tl xs"] that(1) by (simp add: first_best_def)
  then show ?thesis unfolding extremal_def by blast
qed

section \<open>Minimum values\<close>

definition min_of :: "requirements \<Rightarrow> string \<Rightarrow> int option" where
  "min_of reqs k = Option.bind (map_of reqs k) MinValues"

text \<open>The values that a list of instance types offers for a label.\<close>

definition offered :: "label_env \<Rightarrow> 'q InstanceType list \<Rightarrow> string \<Rightarrow> string set" where
  "offered E its k = (\<Union>it \<in> set its. rvalues (Requirements_Get E (itRequirements it) k))"

definition min_satisfied :: "label_env \<Rightarrow> requirements \<Rightarrow> 'q InstanceType list \<Rightarrow> bool" where
  "min_satisfied E reqs its \<longleftrightarrow> (\<forall>k m. min_of reqs k = Some m \<longrightarrow> m \<le> int (card (offered E its k)))"

lemma offered_simps [simp]:
  "offered E [] k = {}"
  "offered E (xs @ [it]) k = offered E xs k \<union> rvalues (Requirements_Get E (itRequirements it) k)"
  by (auto simp: offered_def)

lemma collect_gen:
  assumes "\<forall>(k, r) \<in> set reqs. Key r = k" "wf_map reqs"
  shows "map_of (min_values_collect E reqs vals it) k =
     (if min_of reqs k = None then map_of vals k
      else Some (mget {} vals k \<union> rvalues (Requirements_Get E (itRequirements it) k)))"
  using assms unfolding min_values_collect_def
proof (induction reqs arbitrary: vals)
  case Nil
  then show ?case by (simp add: min_of_def)
next
  case (Cons e reqs)
  obtain j r where e: "e = (j, r)" by (cases e)
  have j: "Key r = j" "map_of reqs j = None" using Cons.prems e by (auto simp: map_of_eq_None_iff)
  have IH: "map_of (foldl (\<lambda>m (_, req). if MinValues req = None then m
              else mput (Key req)
                     (mget {} m (Key req) \<union> rvalues (Requirements_Get E (itRequirements it) (Key req))) m)
       v reqs) k = (if min_of reqs k = None then map_of v k
      else Some (mget {} v k \<union> rvalues (Requirements_Get E (itRequirements it) k)))" for v
    using Cons.IH Cons.prems by simp
  show ?case
    unfolding e foldl_Cons IH using j
    by (cases "k = j"; cases "MinValues r") (auto simp: min_of_def gomap_simps)
qed

lemma short_gen:
  assumes "wf_map vals"
  shows "map_of (min_values_short E reqs vals inc) k =
     (case map_of vals k of
        None \<Rightarrow> map_of inc k
      | Some v \<Rightarrow>
          if int (card v) < (case MinValues (Requirements_Get E reqs k) of None \<Rightarrow> 0 | Some n \<Rightarrow> n)
          then Some (int (card v)) else None)"
  using assms unfolding min_values_short_def
proof (induction vals arbitrary: inc)
  case Nil
  then show ?case by simp
next
  case (Cons e vals)
  obtain j v where e: "e = (j, v)" by (cases e)
  have j: "map_of vals j = None" using Cons.prems e by (simp add: map_of_eq_None_iff)
  show ?case
    using Cons j by (cases "k = j"; cases "map_of vals k") (auto simp: e gomap_simps)
qed

lemma wf_collect: "wf_map vals \<Longrightarrow> wf_map (min_values_collect E reqs vals it)"
  unfolding min_values_collect_def
  by (induction reqs arbitrary: vals) (auto simp: split_def intro: wf_map_mput)

lemma min_of_Get: "min_of reqs k = Some m \<Longrightarrow> MinValues (Requirements_Get E reqs k) = Some m"
  by (auto simp: min_of_def Requirements_Get_def bind_eq_Some_conv)

text \<open>What the loop's two maps hold after a prefix of the instance types.\<close>

definition mv_state ::
  "label_env \<Rightarrow> requirements \<Rightarrow> 'q InstanceType list \<Rightarrow> (string, string set) gomap \<Rightarrow> (string, int) gomap \<Rightarrow> bool" where
  "mv_state E reqs P vals inc \<longleftrightarrow> wf_map vals \<and>
     (\<forall>k. mget {} vals k = (if min_of reqs k = None then {} else offered E P k)) \<and>
     (\<forall>k. mhas vals k \<longrightarrow> min_of reqs k \<noteq> None) \<and>
     (\<forall>k n. map_of inc k = Some n \<longleftrightarrow> P \<noteq> [] \<and>
        (\<exists>m. min_of reqs k = Some m \<and> n = int (card (offered E P k)) \<and> n < m))"

lemma mv_state_step:
  assumes "\<forall>(k, r) \<in> set reqs. Key r = k" "wf_map reqs" "mv_state E reqs P vals inc"
  shows "mv_state E reqs (P @ [it]) (min_values_collect E reqs vals it)
           (min_values_short E reqs (min_values_collect E reqs vals it) inc)"
proof -
  let ?vals = "min_values_collect E reqs vals it"
  have wf: "wf_map ?vals" using assms(3) by (simp add: mv_state_def wf_collect)
  have "map_of vals k = None" if "min_of reqs k = None" for k
    using assms(3) that unfolding mv_state_def by blast
  moreover have "mget {} vals k = offered E P k" if "min_of reqs k \<noteq> None" for k
    using assms(3) that unfolding mv_state_def by metis
  ultimately have vals: "map_of ?vals k =
      (if min_of reqs k = None then None else Some (offered E (P @ [it]) k))" for k
    by (simp add: collect_gen[OF assms(1,2)])
  have inc: "map_of (min_values_short E reqs ?vals inc) k = Some n \<longleftrightarrow>
      (\<exists>m. min_of reqs k = Some m \<and> n = int (card (offered E (P @ [it]) k)) \<and> n < m)" for k n
  proof (cases "min_of reqs k")
    case None
    then show ?thesis using assms(3) by (auto simp: short_gen[OF wf] vals mv_state_def)
  next
    case (Some m)
    then show ?thesis by (auto simp: short_gen[OF wf] vals min_of_Get)
  qed
  show ?thesis unfolding mv_state_def using wf by (auto simp: vals inc mget_def simp del: offered_simps)
qed

lemma mv_state_nil:
  assumes "mv_state E reqs P vals inc" "P \<noteq> []"
  shows "inc = [] \<longleftrightarrow> min_satisfied E reqs P"
proof -
  have "inc = [] \<longleftrightarrow> (\<forall>k. map_of inc k = None)" by (cases inc) (auto intro: exI[of _ "fst (hd inc)"])
  also have "\<dots> \<longleftrightarrow> min_satisfied E reqs P"
    using assms unfolding mv_state_def min_satisfied_def by (auto simp: not_less simp flip: not_Some_eq)
  finally show ?thesis .
qed

lemma min_values_loop_spec:
  assumes "\<forall>(k, r) \<in> set reqs. Key r = k" "wf_map reqs"
  shows "mv_state E reqs P vals inc \<Longrightarrow> min_values_loop E reqs (length P) its vals inc = (n, short) \<Longrightarrow>
    (its = [] \<and> n = length P \<and> short = inc) \<or>
    (its \<noteq> [] \<and> short = [] \<and> length P < n \<and> n \<le> length (P @ its) \<and> min_satisfied E reqs (take n (P @ its)) \<and>
       (\<forall>m. length P < m \<and> m < n \<longrightarrow> \<not> min_satisfied E reqs (take m (P @ its)))) \<or>
    (its \<noteq> [] \<and> n = length (P @ its) \<and>
       (\<forall>m. length P < m \<and> m \<le> length (P @ its) \<longrightarrow> \<not> min_satisfied E reqs (take m (P @ its))) \<and>
       (\<forall>k c. map_of short k = Some c \<longleftrightarrow>
          (\<exists>m. min_of reqs k = Some m \<and> c = int (card (offered E (P @ its) k)) \<and> c < m)))"
proof (induction its arbitrary: P vals inc)
  case Nil
  then show ?case by simp
next
  case (Cons it its)
  let ?vals = "min_values_collect E reqs vals it"
  let ?inc = "min_values_short E reqs ?vals inc"
  let ?P = "P @ [it]"
  have st: "mv_state E reqs ?P ?vals ?inc" by (rule mv_state_step[OF assms Cons.prems(1)])
  have nil: "?inc = [] \<longleftrightarrow> min_satisfied E reqs ?P" by (rule mv_state_nil[OF st]) simp
  have P: "?P @ its = P @ it # its" "take (Suc (length P)) (P @ it # its) = ?P" by simp_all
  show ?case
  proof (cases "?inc = []")
    case True
    then have "n = Suc (length P)" "short = []" using Cons.prems(2) by simp_all
    then show ?thesis using True nil P by auto
  next
    case False
    then have "min_values_loop E reqs (length ?P) its ?vals ?inc = (n, short)" using Cons.prems(2) by (simp add: Let_def)
    note IH = Cons.IH[OF st this]
    have first: "\<not> min_satisfied E reqs (take (Suc (length P)) (P @ it # its))" using False nil by simp
    from IH show ?thesis
    proof (elim disjE conjE)
      assume a: "its = []" "n = length ?P" "short = ?inc"
      have "\<not> min_satisfied E reqs (take m (P @ it # its))" if "length P < m" "m \<le> length (P @ it # its)" for m
        using that a(1) first by (cases "m = Suc (length P)") auto
      then show ?thesis using a st unfolding mv_state_def by (auto simp del: offered_simps)
    next
      assume a: "short = []" "length ?P < n" "n \<le> length (?P @ its)" "min_satisfied E reqs (take n (?P @ its))"
        "\<forall>m. length ?P < m \<and> m < n \<longrightarrow> \<not> min_satisfied E reqs (take m (?P @ its))"
      have "\<not> min_satisfied E reqs (take m (P @ it # its))" if "length P < m" "m < n" for m
        using that a(5) first unfolding P(1) by (cases "m = Suc (length P)") auto
      then show ?thesis using a unfolding P(1) by auto
    next
      assume a: "n = length (?P @ its)"
        "\<forall>m. length ?P < m \<and> m \<le> length (?P @ its) \<longrightarrow> \<not> min_satisfied E reqs (take m (?P @ its))"
        "\<forall>k c. map_of short k = Some c \<longleftrightarrow>
          (\<exists>m. min_of reqs k = Some m \<and> c = int (card (offered E (?P @ its) k)) \<and> c < m)"
      have "\<not> min_satisfied E reqs (take m (P @ it # its))" if "length P < m" "m \<le> length (P @ it # its)" for m
        using that a(2) first unfolding P(1) by (cases "m = Suc (length P)") auto
      then show ?thesis using a(1,3) unfolding P(1) by simp
    qed
  qed
qed

lemma SatisfiesMinValues_spec:
  assumes "wf_requirements E reqs" "HasMinValues reqs" "its \<noteq> []" "SatisfiesMinValues E its reqs = (n, short)"
  shows "short = [] \<and> 0 < n \<and> n \<le> length its \<and> min_satisfied E reqs (take n its) \<and>
           (\<forall>m. 0 < m \<and> m < n \<longrightarrow> \<not> min_satisfied E reqs (take m its)) \<or>
         n = length its \<and> (\<forall>m. 0 < m \<and> m \<le> length its \<longrightarrow> \<not> min_satisfied E reqs (take m its)) \<and>
           (\<forall>k c. map_of short k = Some c \<longleftrightarrow>
              (\<exists>m. min_of reqs k = Some m \<and> c = int (card (offered E its k)) \<and> c < m))"
proof -
  have keys: "\<forall>(k, r) \<in> set reqs. Key r = k" "wf_map reqs"
    using wf_requirementsD(1)[OF assms(1)] wf_requirements_map[OF assms(1)] by (auto simp: map_of_in_set)
  have "mv_state E reqs [] [] []" by (simp add: mv_state_def mget_def)
  moreover have "min_values_loop E reqs (length ([] :: 'a InstanceType list)) its [] [] = (n, short)"
    using assms(2,4) by (simp add: SatisfiesMinValues_def)
  ultimately show ?thesis using min_values_loop_spec[OF keys, of E "[]" "[]" "[]" its n short] assms(3) by simp
qed

lemma short_nonempty:
  assumes "\<not> min_satisfied E reqs its"
    "\<forall>k c. map_of short k = Some c \<longleftrightarrow>
       (\<exists>m. min_of reqs k = Some m \<and> c = int (card (offered E its k)) \<and> c < m)"
  shows "short \<noteq> []"
proof
  assume "short = []"
  with assms(2) have "\<not> (\<exists>m. min_of reqs k = Some m \<and> int (card (offered E its k)) < m)" for k by auto
  with assms(1) show False by (auto simp: min_satisfied_def not_le)
qed

lemma SatisfiesMinValues_exact_aux:
  assumes "wf_requirements E reqs" "HasMinValues reqs" "its \<noteq> []" "SatisfiesMinValues E its reqs = (n, short)" "short = []"
  shows "\<exists>m. 0 < m \<and> m \<le> length its \<and> min_satisfied E reqs (take m its)"
  using SatisfiesMinValues_spec[OF assms(1-4)]
proof (elim disjE conjE)
  assume a: "\<forall>m. 0 < m \<and> m \<le> length its \<longrightarrow> \<not> min_satisfied E reqs (take m its)"
    "\<forall>k c. map_of short k = Some c \<longleftrightarrow>
       (\<exists>m. min_of reqs k = Some m \<and> c = int (card (offered E its k)) \<and> c < m)"
  have "\<not> min_satisfied E reqs its" using a(1) assms(3) by (metis length_greater_0_conv order_refl take_all)
  from short_nonempty[OF this a(2)] show ?thesis using assms(5) by blast
qed blast

section \<open>Ordering\<close>

text \<open>\<^verbatim>\<open>instanceTypesByPrice.Less\<close> compares the prices kept beside the instance types.\<close>

definition cheaper :: "'q InstanceType \<times> rat \<Rightarrow> 'q InstanceType \<times> rat \<Rightarrow> bool" where
  "cheaper a b \<longleftrightarrow> snd a < snd b"

interpretation by_price: key_order cheaper
  by unfold_locales (auto simp: cheaper_def)

lemma OrderByPrice_spec:
  assumes "sorts_by cheaper sortByPrice"
  shows "mset (OrderByPrice E sortByPrice its reqs) = mset its"
    and "sorted_wrt (\<lambda>a b. compatible_price E reqs a \<le> compatible_price E reqs b)
           (OrderByPrice E sortByPrice its reqs)"
proof -
  let ?xs = "map (\<lambda>it. (it, compatible_price E reqs it)) its"
  have s: "mset (sortByPrice ?xs) = mset ?xs" "sorted_wrt (\<lambda>x y. \<not> snd y < snd x) (sortByPrice ?xs)"
    using assms by (simp_all add: sorts_by_def cheaper_def)
  show "mset (OrderByPrice E sortByPrice its reqs) = mset its"
  proof -
    have "mset (map fst (sortByPrice ?xs)) = image_mset fst (mset ?xs)" by (simp only: mset_map s(1))
    then show ?thesis by (simp add: OrderByPrice_def multiset.map_comp comp_def)
  qed
  have price: "snd x = compatible_price E reqs (fst x)" if "x \<in> set (sortByPrice ?xs)" for x
  proof -
    have "x \<in> set ?xs" using that s(1) by (metis set_mset_mset)
    then show ?thesis by auto
  qed
  have "sorted_wrt (\<lambda>x y. compatible_price E reqs (fst x) \<le> compatible_price E reqs (fst y)) (sortByPrice ?xs)"
    using s(2) price by (auto simp: sorted_wrt_iff_nth_less not_less)
  then show "sorted_wrt (\<lambda>a b. compatible_price E reqs a \<le> compatible_price E reqs b)
           (OrderByPrice E sortByPrice its reqs)"
    by (simp add: OrderByPrice_def sorted_wrt_map)
qed

lemma sorted_wrt_take_drop:
  "sorted_wrt R xs \<Longrightarrow> a \<in> set (take n xs) \<Longrightarrow> b \<in> set (drop n xs) \<Longrightarrow> R a b"
  by (metis append_take_drop_id sorted_wrt_append)

section \<open>Groups of offerings\<close>

text \<open>
  The text printed for an override must tell apart overrides that differ, and is never empty: a map
  prints as \<^verbatim>\<open>map[...]\<close> and a nil pointer as \<^verbatim>\<open><nil>\<close>.
\<close>

definition faithful_text :: "('q Offering \<Rightarrow> string) \<Rightarrow> ('q Offering \<Rightarrow> string) \<Rightarrow> 'q Offering list \<Rightarrow> bool" where
  "faithful_text showC showO ofs \<longleftrightarrow>
     (\<forall>a \<in> set ofs. showC a \<noteq> []) \<and>
     (\<forall>a \<in> set ofs. \<forall>b \<in> set ofs. showC a = showC b \<longrightarrow> ofCapacityOverride a = ofCapacityOverride b) \<and>
     (\<forall>a \<in> set ofs. \<forall>b \<in> set ofs. showO a = showO b \<longrightarrow> ofOverheadOverride a = ofOverheadOverride b)"

definition group_key ::
  "('q Offering \<Rightarrow> string) \<Rightarrow> ('q Offering \<Rightarrow> string) \<Rightarrow> 'q Offering \<Rightarrow> override_key" where
  "group_key showC showO o1 = (if has_override o1 then override_key_of showC showO o1 else ([], []))"

lemma keys_update:
  "map fst (mput k v m) = (if k \<in> set (map fst m) then map fst m else map fst m @ [k])"
  by (induction m) auto

lemma map_mget_keys: "wf_map m \<Longrightarrow> map (mget z m) (map fst m) = map snd m"
  by (auto simp: mget_def)

lemma mset_update_snoc:
  "wf_map m \<Longrightarrow> mset (concat (map snd (mput k (mget [] m k @ [x]) m))) = add_mset x (mset (concat (map snd m)))"
proof (induction m)
  case Nil
  then show ?case by (simp add: mget_def)
next
  case (Cons e m)
  then show ?case by (cases e) (auto simp: mget_def)
qed

definition groups_ok ::
  "('q Offering \<Rightarrow> string) \<Rightarrow> ('q Offering \<Rightarrow> string) \<Rightarrow> 'q Offering list \<Rightarrow>
     override_key list \<times> (override_key, 'q Offering list) gomap \<Rightarrow> bool" where
  "groups_ok showC showO seen s \<longleftrightarrow>
     fst s = map fst (snd s) \<and> wf_map (snd s) \<and> hd (fst s) = ([], []) \<and> fst s \<noteq> [] \<and>
     mset (concat (map snd (snd s))) = mset (Available seen) \<and>
     (\<forall>k os. map_of (snd s) k = Some os \<longrightarrow>
        (\<forall>o1 \<in> set os. group_key showC showO o1 = k) \<and> (k \<noteq> ([], []) \<longrightarrow> os \<noteq> []))"

lemma groups_ok_step:
  assumes "groups_ok showC showO seen s"
  shows "groups_ok showC showO (seen @ [o1]) (group_offering showC showO s o1)"
proof (cases "ofAvailable o1")
  case False
  then have "group_offering showC showO s o1 = s" "Available (seen @ [o1]) = Available seen"
    by (simp_all add: group_offering_def Available_def split_def)
  moreover have "groups_ok showC showO (seen @ [o1]) s \<longleftrightarrow> groups_ok showC showO seen s"
    unfolding groups_ok_def \<open>Available (seen @ [o1]) = Available seen\<close> ..
  ultimately show ?thesis using assms by (simp only:)
next
  case True
  obtain order groups where s: "s = (order, groups)" by (cases s)
  let ?k = "group_key showC showO o1"
  have ok: "order = map fst groups" "wf_map groups" "hd order = ([], [])" "order \<noteq> []"
    "mset (concat (map snd groups)) = mset (Available seen)"
    and grp: "\<And>k os. map_of groups k = Some os \<Longrightarrow>
        (\<forall>o1 \<in> set os. group_key showC showO o1 = k) \<and> (k \<noteq> ([], []) \<longrightarrow> os \<noteq> [])"
    using assms[unfolded groups_ok_def s fst_conv snd_conv] by blast+
  have base: "([], []) \<in> set (map fst groups)" using ok(1,3,4) by (metis hd_in_set)
  have step: "group_offering showC showO s o1 =
      ((if ?k \<in> set (map fst groups) then order else order @ [?k]), mput ?k (mget [] groups ?k @ [o1]) groups)"
    using True base
    by (auto simp: group_offering_def s group_key_def Let_def map_of_eq_None_iff split: if_splits)
  have new: "(\<forall>x \<in> set os. group_key showC showO x = k) \<and> (k \<noteq> ([], []) \<longrightarrow> os \<noteq> [])"
    if "map_of (mput ?k (mget [] groups ?k @ [o1]) groups) k = Some os" for k os
  proof (cases "k = ?k")
    case True
    then have "os = mget [] groups ?k @ [o1]" using that by (simp add: map_of_mput)
    then show ?thesis using True grp by (auto simp: mget_def split: option.splits)
  next
    case False
    then show ?thesis using that grp by (simp add: map_of_mput)
  qed
  have avail: "mset (Available (seen @ [o1])) = add_mset o1 (mset (Available seen))"
    using True by (simp add: Available_def)
  show ?thesis
    unfolding groups_ok_def step fst_conv snd_conv
  proof (intro conjI)
    show "(if ?k \<in> set (map fst groups) then order else order @ [?k]) =
        map fst (mput ?k (mget [] groups ?k @ [o1]) groups)"
      by (simp only: keys_update ok(1))
    show "wf_map (mput ?k (mget [] groups ?k @ [o1]) groups)" by (rule wf_map_mput[OF ok(2)])
    show "hd (if ?k \<in> set (map fst groups) then order else order @ [?k]) = ([], [])" using ok(3,4) by simp
    show "(if ?k \<in> set (map fst groups) then order else order @ [?k]) \<noteq> []" using ok(4) by simp
    show "mset (concat (map snd (mput ?k (mget [] groups ?k @ [o1]) groups))) = mset (Available (seen @ [o1]))"
      by (simp only: mset_update_snoc[OF ok(2)] ok(5) avail)
    show "\<forall>k os. map_of (mput ?k (mget [] groups ?k @ [o1]) groups) k = Some os \<longrightarrow>
        (\<forall>o1 \<in> set os. group_key showC showO o1 = k) \<and> (k \<noteq> ([], []) \<longrightarrow> os \<noteq> [])"
      using new by blast
  qed
qed

lemma groups_ok_fold:
  "groups_ok showC showO seen s \<Longrightarrow> groups_ok showC showO (seen @ os) (foldl (group_offering showC showO) s os)"
proof (induction os arbitrary: seen s)
  case Nil
  then show ?case by simp
next
  case (Cons o1 os)
  from Cons.IH[OF groups_ok_step[OF Cons.prems]] show ?case by simp
qed

lemma groups_ok_init: "groups_ok showC showO [] ([([], [])], [(([], []), [])])"
  by (simp add: groups_ok_def Available_def)

lemma computeAllocatable_total: "itOverhead i \<noteq> None \<Longrightarrow> \<exists>a. computeAllocatable i c v = Some a"
  by (auto simp: computeAllocatable_def Let_def)

text \<open>A group is right when it has the allocatable resources of each of its offerings.\<close>

definition group_right :: "'q::linordered_ab_group_add InstanceType \<Rightarrow> 'q AllocatableOfferings \<Rightarrow> bool" where
  "group_right i g \<longleftrightarrow> (\<forall>o1 \<in> set (aoOfferings g).
     computeAllocatable i (ofCapacityOverride o1) (ofOverheadOverride o1) = Some (aoAllocatable g))"

lemma those_Some: "\<forall>x \<in> set xs. f x = Some (g x) \<Longrightarrow> those (map f xs) = Some (map g xs)"
  by (induction xs) auto

lemma no_override: "\<not> has_override o1 \<longleftrightarrow> ofCapacityOverride o1 = [] \<and> ofOverheadOverride o1 = None"
  by (auto simp: has_override_def)

lemma same_group_key:
  assumes "faithful_text showC showO ofs" "a \<in> set ofs" "b \<in> set ofs"
    and "group_key showC showO a = group_key showC showO b"
  shows "ofCapacityOverride a = ofCapacityOverride b \<and> ofOverheadOverride a = ofOverheadOverride b"
proof -
  have ne: "override_key_of showC showO a \<noteq> ([], [])" "override_key_of showC showO b \<noteq> ([], [])"
    using assms(1-3) by (simp_all add: override_key_of_def faithful_text_def)
  show ?thesis
  proof (cases "has_override a")
    case True
    then have "override_key_of showC showO a = override_key_of showC showO b"
      using assms(4) ne by (auto simp: group_key_def split: if_splits)
    then show ?thesis using assms(1-3) unfolding faithful_text_def override_key_of_def by blast
  next
    case False
    then have "\<not> has_override b" using assms(4) ne by (auto simp: group_key_def split: if_splits)
    then show ?thesis using False by (simp add: no_override)
  qed
qed

lemma groupOfferings_spec:
  assumes "faithful_text showC showO (itOfferings i)" "itOverhead i \<noteq> None"
  shows "\<exists>gs. groupOfferingsByOverride showC showO i = Some gs \<and> gs \<noteq> [] \<and>
     Some (aoAllocatable (hd gs)) = computeAllocatable i [] None \<and>
     mset (concat (map aoOfferings gs)) = mset (Available (itOfferings i)) \<and> (\<forall>g \<in> set gs. group_right i g)"
proof -
  obtain order groups where og:
    "foldl (group_offering showC showO) ([([], [])], [(([], []), [])]) (itOfferings i) = (order, groups)"
    by fastforce
  have ok: "groups_ok showC showO (itOfferings i) (order, groups)"
    using groups_ok_fold[OF groups_ok_init, of showC showO "itOfferings i"] og by simp
  have order: "order = map fst groups" "wf_map groups" "hd order = ([], [])" "order \<noteq> []"
    and ms: "mset (concat (map snd groups)) = mset (Available (itOfferings i))"
    and grp: "\<And>k os. map_of groups k = Some os \<Longrightarrow>
        (\<forall>o1 \<in> set os. group_key showC showO o1 = k) \<and> (k \<noteq> ([], []) \<longrightarrow> os \<noteq> [])"
    using ok[unfolded groups_ok_def fst_conv snd_conv] by blast+
  define alloc where "alloc = (\<lambda>(idx :: nat, k). the (if idx = 0 then computeAllocatable i [] None
      else computeAllocatable i (ofCapacityOverride (hd (mget [] groups k))) (ofOverheadOverride (hd (mget [] groups k)))))"
  define mk where "mk = (\<lambda>e. \<lparr>aoAllocatable = alloc e, aoOfferings = mget [] groups (snd e)\<rparr>)"
  have mem: "o1 \<in> set (itOfferings i)" if "map_of groups k = Some os" "o1 \<in> set os" for k os o1
  proof -
    have "o1 \<in> set (concat (map snd groups))" using that by (force dest: map_of_SomeD)
    then show ?thesis using ms by (metis Available_def filter_is_subset set_mset_mset subsetD)
  qed
  have ne: "group_key showC showO o1 \<noteq> ([], [])" if "has_override o1" "o1 \<in> set (itOfferings i)" for o1
    using assms(1) that by (simp add: group_key_def override_key_of_def faithful_text_def)
  have entry: "build_group i groups e = Some (mk e) \<and> group_right i (mk e)" if e: "e \<in> set (enumerate 0 order)" for e
  proof -
    obtain idx k where ek: "e = (idx, k)" by (cases e)
    have idx: "idx < length order" "k = order ! idx" using e ek by (auto simp: in_set_enumerate_eq)
    then obtain os where os: "map_of groups k = Some os"
      using order(1,2) by (metis map_of_eq_None_iff nth_mem not_None_eq set_map)
    have get: "mget [] groups k = os" by (simp add: mget_def os)
    show ?thesis
    proof (cases "idx = 0")
      case True
      then have "k = ([], [])" using idx order(3,4) by (simp add: hd_conv_nth)
      then have none: "\<forall>o1 \<in> set os. \<not> has_override o1" using grp[OF os] ne mem[OF os] by blast
      obtain a where "computeAllocatable i [] None = Some a" using computeAllocatable_total[OF assms(2)] by blast
      then show ?thesis using True none
        by (auto simp: build_group_def ek mk_def alloc_def Let_def group_right_def get no_override)
    next
      case False
      then have "k \<noteq> ([], [])"
        using idx order by (metis hd_conv_nth length_greater_0_conv nth_eq_iff_index_eq)
      then have "os \<noteq> []" using grp[OF os] by blast
      then obtain o1 rest where o1: "os = o1 # rest" by (cases os) auto
      obtain a where a: "computeAllocatable i (ofCapacityOverride o1) (ofOverheadOverride o1) = Some a"
        using computeAllocatable_total[OF assms(2)] by blast
      have all: "\<forall>x \<in> set os. computeAllocatable i (ofCapacityOverride x) (ofOverheadOverride x) = Some a"
        using same_group_key[OF assms(1)] grp[OF os] mem[OF os] o1 a by (metis list.set_intros(1))
      have mk: "mk e = \<lparr>aoAllocatable = a, aoOfferings = os\<rparr>"
        using False a by (simp add: mk_def alloc_def ek get o1)
      have "build_group i groups e = Some (mk e)"
        using False a unfolding mk by (simp add: build_group_def ek Let_def get o1)
      then show ?thesis using all unfolding mk group_right_def by simp
    qed
  qed
  have gs: "groupOfferingsByOverride showC showO i = Some (map mk (enumerate 0 order))"
    unfolding groupOfferingsByOverride_def og using those_Some[of "enumerate 0 order" "build_group i groups" mk] entry
    by simp
  have "map (\<lambda>e. mget [] groups (snd e)) (enumerate 0 order) = map (mget [] groups) (map snd (enumerate 0 order))"
    by (simp only: map_map comp_def)
  also have "\<dots> = map snd groups" using order(1,2) by (simp only: map_snd_enumerate map_mget_keys)
  finally have "map (\<lambda>e. mget [] groups (snd e)) (enumerate 0 order) = map snd groups" .
  then have offs: "map aoOfferings (map mk (enumerate 0 order)) = map snd groups"
    by (simp add: mk_def comp_def)
  have "hd (enumerate 0 order) = (0, ([], []))" using order(3,4) by (cases order) auto
  then have "Some (aoAllocatable (hd (map mk (enumerate 0 order)))) = computeAllocatable i [] None"
    using order(4) computeAllocatable_total[OF assms(2), of "[]" None] by (cases order) (auto simp: mk_def alloc_def)
  then show ?thesis using gs ms offs entry order(4) by (intro exI[of _ "map mk (enumerate 0 order)"]) (auto simp: enumerate_eq_zip)
qed

section \<open>Properties\<close>


definition plain_offering :: "rat \<Rightarrow> int Offering" where
  "plain_offering p = \<lparr>ofRequirements = [], ofPrice = p, ofAvailable = True, ofReservationCapacity = 0,
     ofCapacityOverride = [], ofOverheadOverride = None, ofPriceOverlayApplied = False\<rparr>"

definition small_type :: "int InstanceType" where
  "small_type = \<lparr>itName = ''small'', itRequirements = [], itOfferings =
       [plain_offering 1, (plain_offering 2)\<lparr>ofCapacityOverride := [(''cpu'', 1)]\<rparr>],
     itCapacity = [(''cpu'', 2)], itOverhead = Some \<lparr>KubeReserved = [], SystemReserved = [], EvictionThreshold = []\<rparr>,
     itCapacityOverlayApplied = False\<rparr>"


text \<open>
  The check of minimum values, on a list of instance types that is not empty, finds the shortest
  prefix whose types together offer the required number of values for every label, or reports, when
  the whole list does not suffice, exactly the labels that fall short with the number of values found.
\<close>

theorem SatisfiesMinValues_exact:
  assumes "wf_requirements E reqs" "HasMinValues reqs" "its \<noteq> []" "SatisfiesMinValues E its reqs = (n, short)"
  shows "(short = [] \<longleftrightarrow> (\<exists>m. 0 < m \<and> m \<le> length its \<and> min_satisfied E reqs (take m its))) \<and>
     (short = [] \<longrightarrow> 0 < n \<and> min_satisfied E reqs (take n its) \<and>
        (\<forall>m. 0 < m \<and> m < n \<longrightarrow> \<not> min_satisfied E reqs (take m its))) \<and>
     (short \<noteq> [] \<longrightarrow> n = length its \<and>
        (\<forall>k c. map_of short k = Some c \<longleftrightarrow>
           (\<exists>m. min_of reqs k = Some m \<and> c = int (card (offered E its k)) \<and> c < m)))"
  using SatisfiesMinValues_spec[OF assms]
proof (elim disjE conjE)
  assume a: "n = length its" "\<forall>m. 0 < m \<and> m \<le> length its \<longrightarrow> \<not> min_satisfied E reqs (take m its)"
    "\<forall>k c. map_of short k = Some c \<longleftrightarrow>
       (\<exists>m. min_of reqs k = Some m \<and> c = int (card (offered E its k)) \<and> c < m)"
  have "\<not> min_satisfied E reqs its" using a(2) assms(3) by (metis length_greater_0_conv order_refl take_all)
  from short_nonempty[OF this a(3)] show ?thesis using a by blast
qed blast

definition family_type :: "string \<Rightarrow> int InstanceType" where
  "family_type f = small_type\<lparr>itRequirements :=
     [(''family'', \<lparr>Key = ''family'', complement = False, rvalues = {f}, gte = None, lte = None, MinValues = None\<rparr>)]\<rparr>"

definition two_families :: requirements where
  "two_families = [(''family'', \<lparr>Key = ''family'', complement = True, rvalues = {}, gte = None, lte = None,
     MinValues = Some 2\<rparr>)]"

theorem SatisfiesMinValues_exact_witness:
  "\<exists>n. SatisfiesMinValues core_labels [family_type ''a'', family_type ''b'', family_type ''c''] two_families = (n, []) \<and>
     0 < n \<and> min_satisfied core_labels two_families (take n [family_type ''a'', family_type ''b'', family_type ''c''])"
proof -
  let ?its = "[family_type ''a'', family_type ''b'', family_type ''c'']"
  have wf: "wf_requirements core_labels two_families"
    by (simp add: wf_requirements_def two_families_def wf_requirement_def normalize_key_def core_labels_def
        label_key_defs)
  have has: "HasMinValues two_families" by (simp add: HasMinValues_def two_families_def)
  have "snd (SatisfiesMinValues core_labels ?its two_families) = []"
    by (simp add: SatisfiesMinValues_def has)
      (simp add: two_families_def family_type_def min_values_collect_def min_values_short_def Requirements_Get_def mget_def)
  then obtain n where n: "SatisfiesMinValues core_labels ?its two_families = (n, [])"
    by (metis prod.collapse)
  show ?thesis using SatisfiesMinValues_exact[OF wf has _ n] n by auto
qed


text \<open>
  Truncating a list of instance types without an error keeps at most the given number of them,
  each no dearer than any that is dropped, and, unless minimum values are best effort, a first part of
  a list that is not empty already meets every minimum. With an error the whole list comes back and
  its cheapest prefix does not meet the minimum values.
\<close>

theorem Truncate_exact:
  assumes "sorts_by cheaper sortByPrice" "wf_requirements E reqs"
    and "Truncate E sortByPrice bestEffort its reqs maxItems = (kept, err)"
  shows "(err = [] \<longrightarrow> length kept \<le> maxItems \<and>
        (\<exists>dropped. mset its = mset kept + mset dropped \<and>
           (\<forall>a \<in> set kept. \<forall>b \<in> set dropped. compatible_price E reqs a \<le> compatible_price E reqs b)) \<and>
        (HasMinValues reqs \<and> \<not> bestEffort \<and> kept \<noteq> [] \<longrightarrow>
           (\<exists>n. 0 < n \<and> n \<le> length kept \<and> min_satisfied E reqs (take n kept)))) \<and>
     (err \<noteq> [] \<longrightarrow> mset kept = mset its \<and> \<not> min_satisfied E reqs (take maxItems kept))"
proof -
  let ?s = "OrderByPrice E sortByPrice its reqs"
  have ms: "mset ?s = mset its" and srt: "sorted_wrt (\<lambda>a b. compatible_price E reqs a \<le> compatible_price E reqs b) ?s"
    by (rule OrderByPrice_spec[OF assms(1)])+
  have split: "mset its = mset (take maxItems ?s) + mset (drop maxItems ?s)"
    by (metis ms append_take_drop_id mset_append)
  define r where "r = SatisfiesMinValues E (take maxItems ?s) reqs"
  have r: "SatisfiesMinValues E (take maxItems ?s) reqs = (fst r, snd r)" by (simp add: r_def)
  have empty: "snd r = []" if "take maxItems ?s = []"
    unfolding r_def that by (simp add: SatisfiesMinValues_def)
  show ?thesis
  proof (cases "HasMinValues reqs \<and> \<not> bestEffort \<and> snd r \<noteq> []")
    case True
    then have k: "kept = ?s" "err = snd r" using assms(3) by (auto simp: Truncate_def Let_def r_def)
    have ne: "take maxItems ?s \<noteq> []" and h: "HasMinValues reqs" using True empty by blast+
    have "\<forall>m. 0 < m \<and> m \<le> length (take maxItems ?s) \<longrightarrow> \<not> min_satisfied E reqs (take m (take maxItems ?s))"
      using SatisfiesMinValues_spec[OF assms(2) h ne r] True by blast
    then have "\<not> min_satisfied E reqs (take maxItems ?s)"
      using ne by (metis length_greater_0_conv order_refl take_all)
    then show ?thesis using True ms k by simp
  next
    case False
    then have k: "kept = take maxItems ?s" "err = []" using assms(3) by (auto simp: Truncate_def Let_def r_def)
    have "\<exists>n. 0 < n \<and> n \<le> length kept \<and> min_satisfied E reqs (take n kept)"
      if "HasMinValues reqs" "\<not> bestEffort" "kept \<noteq> []"
      using SatisfiesMinValues_exact_aux[OF assms(2) that(1) _ r] that k False by auto
    moreover have "\<forall>a \<in> set kept. \<forall>b \<in> set (drop maxItems ?s). compatible_price E reqs a \<le> compatible_price E reqs b"
      using sorted_wrt_take_drop[OF srt] k(1) by blast
    ultimately show ?thesis using k split by auto
  qed
qed

theorem Truncate_exact_witness:
  "\<exists>kept. Truncate core_labels (insertion_sort cheaper) True [family_type ''a'', family_type ''b''] two_families 1
        = (kept, []) \<and> length kept \<le> 1 \<and>
     (\<exists>dropped. mset [family_type ''a'', family_type ''b''] = mset kept + mset dropped)"
proof -
  have wf: "wf_requirements core_labels two_families"
    by (simp add: wf_requirements_def two_families_def wf_requirement_def normalize_key_def core_labels_def
        label_key_defs)
  obtain kept where kept: "Truncate core_labels (insertion_sort cheaper) True [family_type ''a'', family_type ''b'']
      two_families 1 = (kept, [])"
    by (simp add: Truncate_def Let_def)
  show ?thesis
    using Truncate_exact[OF by_price.insertion_sort_sorts wf kept] kept by blast
qed

text \<open>
  The two launch prices agree on what would launch: both are the largest number exactly when no
  offering of a capacity type in the launch order is compatible; otherwise they bound the price of
  every offering that would launch, and each is the price of one of these.
\<close>

theorem launch_prices_bound:
  assumes "extremal minBy" "extremal maxBy"
  shows "if launchable E ofs reqs launch_order = []
     then CheapestLaunchPrice E minBy ofs reqs = MaxFloat64 \<and> WorstLaunchPrice E maxBy ofs reqs = MaxFloat64
     else (\<forall>o1 \<in> set (launchable E ofs reqs launch_order).
             CheapestLaunchPrice E minBy ofs reqs \<le> ofPrice o1 \<and> ofPrice o1 \<le> WorstLaunchPrice E maxBy ofs reqs) \<and>
          CheapestLaunchPrice E minBy ofs reqs \<in> ofPrice ` set (launchable E ofs reqs launch_order) \<and>
          WorstLaunchPrice E maxBy ofs reqs \<in> ofPrice ` set (launchable E ofs reqs launch_order)"
  using extremal_price(1)[OF assms(1), of "launchable E ofs reqs launch_order"]
    extremal_price(2)[OF assms(2), of "launchable E ofs reqs launch_order"]
  by (simp add: CheapestLaunchPrice_def WorstLaunchPrice_def launch_price_eq)

definition zonal_offering :: "string \<Rightarrow> rat \<Rightarrow> int Offering" where
  "zonal_offering ct p = (plain_offering p)\<lparr>ofRequirements :=
     [(CapacityTypeLabelKey, \<lparr>Key = CapacityTypeLabelKey, complement = False, rvalues = {ct}, gte = None, lte = None,
       MinValues = None\<rparr>)]\<rparr>"

theorem launch_prices_bound_witness:
  "CheapestLaunchPrice core_labels first_best [zonal_offering CapacityTypeSpot 1, zonal_offering CapacityTypeSpot 3] [] \<le> 1 \<and>
   3 \<le> WorstLaunchPrice core_labels first_best [zonal_offering CapacityTypeSpot 1, zonal_offering CapacityTypeSpot 3] []"
proof -
  let ?ofs = "[zonal_offering CapacityTypeSpot 1, zonal_offering CapacityTypeSpot 3]"
  have "launchable core_labels ?ofs [] launch_order = ?ofs" by code_simp
  moreover have "ofPrice (zonal_offering CapacityTypeSpot p) = p" for p
    by (simp add: zonal_offering_def plain_offering_def)
  ultimately show ?thesis
    using launch_prices_bound[OF first_best_extremal first_best_extremal, of core_labels ?ofs "[]"] by simp
qed

end
