(* ===== verification/Reservation.thy ===== *)
theory Reservation
  imports InstanceTypes
begin

text \<open>
  The reservation manager (\<^verbatim>\<open>pkg/controllers/provisioning/scheduling/reservationmanager.go\<close>): which
  hosts hold a place in which capacity reservation, and how many places are left. The reservation of
  an offering is \<open>rid\<close>, its method \<^verbatim>\<open>ReservationID\<close>; an offering names one reservation, so that
  the method gives the same answer at every call.
\<close>

record ReservationManager =
  reservations :: "(string, string set) gomap"
  capacity :: "(string, int) gomap"

section \<open>Construction\<close>

definition reserved_offering :: "'q Offering \<Rightarrow> bool" where
  "reserved_offering o1 =
     (case map_of (ofRequirements o1) CapacityTypeLabelKey of
        None \<Rightarrow> False
      | Some ct \<Rightarrow> Requirement_Operator ct = OpIn \<and> Requirement_Has ct CapacityTypeReserved)"

definition track_capacity :: "('q Offering \<Rightarrow> string) \<Rightarrow> (string, int) gomap \<Rightarrow> 'q Offering \<Rightarrow> (string, int) gomap" where
  "track_capacity rid cap o1 =
     (if \<not> reserved_offering o1 then cap
      else if (case map_of cap (rid o1) of None \<Rightarrow> True | Some current \<Rightarrow> current > ofReservationCapacity o1)
      then mput (rid o1) (ofReservationCapacity o1) cap
      else cap)"

definition buildReservationCapacity ::
  "('q Offering \<Rightarrow> string) \<Rightarrow> (string, 'q InstanceType list) gomap \<Rightarrow> (string, int) gomap" where
  "buildReservationCapacity rid instanceTypes =
     foldl (\<lambda>cap (_, its). foldl (\<lambda>cap it. foldl (track_capacity rid) cap (itOfferings it)) cap its) [] instanceTypes"

definition NewReservationManager ::
  "('q Offering \<Rightarrow> string) \<Rightarrow> (string, 'q InstanceType list) gomap \<Rightarrow> ReservationManager" where
  "NewReservationManager rid instanceTypes =
     \<lparr>reservations = [], capacity = buildReservationCapacity rid instanceTypes\<rparr>"

section \<open>Operations\<close>

text \<open>None is a panic.\<close>

definition HasReservation :: "('q Offering \<Rightarrow> string) \<Rightarrow> ReservationManager \<Rightarrow> string \<Rightarrow> 'q Offering \<Rightarrow> bool" where
  "HasReservation rid rm hostname o1 =
     (case map_of (reservations rm) hostname of None \<Rightarrow> False | Some s \<Rightarrow> rid o1 \<in> s)"

definition CanReserve :: "('q Offering \<Rightarrow> string) \<Rightarrow> ReservationManager \<Rightarrow> string \<Rightarrow> 'q Offering \<Rightarrow> bool option" where
  "CanReserve rid rm hostname o1 =
     (if (case map_of (reservations rm) hostname of None \<Rightarrow> False | Some s \<Rightarrow> rid o1 \<in> s) then Some True
      else case map_of (capacity rm) (rid o1) of
        None \<Rightarrow> None
      | Some c \<Rightarrow> if c = 0 then Some False else Some True)"

definition Reserve1 :: "('q Offering \<Rightarrow> string) \<Rightarrow> string \<Rightarrow> ReservationManager \<Rightarrow> 'q Offering \<Rightarrow> ReservationManager option" where
  "Reserve1 rid hostname rm o1 =
     (if (case map_of (reservations rm) hostname of None \<Rightarrow> False | Some s \<Rightarrow> rid o1 \<in> s) then Some rm
      else
        (let left = wrap64 (mget 0 (capacity rm) (rid o1) - 1) in
         if left < 0 then None
         else Some (rm\<lparr>capacity := mput (rid o1) left (capacity rm),
                       reservations := mput hostname (insert (rid o1) (mget {} (reservations rm) hostname))
                                         (reservations rm)\<rparr>)))"

fun Reserve :: "('q Offering \<Rightarrow> string) \<Rightarrow> string \<Rightarrow> 'q Offering list \<Rightarrow> ReservationManager \<Rightarrow> ReservationManager option" where
  "Reserve rid hostname [] rm = Some rm"
| "Reserve rid hostname (o1 # ofs) rm =
     (case Reserve1 rid hostname rm o1 of None \<Rightarrow> None | Some rm' \<Rightarrow> Reserve rid hostname ofs rm')"

definition Release1 :: "('q Offering \<Rightarrow> string) \<Rightarrow> string \<Rightarrow> ReservationManager \<Rightarrow> 'q Offering \<Rightarrow> ReservationManager" where
  "Release1 rid hostname rm o1 =
     (case map_of (reservations rm) hostname of
        None \<Rightarrow> rm
      | Some s \<Rightarrow>
          if rid o1 \<in> s
          then rm\<lparr>reservations := mput hostname (s - {rid o1}) (reservations rm),
                  capacity := mput (rid o1) (wrap64 (mget 0 (capacity rm) (rid o1) + 1)) (capacity rm)\<rparr>
          else rm)"

definition Release :: "('q Offering \<Rightarrow> string) \<Rightarrow> string \<Rightarrow> 'q Offering list \<Rightarrow> ReservationManager \<Rightarrow> ReservationManager" where
  "Release rid hostname ofs rm = foldl (Release1 rid hostname) rm ofs"

definition RemainingCapacity :: "('q Offering \<Rightarrow> string) \<Rightarrow> ReservationManager \<Rightarrow> 'q Offering \<Rightarrow> int" where
  "RemainingCapacity rid rm o1 = mget 0 (capacity rm) (rid o1)"

section \<open>Conservation of capacity\<close>

text \<open>The hosts that hold a place in a reservation.\<close>

definition holders :: "ReservationManager \<Rightarrow> string \<Rightarrow> string set" where
  "holders rm r = {h. r \<in> mget {} (reservations rm) h}"

text \<open>
  Places left and places held add up to the capacity the reservation started with, and the number of
  places left is never negative.
\<close>

definition conserved :: "(string, int) gomap \<Rightarrow> ReservationManager \<Rightarrow> bool" where
  "conserved initial rm \<longleftrightarrow>
     (\<forall>r. finite (holders rm r) \<and> 0 \<le> mget 0 (capacity rm) r \<and>
        mget 0 (capacity rm) r + int (card (holders rm r)) = mget 0 initial r) \<and>
     (\<forall>r. mhas (capacity rm) r \<longleftrightarrow> mhas initial r)"

definition sane_capacity :: "(string, int) gomap \<Rightarrow> bool" where
  "sane_capacity initial \<longleftrightarrow> (\<forall>r. 0 \<le> mget 0 initial r \<and> in_int64 (mget 0 initial r))"

lemma held_iff:
  "(case map_of (reservations rm) h of None \<Rightarrow> False | Some s \<Rightarrow> r \<in> s) \<longleftrightarrow> h \<in> holders rm r"
  by (auto simp: holders_def mget_def split: option.splits)

lemma conservedD:
  assumes "conserved initial rm" "sane_capacity initial"
  shows "finite (holders rm r)" "0 \<le> mget 0 (capacity rm) r" "mget 0 (capacity rm) r \<le> mget 0 initial r"
    "mget 0 (capacity rm) r + int (card (holders rm r)) = mget 0 initial r" "in_int64 (mget 0 initial r)"
proof -
  show eq: "mget 0 (capacity rm) r + int (card (holders rm r)) = mget 0 initial r"
    and "finite (holders rm r)" "0 \<le> mget 0 (capacity rm) r"
    using assms(1) by (simp_all add: conserved_def)
  then show "mget 0 (capacity rm) r \<le> mget 0 initial r" by linarith
  show "in_int64 (mget 0 initial r)" using assms(2) by (simp add: sane_capacity_def)
qed

lemma Reserve1_conserved:
  assumes "conserved initial rm" "sane_capacity initial" "Reserve1 rid h rm o1 = Some rm'"
    and "mhas (capacity rm) (rid o1)"
  shows "conserved initial rm'" "h \<in> holders rm' (rid o1)"
    "\<And>r. mhas (capacity rm') r \<longleftrightarrow> mhas (capacity rm) r"
proof -
  let ?r = "rid o1"
  note c = conservedD[OF assms(1,2)]
  have "conserved initial rm' \<and> h \<in> holders rm' ?r \<and> (\<forall>r. mhas (capacity rm') r \<longleftrightarrow> mhas (capacity rm) r)"
  proof (cases "h \<in> holders rm ?r")
    case True
    then have "rm' = rm" using assms(3) by (simp add: Reserve1_def held_iff)
    then show ?thesis using assms(1) True by simp
  next
    case False
    have "in_int64 (mget 0 (capacity rm) ?r - 1)"
      using c[of ?r] by (auto simp: in_int64_def int_bounds)
    then have w: "wrap64 (mget 0 (capacity rm) ?r - 1) = mget 0 (capacity rm) ?r - 1" by (rule wrap64_id)
    with False assms(3) have left: "1 \<le> mget 0 (capacity rm) ?r"
      and rm': "rm' = rm\<lparr>capacity := mput ?r (mget 0 (capacity rm) ?r - 1) (capacity rm),
         reservations := mput h (insert ?r (mget {} (reservations rm) h)) (reservations rm)\<rparr>"
      by (auto simp: Reserve1_def held_iff Let_def split: if_splits)
    have hold: "holders rm' r = (if r = ?r then insert h (holders rm ?r) else holders rm r)" for r
      by (auto simp: rm' holders_def gomap_simps)
    have cap: "mget 0 (capacity rm') r = (if r = ?r then mget 0 (capacity rm) ?r - 1 else mget 0 (capacity rm) r)" for r
      by (simp add: rm' gomap_simps)
    have "mhas (capacity rm') r \<longleftrightarrow> mhas (capacity rm) r" for r
      using assms(4) by (simp add: rm' map_of_mput)
    then show ?thesis
      using assms(1) c(1) False left unfolding conserved_def by (auto simp: hold cap)
  qed
  then show "conserved initial rm'" "h \<in> holders rm' ?r" "\<And>r. mhas (capacity rm') r \<longleftrightarrow> mhas (capacity rm) r"
    by blast+
qed

lemma Release1_conserved:
  assumes "conserved initial rm" "sane_capacity initial"
  shows "conserved initial (Release1 rid h rm o1)"
proof (cases "h \<in> holders rm (rid o1)")
  case False
  then have "Release1 rid h rm o1 = rm"
    unfolding held_iff[symmetric] by (auto simp: Release1_def split: option.splits)
  then show ?thesis using assms by simp
next
  case True
  let ?r = "rid o1"
  let ?rm = "Release1 rid h rm o1"
  note c = conservedD[OF assms]
  have "card (holders rm ?r) \<ge> 1" using True c(1)[of ?r] by (metis One_nat_def Suc_leI card_gt_0_iff empty_iff)
  then have "in_int64 (mget 0 (capacity rm) ?r + 1)"
    using c[of ?r] by (auto simp: in_int64_def int_bounds)
  then have w: "wrap64 (mget 0 (capacity rm) ?r + 1) = mget 0 (capacity rm) ?r + 1" by (rule wrap64_id)
  from True obtain s where s: "map_of (reservations rm) h = Some s" "?r \<in> s"
    unfolding held_iff[symmetric] by (auto split: option.splits)
  have rm': "?rm = rm\<lparr>reservations := mput h (s - {?r}) (reservations rm),
      capacity := mput ?r (mget 0 (capacity rm) ?r + 1) (capacity rm)\<rparr>"
    using s w by (simp add: Release1_def)
  have hold: "holders ?rm r = (if r = ?r then holders rm ?r - {h} else holders rm r)" for r
    using s by (auto simp: rm' holders_def gomap_simps) (simp add: mget_def)+
  have cap: "mget 0 (capacity ?rm) r = (if r = ?r then mget 0 (capacity rm) ?r + 1 else mget 0 (capacity rm) r)" for r
    by (simp add: rm' gomap_simps)
  have "0 < mget 0 initial ?r" using c[of ?r] \<open>card (holders rm ?r) \<ge> 1\<close> by linarith
  then have "mhas initial ?r" by (auto simp: mget_def split: option.splits)
  then have "mhas (capacity ?rm) r \<longleftrightarrow> mhas initial r" for r
    using assms(1) by (simp add: rm' map_of_mput conserved_def)
  moreover have "int (card (holders rm ?r - {h})) = int (card (holders rm ?r)) - 1"
    using True c(1)[of ?r] \<open>card (holders rm ?r) \<ge> 1\<close> by (simp add: of_nat_diff)
  ultimately show ?thesis
    using assms(1) unfolding conserved_def by (auto simp: hold cap)
qed

lemma Release_conserved:
  assumes "sane_capacity initial"
  shows "conserved initial rm \<Longrightarrow> conserved initial (Release rid h ofs rm)"
  unfolding Release_def by (induction ofs arbitrary: rm) (simp_all add: Release1_conserved[OF _ assms])

lemma CanReserve_iff:
  assumes "conserved initial rm"
  shows "CanReserve rid rm h o1 = Some True \<longleftrightarrow>
     h \<in> holders rm (rid o1) \<or> mhas (capacity rm) (rid o1) \<and> 0 < mget 0 (capacity rm) (rid o1)"
proof -
  have "0 \<le> mget 0 (capacity rm) (rid o1)" using assms by (simp add: conserved_def)
  then show ?thesis
    unfolding CanReserve_def held_iff by (auto simp: mget_def split: option.splits)
qed

lemma Reserve1_returns:
  assumes "conserved initial rm" "sane_capacity initial" "CanReserve rid rm h o1 = Some True"
  shows "\<exists>rm'. Reserve1 rid h rm o1 = Some rm'"
proof -
  have "h \<notin> holders rm (rid o1) \<Longrightarrow> wrap64 (mget 0 (capacity rm) (rid o1) - 1) = mget 0 (capacity rm) (rid o1) - 1"
    using conservedD[OF assms(1,2), of "rid o1"] by (intro wrap64_id) (auto simp: in_int64_def int_bounds)
  then show ?thesis
    using assms(3) unfolding CanReserve_iff[OF assms(1)] by (auto simp: Reserve1_def held_iff Let_def)
qed

text \<open>Reserving one offering never takes the place that another offering of the same host would need.\<close>

lemma CanReserve_after:
  assumes "conserved initial rm" "sane_capacity initial" "Reserve1 rid h rm o1 = Some rm'"
    and "CanReserve rid rm h o1 = Some True" "CanReserve rid rm h o2 = Some True"
  shows "CanReserve rid rm' h o2 = Some True"
proof (cases "h \<in> holders rm (rid o1)")
  case True
  then have "rm' = rm" using assms(3) by (simp add: Reserve1_def held_iff)
  then show ?thesis using assms(5) by simp
next
  case False
  then have known: "mhas (capacity rm) (rid o1)" using assms(4) unfolding CanReserve_iff[OF assms(1)] by blast
  have rm': "conserved initial rm'" "h \<in> holders rm' (rid o1)"
    by (rule Reserve1_conserved[OF assms(1-3) known])+
  have w: "rm' = rm\<lparr>capacity := mput (rid o1) (wrap64 (mget 0 (capacity rm) (rid o1) - 1)) (capacity rm),
      reservations := mput h (insert (rid o1) (mget {} (reservations rm) h)) (reservations rm)\<rparr>"
    using False assms(3) by (auto simp: Reserve1_def held_iff Let_def split: if_splits)
  show ?thesis
  proof (cases "rid o2 = rid o1")
    case True
    then show ?thesis using rm'(2) unfolding CanReserve_iff[OF rm'(1)] by simp
  next
    case False
    then have "holders rm' (rid o2) = holders rm (rid o2)" "map_of (capacity rm') (rid o2) = map_of (capacity rm) (rid o2)"
      by (auto simp: w holders_def gomap_simps)
    then show ?thesis
      using assms(5) unfolding CanReserve_iff[OF rm'(1)] CanReserve_iff[OF assms(1)] by (simp add: mget_def)
  qed
qed

lemma Reserve_returns:
  assumes "sane_capacity initial"
  shows "conserved initial rm \<Longrightarrow> \<forall>o1 \<in> set ofs. CanReserve rid rm h o1 = Some True \<Longrightarrow>
    \<exists>rm'. Reserve rid h ofs rm = Some rm' \<and> conserved initial rm' \<and> (\<forall>o1 \<in> set ofs. h \<in> holders rm' (rid o1))"
proof -
  have "\<exists>rm'. Reserve rid h ofs rm = Some rm' \<and> conserved initial rm' \<and>
      (\<forall>o1 \<in> set ofs. h \<in> holders rm' (rid o1)) \<and> (\<forall>r. holders rm r \<subseteq> holders rm' r)"
    if "conserved initial rm" "\<forall>o1 \<in> set ofs. CanReserve rid rm h o1 = Some True"
    using that
  proof (induction ofs arbitrary: rm)
    case Nil
    then show ?case by simp
  next
    case (Cons o1 ofs)
    have can: "CanReserve rid rm h o1 = Some True" using Cons.prems(2) by simp
    obtain rm1 where rm1: "Reserve1 rid h rm o1 = Some rm1"
      using Reserve1_returns[OF Cons.prems(1) assms can] by blast
    have c1: "conserved initial rm1" "h \<in> holders rm1 (rid o1)" "\<forall>r. holders rm r \<subseteq> holders rm1 r"
    proof -
      have "conserved initial rm1 \<and> h \<in> holders rm1 (rid o1) \<and> (\<forall>r. holders rm r \<subseteq> holders rm1 r)"
      proof (cases "h \<in> holders rm (rid o1)")
        case True
        then have "rm1 = rm" using rm1 by (simp add: Reserve1_def held_iff)
        then show ?thesis using True Cons.prems(1) by simp
      next
        case False
        then have known: "mhas (capacity rm) (rid o1)"
          using can unfolding CanReserve_iff[OF Cons.prems(1)] by blast
        have "holders rm r \<subseteq> holders rm1 r" for r
          using rm1 False by (auto simp: Reserve1_def held_iff Let_def holders_def gomap_simps split: if_splits)
        then show ?thesis using Reserve1_conserved[OF Cons.prems(1) assms rm1 known] by blast
      qed
      then show "conserved initial rm1" "h \<in> holders rm1 (rid o1)" "\<forall>r. holders rm r \<subseteq> holders rm1 r" by blast+
    qed
    have "\<forall>o2 \<in> set ofs. CanReserve rid rm1 h o2 = Some True"
      using CanReserve_after[OF Cons.prems(1) assms rm1 can] Cons.prems(2) by simp
    from Cons.IH[OF c1(1) this] obtain rm' where "Reserve rid h ofs rm1 = Some rm'" "conserved initial rm'"
      "\<forall>o1 \<in> set ofs. h \<in> holders rm' (rid o1)" "\<forall>r. holders rm1 r \<subseteq> holders rm' r" by blast
    moreover from this c1 have "h \<in> holders rm' (rid o1)" "\<forall>r. holders rm r \<subseteq> holders rm' r" by blast+
    ultimately show ?case using rm1 by simp
  qed
  then show "conserved initial rm \<Longrightarrow> \<forall>o1 \<in> set ofs. CanReserve rid rm h o1 = Some True \<Longrightarrow>
    \<exists>rm'. Reserve rid h ofs rm = Some rm' \<and> conserved initial rm' \<and> (\<forall>o1 \<in> set ofs. h \<in> holders rm' (rid o1))"
    by blast
qed

text \<open>
  The scheduler asks for each offering whether it can be reserved before it reserves them for a host.
  Asking about an unknown reservation is a panic.
\<close>

datatype 'q reservation_op = TryReserve string "'q Offering list" | GiveBack string "'q Offering list"

fun reservation_step ::
  "('q Offering \<Rightarrow> string) \<Rightarrow> 'q reservation_op \<Rightarrow> ReservationManager \<Rightarrow> ReservationManager option" where
  "reservation_step rid (TryReserve h ofs) rm =
     (if list_ex (\<lambda>o1. CanReserve rid rm h o1 = None) ofs then None
      else if list_all (\<lambda>o1. CanReserve rid rm h o1 = Some True) ofs then Reserve rid h ofs rm
      else Some rm)"
| "reservation_step rid (GiveBack h ofs) rm = Some (Release rid h ofs rm)"

lemma reservation_step_conserved:
  assumes "sane_capacity initial" "conserved initial rm" "reservation_step rid op rm = Some rm'"
  shows "conserved initial rm'"
proof (cases op)
  case (TryReserve h ofs)
  then show ?thesis
    using assms Reserve_returns[OF assms(1,2), of ofs rid h] by (auto simp: list_all_iff split: if_splits)
next
  case (GiveBack h ofs)
  then show ?thesis using assms Release_conserved[OF assms(1,2)] by auto
qed

definition known_op :: "('q Offering \<Rightarrow> string) \<Rightarrow> (string, int) gomap \<Rightarrow> 'q reservation_op \<Rightarrow> bool" where
  "known_op rid initial op =
     (case op of TryReserve h ofs \<Rightarrow> \<forall>o1 \<in> set ofs. mhas initial (rid o1) | GiveBack h ofs \<Rightarrow> True)"

lemma reservation_step_returns:
  assumes "sane_capacity initial" "conserved initial rm" "known_op rid initial op"
  shows "\<exists>rm'. reservation_step rid op rm = Some rm'"
proof (cases op)
  case (TryReserve h ofs)
  have "CanReserve rid rm h o1 \<noteq> None" if "o1 \<in> set ofs" for o1
  proof -
    have "mhas (capacity rm) (rid o1)" using assms(2,3) TryReserve that by (simp add: known_op_def conserved_def)
    then show ?thesis by (auto simp: CanReserve_def)
  qed
  then show ?thesis
    using TryReserve Reserve_returns[OF assms(1,2), of ofs rid h] by (auto simp: list_all_iff list_ex_iff)
next
  case (GiveBack h ofs)
  then show ?thesis by simp
qed

interpretation reserving: step_machine "reservation_step rid" "\<lambda>rm. sane_capacity initial \<and> conserved initial rm"
  by unfold_locales (auto intro: reservation_step_conserved)

section \<open>Building the capacity map\<close>

definition all_offerings :: "(string, 'q InstanceType list) gomap \<Rightarrow> 'q Offering list" where
  "all_offerings instanceTypes = concat (map (\<lambda>(_, its). concat (map itOfferings its)) instanceTypes)"

lemma foldl_concat_map: "foldl (\<lambda>a x. foldl f a (g x)) a xs = foldl f a (concat (map g xs))"
  by (induction xs arbitrary: a) simp_all

lemma buildReservationCapacity_eq:
  "buildReservationCapacity rid instanceTypes = foldl (track_capacity rid) [] (all_offerings instanceTypes)"
  by (simp add: buildReservationCapacity_def all_offerings_def foldl_concat_map split_def)

definition capacities :: "('q Offering \<Rightarrow> string) \<Rightarrow> 'q Offering list \<Rightarrow> string \<Rightarrow> int set" where
  "capacities rid ofs r = ofReservationCapacity ` {o1 \<in> set ofs. reserved_offering o1 \<and> rid o1 = r}"

lemma track_capacity_spec:
  "map_of (foldl (track_capacity rid) [] ofs) r =
     (if capacities rid ofs r = {} then None else Some (Min (capacities rid ofs r)))"
proof (induction ofs rule: rev_induct)
  case Nil
  then show ?case by (simp add: capacities_def)
next
  case (snoc o1 ofs)
  have fin: "finite (capacities rid ofs r)" by (simp add: capacities_def)
  have caps: "capacities rid (ofs @ [o1]) r =
      (if reserved_offering o1 \<and> rid o1 = r then insert (ofReservationCapacity o1) (capacities rid ofs r)
       else capacities rid ofs r)"
    by (auto simp: capacities_def)
  let ?m = "foldl (track_capacity rid) [] ofs"
  show ?case
  proof (cases "reserved_offering o1 \<and> rid o1 = r")
    case False
    then have "map_of (track_capacity rid ?m o1) r = map_of ?m r"
      by (auto simp: track_capacity_def gomap_simps)
    then show ?thesis using snoc False unfolding caps by auto
  next
    case True
    then have "map_of (track_capacity rid ?m o1) r = (case map_of ?m r of
        None \<Rightarrow> Some (ofReservationCapacity o1)
      | Some current \<Rightarrow> Some (min (ofReservationCapacity o1) current))"
      by (auto simp: track_capacity_def gomap_simps min_def split: option.split)
    moreover have "Min (insert c (capacities rid ofs r)) = min c (Min (capacities rid ofs r))"
      if "capacities rid ofs r \<noteq> {}" for c
      using fin that by simp
    ultimately show ?thesis
      using snoc True unfolding caps by (cases "capacities rid ofs r = {}") auto
  qed
qed

lemma sane_build:
  assumes "\<forall>o1 \<in> set (all_offerings its). 0 \<le> ofReservationCapacity o1 \<and> in_int64 (ofReservationCapacity o1)"
  shows "sane_capacity (buildReservationCapacity rid its)"
proof -
  let ?caps = "capacities rid (all_offerings its)"
  have "Min (?caps r) \<in> ?caps r" if "?caps r \<noteq> {}" for r
    using that by (intro Min_in) (simp_all add: capacities_def)
  then have "0 \<le> Min (?caps r) \<and> in_int64 (Min (?caps r))" if "?caps r \<noteq> {}" for r
    using that assms by (fastforce simp: capacities_def)
  moreover have "in_int64 0" by (simp add: in_int64_def int_bounds)
  ultimately show ?thesis
    unfolding sane_capacity_def buildReservationCapacity_eq mget_def track_capacity_spec by auto
qed

lemma conserved_New: "sane_capacity (capacity rm) \<Longrightarrow> reservations rm = [] \<Longrightarrow> conserved (capacity rm) rm"
  by (simp add: conserved_def holders_def mget_def sane_capacity_def)

section \<open>Properties\<close>

text \<open>
  C31. The reservation manager conserves capacity: whatever hosts reserve and release, as long as the
  scheduler asks before it reserves and only names offerings the manager was built from, no operation
  panics, and for every reservation the places left and the hosts that hold a place add up to the
  smallest capacity any of its offerings reported. So a reservation is never given out more often than it has places.
\<close>

theorem reservations_conserved:
  assumes "\<forall>o1 \<in> set (all_offerings its). 0 \<le> ofReservationCapacity o1 \<and> in_int64 (ofReservationCapacity o1)"
    and "\<forall>op \<in> set ops. known_op rid (buildReservationCapacity rid its) op"
  shows "\<exists>rm. run_steps (reservation_step rid) ops (NewReservationManager rid its) = Some rm \<and>
     (\<forall>r. finite (holders rm r) \<and> 0 \<le> mget 0 (capacity rm) r \<and>
        mget 0 (capacity rm) r + int (card (holders rm r)) =
          (if capacities rid (all_offerings its) r = {} then 0 else Min (capacities rid (all_offerings its) r)))"
proof -
  let ?cap = "buildReservationCapacity rid its"
  let ?rm = "NewReservationManager rid its"
  have sane: "sane_capacity ?cap" by (rule sane_build[OF assms(1)])
  have init: "sane_capacity ?cap \<and> conserved ?cap ?rm"
    using conserved_New[of ?rm] sane by (simp add: NewReservationManager_def)
  obtain rm where rm: "run_steps (reservation_step rid) ops ?rm = Some rm" "conserved ?cap rm"
    using reserving.run_total_on[of ?cap "known_op rid ?cap" rid ops ?rm] reservation_step_returns assms(2) init by blast
  have "mget 0 ?cap r = (if capacities rid (all_offerings its) r = {} then 0
      else Min (capacities rid (all_offerings its) r))" for r
    unfolding buildReservationCapacity_eq mget_def track_capacity_spec by simp
  with rm show ?thesis unfolding conserved_def by auto
qed

definition reserved_one :: "int Offering" where
  "reserved_one = (zonal_offering CapacityTypeReserved 1)\<lparr>ofReservationCapacity := 1\<rparr>"

theorem reservations_conserved_witness:
  "\<exists>rm. run_steps (reservation_step (\<lambda>_. ''r''))
       [TryReserve ''host-1'' [reserved_one], TryReserve ''host-2'' [reserved_one]]
       (NewReservationManager (\<lambda>_. ''r'') [(''pool'', [small_type\<lparr>itOfferings := [reserved_one]\<rparr>])]) = Some rm \<and>
     int (card (holders rm ''r'')) \<le> 1"
proof -
  let ?its = "[(''pool'', [small_type\<lparr>itOfferings := [reserved_one]\<rparr>])]"
  let ?ops = "[TryReserve ''host-1'' [reserved_one], TryReserve ''host-2'' [reserved_one]]"
  have all: "all_offerings ?its = [reserved_one]" by (simp add: all_offerings_def)
  have res: "reserved_offering reserved_one" "ofReservationCapacity reserved_one = 1"
    by (simp_all add: reserved_offering_def reserved_one_def zonal_offering_def plain_offering_def
        Requirement_Operator_def Requirement_Len_def Requirement_Has_def)
  have caps: "capacities (\<lambda>_. ''r'') [reserved_one] ''r'' = {1}" by (auto simp: capacities_def res)
  have 1: "\<forall>o1 \<in> set (all_offerings ?its). 0 \<le> ofReservationCapacity o1 \<and> in_int64 (ofReservationCapacity o1)"
    by (simp add: all res in_int64_def int_bounds)
  have 2: "\<forall>op \<in> set ?ops. known_op (\<lambda>_. ''r'') (buildReservationCapacity (\<lambda>_. ''r'') ?its) op"
    using track_capacity_spec[of "\<lambda>_. ''r''" "[reserved_one]" "''r''"]
    unfolding buildReservationCapacity_eq known_op_def all by (simp add: caps)
  obtain rm where rm: "run_steps (reservation_step (\<lambda>_. ''r'')) ?ops (NewReservationManager (\<lambda>_. ''r'') ?its) = Some rm"
    "\<forall>r. finite (holders rm r) \<and> 0 \<le> mget 0 (capacity rm) r \<and>
      mget 0 (capacity rm) r + int (card (holders rm r)) =
        (if capacities (\<lambda>_. ''r'') (all_offerings ?its) r = {} then 0
         else Min (capacities (\<lambda>_. ''r'') (all_offerings ?its) r))"
    using reservations_conserved[OF 1 2] by blast
  have "int (card (holders rm ''r'')) \<le> 1" using rm(2)[rule_format, of "''r''"] by (simp add: all caps)
  with rm(1) show ?thesis by blast
qed

end
