(* ===== verification/SchedQueue.thy ===== *)
theory SchedQueue
  imports Resources
begin

text \<open>
  The queue of pods the scheduler works through
  (\<^verbatim>\<open>pkg/controllers/provisioning/scheduling/queue.go\<close>) and the loop that drains it. Sorting is a
  parameter; the pods' requests are the map \<open>podData\<close>.
\<close>

record Queue =
  qpods :: "Pod list"
  lastLen :: "(string, int) gomap"

section \<open>Order\<close>

definition ResourceCPU :: string where "ResourceCPU = ''cpu''"
definition ResourceMem :: string where "ResourceMem = ''memory''"

text \<open>The comparison of \<^verbatim>\<open>sort.Slice\<close>: more CPU first, then more memory, then older, then the smaller UID.\<close>

definition byCPUAndMemoryDescending ::
  "(string, 'q::linordered_ab_group_add ResourceList) gomap \<Rightarrow> Pod \<Rightarrow> Pod \<Rightarrow> bool" where
  "byCPUAndMemoryDescending podData lhsPod rhsPod =
     (let lhs = mget [] podData (podUID lhsPod);
          rhs = mget [] podData (podUID rhsPod)
      in if qty lhs ResourceCPU < qty rhs ResourceCPU then False
         else if qty lhs ResourceCPU > qty rhs ResourceCPU then True
         else if qty lhs ResourceMem < qty rhs ResourceMem then False
         else if qty lhs ResourceMem > qty rhs ResourceMem then True
         else if podCreated lhsPod \<noteq> podCreated rhsPod then podCreated lhsPod < podCreated rhsPod
         else podUID lhsPod < podUID rhsPod)"

definition NewQueue :: "(Pod list \<Rightarrow> Pod list) \<Rightarrow> Pod list \<Rightarrow> Queue" where
  "NewQueue sortPods pods = \<lparr>qpods = sortPods pods, lastLen = []\<rparr>"

section \<open>Operations\<close>

definition Pop :: "Queue \<Rightarrow> (Pod \<times> Queue) option" where
  "Pop q =
     (case qpods q of
        [] \<Rightarrow> None
      | p # ps \<Rightarrow>
          if mget 0 (lastLen q) (podUID p) = int (length (qpods q)) then None
          else Some (p, q\<lparr>qpods := ps\<rparr>))"

definition Push :: "Queue \<Rightarrow> Pod \<Rightarrow> Queue" where
  "Push q pod =
     (let ps = qpods q @ [pod] in
      q\<lparr>qpods := ps, lastLen := mput (podUID pod) (int (length ps)) (lastLen q)\<rparr>)"

section \<open>The order is a strict weak order\<close>

interpretation queue_order: key_order "byCPUAndMemoryDescending podData"
proof unfold_locales
  fix x y
  show "byCPUAndMemoryDescending podData x y \<Longrightarrow> \<not> byCPUAndMemoryDescending podData y x"
    by (auto simp: byCPUAndMemoryDescending_def Let_def split: if_splits)
next
  fix x y z
  show "\<not> byCPUAndMemoryDescending podData x y \<Longrightarrow> \<not> byCPUAndMemoryDescending podData y z \<Longrightarrow>
      \<not> byCPUAndMemoryDescending podData x z"
    by (auto simp: byCPUAndMemoryDescending_def Let_def split: if_splits)
qed

section \<open>The loop\<close>

text \<open>
  The scheduler pops a pod, tries to place it, and pushes it back when that fails. \<open>attempt\<close> is the
  attempt, on any state of the scheduler; its second result tells whether the pod was placed.
\<close>

definition unmarked :: "Queue \<Rightarrow> nat" where
  "unmarked q = length (filter (\<lambda>p. mget 0 (lastLen q) (podUID p) \<noteq> int (length (qpods q))) (qpods q))"

lemma Pop_Some:
  "Pop q = Some (p, q') \<Longrightarrow> qpods q = p # qpods q' \<and> lastLen q' = lastLen q \<and>
     mget 0 (lastLen q) (podUID p) \<noteq> int (length (qpods q))"
  by (auto simp: Pop_def split: list.splits if_splits)

lemma length_Push: "Pop q = Some (p, q') \<Longrightarrow> length (qpods (Push q' p)) = length (qpods q)"
  by (auto dest: Pop_Some simp: Push_def Let_def)

lemma length_filter_conj: "length (filter (\<lambda>x. P x \<and> Q x) xs) \<le> length (filter Q xs)"
  by (induction xs) auto

lemma unmarked_Push:
  assumes "Pop q = Some (p, q')"
  shows "unmarked (Push q' p) < unmarked q"
proof -
  note q = Pop_Some[OF assms]
  let ?n = "int (length (qpods q))"
  have "unmarked (Push q' p) =
      length (filter (\<lambda>x. podUID x \<noteq> podUID p \<and> mget 0 (lastLen q) (podUID x) \<noteq> ?n) (qpods q'))"
    using q by (auto simp: unmarked_def Push_def Let_def gomap_simps intro!: arg_cong[of _ _ length] filter_cong)
  also have "\<dots> \<le> length (filter (\<lambda>x. mget 0 (lastLen q) (podUID x) \<noteq> ?n) (qpods q'))"
    by (rule length_filter_conj)
  also have "\<dots> < unmarked q" using q by (auto simp: unmarked_def)
  finally show ?thesis .
qed

function drain :: "('s \<Rightarrow> Pod \<Rightarrow> 's \<times> bool) \<Rightarrow> 's \<Rightarrow> Queue \<Rightarrow> 's \<times> Queue" where
  "drain attempt s q =
     (case Pop q of
        None \<Rightarrow> (s, q)
      | Some (pod, q') \<Rightarrow>
          (case attempt s pod of
             (s', True) \<Rightarrow> drain attempt s' q'
           | (s', False) \<Rightarrow> drain attempt s' (Push q' pod)))"
  by pat_completeness auto
termination
  by (relation "measures [\<lambda>(_, _, q). length (qpods q), \<lambda>(_, _, q). unmarked q]")
    (auto dest: Pop_Some simp: length_Push unmarked_Push)

declare drain.simps [simp del]

section \<open>When the loop gives up\<close>

text \<open>
  The pods not yet tried since the last success stand in front, those tried without success behind;
  the latter carry the current length of the queue as their mark.
\<close>

definition queue_inv :: "Queue \<Rightarrow> Pod list \<Rightarrow> Pod list \<Rightarrow> bool" where
  "queue_inv q fresh stale \<longleftrightarrow> qpods q = fresh @ stale \<and> distinct (map podUID (qpods q)) \<and>
     (\<forall>p \<in> set fresh. mget 0 (lastLen q) (podUID p) = 0 \<or> mget 0 (lastLen q) (podUID p) > int (length (qpods q))) \<and>
     (\<forall>p \<in> set stale. mget 0 (lastLen q) (podUID p) = int (length (qpods q)))"

lemma queue_inv_New: "distinct (map podUID (f pods)) \<Longrightarrow> queue_inv (NewQueue f pods) (f pods) []"
  by (simp add: queue_inv_def NewQueue_def mget_def)

lemma Pop_fresh: "queue_inv q (p # fresh) stale \<Longrightarrow> Pop q = Some (p, q\<lparr>qpods := fresh @ stale\<rparr>)"
  by (auto simp: queue_inv_def Pop_def)

lemma Pop_stale: "queue_inv q [] stale \<Longrightarrow> Pop q = None"
  by (cases stale) (auto simp: queue_inv_def Pop_def)

lemma queue_inv_placed:
  "queue_inv q (p # fresh) stale \<Longrightarrow> queue_inv (q\<lparr>qpods := fresh @ stale\<rparr>) (fresh @ stale) []"
  by (auto simp: queue_inv_def)

lemma queue_inv_pushed:
  "queue_inv q (p # fresh) stale \<Longrightarrow> queue_inv (Push (q\<lparr>qpods := fresh @ stale\<rparr>) p) fresh (stale @ [p])"
  by (auto simp: queue_inv_def Push_def Let_def gomap_simps) (metis image_eqI)+

text \<open>The trace of attempts: each pod tried with its outcome.\<close>

function attempts :: "('s \<Rightarrow> Pod \<Rightarrow> 's \<times> bool) \<Rightarrow> 's \<Rightarrow> Queue \<Rightarrow> (Pod \<times> bool) list" where
  "attempts attempt s q =
     (case Pop q of
        None \<Rightarrow> []
      | Some (pod, q') \<Rightarrow>
          (case attempt s pod of
             (s', True) \<Rightarrow> (pod, True) # attempts attempt s' q'
           | (s', False) \<Rightarrow> (pod, False) # attempts attempt s' (Push q' pod)))"
  by pat_completeness auto
termination
  by (relation "measures [\<lambda>(_, _, q). length (qpods q), \<lambda>(_, _, q). unmarked q]")
    (auto dest: Pop_Some simp: length_Push unmarked_Push)

declare attempts.simps [simp del]

lemma queue_stops: "Pop q = None \<Longrightarrow> drain attempt s q = (s, q) \<and> attempts attempt s q = []"
  by (simp add: drain.simps attempts.simps)

lemma queue_places:
  "Pop q = Some (p, q') \<Longrightarrow> attempt s p = (s', True) \<Longrightarrow>
     drain attempt s q = drain attempt s' q' \<and> attempts attempt s q = (p, True) # attempts attempt s' q'"
  by (simp add: drain.simps[of attempt s q] attempts.simps[of attempt s q])

lemma queue_requeues:
  "Pop q = Some (p, q') \<Longrightarrow> attempt s p = (s', False) \<Longrightarrow>
     drain attempt s q = drain attempt s' (Push q' p) \<and>
     attempts attempt s q = (p, False) # attempts attempt s' (Push q' p)"
  by (simp add: drain.simps[of attempt s q] attempts.simps[of attempt s q])

lemma queue_loop_induct [case_names stops places requeues]:
  assumes "\<And>s q. Pop q = None \<Longrightarrow> P s q"
    and "\<And>s q p q' s'. Pop q = Some (p, q') \<Longrightarrow> attempt s p = (s', True) \<Longrightarrow> P s' q' \<Longrightarrow> P s q"
    and "\<And>s q p q' s'. Pop q = Some (p, q') \<Longrightarrow> attempt s p = (s', False) \<Longrightarrow> P s' (Push q' p) \<Longrightarrow> P s q"
  shows "P s q"
proof -
  have "a = attempt \<Longrightarrow> P s q" for a
  proof (induction a s q rule: drain.induct)
    case (1 a s q)
    show ?case
    proof (cases "Pop q")
      case (Some r)
      obtain p q' where P: "Pop q = Some (p, q')" using Some by (cases r) auto
      obtain s' b where t: "attempt s p = (s', b)" by (cases "attempt s p")
      show ?thesis
        using assms(2)[OF P, of s s'] assms(3)[OF P, of s s'] 1(1)[OF P refl, of s' b] 1(2)[OF P refl, of s' b] 1(3) t
        by (cases b) auto
    qed (rule assms(1))
  qed
  then show ?thesis by blast
qed

abbreviation failed :: "Pod list \<Rightarrow> (Pod \<times> bool) list" where
  "failed ps \<equiv> map (\<lambda>p. (p, False)) ps"

lemma queue_inv_cases:
  assumes "queue_inv q fresh stale" "Pop q = Some (p, q')"
  obtains fresh' where "fresh = p # fresh'" "q' = q\<lparr>qpods := fresh' @ stale\<rparr>"
proof (cases fresh)
  case Nil
  then show ?thesis using assms Pop_stale by (metis option.distinct(1))
next
  case (Cons a fresh')
  then show ?thesis using assms Pop_fresh that by (metis Pair_inject option.inject)
qed

lemma Pop_None_stale: "queue_inv q fresh stale \<Longrightarrow> Pop q = None \<Longrightarrow> fresh = [] \<and> qpods q = stale"
  by (cases fresh) (simp add: queue_inv_def, simp add: Pop_fresh)

lemma drain_tail:
  "queue_inv q fresh stale \<Longrightarrow>
     \<exists>pre. failed stale @ attempts attempt s q = pre @ failed (qpods (snd (drain attempt s q)))"
proof (induction s q arbitrary: fresh stale rule: queue_loop_induct[where attempt = attempt])
  case (stops s q)
  then show ?case using Pop_None_stale by (auto simp: queue_stops)
next
  case (places s q p q' s')
  obtain f where f: "fresh = p # f" "q' = q\<lparr>qpods := f @ stale\<rparr>"
    using queue_inv_cases[OF places(4,1)] .
  have "queue_inv q' (f @ stale) []" using queue_inv_placed places(4) f by blast
  from places(3)[OF this] obtain pre where
    "attempts attempt s' q' = pre @ failed (qpods (snd (drain attempt s' q')))" by auto
  then show ?case
    using queue_places[of q p q' attempt s s', OF places(1,2)] by (intro exI[of _ "failed stale @ (p, True) # pre"]) simp
next
  case (requeues s q p q' s')
  obtain f where f: "fresh = p # f" "q' = q\<lparr>qpods := f @ stale\<rparr>"
    using queue_inv_cases[OF requeues(4,1)] .
  have "queue_inv (Push q' p) f (stale @ [p])" using queue_inv_pushed requeues(4) f by blast
  from requeues(3)[OF this] show ?case using queue_requeues[of q p q' attempt s s', OF requeues(1,2)] by simp
qed

lemma drain_pods:
  "mset (map fst (filter snd (attempts attempt s q))) + mset (qpods (snd (drain attempt s q))) = mset (qpods q)"
proof (induction s q rule: queue_loop_induct[where attempt = attempt])
  case (stops s q)
  then show ?case by (simp add: queue_stops)
next
  case (places s q p q' s')
  then show ?case using queue_places[of q p q' attempt s s', OF places(1,2)] Pop_Some[OF places(1)] by simp
next
  case (requeues s q p q' s')
  then show ?case
    using queue_requeues[of q p q' attempt s s', OF requeues(1,2)] Pop_Some[OF requeues(1)] by (simp add: Push_def Let_def)
qed

lemma attempts_length:
  "queue_inv q fresh stale \<Longrightarrow>
     2 * length (attempts attempt s q) \<le> 2 * length fresh + length (qpods q) * (length (qpods q) - 1)"
proof (induction s q arbitrary: fresh stale rule: queue_loop_induct[where attempt = attempt])
  case (stops s q)
  then show ?case by (simp add: queue_stops)
next
  case (places s q p q' s')
  obtain f where f: "fresh = p # f" "q' = q\<lparr>qpods := f @ stale\<rparr>"
    using queue_inv_cases[OF places(4,1)] .
  have "queue_inv q' (f @ stale) []" using queue_inv_placed places(4) f by blast
  from places(3)[OF this] show ?case
    using queue_places[of q p q' attempt s s', OF places(1,2)] Pop_Some[OF places(1)] f
    by (cases "length f + length stale") (auto simp: algebra_simps)
next
  case (requeues s q p q' s')
  obtain f where f: "fresh = p # f" "q' = q\<lparr>qpods := f @ stale\<rparr>"
    using queue_inv_cases[OF requeues(4,1)] .
  have "queue_inv (Push q' p) f (stale @ [p])" using queue_inv_pushed requeues(4) f by blast
  from requeues(3)[OF this] show ?case
    using queue_requeues[of q p q' attempt s s', OF requeues(1,2)] length_Push[OF requeues(1)] f by simp
qed

text \<open>
  Draining the queue ends after at most \<open>n * (n + 1) / 2\<close> attempts on \<open>n\<close> pods, whatever the
  attempts do: every pod is either placed by exactly one successful attempt or still in the queue,
  and the attempts end with one failed attempt of each pod still in the queue, in queue order. So the
  loop gives up only on pods that all failed after the last success.
\<close>

theorem queue_drained_exact:
  assumes "distinct (map podUID pods)" "mset (sortPods pods) = mset pods"
  shows "let q = NewQueue sortPods pods;
             tried = attempts attempt s q;
             left = qpods (snd (drain attempt s q))
         in 2 * length tried \<le> length pods * (length pods + 1) \<and>
            mset (map fst (filter snd tried)) + mset left = mset pods \<and>
            drop (length tried - length left) tried = map (\<lambda>p. (p, False)) left"
proof -
  let ?q = "NewQueue sortPods pods"
  have "distinct (map podUID (sortPods pods))"
    using assms by (metis mset_map mset_eq_imp_distinct_iff)
  note inv = queue_inv_New[of sortPods pods, OF this]
  have len: "length (sortPods pods) = length pods" using assms(2) by (metis size_mset)
  obtain pre where pre: "attempts attempt s ?q = pre @ failed (qpods (snd (drain attempt s ?q)))"
    using drain_tail[OF inv, of attempt s] by auto
  have "2 * length (attempts attempt s ?q) \<le> 2 * length pods + length pods * (length pods - 1)"
    using attempts_length[OF inv, of attempt s] len by (simp add: NewQueue_def)
  also have "\<dots> = length pods * (length pods + 1)" by (cases "length pods") auto
  finally have bound: "2 * length (attempts attempt s ?q) \<le> length pods * (length pods + 1)" .
  have kept: "mset (map fst (filter snd (attempts attempt s ?q))) + mset (qpods (snd (drain attempt s ?q))) = mset pods"
    using drain_pods[of attempt s ?q] assms(2) by (simp add: NewQueue_def)
  have "drop (length (attempts attempt s ?q) - length (qpods (snd (drain attempt s ?q)))) (attempts attempt s ?q) =
      failed (qpods (snd (drain attempt s ?q)))"
    unfolding pre by simp
  then show ?thesis unfolding Let_def using bound kept by blast
qed

text \<open>Two pods that fit on an empty node of one slot: the second is given up after it failed alone.\<close>

definition two_pods :: "Pod list" where
  "two_pods = [(bare_pod ''a'')\<lparr>podUID := ''a''\<rparr>, (bare_pod ''b'')\<lparr>podUID := ''b''\<rparr>]"

definition one_slot :: "int \<Rightarrow> Pod \<Rightarrow> int \<times> bool" where
  "one_slot slots p = (if 0 < slots then (slots - 1, True) else (slots, False))"

lemma one_slot_attempts:
  "attempts one_slot 1 \<lparr>qpods = two_pods, lastLen = []\<rparr> = [(two_pods ! 0, True), (two_pods ! 1, False)]"
  by (subst attempts.simps, simp add: Pop_def mget_def two_pods_def one_slot_def)
    (subst attempts.simps, simp add: Pop_def mget_def one_slot_def Push_def,
      subst attempts.simps, simp add: Pop_def mget_def)

theorem queue_drained_exact_witness:
  "2 * length (attempts one_slot 1 (NewQueue id two_pods)) \<le> 6 \<and>
     attempts one_slot 1 (NewQueue id two_pods) = [(two_pods ! 0, True), (two_pods ! 1, False)]"
proof -
  have "distinct (map podUID two_pods)" "length two_pods = 2" by (simp_all add: two_pods_def)
  then show ?thesis
    using queue_drained_exact[of two_pods id one_slot 1] by (simp add: one_slot_attempts NewQueue_def Let_def)
qed

end
