(* ===== verification/VolumeUsage.thy ===== *)
theory VolumeUsage
  imports Kube
begin

text \<open>
  The volumes attached to a node and their limits (\<^verbatim>\<open>pkg/scheduling/volumeusage.go\<close>,
  \<^verbatim>\<open>pkg/utils/volume/volume.go\<close>). What the API server answers to a read, and the library that
  translates in-tree plugin names, are the fields of the record \<open>kube\<close>.
\<close>

section \<open>Storage objects\<close>

record PersistentVolumeClaim =
  pvcNamespace :: string
  pvcName :: string
  pvcVolumeName :: string
  pvcStorageClassName :: "string option"
  pvcDeletionTimestamp :: "int option"
  pvcPhase :: string
  pvcAnnotations :: "(string, string) gomap"

record PersistentVolume =
  pvCSIDriver :: "string option"
  pvAWSElasticBlockStore :: bool
  pvRequired :: "NodeSelectorRequirement list list option"
  pvLocal :: bool
  pvHostPath :: bool
  pvDeletionTimestamp :: "int option"

record StorageClass =
  scProvisioner :: string
  scAllowedTopologies :: "(string \<times> string list) list list"
  scVolumeBindingMode :: "string option"

datatype kube_error = NotFound | OtherError string

record kube =
  getPVC :: "NamespacedName \<Rightarrow> kube_error + PersistentVolumeClaim"
  getPV :: "NamespacedName \<Rightarrow> kube_error + PersistentVolume"
  getSC :: "NamespacedName \<Rightarrow> kube_error + StorageClass"
  getCSIName :: "string \<Rightarrow> string option"

fun of_sum :: "'e + 'a \<Rightarrow> ('e, 'a) result" where
  "of_sum (Inl e) = Err e"
| "of_sum (Inr x) = Ok x"

section \<open>Volumes by driver\<close>

type_synonym Volumes = "(string, string set) gomap"

definition Volumes_Add :: "Volumes \<Rightarrow> string \<Rightarrow> string \<Rightarrow> Volumes" where
  "Volumes_Add u provisioner pvcID = mput provisioner (insert pvcID (mget {} u provisioner)) u"

definition Volumes_Insert :: "Volumes \<Rightarrow> Volumes \<Rightarrow> Volumes" where
  "Volumes_Insert u vols = foldl (\<lambda>acc (k, v). mput k (mget {} acc k \<union> v) acc) u vols"

text \<open>\<^verbatim>\<open>Union\<close> copies its receiver first, so the receiver is left alone.\<close>

definition Volumes_Union :: "Volumes \<Rightarrow> Volumes \<Rightarrow> Volumes" where
  "Volumes_Union u vol = foldl (\<lambda>cp (k, v). mput k (mget {} cp k \<union> v) cp) u vol"

section \<open>The driver of a claim\<close>

definition GetPersistentVolumeClaim ::
  "kube \<Rightarrow> Pod \<Rightarrow> Volume \<Rightarrow> (kube_error, PersistentVolumeClaim option) result" where
  "GetPersistentVolumeClaim c pod volume =
     (let byName = (\<lambda>name. rbind (of_sum (getPVC c (podNamespace pod, name))) (\<lambda>pvc. Ok (Some pvc))) in
      case volClaimName volume of
        Some claim \<Rightarrow> byName claim
      | None \<Rightarrow>
          if volEphemeral volume then byName (podName pod @ ''-'' @ volName volume) else Ok None)"

definition driverFromSC :: "kube \<Rightarrow> string \<Rightarrow> (kube_error, string) result" where
  "driverFromSC c storageClassName =
     rbind (of_sum (getSC c ([], storageClassName)))
       (\<lambda>sc. Ok (case getCSIName c (scProvisioner sc) of Some csi \<Rightarrow> csi | None \<Rightarrow> scProvisioner sc))"

definition driverFromVolume :: "kube \<Rightarrow> string \<Rightarrow> (kube_error, string) result" where
  "driverFromVolume c volumeName =
     rbind (of_sum (getPV c ([], volumeName)))
       (\<lambda>pv. Ok (case pvCSIDriver pv of
                   Some driver \<Rightarrow> driver
                 | None \<Rightarrow> if pvAWSElasticBlockStore pv then ''ebs.csi.aws.com'' else []))"

definition ResolveDriver :: "kube \<Rightarrow> PersistentVolumeClaim \<Rightarrow> string \<Rightarrow> (kube_error, string) result" where
  "ResolveDriver c pvc storageClassName =
     (if pvcVolumeName pvc \<noteq> [] then driverFromVolume c (pvcVolumeName pvc)
      else if storageClassName = [] then Ok []
      else case driverFromSC c storageClassName of
        Err NotFound \<Rightarrow> Ok []
      | r \<Rightarrow> r)"

definition storage_class_name :: "PersistentVolumeClaim \<Rightarrow> string" where
  "storage_class_name pvc = (case pvcStorageClassName pvc of None \<Rightarrow> [] | Some s \<Rightarrow> s)"

text \<open>The identifier of a claim is \<^verbatim>\<open>namespace/name\<close>.\<close>

fun GetVolumes_loop :: "kube \<Rightarrow> Pod \<Rightarrow> Volume list \<Rightarrow> Volumes \<Rightarrow> (kube_error, Volumes) result" where
  "GetVolumes_loop c pod [] podPVCs = Ok podPVCs"
| "GetVolumes_loop c pod (volume # rest) podPVCs =
     (case GetPersistentVolumeClaim c pod volume of
        Err NotFound \<Rightarrow> GetVolumes_loop c pod rest podPVCs
      | Err e \<Rightarrow> Err e
      | Panic \<Rightarrow> Panic
      | Ok None \<Rightarrow> GetVolumes_loop c pod rest podPVCs
      | Ok (Some pvc) \<Rightarrow>
          rbind (ResolveDriver c pvc (storage_class_name pvc))
            (\<lambda>driver. GetVolumes_loop c pod rest
               (if driver \<noteq> [] then Volumes_Add podPVCs driver (pvcNamespace pvc @ ''/'' @ pvcName pvc)
                else podPVCs)))"

definition GetVolumes :: "kube \<Rightarrow> Pod \<Rightarrow> (kube_error, Volumes) result" where
  "GetVolumes c pod = GetVolumes_loop c pod (podVolumes pod) []"

section \<open>Usage of a node\<close>

record VolumeUsage =
  volumes :: Volumes
  podVolumeMap :: "(NamespacedName, Volumes) gomap"
  limits :: "(string, int) gomap"

definition NewVolumeUsage :: VolumeUsage where
  "NewVolumeUsage = \<lparr>volumes = [], podVolumeMap = [], limits = []\<rparr>"

text \<open>The driver whose limit is exceeded, with the count and the limit.\<close>

definition ExceedsLimits :: "VolumeUsage \<Rightarrow> Volumes \<Rightarrow> (string \<times> int \<times> int) option" where
  "ExceedsLimits v vols =
     map_option (\<lambda>(k, vs). (k, int (card vs), the (map_of (limits v) k)))
       (find (\<lambda>(k, vs). case map_of (limits v) k of None \<Rightarrow> False | Some limit \<Rightarrow> int (card vs) > limit)
          (Volumes_Union (volumes v) vols))"

definition AddLimit :: "VolumeUsage \<Rightarrow> string \<Rightarrow> int \<Rightarrow> VolumeUsage" where
  "AddLimit v storageDriver l = v\<lparr>limits := mput storageDriver l (limits v)\<rparr>"

definition VolumeUsage_Add :: "VolumeUsage \<Rightarrow> Pod \<Rightarrow> Volumes \<Rightarrow> VolumeUsage" where
  "VolumeUsage_Add v pod vols =
     v\<lparr>podVolumeMap := mput (podKey pod) vols (podVolumeMap v),
       volumes := Volumes_Union (volumes v) vols\<rparr>"

definition VolumeUsage_DeletePod :: "VolumeUsage \<Rightarrow> NamespacedName \<Rightarrow> VolumeUsage" where
  "VolumeUsage_DeletePod v key =
     (let pv = mdel key (podVolumeMap v) in
      v\<lparr>podVolumeMap := pv, volumes := foldl (\<lambda>acc (_, c). Volumes_Insert acc c) [] pv\<rparr>)"

section \<open>Lemmas\<close>

lemma Volumes_Insert_Union: "Volumes_Insert u vols = Volumes_Union u vols"
  by (simp add: Volumes_Insert_def Volumes_Union_def)

lemma wf_map_Union [wf_intros]: "wf_map u \<Longrightarrow> wf_map (Volumes_Union u vol)"
  unfolding Volumes_Union_def
  by (induction vol arbitrary: u) (auto simp: split_def intro: wf_intros)

lemma mget_Union:
  assumes "wf_map vol"
  shows "mget {} (Volumes_Union u vol) k = mget {} u k \<union> mget {} vol k"
  using assms
proof (induction vol arbitrary: u)
  case Nil
  then show ?case by (simp add: Volumes_Union_def mget_def)
next
  case (Cons e vol)
  obtain j v where e: "e = (j, v)" by (cases e)
  have step: "Volumes_Union u (e # vol) = Volumes_Union (mput j (mget {} u j \<union> v) u) vol"
    by (simp add: Volumes_Union_def e)
  have "mget {} vol j = {}"
    using Cons.prems e by (force simp: mget_def dest: map_of_SomeD split: option.split)
  then show ?case
    unfolding step using Cons by (auto simp: gomap_simps e mget_def)
qed

lemma keys_Union: "mhas (Volumes_Union u vol) k \<longleftrightarrow> mhas u k \<or> mhas vol k"
proof -
  have "dom (map_of (Volumes_Union u vol)) = dom (map_of u) \<union> dom (map_of vol)"
    unfolding Volumes_Union_def
    by (induction vol arbitrary: u) (auto simp: split_def map_of_mput)
  then show ?thesis by blast
qed

lemma ExceedsLimits_None:
  assumes "wf_map (volumes v)" "wf_map vols"
  shows "ExceedsLimits v vols = None \<longleftrightarrow>
     (\<forall>k l. map_of (limits v) k = Some l \<longrightarrow> mhas (volumes v) k \<or> mhas vols k \<longrightarrow>
        int (card (mget {} (volumes v) k \<union> mget {} vols k)) \<le> l)"
proof -
  have "ExceedsLimits v vols = None \<longleftrightarrow>
      (\<forall>(k, vs) \<in> set (Volumes_Union (volumes v) vols). \<forall>l. map_of (limits v) k = Some l \<longrightarrow> int (card vs) \<le> l)"
    by (fastforce simp: ExceedsLimits_def find_None_iff split: option.splits)
  also have "\<dots> \<longleftrightarrow> (\<forall>k vs. map_of (Volumes_Union (volumes v) vols) k = Some vs \<longrightarrow>
      (\<forall>l. map_of (limits v) k = Some l \<longrightarrow> int (card vs) \<le> l))"
    by (rule map_entries_iff) (rule wf_map_Union[OF assms(1)])
  also have "\<dots> \<longleftrightarrow> (\<forall>k l. map_of (limits v) k = Some l \<longrightarrow> mhas (Volumes_Union (volumes v) vols) k \<longrightarrow>
      int (card (mget {} (Volumes_Union (volumes v) vols) k)) \<le> l)"
    by (force simp: mget_def split: option.splits)
  finally show ?thesis by (simp add: keys_Union mget_Union[OF assms(2)] del: not_None_eq)
qed

lemma mget_fold_Insert:
  "(\<And>e. e \<in> set pv \<Longrightarrow> wf_map (snd e)) \<Longrightarrow>
   mget {} (foldl (\<lambda>acc (_, c). Volumes_Insert acc c) u pv) k =
     mget {} u k \<union> (\<Union>e \<in> set pv. mget {} (snd e) k)"
proof (induction pv arbitrary: u)
  case Nil
  then show ?case by simp
next
  case (Cons e pv)
  have "mget {} (Volumes_Union u (snd e)) k = mget {} u k \<union> mget {} (snd e) k"
    by (rule mget_Union) (simp add: Cons.prems)
  moreover have "mget {} (foldl (\<lambda>acc (_, c). Volumes_Insert acc c) (Volumes_Union u (snd e)) pv) k =
      mget {} (Volumes_Union u (snd e)) k \<union> (\<Union>e \<in> set pv. mget {} (snd e) k)"
    by (rule Cons.IH) (simp add: Cons.prems)
  ultimately show ?case by (simp add: Volumes_Insert_Union split_def Un_assoc)
qed

lemma wf_map_fold_Insert:
  "wf_map u \<Longrightarrow> wf_map (foldl (\<lambda>acc (_, c). Volumes_Insert acc c) u pv)"
  by (induction pv arbitrary: u) (simp_all add: Volumes_Insert_Union split_def wf_map_Union)

text \<open>The volumes that the pods of a node use from a driver; the node counts at least these.\<close>

definition used :: "VolumeUsage \<Rightarrow> string \<Rightarrow> string set" where
  "used v k = {x. \<exists>p c. map_of (podVolumeMap v) p = Some c \<and> x \<in> mget {} c k}"

definition wf_volumes :: "Volumes \<Rightarrow> bool" where
  "wf_volumes c \<longleftrightarrow> wf_map c \<and> (\<forall>k. finite (mget {} c k))"

definition wf_usage :: "VolumeUsage \<Rightarrow> bool" where
  "wf_usage v \<longleftrightarrow> wf_volumes (volumes v) \<and> wf_map (podVolumeMap v) \<and>
     (\<forall>p c. map_of (podVolumeMap v) p = Some c \<longrightarrow> wf_volumes c) \<and>
     (\<forall>k. used v k \<subseteq> mget {} (volumes v) k)"

definition within_limits :: "VolumeUsage \<Rightarrow> bool" where
  "within_limits v \<longleftrightarrow> wf_usage v \<and>
     (\<forall>k l. map_of (limits v) k = Some l \<longrightarrow> 0 \<le> l \<longrightarrow> int (card (mget {} (volumes v) k)) \<le> l)"

lemma wf_usage_Add:
  assumes "wf_usage v" "wf_volumes vols"
  shows "wf_usage (VolumeUsage_Add v pod vols)"
proof -
  have union: "mget {} (Volumes_Union (volumes v) vols) k = mget {} (volumes v) k \<union> mget {} vols k" for k
    using assms(2) by (intro mget_Union) (simp add: wf_volumes_def)
  have "used (VolumeUsage_Add v pod vols) k \<subseteq> used v k \<union> mget {} vols k" for k
    by (auto simp: used_def VolumeUsage_Add_def map_of_mput split: if_splits)
  moreover have "used v k \<subseteq> mget {} (volumes v) k" for k using assms(1) by (simp add: wf_usage_def)
  ultimately have "used (VolumeUsage_Add v pod vols) k \<subseteq> mget {} (volumes v) k \<union> mget {} vols k" for k
    by blast
  then show ?thesis
    using assms union
    by (auto simp: wf_usage_def wf_volumes_def VolumeUsage_Add_def map_of_mput intro: wf_intros split: if_splits)
qed

lemma volumes_after_delete:
  assumes "wf_usage v"
  shows "mget {} (volumes (VolumeUsage_DeletePod v key)) k = used (VolumeUsage_DeletePod v key) k"
proof -
  let ?pv = "mdel key (podVolumeMap v)"
  have wf: "wf_map ?pv" using assms by (auto simp: wf_usage_def intro: wf_intros)
  have "wf_map (snd e)" if "e \<in> set ?pv" for e
  proof -
    have "map_of ?pv (fst e) = Some (snd e)" using that wf by simp
    then have "map_of (podVolumeMap v) (fst e) = Some (snd e)" by (simp only: map_of_mdel) (metis fun_upd_apply option.distinct(1))
    then show ?thesis using assms unfolding wf_usage_def wf_volumes_def by metis
  qed
  from mget_fold_Insert[of ?pv "[]" k, OF this] have "mget {} (volumes (VolumeUsage_DeletePod v key)) k =
      (\<Union>e \<in> set ?pv. mget {} (snd e) k)"
    by (simp add: VolumeUsage_DeletePod_def Let_def mget_def)
  also have "\<dots> = used (VolumeUsage_DeletePod v key) k"
    using map_of_in_set[OF wf] by (force simp: used_def VolumeUsage_DeletePod_def Let_def)
  finally show ?thesis .
qed

lemma used_delete: "used (VolumeUsage_DeletePod v key) k \<subseteq> used v k"
  by (auto simp: used_def VolumeUsage_DeletePod_def Let_def map_of_mdel split: if_splits)

lemma wf_usage_DeletePod:
  assumes "wf_usage v"
  shows "wf_usage (VolumeUsage_DeletePod v key)"
proof -
  have "finite (mget {} (volumes (VolumeUsage_DeletePod v key)) k)" for k
    unfolding volumes_after_delete[OF assms]
    using assms used_delete[of v key k] unfolding wf_usage_def wf_volumes_def by (meson finite_subset)
  moreover have "wf_map (volumes (VolumeUsage_DeletePod v key))"
    by (simp add: VolumeUsage_DeletePod_def Let_def wf_map_fold_Insert)
  ultimately show ?thesis
    using assms volumes_after_delete[OF assms, of key]
    by (auto simp: wf_usage_def wf_volumes_def VolumeUsage_DeletePod_def Let_def map_of_mdel
        intro: wf_intros split: if_splits)
qed

lemma within_limits_Add:
  assumes "within_limits v" "wf_volumes vols" "ExceedsLimits v vols = None"
  shows "within_limits (VolumeUsage_Add v pod vols)"
proof -
  have wf: "wf_map (volumes v)" "wf_map vols"
    using assms(1,2) by (auto simp: within_limits_def wf_usage_def wf_volumes_def)
  have le: "int (card (mget {} (volumes v) k \<union> mget {} vols k)) \<le> l"
    if "map_of (limits v) k = Some l" "0 \<le> l" for k l
  proof (cases "mhas (volumes v) k \<or> mhas vols k")
    case True
    then show ?thesis using assms(3) that unfolding ExceedsLimits_None[OF wf] by blast
  next
    case False
    then show ?thesis using that by (simp add: mget_def)
  qed
  have "wf_usage (VolumeUsage_Add v pod vols)"
    using assms(1,2) by (simp add: within_limits_def wf_usage_Add)
  then show ?thesis
    using le by (simp add: within_limits_def VolumeUsage_Add_def mget_Union[OF wf(2)])
qed

lemma within_limits_DeletePod:
  assumes "within_limits v"
  shows "within_limits (VolumeUsage_DeletePod v key)"
proof -
  have wf: "wf_usage v" using assms by (simp add: within_limits_def)
  have "card (mget {} (volumes (VolumeUsage_DeletePod v key)) k) \<le> card (mget {} (volumes v) k)" for k
    unfolding volumes_after_delete[OF wf]
    using wf used_delete[of v key k] unfolding wf_usage_def wf_volumes_def
    by (meson card_mono order_trans)
  moreover have "limits (VolumeUsage_DeletePod v key) = limits v"
    by (simp add: VolumeUsage_DeletePod_def Let_def)
  ultimately show ?thesis
    using assms wf_usage_DeletePod[OF wf] unfolding within_limits_def
    by (metis of_nat_le_iff order_trans)
qed

lemma wf_GetVolumes_loop:
  "GetVolumes_loop c pod vs acc = Ok vols \<Longrightarrow> wf_volumes acc \<Longrightarrow> wf_volumes vols"
proof (induction vs arbitrary: acc)
  case Nil
  then show ?case by simp
next
  case (Cons x vs)
  have add: "wf_volumes (Volumes_Add acc d i)" for d i
    using Cons.prems(2) by (auto simp: wf_volumes_def Volumes_Add_def gomap_simps intro: wf_intros)
  show ?case
    using Cons.prems add Cons.IH
    by (auto simp: rbind_Ok_iff split: result.splits kube_error.splits option.splits if_splits)
qed

lemma wf_GetVolumes: "GetVolumes c pod = Ok vols \<Longrightarrow> wf_volumes vols"
  unfolding GetVolumes_def by (erule wf_GetVolumes_loop) (simp add: wf_volumes_def mget_def)

text \<open>
  A pod is placed only when its volumes are known and the limits allow them, as the nodes of the
  scheduler do before they call \<^verbatim>\<open>Add\<close>.
\<close>

datatype volume_op = Attach Pod | Detach NamespacedName

fun volume_step :: "kube \<Rightarrow> volume_op \<Rightarrow> VolumeUsage \<Rightarrow> VolumeUsage option" where
  "volume_step c (Attach pod) v =
     (case GetVolumes c pod of
        Panic \<Rightarrow> None
      | Err _ \<Rightarrow> Some v
      | Ok vols \<Rightarrow> Some (if ExceedsLimits v vols = None then VolumeUsage_Add v pod vols else v))"
| "volume_step c (Detach key) v = Some (VolumeUsage_DeletePod v key)"

lemma of_sum_not_Panic [simp]: "of_sum x \<noteq> Panic"
  by (cases x) auto

lemma GetPersistentVolumeClaim_not_Panic: "GetPersistentVolumeClaim c pod x \<noteq> Panic"
  by (simp add: GetPersistentVolumeClaim_def Let_def rbind_Panic_iff split: option.split)

lemma ResolveDriver_not_Panic: "ResolveDriver c pvc sc \<noteq> Panic"
proof -
  have "driverFromVolume c n \<noteq> Panic" "driverFromSC c n \<noteq> Panic" for n
    by (simp_all add: driverFromVolume_def driverFromSC_def rbind_Panic_iff)
  then show ?thesis by (auto simp: ResolveDriver_def split: result.splits kube_error.splits)
qed

lemma GetVolumes_loop_not_Panic: "GetVolumes_loop c pod vs acc \<noteq> Panic"
proof (induction vs arbitrary: acc)
  case Nil
  then show ?case by simp
next
  case (Cons x vs)
  have "GetPersistentVolumeClaim c pod x \<noteq> Panic" by (rule GetPersistentVolumeClaim_not_Panic)
  then show ?case
    using Cons.IH ResolveDriver_not_Panic
    by (auto simp: rbind_Panic_iff split: result.split kube_error.split option.split)
qed

interpretation attached: total_machine "volume_step c" "\<lambda>v. within_limits v \<and> limits v = L"
proof unfold_locales
  fix s x t
  assume a: "within_limits s \<and> limits s = L" "volume_step c x s = Some t"
  have keep: "limits (VolumeUsage_Add s p vs) = limits s" "limits (VolumeUsage_DeletePod s k) = limits s" for p vs k
    by (simp_all add: VolumeUsage_Add_def VolumeUsage_DeletePod_def Let_def)
  show "within_limits t \<and> limits t = L"
    using a by (cases x)
      (auto simp: keep intro: within_limits_Add within_limits_DeletePod wf_GetVolumes
        split: result.splits if_splits)
next
  fix s x
  show "\<exists>t. volume_step c x s = Some t"
    by (cases x) (auto simp: GetVolumes_def GetVolumes_loop_not_Panic split: result.split)
qed

lemma within_limits_New: "within_limits (NewVolumeUsage\<lparr>limits := L\<rparr>)"
  by (auto simp: within_limits_def wf_usage_def wf_volumes_def NewVolumeUsage_def used_def mget_def)

section \<open>Properties\<close>


definition one_claim :: kube where
  "one_claim = \<lparr>getPVC = (\<lambda>(ns, n). Inr \<lparr>pvcNamespace = ns, pvcName = n, pvcVolumeName = ''pv'',
       pvcStorageClassName = None, pvcDeletionTimestamp = None, pvcPhase = ''Bound'', pvcAnnotations = []\<rparr>),
     getPV = (\<lambda>_. Inr \<lparr>pvCSIDriver = Some ''csi'', pvAWSElasticBlockStore = False, pvRequired = None,
       pvLocal = False, pvHostPath = False, pvDeletionTimestamp = None\<rparr>),
     getSC = (\<lambda>_. Inl NotFound), getCSIName = (\<lambda>_. None)\<rparr>"

definition claiming_pod :: "string \<Rightarrow> Pod" where
  "claiming_pod n = (bare_pod n)\<lparr>podVolumes := [\<lparr>volName = ''data'', volClaimName = Some n, volEphemeral = False\<rparr>]\<rparr>"


end
