(* ===== verification/VolumeTopology.thy ===== *)
theory VolumeTopology
  imports VolumeUsage Requirements
begin

text \<open>
  The constraints a pod's volumes put on its node
  (\<^verbatim>\<open>pkg/controllers/provisioning/scheduling/volumetopology.go\<close>). The requirements of a volume are a
  list of alternatives; the requirements of a pod are the compatible combinations of one alternative
  per volume. A nil map of requirements is None.
\<close>

section \<open>Combining alternatives\<close>

definition volumeRequirementsCompatible ::
  "label_env \<Rightarrow> requirements option \<Rightarrow> requirements option \<Rightarrow> bool" where
  "volumeRequirementsCompatible E existing volReq =
     (case (existing, volReq) of
        (Some e, Some q) \<Rightarrow> Requirements_Intersects E e q = []
      | _ \<Rightarrow> True)"

definition mergeVolumeRequirements ::
  "label_env \<Rightarrow> requirements option \<Rightarrow> requirements option \<Rightarrow> requirements option" where
  "mergeVolumeRequirements E existing volReq =
     (let merged = NewRequirements E [];
          merged' = (case existing of
                       None \<Rightarrow> merged
                     | Some e \<Rightarrow> Requirements_Add E merged (Requirements_Values e));
          vs = (case volReq of None \<Rightarrow> [] | Some q \<Rightarrow> Requirements_Values q)
      in Some (Requirements_Add E merged' vs))"

definition mergeCompatibleVolumeRequirementAlternatives ::
  "label_env \<Rightarrow> requirements option list \<Rightarrow> requirements option list \<Rightarrow> requirements option list" where
  "mergeCompatibleVolumeRequirementAlternatives E alternatives volAlts =
     [mergeVolumeRequirements E existing volReq.
        existing \<leftarrow> alternatives, volReq \<leftarrow> volAlts, volumeRequirementsCompatible E existing volReq]"

definition mergeAllVolumeRequirementAlternatives ::
  "label_env \<Rightarrow> requirements option list \<Rightarrow> requirements option list \<Rightarrow> requirements option list" where
  "mergeAllVolumeRequirementAlternatives E alternatives volAlts =
     [mergeVolumeRequirements E existing volReq. existing \<leftarrow> alternatives, volReq \<leftarrow> volAlts]"

definition mergeVolumeRequirementAlternatives ::
  "label_env \<Rightarrow> requirements option list \<Rightarrow> requirements option list \<Rightarrow> requirements option list" where
  "mergeVolumeRequirementAlternatives E alternatives volAlts =
     (let merged = mergeCompatibleVolumeRequirementAlternatives E alternatives volAlts in
      if merged \<noteq> [] then merged else mergeAllVolumeRequirementAlternatives E alternatives volAlts)"

section \<open>The alternatives of a volume\<close>

fun of_panic :: "'a option \<Rightarrow> ('e, 'a) result" where
  "of_panic None = Panic"
| "of_panic (Some x) = Ok x"

fun sc_alternatives ::
  "label_env \<Rightarrow> (string \<times> string list) list list \<Rightarrow> requirements option list
     \<Rightarrow> (kube_error, requirements option list) result" where
  "sc_alternatives E [] alternatives = Ok alternatives"
| "sc_alternatives E (topology # topologies) alternatives =
     (let reqs = map (\<lambda>(k, vs). \<lparr>nsKey = k, nsOperator = OpIn, nsValues = vs, nsMinValues = None\<rparr>) topology in
      if reqs = [] then sc_alternatives E topologies alternatives
      else rbind (of_panic (NewNodeSelectorRequirements E reqs))
             (\<lambda>rs. sc_alternatives E topologies (alternatives @ [Some rs])))"

definition getStorageClassRequirements ::
  "label_env \<Rightarrow> kube \<Rightarrow> string \<Rightarrow> (kube_error, requirements option list) result" where
  "getStorageClassRequirements E c storageClassName =
     rbind (of_sum (getSC c ([], storageClassName)))
       (\<lambda>sc. sc_alternatives E (scAllowedTopologies sc) [])"

fun pv_alternatives ::
  "label_env \<Rightarrow> bool \<Rightarrow> NodeSelectorRequirement list list \<Rightarrow> requirements option list
     \<Rightarrow> (kube_error, requirements option list) result" where
  "pv_alternatives E local [] alternatives = Ok alternatives"
| "pv_alternatives E local (term # terms) alternatives =
     (let reqs = (if local then filter (\<lambda>r. nsKey r \<noteq> LabelHostname) term else term) in
      if local \<and> term \<noteq> [] \<and> reqs = [] then
        pv_alternatives E local terms (alternatives @ [Some (NewRequirements E [])])
      else if reqs = [] then pv_alternatives E local terms alternatives
      else rbind (of_panic (NewNodeSelectorRequirements E reqs))
             (\<lambda>rs. pv_alternatives E local terms (alternatives @ [Some rs])))"

definition getPersistentVolumeRequirements ::
  "label_env \<Rightarrow> kube \<Rightarrow> Pod \<Rightarrow> string \<Rightarrow> (kube_error, requirements option list) result" where
  "getPersistentVolumeRequirements E c pod volumeName =
     rbind (of_sum (getPV c (podNamespace pod, volumeName)))
       (\<lambda>pv. case pvRequired pv of
                None \<Rightarrow> Ok []
              | Some terms \<Rightarrow> pv_alternatives E (pvLocal pv \<or> pvHostPath pv) terms [])"

definition volume_getRequirements ::
  "label_env \<Rightarrow> kube \<Rightarrow> Pod \<Rightarrow> Volume \<Rightarrow> (kube_error, requirements option list) result" where
  "volume_getRequirements E c pod volume =
     rbind (GetPersistentVolumeClaim c pod volume)
       (\<lambda>claim. case claim of
           None \<Rightarrow> Ok []
         | Some pvc \<Rightarrow>
             if pvcVolumeName pvc \<noteq> [] then getPersistentVolumeRequirements E c pod (pvcVolumeName pvc)
             else if storage_class_name pvc \<noteq> [] then
               getStorageClassRequirements E c (storage_class_name pvc)
             else Ok [])"

section \<open>The alternatives of a pod\<close>

fun GetRequirements_loop ::
  "label_env \<Rightarrow> kube \<Rightarrow> Pod \<Rightarrow> Volume list \<Rightarrow> requirements option list
     \<Rightarrow> (kube_error, requirements option list) result" where
  "GetRequirements_loop E c pod [] alternatives = Ok alternatives"
| "GetRequirements_loop E c pod (vol # vols) alternatives =
     rbind (volume_getRequirements E c pod vol)
       (\<lambda>volAlts. GetRequirements_loop E c pod vols
          (if volAlts = [] then alternatives
           else mergeVolumeRequirementAlternatives E alternatives volAlts))"

definition GetRequirements ::
  "label_env \<Rightarrow> kube \<Rightarrow> Pod \<Rightarrow> (kube_error, requirements option list) result" where
  "GetRequirements E c pod =
     rbind (GetRequirements_loop E c pod (podVolumes pod) [None])
       (\<lambda>alternatives. if alternatives = [None] then Ok [] else Ok alternatives)"

section \<open>Validation of the claims\<close>

datatype claim_error =
    ClaimRead kube_error
  | ClaimBeingDeleted
  | ClaimLost
  | VolumeBeingDeleted
  | ClaimUnbound
  | NoStorageClass
  | ImmediateBinding
  | UnsupportedTopologyKey string
  | UnsupportedProvisioner string

definition lift_err :: "(kube_error, 'a) result \<Rightarrow> (claim_error, 'a) result" where
  "lift_err r = (case r of Ok x \<Rightarrow> Ok x | Err e \<Rightarrow> Err (ClaimRead e) | Panic \<Rightarrow> Panic)"

definition validateVolume :: "kube \<Rightarrow> string \<Rightarrow> (claim_error, unit) result" where
  "validateVolume c volumeName =
     (if volumeName = [] then Ok ()
      else rbind (lift_err (of_sum (getPV c ([], volumeName))))
             (\<lambda>pv. if pvDeletionTimestamp pv \<noteq> None then Err VolumeBeingDeleted else Ok ()))"

definition AnnBindCompleted :: string where "AnnBindCompleted = ''pv.kubernetes.io/bind-completed''"

text \<open>
  \<open>badProvisioners\<close> and \<open>badKeys\<close> are the package variables \<^verbatim>\<open>UnsupportedProvisioners\<close> and
  \<^verbatim>\<open>UnsupportedTopologyKeys\<close>, which a provider fills.
\<close>

definition validate_claim_binding ::
  "kube \<Rightarrow> string set \<Rightarrow> PersistentVolumeClaim \<Rightarrow> (claim_error, unit) result" where
  "validate_claim_binding c badKeys pvc =
     (if pvcVolumeName pvc \<noteq> [] then
        rbind (validateVolume c (pvcVolumeName pvc))
          (\<lambda>_. if mhas (pvcAnnotations pvc) AnnBindCompleted then Ok () else Err ClaimUnbound)
      else if storage_class_name pvc = [] then Err NoStorageClass
      else rbind (lift_err (of_sum (getSC c ([], storage_class_name pvc))))
        (\<lambda>sc. if scVolumeBindingMode sc = Some ''Immediate'' then Err ImmediateBinding
               else case find (\<lambda>(k, _). k \<in> badKeys) (concat (scAllowedTopologies sc)) of
                 Some (k, _) \<Rightarrow> Err (UnsupportedTopologyKey k)
               | None \<Rightarrow> Ok ()))"

definition validate_claim ::
  "kube \<Rightarrow> string set \<Rightarrow> string set \<Rightarrow> PersistentVolumeClaim \<Rightarrow> (claim_error, unit) result" where
  "validate_claim c badProvisioners badKeys pvc =
     (if pvcDeletionTimestamp pvc \<noteq> None then Err ClaimBeingDeleted
      else if pvcPhase pvc = ''Lost'' then Err ClaimLost
      else rbind (validate_claim_binding c badKeys pvc)
        (\<lambda>_. rbind (lift_err (ResolveDriver c pvc (storage_class_name pvc)))
          (\<lambda>driver. if driver \<in> badProvisioners then Err (UnsupportedProvisioner driver) else Ok ())))"

fun ValidatePersistentVolumeClaims ::
  "kube \<Rightarrow> string set \<Rightarrow> string set \<Rightarrow> Pod \<Rightarrow> Volume list \<Rightarrow> (claim_error, unit) result" where
  "ValidatePersistentVolumeClaims c bp bk pod [] = Ok ()"
| "ValidatePersistentVolumeClaims c bp bk pod (vol # vols) =
     rbind (lift_err (GetPersistentVolumeClaim c pod vol))
       (\<lambda>claim. case claim of
           None \<Rightarrow> ValidatePersistentVolumeClaims c bp bk pod vols
         | Some pvc \<Rightarrow> rbind (validate_claim c bp bk pvc)
             (\<lambda>_. ValidatePersistentVolumeClaims c bp bk pod vols))"

section \<open>Lemmas\<close>

text \<open>A node whose label \<open>k\<close> has the value \<open>lbl k\<close> meets an alternative.\<close>

definition meets :: "label_env \<Rightarrow> (string \<Rightarrow> string) \<Rightarrow> requirements option \<Rightarrow> bool" where
  "meets E lbl a = (case a of None \<Rightarrow> True | Some rs \<Rightarrow> \<forall>k. Requirement_Has (Requirements_Get E rs k) (lbl k))"

definition wf_alt :: "label_env \<Rightarrow> requirements option \<Rightarrow> bool" where
  "wf_alt E a = (case a of None \<Rightarrow> True | Some rs \<Rightarrow> wf_requirements E rs)"

lemma wf_add_expressions:
  assumes "wf_label_env E" "add_expressions E rs ns = Some rs'" "wf_requirements E rs"
  shows "wf_requirements E rs'"
  using assms(2,3)
proof (induction ns arbitrary: rs)
  case Nil
  then show ?case by simp
next
  case (Cons n ns)
  then obtain r where r: "NewRequirementWithFlexibility E (nsKey n) (nsOperator n) (nsMinValues n) (nsValues n) = Some r"
    "add_expressions E (Requirements_Add E rs [r]) ns = Some rs'"
    by (auto split: option.splits)
  have "addable E [r]"
    using r(1) assms(1) NewRequirement_keeps_key wf_NewRequirementWithFlexibility
    by (metis addable_single normalize_key_idem)
  then show ?case using Cons r(2) wf_Add by blast
qed

lemma NewRequirements_Nil [simp]: "NewRequirements E [] = []"
  by (simp add: NewRequirements_def Requirements_Add_def)

lemma Requirements_Add_Nil [simp]: "Requirements_Add E rs [] = rs"
  by (simp add: Requirements_Add_def)

lemma merge_wf:
  assumes "wf_alt E a" "wf_alt E b"
  shows "wf_alt E (mergeVolumeRequirements E a b)"
  using assms
  by (auto simp: wf_alt_def mergeVolumeRequirements_def Let_def intro!: wf_Add split: option.splits)

lemma merge_meets:
  assumes "wf_alt E a" "wf_alt E b"
  shows "meets E lbl (mergeVolumeRequirements E a b) \<longleftrightarrow> meets E lbl a \<and> meets E lbl b"
  using assms
  by (cases a; cases b)
    (auto simp: meets_def mergeVolumeRequirements_def wf_alt_def Has_Get_Add_Values)

lemma incompatible_unmet:
  assumes "wf_alt E a" "wf_alt E b" "\<not> volumeRequirementsCompatible E a b"
  shows "\<not> (meets E lbl a \<and> meets E lbl b)"
proof -
  from assms(3) obtain rs qs where ab: "a = Some rs" "b = Some qs" "Requirements_Intersects E rs qs \<noteq> []"
    by (auto simp: volumeRequirementsCompatible_def split: option.splits)
  then have wf: "wf_requirements E rs" "wf_requirements E qs" using assms(1,2) by (auto simp: wf_alt_def)
  from ab(3) obtain k e q where k: "map_of rs k = Some e" "map_of qs k = Some q"
    "\<not> (\<exists>v. Requirement_Has e v \<and> Requirement_Has q v)"
    unfolding Intersects_Nil[OF wf] by blast
  show ?thesis
  proof
    assume "meets E lbl a \<and> meets E lbl b"
    then have "Requirement_Has (Requirements_Get E rs k) (lbl k) \<and> Requirement_Has (Requirements_Get E qs k) (lbl k)"
      by (simp add: meets_def ab(1,2))
    then show False using k by (auto simp: Requirements_Get_def)
  qed
qed

lemma merge_alternatives_meets:
  assumes "\<forall>a \<in> set as. wf_alt E a" "\<forall>b \<in> set bs. wf_alt E b"
  shows "(\<exists>m \<in> set (mergeVolumeRequirementAlternatives E as bs). meets E lbl m) \<longleftrightarrow>
     (\<exists>a \<in> set as. meets E lbl a) \<and> (\<exists>b \<in> set bs. meets E lbl b)"
proof -
  have comp: "(\<exists>m \<in> set (mergeCompatibleVolumeRequirementAlternatives E as bs). meets E lbl m) \<longleftrightarrow>
      (\<exists>a \<in> set as. \<exists>b \<in> set bs. volumeRequirementsCompatible E a b \<and> meets E lbl a \<and> meets E lbl b)"
    using assms by (auto simp: mergeCompatibleVolumeRequirementAlternatives_def merge_meets)
  have all: "(\<exists>m \<in> set (mergeAllVolumeRequirementAlternatives E as bs). meets E lbl m) \<longleftrightarrow>
      (\<exists>a \<in> set as. \<exists>b \<in> set bs. meets E lbl a \<and> meets E lbl b)"
    using assms by (auto simp: mergeAllVolumeRequirementAlternatives_def merge_meets)
  have prune: "volumeRequirementsCompatible E a b"
    if "a \<in> set as" "b \<in> set bs" "meets E lbl a" "meets E lbl b" for a b
    using incompatible_unmet assms that by blast
  have comp': "(\<exists>m \<in> set (mergeCompatibleVolumeRequirementAlternatives E as bs). meets E lbl m) \<longleftrightarrow>
      (\<exists>a \<in> set as. meets E lbl a) \<and> (\<exists>b \<in> set bs. meets E lbl b)"
    unfolding comp using prune by blast
  show ?thesis
  proof (cases "mergeCompatibleVolumeRequirementAlternatives E as bs = []")
    case True
    then show ?thesis unfolding mergeVolumeRequirementAlternatives_def Let_def using all by simp
  next
    case False
    then show ?thesis unfolding mergeVolumeRequirementAlternatives_def Let_def using comp' by simp
  qed
qed

lemma merge_alternatives_wf:
  assumes "\<forall>a \<in> set as. wf_alt E a" "\<forall>b \<in> set bs. wf_alt E b"
  shows "\<forall>m \<in> set (mergeVolumeRequirementAlternatives E as bs). wf_alt E m"
  using assms merge_wf
  by (auto simp: mergeVolumeRequirementAlternatives_def mergeCompatibleVolumeRequirementAlternatives_def
      mergeAllVolumeRequirementAlternatives_def Let_def)

lemma merge_alternatives_defined: "None \<notin> set (mergeVolumeRequirementAlternatives E as bs)"
  by (auto simp: mergeVolumeRequirementAlternatives_def mergeCompatibleVolumeRequirementAlternatives_def
      mergeAllVolumeRequirementAlternatives_def mergeVolumeRequirements_def Let_def)

lemma merge_alternatives_nonempty:
  "as \<noteq> [] \<Longrightarrow> bs \<noteq> [] \<Longrightarrow> mergeVolumeRequirementAlternatives E as bs \<noteq> []"
  by (cases as; cases bs)
    (auto simp: mergeVolumeRequirementAlternatives_def mergeAllVolumeRequirementAlternatives_def Let_def)

lemma of_panic_Ok [simp]: "of_panic x = Ok y \<longleftrightarrow> x = Some y"
  by (cases x) auto

lemma wf_NewNodeSelectorRequirements:
  "wf_label_env E \<Longrightarrow> NewNodeSelectorRequirements E ns = Some rs \<Longrightarrow> wf_requirements E rs"
  unfolding NewNodeSelectorRequirements_def by (metis wf_add_expressions NewRequirements_Nil wf_empty)

lemma wf_alts_snoc:
  "\<forall>a \<in> set as. wf_alt E a \<Longrightarrow> wf_requirements E rs \<Longrightarrow> \<forall>a \<in> set (as @ [Some rs]). wf_alt E a"
  by (simp add: wf_alt_def)

lemma sc_alternatives_wf:
  assumes "wf_label_env E"
  shows "sc_alternatives E ts as = Ok as' \<Longrightarrow> \<forall>a \<in> set as. wf_alt E a \<Longrightarrow> \<forall>a \<in> set as'. wf_alt E a"
proof (induction ts arbitrary: as)
  case Nil
  then show ?case by simp
next
  case (Cons t ts)
  show ?case
  proof (cases "t = []")
    case True
    then show ?thesis using Cons by simp
  next
    case False
    then obtain rs ns where rs: "NewNodeSelectorRequirements E ns = Some rs"
      "sc_alternatives E ts (as @ [Some rs]) = Ok as'"
      using Cons.prems(1) by (auto simp: Let_def rbind_Ok_iff)
    from Cons.IH[OF rs(2) wf_alts_snoc[OF Cons.prems(2) wf_NewNodeSelectorRequirements[OF assms rs(1)]]]
    show ?thesis .
  qed
qed

lemma pv_alternatives_wf:
  assumes "wf_label_env E"
  shows "pv_alternatives E local ts as = Ok as' \<Longrightarrow> \<forall>a \<in> set as. wf_alt E a \<Longrightarrow> \<forall>a \<in> set as'. wf_alt E a"
proof (induction ts arbitrary: as)
  case Nil
  then show ?case by simp
next
  case (Cons t ts)
  from Cons.prems(1) consider "pv_alternatives E local ts (as @ [Some []]) = Ok as'"
    | "pv_alternatives E local ts as = Ok as'"
    | ns rs where "NewNodeSelectorRequirements E ns = Some rs" "pv_alternatives E local ts (as @ [Some rs]) = Ok as'"
    by (auto simp: Let_def rbind_Ok_iff split: if_splits)
  then show ?case
  proof cases
    case 1
    from Cons.IH[OF this wf_alts_snoc[OF Cons.prems(2) wf_empty]] show ?thesis .
  next
    case 2
    from Cons.IH[OF this Cons.prems(2)] show ?thesis .
  next
    case 3
    from Cons.IH[OF 3(2) wf_alts_snoc[OF Cons.prems(2) wf_NewNodeSelectorRequirements[OF assms 3(1)]]]
    show ?thesis .
  qed
qed

lemma getStorageClassRequirements_wf:
  assumes "wf_label_env E" "getStorageClassRequirements E c n = Ok as"
  shows "\<forall>a \<in> set as. wf_alt E a"
proof -
  obtain sc :: StorageClass where "sc_alternatives E (scAllowedTopologies sc) [] = Ok as"
    using assms(2) by (auto simp: getStorageClassRequirements_def rbind_Ok_iff)
  from sc_alternatives_wf[OF assms(1) this] show ?thesis by simp
qed

lemma getPersistentVolumeRequirements_wf:
  assumes "wf_label_env E" "getPersistentVolumeRequirements E c pod n = Ok as"
  shows "\<forall>a \<in> set as. wf_alt E a"
proof -
  obtain pv :: PersistentVolume where pv: "(case pvRequired pv of None \<Rightarrow> Ok []
      | Some terms \<Rightarrow> pv_alternatives E (pvLocal pv \<or> pvHostPath pv) terms []) = Ok as"
    using assms(2) by (auto simp: getPersistentVolumeRequirements_def rbind_Ok_iff)
  then show ?thesis
    using pv_alternatives_wf[OF assms(1), of "pvLocal pv \<or> pvHostPath pv" _ "[]"]
    by (cases "pvRequired pv") auto
qed

lemma volume_getRequirements_wf:
  assumes "wf_label_env E" "volume_getRequirements E c pod vol = Ok as"
  shows "\<forall>a \<in> set as. wf_alt E a"
proof -
  obtain claim where claim: "(case claim of None \<Rightarrow> Ok []
         | Some pvc \<Rightarrow>
             if pvcVolumeName pvc \<noteq> [] then getPersistentVolumeRequirements E c pod (pvcVolumeName pvc)
             else if storage_class_name pvc \<noteq> [] then
               getStorageClassRequirements E c (storage_class_name pvc)
             else Ok []) = Ok as"
    using assms(2) by (auto simp: volume_getRequirements_def rbind_Ok_iff)
  then show ?thesis
    using getPersistentVolumeRequirements_wf[OF assms(1)] getStorageClassRequirements_wf[OF assms(1)]
    by (cases claim) (auto split: if_splits)
qed

lemma GetRequirements_loop_meets:
  assumes "wf_label_env E"
  shows "GetRequirements_loop E c pod vols as = Ok as' \<Longrightarrow> \<forall>a \<in> set as. wf_alt E a \<Longrightarrow>
    \<exists>f. (\<forall>vol \<in> set vols. volume_getRequirements E c pod vol = Ok (f vol)) \<and>
        ((\<exists>a \<in> set as'. meets E lbl a) \<longleftrightarrow>
         (\<exists>a \<in> set as. meets E lbl a) \<and> (\<forall>vol \<in> set vols. f vol = [] \<or> (\<exists>a \<in> set (f vol). meets E lbl a)))"
proof (induction vols arbitrary: as)
  case Nil
  then show ?case by simp
next
  case (Cons vol vols)
  then obtain bs where bs: "volume_getRequirements E c pod vol = Ok bs"
    "GetRequirements_loop E c pod vols (if bs = [] then as else mergeVolumeRequirementAlternatives E as bs) = Ok as'"
    by (auto simp: rbind_Ok_iff)
  let ?as = "if bs = [] then as else mergeVolumeRequirementAlternatives E as bs"
  have wf: "\<forall>b \<in> set bs. wf_alt E b" by (rule volume_getRequirements_wf[OF assms bs(1)])
  have "\<forall>a \<in> set ?as. wf_alt E a" using Cons.prems(2) merge_alternatives_wf[OF Cons.prems(2) wf] by simp
  from Cons.IH[OF bs(2) this] obtain f where f:
    "\<forall>vol \<in> set vols. volume_getRequirements E c pod vol = Ok (f vol)"
    "(\<exists>a \<in> set as'. meets E lbl a) \<longleftrightarrow>
       (\<exists>a \<in> set ?as. meets E lbl a) \<and> (\<forall>vol \<in> set vols. f vol = [] \<or> (\<exists>a \<in> set (f vol). meets E lbl a))"
    by blast
  define g where "g = f(vol := bs)"
  have same: "f v = g v" if "v \<in> set vols" for v
    using f(1) bs(1) that by (cases "v = vol") (auto simp: g_def)
  have "(\<exists>a \<in> set ?as. meets E lbl a) \<longleftrightarrow>
      (\<exists>a \<in> set as. meets E lbl a) \<and> (bs = [] \<or> (\<exists>b \<in> set bs. meets E lbl b))"
    using merge_alternatives_meets[OF Cons.prems(2) wf] by auto
  moreover have "g vol = bs" by (simp add: g_def)
  ultimately show ?case
    using f bs(1) same by (intro exI[of _ g]) auto
qed

lemma GetRequirements_loop_defined:
  "GetRequirements_loop E c pod vols as = Ok as' \<Longrightarrow> as = [None] \<or> as \<noteq> [] \<and> None \<notin> set as \<Longrightarrow>
     as' = [None] \<or> as' \<noteq> [] \<and> None \<notin> set as'"
proof (induction vols arbitrary: as)
  case Nil
  then show ?case by simp
next
  case (Cons vol vols)
  from Cons.prems(1) obtain bs where bs: "GetRequirements_loop E c pod vols
      (if bs = [] then as else mergeVolumeRequirementAlternatives E as bs) = Ok as'"
    by (auto simp: rbind_Ok_iff)
  have "as \<noteq> []" using Cons.prems(2) by auto
  then show ?case
    using Cons.IH[OF bs] Cons.prems(2) merge_alternatives_defined merge_alternatives_nonempty by auto
qed

section \<open>Properties\<close>

text \<open>
  The alternatives computed for a pod are exact: a node's labels meet one of them if and only if
  they meet an alternative of each volume that has any. Combinations that are pruned as
  incompatible lose no node, and no alternatives at all means that no label is ruled out.
\<close>

theorem volume_alternatives_exact:
  assumes "wf_label_env E" "GetRequirements E c pod = Ok alternatives"
  shows "\<exists>f. (\<forall>vol \<in> set (podVolumes pod). volume_getRequirements E c pod vol = Ok (f vol)) \<and>
     (alternatives = [] \<or> (\<exists>a \<in> set alternatives. meets E lbl a) \<longleftrightarrow>
        (\<forall>vol \<in> set (podVolumes pod). f vol = [] \<or> (\<exists>a \<in> set (f vol). meets E lbl a)))"
proof -
  from assms(2) obtain as where as: "GetRequirements_loop E c pod (podVolumes pod) [None] = Ok as"
    "(if as = [None] then Ok [] else Ok as) = (Ok alternatives :: (kube_error, requirements option list) result)"
    by (auto simp: GetRequirements_def rbind_Ok_iff)
  have "\<forall>a \<in> set [None]. wf_alt E a" "\<exists>a \<in> set [None]. meets E lbl a"
    by (simp_all add: wf_alt_def meets_def)
  with GetRequirements_loop_meets[OF assms(1) as(1), of lbl] obtain f where f:
    "\<forall>vol \<in> set (podVolumes pod). volume_getRequirements E c pod vol = Ok (f vol)"
    "(\<exists>a \<in> set as. meets E lbl a) \<longleftrightarrow>
       (\<forall>vol \<in> set (podVolumes pod). f vol = [] \<or> (\<exists>a \<in> set (f vol). meets E lbl a))"
    by auto
  moreover have "alternatives = [] \<or> (\<exists>a \<in> set alternatives. meets E lbl a) \<longleftrightarrow> (\<exists>a \<in> set as. meets E lbl a)"
    using GetRequirements_loop_defined[OF as(1)] as(2) by (auto simp: meets_def split: if_splits)
  ultimately show ?thesis by auto
qed

text \<open>Two volumes, one in zones a or b, the other in zones b or c: only zone b is left.\<close>

definition zonal_kube :: kube where
  "zonal_kube = \<lparr>getPVC = (\<lambda>(ns, n). Inr \<lparr>pvcNamespace = ns, pvcName = n, pvcVolumeName = [],
       pvcStorageClassName = Some n, pvcDeletionTimestamp = None, pvcPhase = ''Pending'', pvcAnnotations = []\<rparr>),
     getPV = (\<lambda>_. Inl NotFound),
     getSC = (\<lambda>(_, n). Inr \<lparr>scProvisioner = ''csi'',
       scAllowedTopologies = (if n = ''ab'' then [[(''zone'', [''a''])], [(''zone'', [''b''])]]
                              else [[(''zone'', [''b''])], [(''zone'', [''c''])]]),
       scVolumeBindingMode = None\<rparr>),
     getCSIName = (\<lambda>_. None)\<rparr>"

definition two_volume_pod :: Pod where
  "two_volume_pod = (bare_pod ''p'')\<lparr>podVolumes :=
     [\<lparr>volName = ''x'', volClaimName = Some ''ab'', volEphemeral = False\<rparr>,
      \<lparr>volName = ''y'', volClaimName = Some ''bc'', volEphemeral = False\<rparr>]\<rparr>"

theorem volume_alternatives_exact_witness:
  "\<exists>alternatives. GetRequirements core_labels zonal_kube two_volume_pod = Ok alternatives \<and>
     length alternatives = 1 \<and> \<not> (\<exists>a \<in> set alternatives. meets core_labels (\<lambda>_. ''a'') a)"
proof -
  have "(case GetRequirements core_labels zonal_kube two_volume_pod of Ok as \<Rightarrow> length as | _ \<Rightarrow> 0) = 1"
    by code_simp
  then obtain as where as: "GetRequirements core_labels zonal_kube two_volume_pod = Ok as" "length as = 1"
    by (auto split: result.splits)
  let ?y = "\<lparr>volName = ''y'', volClaimName = Some ''bc'', volEphemeral = False\<rparr>"
  have y: "case volume_getRequirements core_labels zonal_kube two_volume_pod ?y of
      Ok bs \<Rightarrow> bs \<noteq> [] \<and> list_all (\<lambda>b. case b of None \<Rightarrow> False
        | Some rs \<Rightarrow> \<not> Requirement_Has (Requirements_Get core_labels rs ''zone'') ''a'') bs
    | _ \<Rightarrow> False"
    by code_simp
  obtain f where f: "\<forall>vol \<in> set (podVolumes two_volume_pod).
      volume_getRequirements core_labels zonal_kube two_volume_pod vol = Ok (f vol)"
    "as = [] \<or> (\<exists>a \<in> set as. meets core_labels (\<lambda>_. ''a'') a) \<longleftrightarrow>
       (\<forall>vol \<in> set (podVolumes two_volume_pod).
          f vol = [] \<or> (\<exists>a \<in> set (f vol). meets core_labels (\<lambda>_. ''a'') a))"
    using volume_alternatives_exact[OF wf_core_labels as(1), of "\<lambda>_. ''a''"] by (elim exE conjE)
  have mem: "?y \<in> set (podVolumes two_volume_pod)" by (simp add: two_volume_pod_def)
  with f(1) y have "f ?y \<noteq> []" "\<forall>b \<in> set (f ?y). \<not> meets core_labels (\<lambda>_. ''a'') b"
    by (auto simp: list_all_iff meets_def split: option.splits)
  with f(2) mem as show ?thesis by auto
qed

end
