(* ===== verification/TopologyCounts.thy ===== *)
theory TopologyCounts
  imports Requirements Pods
begin

text \<open>
  Topology groups: how many pods matching a selector run in each domain of a topology key, and the
  domains a new pod may go to under a spread constraint, an affinity or an anti-affinity
  (\<^verbatim>\<open>topologygroup.go\<close>, \<^verbatim>\<open>topologynodefilter.go\<close> and \<^verbatim>\<open>topologydomaingroup.go\<close> of
  \<^verbatim>\<open>pkg/controllers/provisioning/scheduling\<close>).

  Counts are 32-bit. \<open>asSelector\<close> is \<^verbatim>\<open>metav1.LabelSelectorAsSelector\<close>, \<open>toleratesTaint\<close> the toleration
  test of the Kubernetes API and \<open>unsorted\<close> the enumeration of a set.
\<close>

section \<open>The node filter\<close>

record TopologyNodeFilter =
  nfRequirements :: "requirements list"
  nfTaintPolicy :: NodeInclusionPolicy
  nfAffinityPolicy :: NodeInclusionPolicy
  nfTolerations :: "Toleration list"

definition zero_filter :: TopologyNodeFilter where
  "zero_filter = \<lparr>nfRequirements = [], nfTaintPolicy = UnsetPolicy, nfAffinityPolicy = UnsetPolicy,
     nfTolerations = []\<rparr>"

definition required_terms :: "Pod \<Rightarrow> NodeSelectorRequirement list list option" where
  "required_terms p =
     (case podAffinities p of
        None \<Rightarrow> None
      | Some a \<Rightarrow> (case nodeAffinity a of None \<Rightarrow> None | Some na \<Rightarrow> naRequired na))"

definition filter_term :: "label_env \<Rightarrow> requirements \<Rightarrow> NodeSelectorRequirement list \<Rightarrow> requirements option" where
  "filter_term E nodeSelectorRequirements term =
     (case NewNodeSelectorRequirements E term of
        None \<Rightarrow> None
      | Some rs \<Rightarrow>
          Some (Requirements_Add E
                  (Requirements_Add E (NewRequirements E []) (Requirements_Values nodeSelectorRequirements))
                  (Requirements_Values rs)))"

definition MakeTopologyNodeFilter ::
  "label_env \<Rightarrow> Pod \<Rightarrow> NodeInclusionPolicy \<Rightarrow> NodeInclusionPolicy \<Rightarrow> TopologyNodeFilter option" where
  "MakeTopologyNodeFilter E p taintPolicy affinityPolicy =
     (case NewLabelRequirements E (podNodeSelector p) of
        None \<Rightarrow> None
      | Some nodeSelectorRequirements \<Rightarrow>
          (case required_terms p of
             None \<Rightarrow> Some \<lparr>nfRequirements = [nodeSelectorRequirements], nfTaintPolicy = taintPolicy,
                           nfAffinityPolicy = affinityPolicy, nfTolerations = podTolerations p\<rparr>
           | Some terms \<Rightarrow>
               (case those (map (filter_term E nodeSelectorRequirements) terms) of
                  None \<Rightarrow> None
                | Some rss \<Rightarrow> Some \<lparr>nfRequirements = rss, nfTaintPolicy = taintPolicy,
                                   nfAffinityPolicy = affinityPolicy, nfTolerations = podTolerations p\<rparr>)))"

definition ConflictsWithRequirements :: "label_env \<Rightarrow> TopologyNodeFilter \<Rightarrow> requirements \<Rightarrow> bool" where
  "ConflictsWithRequirements E t rs =
     (if nfRequirements t = [] \<or> nfAffinityPolicy t = Ignore then False
      else list_all (\<lambda>req. Requirements_Intersects E rs req \<noteq> []) (nfRequirements t))"

text \<open>\<open>Matches\<close> calls it without compatibility options, so no undefined label is allowed.\<close>

definition matchesRequirements :: "label_env \<Rightarrow> string list \<Rightarrow> TopologyNodeFilter \<Rightarrow> requirements \<Rightarrow> bool" where
  "matchesRequirements E allow t rs =
     (if nfRequirements t = [] \<or> nfAffinityPolicy t = Ignore then True
      else list_ex (\<lambda>req. Requirements_Compatible E allow rs req = []) (nfRequirements t))"

definition TopologyNodeFilter_Matches ::
  "label_env \<Rightarrow> (Toleration \<Rightarrow> Taint \<Rightarrow> bool) \<Rightarrow> string list \<Rightarrow> TopologyNodeFilter \<Rightarrow> Taint list \<Rightarrow> requirements \<Rightarrow> bool" where
  "TopologyNodeFilter_Matches E toleratesTaint allow t taints rs =
     (let matchesAffinity = (if nfAffinityPolicy t = Honor then matchesRequirements E [] t rs else True);
          matchesTaints = (if nfTaintPolicy t = Honor
                           then Taints_Tolerates toleratesTaint taints (nfTolerations t) = [] else True)
      in matchesAffinity \<and> matchesTaints)"

section \<open>The universe of domains\<close>

record TopologyDomainSource =
  tdsTaints :: "Taint list"
  tdsRequirements :: requirements

type_synonym TopologyDomainGroup = "(string, (string, TopologyDomainSource) gomap) gomap"

definition TopologyDomainGroup_Insert ::
  "TopologyDomainGroup \<Rightarrow> string \<Rightarrow> string \<Rightarrow> Taint list \<Rightarrow> requirements \<Rightarrow> TopologyDomainGroup" where
  "TopologyDomainGroup_Insert t domain nodePool taints rs =
     mput domain (mput nodePool \<lparr>tdsTaints = taints, tdsRequirements = rs\<rparr> (mget [] t domain)) t"

definition source_usable ::
  "label_env \<Rightarrow> (Toleration \<Rightarrow> Taint \<Rightarrow> bool) \<Rightarrow> Pod \<Rightarrow> TopologyNodeFilter \<Rightarrow> TopologyDomainSource \<Rightarrow> bool" where
  "source_usable E toleratesTaint pod nodeFilter source =
     (if nfTaintPolicy nodeFilter \<noteq> Ignore \<and> ToleratesPod toleratesTaint (tdsTaints source) pod \<noteq> [] then False
      else if nfAffinityPolicy nodeFilter = Honor \<and> ConflictsWithRequirements E nodeFilter (tdsRequirements source)
      then False
      else True)"

text \<open>The domains the callback is called on, in order.\<close>

definition ForEachDomain ::
  "label_env \<Rightarrow> (Toleration \<Rightarrow> Taint \<Rightarrow> bool) \<Rightarrow> TopologyDomainGroup \<Rightarrow> Pod \<Rightarrow> TopologyNodeFilter \<Rightarrow> string list" where
  "ForEachDomain E toleratesTaint t pod nodeFilter =
     map fst (filter (\<lambda>(_, sources). list_ex (\<lambda>(_, source). source_usable E toleratesTaint pod nodeFilter source) sources) t)"

section \<open>Topology groups\<close>

datatype TopologyType = TopologyTypeSpread | TopologyTypePodAffinity | TopologyTypePodAntiAffinity

record TopologyGroup =
  tgKey :: string
  tgType :: TopologyType
  maxSkew :: int
  minDomains :: "int option"
  namespaces :: "string set"
  selector :: Selector
  rawSelector :: "LabelSelector option"
  nodeFilter :: TopologyNodeFilter
  owners :: "string set"
  domains :: "(string, int) gomap"
  emptyDomains :: "string set"

definition filter_for ::
  "label_env \<Rightarrow> TopologyType \<Rightarrow> Pod \<Rightarrow> NodeInclusionPolicy option \<Rightarrow> NodeInclusionPolicy option \<Rightarrow> TopologyNodeFilter option" where
  "filter_for E topologyType pod taintPolicy affinityPolicy =
     (if topologyType = TopologyTypeSpread
      then MakeTopologyNodeFilter E pod
             (case taintPolicy of None \<Rightarrow> Ignore | Some p \<Rightarrow> p)
             (case affinityPolicy of None \<Rightarrow> Honor | Some p \<Rightarrow> p)
      else Some zero_filter)"

definition NewTopologyGroup ::
  "label_env \<Rightarrow> (Toleration \<Rightarrow> Taint \<Rightarrow> bool) \<Rightarrow> (LabelSelector option \<Rightarrow> Selector option) \<Rightarrow>
   TopologyType \<Rightarrow> string \<Rightarrow> Pod \<Rightarrow> string set \<Rightarrow> LabelSelector option \<Rightarrow> int \<Rightarrow> int option \<Rightarrow>
   NodeInclusionPolicy option \<Rightarrow> NodeInclusionPolicy option \<Rightarrow> TopologyDomainGroup \<Rightarrow> TopologyGroup option" where
  "NewTopologyGroup E toleratesTaint asSelector topologyType topologyKey pod nss labelSelector skew minDoms
     taintPolicy affinityPolicy domainGroup =
     (case filter_for E topologyType pod taintPolicy affinityPolicy of
        None \<Rightarrow> None
      | Some nf \<Rightarrow>
          (let ds = ForEachDomain E toleratesTaint domainGroup pod nf in
           Some \<lparr>tgKey = topologyKey, tgType = topologyType, maxSkew = skew, minDomains = minDoms,
                 namespaces = nss,
                 selector = (case asSelector labelSelector of None \<Rightarrow> (\<lambda>_. False) | Some sel \<Rightarrow> sel),
                 rawSelector = labelSelector, nodeFilter = nf, owners = {},
                 domains = foldl (\<lambda>m d. mput d 0 m) [] ds, emptyDomains = set ds\<rparr>))"

definition Record1 :: "TopologyGroup \<Rightarrow> string \<Rightarrow> TopologyGroup" where
  "Record1 t domain =
     t\<lparr>domains := mput domain (wrap32 (mget 0 (domains t) domain + 1)) (domains t),
       emptyDomains := emptyDomains t - {domain}\<rparr>"

definition TopologyGroup_Record :: "TopologyGroup \<Rightarrow> string list \<Rightarrow> TopologyGroup" where
  "TopologyGroup_Record t ds = foldl Record1 t ds"

definition selects :: "TopologyGroup \<Rightarrow> Pod \<Rightarrow> bool" where
  "selects t pod \<longleftrightarrow> podNamespace pod \<in> namespaces t \<and> selector t (podLabels pod)"

definition Counts ::
  "label_env \<Rightarrow> (Toleration \<Rightarrow> Taint \<Rightarrow> bool) \<Rightarrow> string list \<Rightarrow> TopologyGroup \<Rightarrow> Pod \<Rightarrow> Taint list \<Rightarrow> requirements \<Rightarrow> bool" where
  "Counts E toleratesTaint allow t pod taints rs \<longleftrightarrow>
     selects t pod \<and> TopologyNodeFilter_Matches E toleratesTaint allow (nodeFilter t) taints rs"

definition Register1 :: "TopologyGroup \<Rightarrow> string \<Rightarrow> TopologyGroup" where
  "Register1 t domain =
     (if mhas (domains t) domain then t
      else t\<lparr>domains := mput domain 0 (domains t), emptyDomains := insert domain (emptyDomains t)\<rparr>)"

definition TopologyGroup_Register :: "TopologyGroup \<Rightarrow> string list \<Rightarrow> TopologyGroup" where
  "TopologyGroup_Register t ds = foldl Register1 t ds"

definition Unregister1 :: "TopologyGroup \<Rightarrow> string \<Rightarrow> TopologyGroup" where
  "Unregister1 t domain = t\<lparr>domains := mdel domain (domains t), emptyDomains := emptyDomains t - {domain}\<rparr>"

definition TopologyGroup_Unregister :: "TopologyGroup \<Rightarrow> string list \<Rightarrow> TopologyGroup" where
  "TopologyGroup_Unregister t ds = foldl Unregister1 t ds"

definition AddOwner :: "TopologyGroup \<Rightarrow> string \<Rightarrow> TopologyGroup" where
  "AddOwner t key = t\<lparr>owners := insert key (owners t)\<rparr>"

definition RemoveOwner :: "TopologyGroup \<Rightarrow> string \<Rightarrow> TopologyGroup" where
  "RemoveOwner t key = t\<lparr>owners := owners t - {key}\<rparr>"

definition TopologyGroup_IsOwnedBy :: "TopologyGroup \<Rightarrow> string \<Rightarrow> bool" where
  "TopologyGroup_IsOwnedBy t key \<longleftrightarrow> key \<in> owners t"

section \<open>The next domain under a spread constraint\<close>

definition supported_counts :: "TopologyGroup \<Rightarrow> requirement \<Rightarrow> int list" where
  "supported_counts t ds = map snd (filter (\<lambda>(domain, _). Requirement_Has ds domain) (domains t))"

definition domainMinCount :: "TopologyGroup \<Rightarrow> requirement \<Rightarrow> int" where
  "domainMinCount t ds =
     (if tgKey t = LabelHostname then 0
      else
        (let counts = supported_counts t ds;
             mn = foldl (\<lambda>mn count. if count < mn then count else mn) MaxInt32 counts;
             numPodSupportedDomains = foldl (\<lambda>n _. wrap32 (n + 1)) 0 counts
         in (case minDomains t of
               None \<Rightarrow> mn
             | Some k \<Rightarrow> if numPodSupportedDomains < k then 0 else mn)))"

text \<open>The state of the loop: the best domain so far with its count, and the valid domains.\<close>

definition spread_step ::
  "int \<Rightarrow> bool \<Rightarrow> int \<Rightarrow> string \<times> int \<times> string set \<Rightarrow> string \<times> int \<Rightarrow> string \<times> int \<times> string set" where
  "spread_step skew selfSelecting mn = (\<lambda>(minDomain, minCount, validDomains) (domain, n).
     let count = (if selfSelecting then wrap32 (n + 1) else n) in
     if wrap32 (count - mn) \<le> skew
     then (if count < minCount then (domain, count, insert domain validDomains)
           else (minDomain, minCount, insert domain validDomains))
     else (minDomain, minCount, validDomains))"

definition spread_candidates :: "(string set \<Rightarrow> string list) \<Rightarrow> TopologyGroup \<Rightarrow> requirement \<Rightarrow> (string \<times> int) list" where
  "spread_candidates unsorted t nodeDomains =
     (if Requirement_Operator nodeDomains = OpIn
      then concat (map (\<lambda>d. case map_of (domains t) d of None \<Rightarrow> [] | Some n \<Rightarrow> [(d, n)])
                     (unsorted (rvalues nodeDomains)))
      else filter (\<lambda>(d, _). Requirement_Has nodeDomains d) (domains t))"

definition nextDomainTopologySpread ::
  "label_env \<Rightarrow> (string set \<Rightarrow> string list) \<Rightarrow> TopologyGroup \<Rightarrow> Pod \<Rightarrow> requirement \<Rightarrow> requirement \<Rightarrow>
   (requirement \<times> string set) option" where
  "nextDomainTopologySpread E unsorted t pod podDomains nodeDomains =
     (let mn = domainMinCount t podDomains;
          selfSelecting = selects t pod;
          values = unsorted (rvalues nodeDomains)
      in if tgKey t = LabelHostname \<and> length values = 1 then
           (let hostName = hd values;
                n = mget 0 (domains t) hostName;
                count = (if selfSelecting then wrap32 (n + 1) else n)
            in if count \<le> maxSkew t
               then map_option (\<lambda>r. (r, {hostName})) (NewRequirement E (tgKey t) OpIn [hostName])
               else map_option (\<lambda>r. (r, {})) (NewRequirement E (tgKey t) OpDoesNotExist []))
         else
           (let (minDomain, _, validDomains) =
                  foldl (spread_step (maxSkew t) selfSelecting mn) ([], MaxInt32, {})
                    (spread_candidates unsorted t nodeDomains)
            in if minDomain = []
               then map_option (\<lambda>r. (r, validDomains)) (NewRequirement E (tgKey t) OpDoesNotExist [])
               else map_option (\<lambda>r. (r, validDomains)) (NewRequirement E (tgKey t) OpIn [minDomain])))"

section \<open>The next domain under an affinity or anti-affinity\<close>

definition anyCompatiblePodDomain :: "TopologyGroup \<Rightarrow> requirement \<Rightarrow> bool" where
  "anyCompatiblePodDomain t podDomains =
     list_ex (\<lambda>(domain, n). Requirement_Has podDomains domain \<and> n > 0) (domains t)"

definition may_bootstrap :: "TopologyGroup \<Rightarrow> Pod \<Rightarrow> requirement \<Rightarrow> bool" where
  "may_bootstrap t pod podDomains \<longleftrightarrow>
     selects t pod \<and> (length (domains t) = card (emptyDomains t) \<or> \<not> anyCompatiblePodDomain t podDomains)"

definition insert_found :: "requirement \<Rightarrow> string option \<Rightarrow> requirement" where
  "insert_found r d = (case d of None \<Rightarrow> r | Some x \<Rightarrow> Requirement_Insert r [x])"

definition nextDomainAffinity ::
  "label_env \<Rightarrow> (string set \<Rightarrow> string list) \<Rightarrow> TopologyGroup \<Rightarrow> Pod \<Rightarrow> requirement \<Rightarrow> requirement \<Rightarrow> requirement option" where
  "nextDomainAffinity E unsorted t pod podDomains nodeDomains =
     (case NewRequirement E (tgKey t) OpDoesNotExist [] of
        None \<Rightarrow> None
      | Some opts \<Rightarrow>
     Some (let values = unsorted (rvalues nodeDomains) in
      if tgKey t = LabelHostname \<and> length values = 1 then
        (let hostName = hd values in
         if \<not> Requirement_Has podDomains hostName then opts
         else if mget 0 (domains t) hostName > 0 then Requirement_Insert opts [hostName]
         else if may_bootstrap t pod podDomains then Requirement_Insert opts [hostName]
         else opts)
      else
        (let found =
           (if Requirement_Operator nodeDomains = OpIn
            then filter (\<lambda>d. Requirement_Has podDomains d \<and> mhas (domains t) d \<and> mget 0 (domains t) d > 0) values
            else map fst (filter (\<lambda>(d, n). Requirement_Has podDomains d \<and> n > 0 \<and> Requirement_Has nodeDomains d) (domains t)));
             opts1 = Requirement_Insert opts found
         in if Requirement_Len opts1 \<noteq> 0 then opts1
            else if may_bootstrap t pod podDomains then
              (let intersected = Requirement_Intersection E podDomains nodeDomains;
                   opts2 = insert_found opts1 (find (Requirement_Has intersected) (map fst (domains t)))
               in insert_found opts2 (find (Requirement_Has podDomains) (map fst (domains t))))
            else opts1)))"

definition nextDomainAntiAffinity ::
  "label_env \<Rightarrow> (string set \<Rightarrow> string list) \<Rightarrow> TopologyGroup \<Rightarrow> requirement \<Rightarrow> requirement \<Rightarrow> requirement option" where
  "nextDomainAntiAffinity E unsorted t podDomains nodeDomains =
     (case NewRequirement E (tgKey t) OpDoesNotExist [] of
        None \<Rightarrow> None
      | Some opts \<Rightarrow>
     Some (let values = unsorted (rvalues nodeDomains) in
      if tgKey t = LabelHostname \<and> length values = 1 then
        (let hostName = hd values in
         if mget 0 (domains t) hostName = 0 then Requirement_Insert opts [hostName] else opts)
      else if Requirement_Operator nodeDomains = OpIn \<and> Requirement_Len nodeDomains < int (card (emptyDomains t))
      then Requirement_Insert opts (filter (\<lambda>d. d \<in> emptyDomains t \<and> Requirement_Has podDomains d) values)
      else Requirement_Insert opts
             (filter (\<lambda>d. Requirement_Has nodeDomains d \<and> Requirement_Has podDomains d) (unsorted (emptyDomains t)))))"

definition TopologyGroup_Get ::
  "label_env \<Rightarrow> (string set \<Rightarrow> string list) \<Rightarrow> TopologyGroup \<Rightarrow> Pod \<Rightarrow> requirement \<Rightarrow> requirement \<Rightarrow>
   (requirement \<times> string set) option" where
  "TopologyGroup_Get E unsorted t pod podDomains nodeDomains =
     (case tgType t of
        TopologyTypeSpread \<Rightarrow> nextDomainTopologySpread E unsorted t pod podDomains nodeDomains
      | TopologyTypePodAffinity \<Rightarrow>
          map_option (\<lambda>r. (r, rvalues r)) (nextDomainAffinity E unsorted t pod podDomains nodeDomains)
      | TopologyTypePodAntiAffinity \<Rightarrow>
          map_option (\<lambda>r. (r, rvalues r)) (nextDomainAntiAffinity E unsorted t podDomains nodeDomains))"

section \<open>What the counts stand for\<close>

text \<open>
  The specification of a group: the number of pods in each known domain. A group represents it when
  its counts are not negative and its set of empty domains holds exactly the domains counted zero.
\<close>

definition pods_in :: "TopologyGroup \<Rightarrow> string \<Rightarrow> nat option" where
  "pods_in t d = map_option nat (map_of (domains t) d)"

definition wf_group :: "TopologyGroup \<Rightarrow> bool" where
  "wf_group t \<longleftrightarrow> wf_map (domains t) \<and> (\<forall>d n. map_of (domains t) d = Some n \<longrightarrow> 0 \<le> n) \<and>
     emptyDomains t = {d. map_of (domains t) d = Some 0}"

definition counts_below :: "int \<Rightarrow> TopologyGroup \<Rightarrow> bool" where
  "counts_below b t \<longleftrightarrow> (\<forall>d n. map_of (domains t) d = Some n \<longrightarrow> n < b)"

datatype domain_op = RecordOp string | RegisterOp string | UnregisterOp string

fun domain_step :: "domain_op \<Rightarrow> TopologyGroup \<Rightarrow> TopologyGroup" where
  "domain_step (RecordOp d) t = TopologyGroup_Record t [d]"
| "domain_step (RegisterOp d) t = TopologyGroup_Register t [d]"
| "domain_step (UnregisterOp d) t = TopologyGroup_Unregister t [d]"

fun count_step :: "domain_op \<Rightarrow> (string \<Rightarrow> nat option) \<Rightarrow> string \<Rightarrow> nat option" where
  "count_step (RecordOp d) c = c(d \<mapsto> Suc (case c d of None \<Rightarrow> 0 | Some n \<Rightarrow> n))"
| "count_step (RegisterOp d) c = (if c d = None then c(d \<mapsto> 0) else c)"
| "count_step (UnregisterOp d) c = c(d := None)"

lemma group_ops_single [simp]:
  "TopologyGroup_Record t [d] = Record1 t d" "TopologyGroup_Register t [d] = Register1 t d"
  "TopologyGroup_Unregister t [d] = Unregister1 t d"
  by (simp_all add: TopologyGroup_Record_def TopologyGroup_Register_def TopologyGroup_Unregister_def)

lemma wf_groupD:
  assumes "wf_group t"
  shows "wf_map (domains t)" "map_of (domains t) d = Some n \<Longrightarrow> 0 \<le> n"
    "d \<in> emptyDomains t \<longleftrightarrow> map_of (domains t) d = Some 0"
  using assms by (auto simp: wf_group_def)

lemma Record1_count:
  assumes "wf_group t" "counts_below MaxInt32 t"
  shows "map_of (domains (Record1 t d)) = (map_of (domains t))(d \<mapsto> mget 0 (domains t) d + 1)"
    "0 \<le> mget 0 (domains t) d"
proof -
  have "0 \<le> mget 0 (domains t) d \<and> mget 0 (domains t) d < MaxInt32"
    using assms by (auto simp: mget_def counts_below_def int_bounds dest: wf_groupD split: option.split)
  then show "map_of (domains (Record1 t d)) = (map_of (domains t))(d \<mapsto> mget 0 (domains t) d + 1)"
    "0 \<le> mget 0 (domains t) d"
    by (simp_all add: Record1_def map_of_mput wrap32_id in_int32_def int_bounds)
qed

lemma wf_Record1 [wf_intros]:
  assumes "wf_group t" "counts_below MaxInt32 t"
  shows "wf_group (Record1 t d)"
proof -
  have "wf_map (domains (Record1 t d))" using assms by (auto simp: Record1_def wf_group_def intro: wf_map_mput)
  moreover have "emptyDomains (Record1 t d) = emptyDomains t - {d}" by (simp add: Record1_def)
  ultimately show ?thesis
    using assms Record1_count[OF assms, of d] unfolding wf_group_def by auto
qed

lemma wf_Register1 [wf_intros]: "wf_group t \<Longrightarrow> wf_group (Register1 t d)"
  by (auto simp: wf_group_def Register1_def map_of_mput intro: wf_map_mput)

lemma wf_Unregister1 [wf_intros]: "wf_group t \<Longrightarrow> wf_group (Unregister1 t d)"
  by (auto simp: wf_group_def Unregister1_def map_of_mdel intro: wf_map_mdel)

lemma pods_in_step:
  assumes "wf_group t" "counts_below MaxInt32 t"
  shows "pods_in (domain_step x t) = count_step x (pods_in t)"
proof (cases x)
  case (RecordOp d)
  show ?thesis
  proof
    fix e
    show "pods_in (domain_step x t) e = count_step x (pods_in t) e"
      using Record1_count[OF assms, of d] wf_groupD(2)[OF assms(1), of d]
      by (cases "map_of (domains t) d") (auto simp: RecordOp pods_in_def mget_def nat_add_distrib)
  qed
next
  case (RegisterOp d)
  then show ?thesis by (auto simp: pods_in_def Register1_def map_of_mput fun_eq_iff)
next
  case (UnregisterOp d)
  then show ?thesis by (auto simp: pods_in_def Unregister1_def map_of_mdel fun_eq_iff)
qed

lemma counts_below_step:
  assumes "wf_group t" "counts_below b t" "0 < b" "b \<le> MaxInt32"
  shows "counts_below (case x of RecordOp _ \<Rightarrow> b + 1 | _ \<Rightarrow> b) (domain_step x t)"
proof -
  have below: "counts_below MaxInt32 t" using assms(2,4) by (fastforce simp: counts_below_def)
  have less_b: "mget 0 (domains t) d < b" for d
    using assms(2,3) by (auto simp: mget_def counts_below_def split: option.split)
  have le: "mget 0 (domains t) d + 1 < b + 1" for d using less_b[of d] by simp
  have lt: "map_of (domains t) d = Some n \<Longrightarrow> n < b + 1" for d n
    using assms(2) by (fastforce simp: counts_below_def)
  show ?thesis
  proof (cases x)
    case (RecordOp d)
    then show ?thesis
      using le[of d] lt by (auto simp: counts_below_def Record1_count(1)[OF assms(1) below])
  qed (use assms(2,3) in \<open>auto simp: counts_below_def Register1_def Unregister1_def map_of_mput map_of_mdel\<close>)
qed

lemma wf_domain_step:
  "wf_group t \<Longrightarrow> counts_below MaxInt32 t \<Longrightarrow> wf_group (domain_step x t)"
  by (cases x) (auto intro: wf_intros)

fun records :: "domain_op list \<Rightarrow> int" where
  "records [] = 0"
| "records (RecordOp d # xs) = 1 + records xs"
| "records (_ # xs) = records xs"

lemma records_nonneg: "0 \<le> records xs"
  by (induction xs rule: records.induct) auto

text \<open>
  C32. A topology group refines its specification: over any sequence of records, registrations and
  removals of domains, as long as the 32-bit counts cannot overflow, the counts the group keeps are
  the number of pods recorded in each known domain, and its set of empty domains is exactly the set
  of known domains without a pod.
\<close>

theorem topology_counts_refine:
  assumes "wf_group t" "counts_below b t" "0 < b" "b + records ops \<le> MaxInt32"
  shows "pods_in (fold domain_step ops t) = fold count_step ops (pods_in t) \<and>
     emptyDomains (fold domain_step ops t) = {d. fold count_step ops (pods_in t) d = Some 0}"
proof -
  have "wf_group (fold domain_step ops t) \<and> pods_in (fold domain_step ops t) = fold count_step ops (pods_in t)"
    using assms
  proof (induction ops arbitrary: t b)
    case Nil
    then show ?case by simp
  next
    case (Cons x xs)
    have b: "b \<le> MaxInt32" using Cons.prems records_nonneg[of "x # xs"] by linarith
    have below: "counts_below MaxInt32 t" using Cons.prems(2) b by (fastforce simp: counts_below_def)
    let ?b = "case x of RecordOp _ \<Rightarrow> b + 1 | _ \<Rightarrow> b"
    have "?b + records xs = b + records (x # xs)" "0 < ?b" using Cons.prems(3) by (cases x; simp)+
    then show ?case
      using Cons.IH[of "domain_step x t" ?b] Cons.prems counts_below_step[OF Cons.prems(1-3) b]
        wf_domain_step[OF Cons.prems(1) below] pods_in_step[OF Cons.prems(1) below]
      by simp
  qed
  moreover have "emptyDomains u = {d. pods_in u d = Some 0}" if "wf_group u" for u
    using wf_groupD(2,3)[OF that] by (fastforce simp: pods_in_def)
  ultimately show ?thesis by metis
qed

text \<open>Three pods in zone a, a second zone learned and forgotten.\<close>

definition zone_group :: "TopologyType \<Rightarrow> TopologyGroup" where
  "zone_group ty = \<lparr>tgKey = ''zone'', tgType = ty, maxSkew = 1, minDomains = None,
     namespaces = {''default''}, selector = (\<lambda>_. True), rawSelector = None, nodeFilter = zero_filter,
     owners = {}, domains = [(''a'', 0), (''b'', 0)], emptyDomains = {''a'', ''b''}\<rparr>"

lemma wf_zone_group: "wf_group (zone_group ty)"
  by (auto simp: wf_group_def zone_group_def split: if_splits)

lemma zone_group_below: "0 < b \<Longrightarrow> counts_below b (zone_group ty)"
  by (auto simp: counts_below_def zone_group_def split: if_splits)

theorem topology_counts_refine_witness:
  "pods_in (fold domain_step [RecordOp ''a'', RegisterOp ''c'', UnregisterOp ''b''] (zone_group TopologyTypeSpread)) =
     [''a'' \<mapsto> 1, ''c'' \<mapsto> 0]"
proof -
  let ?ops = "[RecordOp ''a'', RegisterOp ''c'', UnregisterOp ''b'']"
  have start: "pods_in (zone_group TopologyTypeSpread) = [''a'' \<mapsto> 0, ''b'' \<mapsto> 0]"
    by (auto simp: pods_in_def zone_group_def)
  have "pods_in (fold domain_step ?ops (zone_group TopologyTypeSpread)) =
      fold count_step ?ops (pods_in (zone_group TopologyTypeSpread))"
    using topology_counts_refine[OF wf_zone_group zone_group_below[of 1], of ?ops] by (simp add: int_bounds)
  then show ?thesis unfolding start by auto
qed

section \<open>Spread constraints\<close>

text \<open>The smallest count among the domains the pod may use; zero where fewer than the minimum number
  of domains are known.\<close>

definition supported :: "TopologyGroup \<Rightarrow> requirement \<Rightarrow> string \<Rightarrow> bool" where
  "supported t pd d \<longleftrightarrow> mhas (domains t) d \<and> Requirement_Has pd d"

definition global_min :: "TopologyGroup \<Rightarrow> requirement \<Rightarrow> int" where
  "global_min t pd =
     (if tgKey t = LabelHostname then 0
      else if (case minDomains t of None \<Rightarrow> False | Some k \<Rightarrow> int (card {d. supported t pd d}) < k) then 0
      else Min (insert MaxInt32 {mget 0 (domains t) d |d. supported t pd d}))"

definition skew_ok :: "TopologyGroup \<Rightarrow> requirement \<Rightarrow> bool" where
  "skew_ok t pd \<longleftrightarrow> (\<forall>d. supported t pd d \<longrightarrow> mget 0 (domains t) d - global_min t pd \<le> maxSkew t)"

lemma foldl_min: "foldl (\<lambda>m c. if c < m then c else m) (m::int) cs = Min (insert m (set cs))"
proof (induction cs arbitrary: m)
  case (Cons c cs)
  have "Min (insert (if c < m then c else m) (set cs)) = Min (insert m (insert c (set cs)))"
    by (cases "set cs = {}") (auto simp: min_def)
  then show ?case using Cons by simp
qed simp

lemma foldl_wrap_count:
  "0 \<le> k \<Longrightarrow> k + int (length cs) \<le> MaxInt32 \<Longrightarrow> foldl (\<lambda>n _. wrap32 (n + 1)) k cs = k + int (length cs)"
proof (induction cs arbitrary: k)
  case (Cons c cs)
  have "wrap32 (k + 1) = k + 1" using Cons.prems by (intro wrap32_id) (simp add: in_int32_def int_bounds)
  then show ?case using Cons by simp
qed simp

lemma finite_supported [simp]: "finite {d. supported t pd d}"
  by (rule finite_subset[OF _ finite_dom_map_of[of "domains t"]]) (auto simp: supported_def)

lemma supported_counts_spec:
  assumes "wf_group t"
  shows "set (supported_counts t pd) = {mget 0 (domains t) d |d. supported t pd d}"
    "length (supported_counts t pd) = card {d. supported t pd d}"
proof -
  note wf = wf_groupD(1)[OF assms]
  have "x \<in> set (supported_counts t pd) \<longleftrightarrow> (\<exists>d. (d, x) \<in> set (domains t) \<and> Requirement_Has pd d)" for x
    by (force simp: supported_counts_def)
  also have "\<dots> x \<longleftrightarrow> (\<exists>d. map_of (domains t) d = Some x \<and> Requirement_Has pd d)" for x
    by (simp only: map_of_in_set[OF wf])
  also have "\<dots> x \<longleftrightarrow> (\<exists>d. x = mget 0 (domains t) d \<and> supported t pd d)" for x
    by (intro iff_exI) (auto simp: mget_def supported_def)
  finally show "set (supported_counts t pd) = {mget 0 (domains t) d |d. supported t pd d}" by blast
  have "{d. supported t pd d} = set (map fst (filter (\<lambda>(d, _). Requirement_Has pd d) (domains t)))"
    by (force simp: supported_def map_of_in_set[OF wf])
  moreover have "distinct (map fst (filter (\<lambda>(d, _). Requirement_Has pd d) (domains t)))"
    using wf by (simp add: distinct_map_filter)
  ultimately show "length (supported_counts t pd) = card {d. supported t pd d}"
    by (metis distinct_card length_map supported_counts_def)
qed

lemma domainMinCount_eq:
  assumes "wf_group t" "tgKey t = LabelHostname \<or> int (length (domains t)) \<le> MaxInt32"
  shows "domainMinCount t pd = global_min t pd"
proof (cases "tgKey t = LabelHostname")
  case False
  have "length (supported_counts t pd) \<le> length (domains t)" by (simp add: supported_counts_def)
  then have "foldl (\<lambda>n _. wrap32 (n + 1)) 0 (supported_counts t pd) = int (card {d. supported t pd d})"
    using foldl_wrap_count[of 0 "supported_counts t pd"] assms(2) False supported_counts_spec(2)[OF assms(1)] by simp
  then show ?thesis
    unfolding domainMinCount_def global_min_def foldl_min Let_def supported_counts_spec(1)[OF assms(1)]
    by (simp split: option.split)
qed (simp add: domainMinCount_def global_min_def)

lemma global_min_bounds:
  assumes "wf_group t"
  shows "0 \<le> global_min t pd" "global_min t pd \<le> MaxInt32"
proof -
  let ?S = "insert MaxInt32 {mget 0 (domains t) d |d. supported t pd d}"
  have fin: "finite ?S" by simp
  have "0 \<le> mget 0 (domains t) d" for d
    using wf_groupD(2)[OF assms] by (auto simp: mget_def split: option.split)
  then have "\<forall>x \<in> ?S. 0 \<le> x" by (auto simp: int_bounds)
  then have "0 \<le> Min ?S" "Min ?S \<le> MaxInt32" using fin by (simp_all add: Min_le_iff)
  then show "0 \<le> global_min t pd" "global_min t pd \<le> MaxInt32"
    by (auto simp: global_min_def int_bounds split: option.split)
qed

abbreviation self_count :: "TopologyGroup \<Rightarrow> Pod \<Rightarrow> int" where
  "self_count t pod \<equiv> (if selects t pod then 1 else 0)"

definition best_step :: "int \<Rightarrow> string \<times> int \<times> string set \<Rightarrow> string \<times> int \<Rightarrow> string \<times> int \<times> string set" where
  "best_step s = (\<lambda>(md, mc, V) (d, n). if n + s < mc then (d, n + s, insert d V) else (md, mc, insert d V))"

lemma spread_step_eq:
  assumes "0 \<le> n" "n + (if sel then 1 else 0) < MaxInt32" "0 \<le> mn" "mn \<le> MaxInt32"
  shows "spread_step skew sel mn acc (d, n) =
    (if n + (if sel then 1 else 0) - mn \<le> skew then best_step (if sel then 1 else 0) acc (d, n) else acc)"
proof -
  have "(if sel then wrap32 (n + 1) else n) = n + (if sel then 1 else 0)"
    using assms(1,2) by (auto simp: wrap32_id in_int32_def int_bounds)
  moreover have "wrap32 (n + (if sel then 1 else 0) - mn) = n + (if sel then 1 else 0) - mn"
    using assms by (intro wrap32_id) (auto simp: in_int32_def int_bounds split: if_splits)
  ultimately show ?thesis
    by (cases acc) (simp only: spread_step_def best_step_def Let_def prod.case)
qed

lemma spread_fold_filter:
  assumes "\<forall>(d, n) \<in> set cands. 0 \<le> n \<and> n + (if sel then 1 else 0) < MaxInt32" "0 \<le> mn" "mn \<le> MaxInt32"
  shows "foldl (spread_step skew sel mn) acc cands =
    foldl (best_step (if sel then 1 else 0)) acc (filter (\<lambda>(d, n). n + (if sel then 1 else 0) - mn \<le> skew) cands)"
  using assms(1)
proof (induction cands arbitrary: acc)
  case (Cons c cands)
  obtain d n where c: "c = (d, n)" by (cases c)
  have "0 \<le> n" "n + (if sel then 1 else 0) < MaxInt32" using Cons.prems by (auto simp: c)
  then show ?case using Cons spread_step_eq[OF _ _ assms(2,3), of n sel skew acc d] by (simp add: c)
qed simp

lemma best_fold:
  assumes "\<forall>(d, n) \<in> set ys. n + s < mx"
  shows "case foldl (best_step s) ([], mx, {}) ys of (md, mc, V) \<Rightarrow> V = fst ` set ys \<and>
    (if ys = [] then md = [] \<and> mc = mx
     else (md, mc - s) \<in> set ys \<and> (\<forall>m \<in> snd ` set ys. mc - s \<le> m))"
  using assms
proof (induction ys rule: rev_induct)
  case (snoc c ys)
  obtain d n where c: "c = (d, n)" by (cases c)
  obtain md mc V where prev: "foldl (best_step s) ([], mx, {}) ys = (md, mc, V)" by (metis prod_cases3)
  have step: "foldl (best_step s) ([], mx, {}) (ys @ [c]) = (if n + s < mc then (d, n + s, insert d V) else (md, mc, insert d V))"
    by (simp add: prev) (simp add: c best_step_def)
  have IH: "V = fst ` set ys" "if ys = [] then md = [] \<and> mc = mx else (md, mc - s) \<in> set ys \<and> (\<forall>m \<in> snd ` set ys. mc - s \<le> m)"
    using snoc unfolding prev by auto
  have "n + s < mx" using snoc.prems by (simp add: c)
  then show ?case
    using IH unfolding step by (cases "n + s < mc"; cases "ys = []") (auto simp: c)
qed simp

lemma spread_candidates_iff:
  assumes "wf_group t" "wf_requirement nodeDomains" "enumerates unsorted"
  shows "(d, n) \<in> set (spread_candidates unsorted t nodeDomains) \<longleftrightarrow>
     map_of (domains t) d = Some n \<and> Requirement_Has nodeDomains d"
proof (cases "Requirement_Operator nodeDomains = OpIn")
  case True
  then have "\<not> complement nodeDomains" using Operator_In_iff[OF assms(2)] by simp
  then have "Requirement_Has nodeDomains d \<longleftrightarrow> d \<in> set (unsorted (rvalues nodeDomains))"
    using assms(2,3) by (simp add: Requirement_Has_def wf_requirement_def enumerates_set)
  then show ?thesis
    using True by (auto simp: spread_candidates_def split: option.splits)
next
  case False
  then show ?thesis using map_of_in_set[OF wf_groupD(1)[OF assms(1)]] by (auto simp: spread_candidates_def)
qed

lemma In_single:
  "NormalizedLabelValues E = [] \<Longrightarrow>
     \<exists>r. NewRequirement E k OpIn [x] = Some r \<and> rvalues r = {x} \<and> (\<forall>v. Requirement_Has r v \<longleftrightarrow> v = x)"
  by (simp add: NewRequirement_def NewRequirement_In Requirement_Has_def)

lemma DoesNotExist_none:
  "\<exists>r. NewRequirement E k OpDoesNotExist [] = Some r \<and> rvalues r = {} \<and> (\<forall>v. \<not> Requirement_Has r v)"
  by (simp add: NewRequirement_def NewRequirement_DoesNotExist) (simp add: DoesNotExist_requirement_def)

lemma group_count:
  "mhas (domains t) d \<Longrightarrow> map_of (domains t) d = Some (mget 0 (domains t) d)"
  by (auto simp: mget_def)

lemma count_range:
  assumes "wf_group t" "counts_below b t" "0 < b"
  shows "0 \<le> mget 0 (domains t) d" "mget 0 (domains t) d < b"
  using assms by (auto simp: mget_def counts_below_def dest: wf_groupD split: option.split)

definition spread_valid :: "TopologyGroup \<Rightarrow> Pod \<Rightarrow> requirement \<Rightarrow> requirement \<Rightarrow> string \<Rightarrow> bool" where
  "spread_valid t pod pd nd d \<longleftrightarrow> mhas (domains t) d \<and> Requirement_Has nd d \<and>
     mget 0 (domains t) d + self_count t pod - global_min t pd \<le> maxSkew t"

lemma spread_loop:
  assumes "wf_group t" "counts_below (MaxInt32 - 1) t"
    and "tgKey t = LabelHostname \<or> int (length (domains t)) \<le> MaxInt32"
    and "wf_requirement nd" "enumerates unsorted"
    and "foldl (spread_step (maxSkew t) (selects t pod) (domainMinCount t pd)) ([], MaxInt32, {})
           (spread_candidates unsorted t nd) = (md, mc, V)"
  shows "V = {d. spread_valid t pod pd nd d}"
    "V = {} \<Longrightarrow> md = []"
    "V \<noteq> {} \<Longrightarrow> md \<in> V \<and> (\<forall>e \<in> V. mget 0 (domains t) md \<le> mget 0 (domains t) e)"
proof -
  note iff = spread_candidates_iff[OF assms(1,4,5)]
  note mn = domainMinCount_eq[OF assms(1,3), of pd]
  have "0 \<le> n \<and> n + self_count t pod < MaxInt32" if "map_of (domains t) d = Some n" for d n
  proof -
    have "n < MaxInt32 - 1" using assms(2) that unfolding counts_below_def by blast
    then show ?thesis using wf_groupD(2)[OF assms(1) that] by simp
  qed
  then have range: "\<forall>(d, n) \<in> set (spread_candidates unsorted t nd). 0 \<le> n \<and> n + self_count t pod < MaxInt32"
    by (auto simp: iff)
  define ys where "ys = filter (\<lambda>(d, n). n + self_count t pod - global_min t pd \<le> maxSkew t) (spread_candidates unsorted t nd)"
  have ys: "(d, n) \<in> set ys \<longleftrightarrow> map_of (domains t) d = Some n \<and> spread_valid t pod pd nd d" for d n
    unfolding ys_def spread_valid_def by (auto simp: iff mget_def)
  have "\<forall>(d, n) \<in> set ys. n + self_count t pod < MaxInt32" using range by (auto simp: ys_def)
  note best = best_fold[OF this]
  have loop: "foldl (best_step (self_count t pod)) ([], MaxInt32, {}) ys = (md, mc, V)"
    using assms(6) unfolding mn spread_fold_filter[OF range global_min_bounds[OF assms(1)]] ys_def .
  have V0: "V = fst ` set ys" using best unfolding loop by simp
  show V: "V = {d. spread_valid t pod pd nd d}"
  proof -
    have "(\<exists>n. (d, n) \<in> set ys) \<longleftrightarrow> spread_valid t pod pd nd d" for d
      unfolding ys by (auto simp: spread_valid_def)
    then show ?thesis unfolding V0 by force
  qed
  show "V = {} \<Longrightarrow> md = []" using best unfolding loop V0 by simp
  assume "V \<noteq> {}"
  then have "ys \<noteq> []" unfolding V0 by auto
  then have md: "(md, mc - self_count t pod) \<in> set ys" and least: "\<forall>m \<in> snd ` set ys. mc - self_count t pod \<le> m"
    using best unfolding loop by simp_all
  have md_count: "mget 0 (domains t) md = mc - self_count t pod" using md by (simp add: ys mget_def)
  have "mc - self_count t pod \<le> mget 0 (domains t) e" if "e \<in> V" for e
  proof -
    have "(e, mget 0 (domains t) e) \<in> set ys" using that by (simp add: V ys spread_valid_def group_count)
    then show ?thesis using least by force
  qed
  then show "md \<in> V \<and> (\<forall>e \<in> V. mget 0 (domains t) md \<le> mget 0 (domains t) e)"
    using md by (simp add: V ys md_count)
qed

lemma spread_general_eq:
  assumes "\<not> (tgKey t = LabelHostname \<and> length (unsorted (rvalues nd)) = 1)"
  shows "nextDomainTopologySpread E unsorted t pod pd nd =
    (let (md, _, V) = foldl (spread_step (maxSkew t) (selects t pod) (domainMinCount t pd)) ([], MaxInt32, {})
                        (spread_candidates unsorted t nd)
     in if md = [] then map_option (\<lambda>r. (r, V)) (NewRequirement E (tgKey t) OpDoesNotExist [])
        else map_option (\<lambda>r. (r, V)) (NewRequirement E (tgKey t) OpIn [md]))"
  using assms unfolding nextDomainTopologySpread_def Let_def by (simp only: if_False)

text \<open>
  The domain chosen under a spread constraint. The valid domains returned are exactly the known
  domains of the node whose count, with the pod itself if it matches, exceeds the smallest count
  among the pod's domains by at most the permitted skew (that minimum being zero when fewer than
  \<^verbatim>\<open>minDomains\<close> domains are known); the requirement returned accepts exactly one of them, one with the
  smallest count, or nothing when there is none. (New nodes, with a single host name, are the case
  \<open>hostname_spread\<close>; no domain may have the empty name, which the code uses as a marker.)
\<close>

theorem nextDomainTopologySpread_exact:
  assumes "wf_group t" "counts_below (MaxInt32 - 1) t" "int (length (domains t)) \<le> MaxInt32"
    and "wf_requirement nd" "enumerates unsorted" "NormalizedLabelValues E = []"
    and "\<not> mhas (domains t) []" "tgKey t \<noteq> LabelHostname \<or> card (rvalues nd) \<noteq> 1"
  shows "\<exists>r V. nextDomainTopologySpread E unsorted t pod pd nd = Some (r, V) \<and>
     V = {d. mhas (domains t) d \<and> Requirement_Has nd d \<and>
             mget 0 (domains t) d + (if selects t pod then 1 else 0) - global_min t pd \<le> maxSkew t} \<and>
     (if V = {} then (\<forall>v. \<not> Requirement_Has r v)
      else (\<exists>d \<in> V. (\<forall>v. Requirement_Has r v \<longleftrightarrow> v = d) \<and>
              (\<forall>e \<in> V. mget 0 (domains t) d \<le> mget 0 (domains t) e)))"
proof -
  obtain md mc V where loop: "foldl (spread_step (maxSkew t) (selects t pod) (domainMinCount t pd)) ([], MaxInt32, {})
      (spread_candidates unsorted t nd) = (md, mc, V)" by (metis prod_cases3)
  note V = spread_loop[OF assms(1,2) disjI2[OF assms(3)] assms(4,5) loop]
  have eq: "nextDomainTopologySpread E unsorted t pod pd nd =
      (if md = [] then map_option (\<lambda>r. (r, V)) (NewRequirement E (tgKey t) OpDoesNotExist [])
       else map_option (\<lambda>r. (r, V)) (NewRequirement E (tgKey t) OpIn [md]))"
    using spread_general_eq[of t unsorted nd E pod pd] assms(4,5,8) loop enumerates_length by fastforce
  note V_eq = V(1)[unfolded spread_valid_def]
  show ?thesis
  proof (cases "V = {}")
    case True
    obtain r where "NewRequirement E (tgKey t) OpDoesNotExist [] = Some r" "\<forall>v. \<not> Requirement_Has r v"
      using DoesNotExist_none by blast
    then show ?thesis using V(2)[OF True] V_eq True by (intro exI[of _ r] exI[of _ V]) (simp add: eq)
  next
    case False
    note md = V(3)[OF False]
    then have "md \<noteq> []" using assms(7) unfolding V(1) spread_valid_def by auto
    moreover obtain r where "NewRequirement E (tgKey t) OpIn [md] = Some r" "\<forall>v. Requirement_Has r v \<longleftrightarrow> v = md"
      using In_single[OF assms(6)] by blast
    ultimately show ?thesis using md V_eq False by (intro exI[of _ r] exI[of _ V]) (auto simp: eq)
  qed
qed

definition any_zone :: requirement where
  "any_zone = Exists_requirement core_labels ''zone''"

lemma wf_any_zone [simp]: "wf_requirement any_zone" "Requirement_Has any_zone v" "rvalues any_zone = {}"
  by (simp_all add: any_zone_def) (simp add: Exists_requirement_def)

definition busy_zones :: TopologyGroup where
  "busy_zones = (zone_group TopologyTypeSpread)\<lparr>domains := [(''a'', 2), (''b'', 1)], emptyDomains := {}\<rparr>"

lemma busy_zones_simps:
  "domains busy_zones = [(''a'', 2), (''b'', 1)]" "maxSkew busy_zones = 1" "minDomains busy_zones = None"
  "tgKey busy_zones = ''zone''" "selects busy_zones (bare_pod n)"
  by (simp_all add: busy_zones_def zone_group_def selects_def bare_pod_def)

lemma busy_zones_ok: "wf_group busy_zones" "counts_below (MaxInt32 - 1) busy_zones"
proof -
  have "map_of (domains busy_zones) d = Some n \<Longrightarrow> n = 1 \<or> n = 2" for d n
    by (simp add: busy_zones_simps split: if_splits)
  then show "wf_group busy_zones" "counts_below (MaxInt32 - 1) busy_zones"
    unfolding wf_group_def counts_below_def int_bounds
    by (fastforce simp: busy_zones_simps busy_zones_def)+
qed

lemma busy_zones_min: "global_min busy_zones any_zone = 1"
proof -
  have "{d. supported busy_zones any_zone d} = {''a'', ''b''}"
    by (simp add: supported_def busy_zones_simps set_eq_iff)
  then have "{mget 0 (domains busy_zones) d |d. supported busy_zones any_zone d} =
      (\<lambda>d. mget 0 (domains busy_zones) d) ` {''a'', ''b''}"
    by blast
  also have "\<dots> = {2, 1}" by (simp add: mget_def busy_zones_simps)
  finally show ?thesis by (simp add: global_min_def busy_zones_simps LabelHostname_def int_bounds)
qed

theorem nextDomainTopologySpread_exact_witness:
  "\<exists>r. nextDomainTopologySpread core_labels sorted_list_of_set busy_zones (bare_pod ''p'') any_zone any_zone =
      Some (r, {''b''}) \<and> (\<forall>v. Requirement_Has r v \<longleftrightarrow> v = ''b'')"
proof -
  have valid: "{d. mhas (domains busy_zones) d \<and> Requirement_Has any_zone d \<and>
      mget 0 (domains busy_zones) d + (if selects busy_zones (bare_pod ''p'') then 1 else 0) -
        global_min busy_zones any_zone \<le> maxSkew busy_zones} = {''b''}"
    by (simp add: mget_def busy_zones_simps busy_zones_min set_eq_iff)
  have norm: "NormalizedLabelValues core_labels = []" by (simp add: core_labels_def)
  have rest: "int (length (domains busy_zones)) \<le> MaxInt32" "\<not> mhas (domains busy_zones) []"
    "tgKey busy_zones \<noteq> LabelHostname \<or> card (rvalues any_zone) \<noteq> 1"
    by (simp_all add: busy_zones_simps int_bounds LabelHostname_def)
  show ?thesis
    using nextDomainTopologySpread_exact[OF busy_zones_ok rest(1) wf_any_zone(1) enumerates_sorted norm rest(2,3),
        of "bare_pod ''p''" any_zone]
    unfolding valid by auto
qed

end
