(* ===== verification/TopologySpread.thy ===== *)
theory TopologySpread
  imports TopologyCounts
begin

text \<open>
  What the topology groups guarantee: pods placed one after the other under a spread constraint keep
  the skew within its limit, and the domains offered under an affinity or anti-affinity are the right ones.
\<close>

section \<open>Spreading pods one after the other\<close>

text \<open>
  Each pod is given a domain of a node and recorded there if it matches, as \<open>Topology_Record\<close> does
  once the domain is the only one left.
\<close>

definition spread_place ::
  "label_env \<Rightarrow> (string set \<Rightarrow> string list) \<Rightarrow> requirement \<Rightarrow> TopologyGroup \<Rightarrow> Pod \<times> requirement \<Rightarrow> TopologyGroup" where
  "spread_place E unsorted pd t = (\<lambda>(pod, nd).
     case nextDomainTopologySpread E unsorted t pod pd nd of
       None \<Rightarrow> t
     | Some (r, _) \<Rightarrow> if selects t pod then TopologyGroup_Record t (unsorted (rvalues r)) else t)"

lemma hostname_spread:
  assumes "tgKey t = LabelHostname" "unsorted (rvalues nd) = [h]" "NormalizedLabelValues E = []"
    and "wf_group t" "counts_below MaxInt32 t"
  shows "\<exists>r V. nextDomainTopologySpread E unsorted t pod pd nd = Some (r, V) \<and> rvalues r = V \<and>
     V = (if mget 0 (domains t) h + self_count t pod \<le> maxSkew t then {h} else {})"
proof -
  have "(if selects t pod then wrap32 (mget 0 (domains t) h + 1) else mget 0 (domains t) h) =
      mget 0 (domains t) h + self_count t pod"
    using count_range[OF assms(4,5), of h] by (simp add: wrap32_id in_int32_def int_bounds)
  then show ?thesis
    using In_single[OF assms(3), of "tgKey t" h] DoesNotExist_none[of E "tgKey t"] assms(1,2)
    unfolding nextDomainTopologySpread_def Let_def by (auto simp: LabelHostname_def)
qed

lemma spread_choice:
  assumes "wf_group t" "counts_below (MaxInt32 - 1) t"
    and "tgKey t = LabelHostname \<or> int (length (domains t)) \<le> MaxInt32"
    and "wf_requirement nd" "enumerates unsorted" "NormalizedLabelValues E = []"
    and chosen: "nextDomainTopologySpread E unsorted t pod pd nd = Some (r, V)"
  shows "rvalues r = {} \<or> (\<exists>d. rvalues r = {d} \<and> (tgKey t = LabelHostname \<or> mhas (domains t) d) \<and>
     mget 0 (domains t) d + self_count t pod - global_min t pd \<le> maxSkew t)"
proof (cases "tgKey t = LabelHostname \<and> length (unsorted (rvalues nd)) = 1")
  case True
  obtain h where h: "unsorted (rvalues nd) = [h]"
    using conjunct2[OF True] by (cases "unsorted (rvalues nd)") simp_all
  have below: "counts_below MaxInt32 t" using assms(2) by (fastforce simp: counts_below_def)
  have "rvalues r = (if mget 0 (domains t) h + self_count t pod \<le> maxSkew t then {h} else {})"
    using hostname_spread[of t unsorted nd h E pod pd, OF conjunct1[OF True] h assms(6,1) below] unfolding chosen by auto
  then show ?thesis
    using True by (cases "mget 0 (domains t) h + self_count t pod \<le> maxSkew t") (simp_all add: global_min_def)
next
  case False
  obtain md mc W where loop: "foldl (spread_step (maxSkew t) (selects t pod) (domainMinCount t pd)) ([], MaxInt32, {})
      (spread_candidates unsorted t nd) = (md, mc, W)" by (metis prod_cases3)
  have eq: "(if md = [] then map_option (\<lambda>r. (r, W)) (NewRequirement E (tgKey t) OpDoesNotExist [])
       else map_option (\<lambda>r. (r, W)) (NewRequirement E (tgKey t) OpIn [md])) = Some (r, V)"
    using chosen unfolding spread_general_eq[of t unsorted nd E pod pd, OF False] loop Let_def prod.case .
  show ?thesis
  proof (cases "md = []")
    case True
    obtain r0 where "NewRequirement E (tgKey t) OpDoesNotExist [] = Some r0" "rvalues r0 = {}"
      using DoesNotExist_none by blast
    then show ?thesis using eq True by simp
  next
    case False
    obtain r0 where "NewRequirement E (tgKey t) OpIn [md] = Some r0" "rvalues r0 = {md}"
      using In_single[OF assms(6)] by blast
    then have r: "rvalues r = {md}" using eq False by simp
    have "W \<noteq> {}" using spread_loop(2)[OF assms(1-5) loop] False by blast
    then have "md \<in> W" using spread_loop(3)[OF assms(1-5) loop] by simp
    then have "mhas (domains t) md \<and> mget 0 (domains t) md + self_count t pod - global_min t pd \<le> maxSkew t"
      unfolding spread_loop(1)[OF assms(1-5) loop] spread_valid_def by simp
    then show ?thesis using r by simp
  qed
qed

lemma length_mput: "map_of m k = Some w \<Longrightarrow> length (mput k v m) = length m"
  by (induction m) (auto split: if_splits)

lemma Record1_fields [simp]:
  "tgKey (Record1 t d) = tgKey t" "maxSkew (Record1 t d) = maxSkew t" "minDomains (Record1 t d) = minDomains t"
  by (simp_all add: Record1_def)

lemma supported_Record1:
  assumes "mhas (domains t) d"
  shows "supported (Record1 t d) pd = supported t pd"
  using assms by (auto simp: supported_def Record1_def map_of_mput fun_eq_iff)

lemma global_min_Record1:
  assumes "wf_group t" "counts_below MaxInt32 t" "tgKey t = LabelHostname \<or> mhas (domains t) d"
  shows "global_min t pd \<le> global_min (Record1 t d) pd"
proof (cases "tgKey t = LabelHostname")
  case True
  then show ?thesis by (simp add: global_min_def)
next
  case False
  then have has: "mhas (domains t) d" using assms(3) by simp
  let ?S = "{mget 0 (domains t) x |x. supported t pd x}"
  let ?S' = "{mget 0 (domains (Record1 t d)) x |x. supported t pd x}"
  have grow: "mget 0 (domains t) x \<le> mget 0 (domains (Record1 t d)) x" for x
    using Record1_count[OF assms(1,2), of d] by (simp add: mget_def)
  have "Min (insert MaxInt32 ?S) \<le> Min (insert MaxInt32 ?S')"
  proof (intro Min.boundedI)
    fix a assume "a \<in> insert MaxInt32 ?S'"
    then consider "a = MaxInt32" | x where "a = mget 0 (domains (Record1 t d)) x" "supported t pd x" by auto
    then show "Min (insert MaxInt32 ?S) \<le> a"
    proof cases
      case 1
      then show ?thesis by (simp add: Min_le)
    next
      case 2
      have "Min (insert MaxInt32 ?S) \<le> mget 0 (domains t) x" using 2(2) by (intro Min_le) auto
      then show ?thesis using grow[of x] 2(1) by simp
    qed
  qed simp_all
  then show ?thesis by (simp add: global_min_def supported_Record1[OF has] split: option.split)
qed

lemma skew_ok_Record1:
  assumes "wf_group t" "counts_below MaxInt32 t" "skew_ok t pd"
    and "tgKey t = LabelHostname \<or> mhas (domains t) d"
    and "mget 0 (domains t) d + 1 - global_min t pd \<le> maxSkew t"
  shows "skew_ok (Record1 t d) pd"
  unfolding skew_ok_def
proof (intro allI impI)
  fix e assume e: "supported (Record1 t d) pd e"
  note gm = global_min_Record1[OF assms(1,2,4), of pd]
  have cnt: "mget 0 (domains (Record1 t d)) e = (if e = d then mget 0 (domains t) d + 1 else mget 0 (domains t) e)"
    using Record1_count[OF assms(1,2), of d] by (simp add: mget_def)
  show "mget 0 (domains (Record1 t d)) e - global_min (Record1 t d) pd \<le> maxSkew (Record1 t d)"
  proof (cases "e = d")
    case True
    then show ?thesis using cnt assms(5) gm by simp
  next
    case False
    then have "supported t pd e" using e by (simp add: supported_def Record1_def map_of_mput)
    then have "mget 0 (domains t) e - global_min t pd \<le> maxSkew t" using assms(3) by (simp add: skew_ok_def)
    then show ?thesis using cnt gm False by simp
  qed
qed

definition spread_ready :: "requirement \<Rightarrow> int \<Rightarrow> TopologyGroup \<Rightarrow> bool" where
  "spread_ready pd b t \<longleftrightarrow> wf_group t \<and> counts_below b t \<and> skew_ok t pd \<and>
     (tgKey t = LabelHostname \<or> int (length (domains t)) \<le> MaxInt32)"

lemma spread_place_ready:
  assumes "spread_ready pd b t" "0 < b" "b \<le> MaxInt32 - 1" "wf_requirement nd" "enumerates unsorted"
    and "NormalizedLabelValues E = []"
  shows "spread_ready pd (b + 1) (spread_place E unsorted pd t (pod, nd))"
proof -
  have t: "wf_group t" "counts_below b t" "skew_ok t pd" "tgKey t = LabelHostname \<or> int (length (domains t)) \<le> MaxInt32"
    using assms(1) by (simp_all add: spread_ready_def)
  have below: "counts_below (MaxInt32 - 1) t" "counts_below MaxInt32 t"
    using t(2) assms(3) by (fastforce simp: counts_below_def)+
  have "counts_below (b + 1) t" using t(2) by (fastforce simp: counts_below_def)
  then have keep: "spread_ready pd (b + 1) t" using t(1,3,4) by (simp add: spread_ready_def)
  show ?thesis
  proof (cases "nextDomainTopologySpread E unsorted t pod pd nd")
    case None
    then show ?thesis using keep by (simp add: spread_place_def)
  next
    case (Some rV)
    then obtain r V where r: "nextDomainTopologySpread E unsorted t pod pd nd = Some (r, V)" by (cases rV) auto
    have empty: "unsorted {} = []" using enumerates_set[OF assms(5), of "{}"] by simp
    have single: "unsorted {d} = [d]" for d
      using enumerates_set[OF assms(5), of "{d}"] enumerates_length[OF assms(5), of "{d}"]
      by (cases "unsorted {d}") simp_all
    consider "\<not> selects t pod \<or> rvalues r = {}"
      | d where "selects t pod" "rvalues r = {d}" "tgKey t = LabelHostname \<or> mhas (domains t) d"
        "mget 0 (domains t) d + 1 - global_min t pd \<le> maxSkew t"
    proof (cases "selects t pod")
      case True
      note choice = spread_choice[OF t(1) below(1) t(4) assms(4,5,6) r, unfolded if_P[OF True]]
      show thesis
      proof (cases "rvalues r = {}")
        case False
        then obtain d where "rvalues r = {d}" "tgKey t = LabelHostname \<or> mhas (domains t) d"
          "mget 0 (domains t) d + 1 - global_min t pd \<le> maxSkew t" using choice by blast
        then show thesis using that(2) True by blast
      qed (use that(1) in blast)
    qed (use that(1) in blast)
    then show ?thesis
    proof cases
      case 1
      then have "spread_place E unsorted pd t (pod, nd) = t"
        using r empty by (auto simp: spread_place_def TopologyGroup_Record_def)
      then show ?thesis using keep by simp
    next
      case 2
      have eq: "spread_place E unsorted pd t (pod, nd) = Record1 t d"
        using r 2(1,2) single[of d] by (simp add: spread_place_def)
      have "counts_below (b + 1) (Record1 t d)"
        using counts_below_step[OF t(1,2) assms(2), of "RecordOp d"] assms(3) by simp
      moreover have "tgKey t = LabelHostname \<or> int (length (domains (Record1 t d))) \<le> MaxInt32"
        using t(4) 2(3) by (auto simp: Record1_def length_mput)
      ultimately show ?thesis
        unfolding eq spread_ready_def
        using wf_Record1[OF t(1) below(2)] skew_ok_Record1[OF t(1) below(2) t(3) 2(3,4)] by simp
    qed
  qed
qed

text \<open>
  C16. Spreading is safe: starting from counts within the permitted skew, any sequence of pods given
  domains by the spread constraint, each matching pod recorded in the domain it was given, keeps
  every domain the pods may use within the permitted skew of the smallest count.
\<close>

theorem spread_skew_bounded:
  assumes "wf_group t" "skew_ok t pd" "counts_below b t" "0 < b" "b + int (length xs) < MaxInt32"
    and "tgKey t = LabelHostname \<or> int (length (domains t)) \<le> MaxInt32"
    and "\<forall>(pod, nd) \<in> set xs. wf_requirement nd" "enumerates unsorted" "NormalizedLabelValues E = []"
  shows "skew_ok (foldl (spread_place E unsorted pd) t xs) pd"
proof -
  have "spread_ready pd (b + int (length xs)) (foldl (spread_place E unsorted pd) t xs)"
    if "spread_ready pd b t"
    using that assms(4,5,7)
  proof (induction xs arbitrary: t b)
    case (Cons x xs)
    obtain pod nd where x: "x = (pod, nd)" by (cases x)
    have "spread_ready pd (b + 1) (spread_place E unsorted pd t x)"
      using spread_place_ready[OF Cons.prems(1,2) _ _ assms(8,9), of nd pod] Cons.prems(3,4) by (simp add: x)
    then have "spread_ready pd (b + 1 + int (length xs)) (foldl (spread_place E unsorted pd) (spread_place E unsorted pd t x) xs)"
      using Cons.IH[of "b + 1"] Cons.prems by simp
    then show ?case by (simp add: algebra_simps)
  qed simp
  then show ?thesis using assms by (simp add: spread_ready_def)
qed

theorem spread_skew_bounded_witness:
  "skew_ok (foldl (spread_place core_labels sorted_list_of_set any_zone) (zone_group TopologyTypeSpread)
     [(bare_pod ''p'', any_zone), (bare_pod ''q'', any_zone), (bare_pod ''r'', any_zone)]) any_zone"
proof -
  let ?xs = "[(bare_pod ''p'', any_zone), (bare_pod ''q'', any_zone), (bare_pod ''r'', any_zone)]"
  have zero: "mget 0 (domains (zone_group TopologyTypeSpread)) d = 0" for d
    by (simp add: mget_def zone_group_def)
  have "maxSkew (zone_group TopologyTypeSpread) = 1" by (simp add: zone_group_def)
  then have skew: "skew_ok (zone_group TopologyTypeSpread) any_zone"
    unfolding skew_ok_def zero
    using global_min_bounds(1)[OF wf_zone_group, of TopologyTypeSpread any_zone] by simp
  have norm: "NormalizedLabelValues core_labels = []" by (simp add: core_labels_def)
  have small: "1 + int (length ?xs) < MaxInt32"
    "tgKey (zone_group TopologyTypeSpread) = LabelHostname \<or> int (length (domains (zone_group TopologyTypeSpread))) \<le> MaxInt32"
    "\<forall>(pod, nd) \<in> set ?xs. wf_requirement nd"
    by (simp_all add: int_bounds zone_group_def)
  show ?thesis
    by (rule spread_skew_bounded[OF wf_zone_group skew zone_group_below[of 1] _ small enumerates_sorted norm]) simp_all
qed

section \<open>Affinity and anti-affinity\<close>

lemma none_options:
  fixes E k
  defines "opts \<equiv> DoesNotExist_requirement E k None"
  shows "NewRequirement E k OpDoesNotExist [] = Some opts"
    "Requirement_Has (Requirement_Insert opts xs) v \<longleftrightarrow> v \<in> set xs"
    "Requirement_Len (Requirement_Insert opts xs) = int (card (set xs))"
    "Requirement_Insert (Requirement_Insert opts xs) ys = Requirement_Insert opts (xs @ ys)"
    "\<not> Requirement_Has opts v"
  by (simp_all add: opts_def NewRequirement_def NewRequirement_DoesNotExist DoesNotExist_requirement_def
      Requirement_Insert_def Requirement_Has_def Requirement_Len_def Un_assoc)

lemma insert_found_eq:
  "insert_found r d = Requirement_Insert r (case d of None \<Rightarrow> [] | Some x \<Rightarrow> [x])"
  by (simp add: insert_found_def Requirement_Insert_def split: option.split)

definition occupied :: "TopologyGroup \<Rightarrow> string \<Rightarrow> bool" where
  "occupied t d \<longleftrightarrow> mget 0 (domains t) d > 0"

lemma occupied_known: "occupied t d \<longleftrightarrow> (\<exists>n. map_of (domains t) d = Some n \<and> n > 0)"
  by (auto simp: occupied_def mget_def split: option.splits)

lemma all_empty_iff:
  assumes "wf_group t"
  shows "length (domains t) = card (emptyDomains t) \<longleftrightarrow> (\<forall>d. \<not> occupied t d)"
proof -
  note wf = wf_groupD[OF assms]
  have dom: "card (dom (map_of (domains t))) = length (domains t)"
    using wf(1) by (simp add: dom_map_of_conv_image_fst) (metis distinct_card length_map set_map)
  have sub: "emptyDomains t \<subseteq> dom (map_of (domains t))" by (auto simp: wf(3))
  have "length (domains t) = card (emptyDomains t) \<longleftrightarrow> emptyDomains t = dom (map_of (domains t))"
    using dom sub by (metis card_subset_eq finite_dom_map_of)
  also have "\<dots> \<longleftrightarrow> (\<forall>d. \<not> occupied t d)"
    using sub wf(2) by (force simp: occupied_known wf(3) dom_def)
  finally show ?thesis .
qed

lemma may_bootstrap_iff:
  assumes "wf_group t"
  shows "may_bootstrap t pod pd \<longleftrightarrow> selects t pod \<and> (\<forall>d. occupied t d \<longrightarrow> \<not> Requirement_Has pd d)"
proof -
  have "anyCompatiblePodDomain t pd \<longleftrightarrow> (\<exists>d. occupied t d \<and> Requirement_Has pd d)"
    unfolding anyCompatiblePodDomain_def occupied_known
    using list_ex_entries_iff[OF wf_groupD(1)[OF assms], of "\<lambda>d n. Requirement_Has pd d \<and> n > 0"] by blast
  then show ?thesis unfolding may_bootstrap_def all_empty_iff[OF assms] by blast
qed

lemma finite_empty [simp]: "wf_group t \<Longrightarrow> finite (emptyDomains t)"
  by (rule finite_subset[OF _ finite_dom_map_of[of "domains t"]]) (auto dest: wf_groupD(3))

lemma In_Has:
  "wf_requirement nd \<Longrightarrow> Requirement_Operator nd = OpIn \<Longrightarrow> Requirement_Has nd v \<longleftrightarrow> v \<in> rvalues nd"
  by (simp add: Operator_In_iff Requirement_Has_def wf_requirement_def)

lemma nextDomainAntiAffinity_spec:
  assumes "wf_group t" "wf_requirement nd" "enumerates unsorted"
  shows "\<exists>r. nextDomainAntiAffinity E unsorted t pd nd = Some r \<and>
    (\<forall>v. Requirement_Has r v \<longleftrightarrow>
       (if tgKey t = LabelHostname \<and> card (rvalues nd) = 1
        then rvalues nd = {v} \<and> \<not> occupied t v
        else mhas (domains t) v \<and> \<not> occupied t v \<and> Requirement_Has nd v \<and> Requirement_Has pd v))"
proof -
  let ?opts = "DoesNotExist_requirement E (tgKey t) None"
  note opts = none_options[of E "tgKey t"]
  note vals = enumerates_set[OF assms(3) wf_requirement_finite[OF assms(2)]]
  note len = enumerates_length[OF assms(3) wf_requirement_finite[OF assms(2)]]
  note emp = enumerates_set[OF assms(3) finite_empty[OF assms(1)]]
  have none: "v \<in> emptyDomains t \<longleftrightarrow> mhas (domains t) v \<and> \<not> occupied t v" for v
    using wf_groupD(2,3)[OF assms(1), of v] by (fastforce simp: occupied_known)
  have zero: "mget 0 (domains t) v = 0 \<longleftrightarrow> \<not> occupied t v" for v
    using wf_groupD(2)[OF assms(1), of v] by (auto simp: occupied_def mget_def split: option.split)
  show ?thesis
  proof (cases "tgKey t = LabelHostname \<and> card (rvalues nd) = 1")
    case True
    then obtain h where h: "unsorted (rvalues nd) = [h]" using len by (cases "unsorted (rvalues nd)") simp_all
    then have nd: "rvalues nd = {h}" using vals by simp
    have "nextDomainAntiAffinity E unsorted t pd nd =
        Some (if mget 0 (domains t) h = 0 then Requirement_Insert ?opts [h] else ?opts)"
      using True h unfolding nextDomainAntiAffinity_def opts(1) by simp
    then show ?thesis
      unfolding zero if_P[OF True] unfolding nd by (cases "occupied t h") (auto simp: opts(2,5))
  next
    case False
    then have general: "(tgKey t = LabelHostname \<and> length (unsorted (rvalues nd)) = 1) = False" using len by simp
    define xs where "xs = (if Requirement_Operator nd = OpIn \<and> Requirement_Len nd < int (card (emptyDomains t))
      then filter (\<lambda>d. d \<in> emptyDomains t \<and> Requirement_Has pd d) (unsorted (rvalues nd))
      else filter (\<lambda>d. Requirement_Has nd d \<and> Requirement_Has pd d) (unsorted (emptyDomains t)))"
    have xs: "nextDomainAntiAffinity E unsorted t pd nd = Some (Requirement_Insert ?opts xs)"
      "v \<in> set xs \<longleftrightarrow> v \<in> emptyDomains t \<and> Requirement_Has nd v \<and> Requirement_Has pd v" for v
      unfolding nextDomainAntiAffinity_def opts(1) option.case Let_def general if_False xs_def
      using In_Has[OF assms(2)] by (simp, auto simp: vals emp)
    show ?thesis unfolding if_not_P[OF False] xs(1) by (auto simp: opts(2) xs(2) none)
  qed
qed

text \<open>
  The domains offered under an anti-affinity are exactly the known domains of pod and node with
  no matching pod in them; on a single host it is that host, and only while no matching pod is there.
\<close>

theorem nextDomainAntiAffinity_exact:
  assumes "wf_group t" "wf_requirement nd" "enumerates unsorted"
  shows "\<exists>r. nextDomainAntiAffinity E unsorted t pd nd = Some r \<and>
    (\<forall>v. Requirement_Has r v \<longleftrightarrow>
       (if tgKey t = LabelHostname \<and> card (rvalues nd) = 1
        then rvalues nd = {v} \<and> \<not> occupied t v
        else mhas (domains t) v \<and> \<not> occupied t v \<and> Requirement_Has nd v \<and> Requirement_Has pd v))"
  by (rule nextDomainAntiAffinity_spec[OF assms])

theorem nextDomainAntiAffinity_exact_witness:
  "\<exists>r. nextDomainAntiAffinity core_labels sorted_list_of_set
         ((zone_group TopologyTypePodAntiAffinity)\<lparr>domains := [(''a'', 1), (''b'', 0)], emptyDomains := {''b''}\<rparr>)
         any_zone any_zone = Some r \<and>
     Requirement_Has r ''b'' \<and> \<not> Requirement_Has r ''a''"
proof -
  let ?t = "(zone_group TopologyTypePodAntiAffinity)\<lparr>domains := [(''a'', 1), (''b'', 0)], emptyDomains := {''b''}\<rparr>"
  have wf: "wf_group ?t" by (auto simp: wf_group_def split: if_splits)
  have key: "tgKey ?t \<noteq> LabelHostname" by (simp add: zone_group_def LabelHostname_def)
  have "mhas (domains ?t) ''b''" "\<not> occupied ?t ''b''" "occupied ?t ''a''"
    by (simp_all add: occupied_def mget_def)
  then show ?thesis
    using nextDomainAntiAffinity_exact[OF wf wf_any_zone(1) enumerates_sorted, of core_labels any_zone] key by auto
qed

text \<open>
  The domains offered under an affinity. When some domain that pod and node admit already has a
  matching pod, exactly those domains are offered. Otherwise the pod may only start a group of its
  own: it must match the affinity itself and no domain it admits may be occupied; then a known
  domain it admits is offered whenever there is one, and nothing else.
\<close>

theorem nextDomainAffinity_exact:
  assumes "wf_group t" "wf_requirement nd" "enumerates unsorted"
    and "tgKey t \<noteq> LabelHostname \<or> card (rvalues nd) \<noteq> 1"
  shows "\<exists>r. nextDomainAffinity E unsorted t pod pd nd = Some r \<and>
    (if \<exists>d. occupied t d \<and> Requirement_Has pd d \<and> Requirement_Has nd d
     then (\<forall>v. Requirement_Has r v \<longleftrightarrow> occupied t v \<and> Requirement_Has pd v \<and> Requirement_Has nd v)
     else if selects t pod \<and> (\<forall>d. occupied t d \<longrightarrow> \<not> Requirement_Has pd d)
     then (\<forall>v. Requirement_Has r v \<longrightarrow> mhas (domains t) v \<and> Requirement_Has pd v) \<and>
          ((\<exists>v. Requirement_Has r v) \<longleftrightarrow> (\<exists>d. mhas (domains t) d \<and> Requirement_Has pd d))
     else (\<forall>v. \<not> Requirement_Has r v))"
proof -
  let ?opts = "DoesNotExist_requirement E (tgKey t) None"
  note opts = none_options[of E "tgKey t"]
  note vals = enumerates_set[OF assms(3) wf_requirement_finite[OF assms(2)]]
  note dom = wf_groupD(1)[OF assms(1)]
  have general: "(tgKey t = LabelHostname \<and> length (unsorted (rvalues nd)) = 1) = False"
    using assms(4) enumerates_length[OF assms(3) wf_requirement_finite[OF assms(2)]] by auto
  define found where "found = (if Requirement_Operator nd = OpIn
      then filter (\<lambda>d. Requirement_Has pd d \<and> mhas (domains t) d \<and> mget 0 (domains t) d > 0) (unsorted (rvalues nd))
      else map fst (filter (\<lambda>(d, n). Requirement_Has pd d \<and> n > 0 \<and> Requirement_Has nd d) (domains t)))"
  have found: "v \<in> set found \<longleftrightarrow> occupied t v \<and> Requirement_Has pd v \<and> Requirement_Has nd v" for v
  proof (cases "Requirement_Operator nd = OpIn")
    case True
    then show ?thesis
      using In_Has[OF assms(2) True] by (auto simp: found_def vals occupied_known mget_def)
  next
    case False
    have "v \<in> set found \<longleftrightarrow> (\<exists>n. (v, n) \<in> set (domains t) \<and> n > 0 \<and> Requirement_Has pd v \<and> Requirement_Has nd v)"
      using False by (force simp: found_def)
    then show ?thesis unfolding occupied_known map_of_in_set[OF dom] by blast
  qed
  have keys: "v \<in> set (map fst (domains t)) \<longleftrightarrow> mhas (domains t) v" for v
    by (simp add: dom_map_of_conv_image_fst[symmetric] domIff)
  define extra where "extra = (case find (Requirement_Has (Requirement_Intersection E pd nd)) (map fst (domains t)) of None \<Rightarrow> [] | Some x \<Rightarrow> [x]) @
      (case find (Requirement_Has pd) (map fst (domains t)) of None \<Rightarrow> [] | Some x \<Rightarrow> [x])"
  have eq: "nextDomainAffinity E unsorted t pod pd nd =
      Some (if found \<noteq> [] then Requirement_Insert ?opts found
            else if may_bootstrap t pod pd then Requirement_Insert ?opts (found @ extra)
            else Requirement_Insert ?opts found)"
    unfolding nextDomainAffinity_def opts(1) option.case Let_def general if_False found_def[symmetric] opts(3)
      insert_found_eq opts(4) extra_def by simp
  have hit: "find P (map fst (domains t)) = Some x \<Longrightarrow> mhas (domains t) x \<and> P x" for P x
    unfolding keys[symmetric] find_Some_iff by auto
  have extra: "v \<in> set extra \<Longrightarrow> mhas (domains t) v \<and> Requirement_Has pd v" for v
    by (cases "find (Requirement_Has (Requirement_Intersection E pd nd)) (map fst (domains t))";
        cases "find (Requirement_Has pd) (map fst (domains t))")
      (auto simp: extra_def Has_Intersection dest!: hit)
  have extra_ne: "extra \<noteq> []" if "mhas (domains t) d" "Requirement_Has pd d" for d
  proof -
    have "find (Requirement_Has pd) (map fst (domains t)) \<noteq> None" using that keys[of d] unfolding find_None_iff by blast
    then show ?thesis by (auto simp: extra_def)
  qed
  show ?thesis
  proof (cases "found = []")
    case False
    then have "\<exists>d. occupied t d \<and> Requirement_Has pd d \<and> Requirement_Has nd d"
      using found by (metis list.set_intros(1) neq_Nil_conv)
    then show ?thesis using False by (simp add: eq opts(2) found)
  next
    case True
    then have no: "\<not> (\<exists>d. occupied t d \<and> Requirement_Has pd d \<and> Requirement_Has nd d)" using found by auto
    show ?thesis
    proof (cases "may_bootstrap t pod pd")
      case True
      have "(\<exists>v. v \<in> set extra) \<longleftrightarrow> (\<exists>d. mhas (domains t) d \<and> Requirement_Has pd d)"
        using extra extra_ne by (metis list.set_intros(1) neq_Nil_conv)
      moreover have "(\<exists>v. Requirement_Has (Requirement_Insert ?opts extra) v) \<longleftrightarrow> (\<exists>v. v \<in> set extra)"
        by (simp only: opts(2))
      moreover have "\<forall>v. Requirement_Has (Requirement_Insert ?opts extra) v \<longrightarrow> mhas (domains t) v \<and> Requirement_Has pd v"
        unfolding opts(2) using extra by blast
      moreover have "nextDomainAffinity E unsorted t pod pd nd = Some (Requirement_Insert ?opts extra)"
        unfolding eq using True \<open>found = []\<close> by simp
      ultimately show ?thesis
        unfolding if_not_P[OF no] if_P[OF True[unfolded may_bootstrap_iff[OF assms(1)]]] by blast
    next
      case False
      then show ?thesis using no \<open>found = []\<close> by (auto simp: eq opts(2) may_bootstrap_iff[OF assms(1)])
    qed
  qed
qed

theorem nextDomainAffinity_exact_witness:
  "\<exists>r. nextDomainAffinity core_labels sorted_list_of_set busy_zones (bare_pod ''p'') any_zone any_zone = Some r \<and>
     Requirement_Has r ''a'' \<and> \<not> Requirement_Has r ''c''"
proof -
  have occ: "occupied busy_zones ''a''" "\<not> occupied busy_zones ''c''"
    by (simp_all add: occupied_def mget_def busy_zones_simps)
  have key: "tgKey busy_zones \<noteq> LabelHostname \<or> card (rvalues any_zone) \<noteq> 1" by simp
  have some: "\<exists>d. occupied busy_zones d \<and> Requirement_Has any_zone d \<and> Requirement_Has any_zone d"
    using occ(1) by auto
  show ?thesis
    using nextDomainAffinity_exact[OF busy_zones_ok(1) wf_any_zone(1) enumerates_sorted key, of core_labels "bare_pod ''p''" any_zone] occ
    unfolding if_P[OF some] by auto
qed

end
