(* ===== verification/Topology.thy ===== *)
theory Topology
  imports TopologySpread VolumeUsage
begin

text \<open>
  The topology state of one scheduling run
  (\<^verbatim>\<open>pkg/controllers/provisioning/scheduling/topology.go\<close>): the groups that constrain the pods being
  scheduled, the groups of other pods' anti-affinities, their counts from the cluster, and the
  requirements they add to a node.

  The API server is the record \<open>topology_client\<close>; \<open>hash\<close> is \<^verbatim>\<open>TopologyGroup.Hash\<close>, which comes from a
  library, and \<open>groupKey\<close> the key of an anti-affinity term. The pass-scoped caches of nodes, pods and
  requirements are left out: they return what the reads return.
\<close>

record Node =
  nodeName :: string
  nodeLabels :: "(string, string) gomap"
  nodeTaints :: "Taint list"

record topology_client =
  tcListPods :: "string \<Rightarrow> Selector \<Rightarrow> (kube_error, Pod list) result"
  tcGetNode :: "string \<Rightarrow> (kube_error, Node) result"
  tcListNamespaces :: "Selector \<Rightarrow> (kube_error, string list) result"

text \<open>What the code reads of a state node: the node object, if there is one yet, and the merged labels.\<close>

record StateNodeLabels =
  snNode :: "Node option"
  snLabels :: "(string, string) gomap"

datatype PreferencePolicy = PreferencePolicyRespect | PreferencePolicyIgnore

record Topology =
  preferencePolicy :: PreferencePolicy
  topologyGroups :: "(nat, TopologyGroup) gomap"
  inverseTopologyGroups :: "(string, TopologyGroup) gomap"
  domainGroups :: "(string, TopologyDomainGroup) gomap"
  excludedPods :: "string set"
  stateNodes :: "StateNodeLabels list"

text \<open>
  The parameters that stand for code outside the repository: tolerations, label selectors, the
  enumeration of sets, the hash of a group, and the sort of the scan.
\<close>

record topology_env =
  teLabels :: label_env
  teTolerates :: "Toleration \<Rightarrow> Taint \<Rightarrow> bool"
  teSelector :: "LabelSelector option \<Rightarrow> Selector option"
  teNewRequirement :: "string \<Rightarrow> string \<Rightarrow> string list \<Rightarrow> Selector option"
  teUnsorted :: "string set \<Rightarrow> string list"
  teHash :: "TopologyGroup \<Rightarrow> nat"
  teSortPods :: "Pod list \<Rightarrow> Pod list"
  teClient :: topology_client

section \<open>Listing the pods of a group\<close>

text \<open>The operators of a label selector by the names \<^verbatim>\<open>selection\<close> gives them.\<close>

definition mapOperator :: "operator \<Rightarrow> string" where
  "mapOperator op =
     (case op of
        OpIn \<Rightarrow> ''in'' | OpNotIn \<Rightarrow> ''notin'' | OpExists \<Rightarrow> ''exists'' | OpDoesNotExist \<Rightarrow> ''!''
      | _ \<Rightarrow> [])"

fun add_selectors ::
  "(string \<Rightarrow> string \<Rightarrow> string list \<Rightarrow> Selector option) \<Rightarrow> Selector \<Rightarrow> (string \<times> string \<times> string list) list \<Rightarrow> Selector option" where
  "add_selectors newRequirement sel [] = Some sel"
| "add_selectors newRequirement sel ((key, op, vals) # rest) =
     (case newRequirement key op vals of
        None \<Rightarrow> None
      | Some req \<Rightarrow> add_selectors newRequirement (\<lambda>l. sel l \<and> req l) rest)"

text \<open>The selector of the list options: everything without a selector, nothing on an error.\<close>

definition TopologyListOptions ::
  "(string \<Rightarrow> string \<Rightarrow> string list \<Rightarrow> Selector option) \<Rightarrow> LabelSelector option \<Rightarrow> Selector" where
  "TopologyListOptions newRequirement labelSelector =
     (case labelSelector of
        None \<Rightarrow> (\<lambda>_. True)
      | Some ls \<Rightarrow>
          (case add_selectors newRequirement (\<lambda>_. True)
                  (map (\<lambda>(key, value). (key, ''='', [value])) (matchLabels ls) @
                   map (\<lambda>e. (nsKey e, mapOperator (nsOperator e), nsValues e)) (matchExpressions ls)) of
             None \<Rightarrow> (\<lambda>_. False)
           | Some sel \<Rightarrow> sel))"

definition IgnoredForTopology :: "Pod \<Rightarrow> bool" where
  "IgnoredForTopology p \<longleftrightarrow> \<not> IsScheduled p \<or> IsTerminal p \<or> IsTerminating p"

definition getTopologyNode :: "topology_client \<Rightarrow> string \<Rightarrow> (kube_error, Node option) result" where
  "getTopologyNode c name =
     (case tcGetNode c name of
        Ok n \<Rightarrow> Ok (Some n)
      | Err NotFound \<Rightarrow> Ok None
      | Err e \<Rightarrow> Err e
      | Panic \<Rightarrow> Panic)"

fun list_namespaces ::
  "topology_client \<Rightarrow> Selector \<Rightarrow> string list \<Rightarrow> (kube_error, Pod list) result" where
  "list_namespaces c sel [] = Ok []"
| "list_namespaces c sel (ns # nss) =
     rbind (tcListPods c ns sel) (\<lambda>ps. rbind (list_namespaces c sel nss) (\<lambda>qs. Ok (ps @ qs)))"

text \<open>The order of the scan: node, namespace, name.\<close>

definition scan_order :: "Pod \<Rightarrow> Pod \<Rightarrow> bool" where
  "scan_order p q =
     (if podNodeName p \<noteq> podNodeName q then podNodeName p < podNodeName q
      else if podNamespace p \<noteq> podNamespace q then podNamespace p < podNamespace q
      else podName p < podName q)"

definition pod_domain :: "TopologyGroup \<Rightarrow> Node \<Rightarrow> string option" where
  "pod_domain tg node =
     (case map_of (nodeLabels node) (tgKey tg) of
        Some d \<Rightarrow> Some d
      | None \<Rightarrow> if tgKey tg = LabelHostname then Some (nodeName node) else None)"

definition pod_record :: "topology_env \<Rightarrow> TopologyGroup \<Rightarrow> Pod \<Rightarrow> Node \<Rightarrow> requirements \<Rightarrow> (string \<times> string) list" where
  "pod_record TE tg p node rs =
     (case pod_domain tg node of
        None \<Rightarrow> []
      | Some d \<Rightarrow>
          if \<not> TopologyNodeFilter_Matches (teLabels TE) (teTolerates TE) [] (nodeFilter tg) (nodeTaints node) rs then []
          else [(podUID p, d)])"

text \<open>
  The loop over the sorted pods. The node of the previous pod and its requirements are kept, so that
  pods of one node read it once.
\<close>

fun scan_loop ::
  "topology_env \<Rightarrow> TopologyGroup \<Rightarrow> (Node \<times> requirements) option \<Rightarrow> Pod list \<Rightarrow>
   (kube_error, (string \<times> string) list) result" where
  "scan_loop TE tg previous [] = Ok []"
| "scan_loop TE tg previous (p # ps) =
     (if IgnoredForTopology p then scan_loop TE tg previous ps
      else if (case previous of None \<Rightarrow> False | Some (n, _) \<Rightarrow> nodeName n = podNodeName p) then
        (case previous of
           Some (node, rs) \<Rightarrow>
             rbind (scan_loop TE tg previous ps) (\<lambda>records. Ok (pod_record TE tg p node rs @ records))
         | None \<Rightarrow> Panic)
      else
        rbind (getTopologyNode (teClient TE) (podNodeName p)) (\<lambda>node.
          case node of
            None \<Rightarrow> scan_loop TE tg previous ps
          | Some node \<Rightarrow>
              (case NewLabelRequirements (teLabels TE) (nodeLabels node) of
                 None \<Rightarrow> Panic
               | Some rs \<Rightarrow>
                   rbind (scan_loop TE tg (Some (node, rs)) ps) (\<lambda>records. Ok (pod_record TE tg p node rs @ records)))))"

definition scanTopologyPodDomains ::
  "topology_env \<Rightarrow> TopologyGroup \<Rightarrow> (kube_error, (string \<times> string) list) result" where
  "scanTopologyPodDomains TE tg =
     rbind (list_namespaces (teClient TE) (TopologyListOptions (teNewRequirement TE) (rawSelector tg))
              (sorted_list_of_set (namespaces tg)))
       (\<lambda>pods. scan_loop TE tg None (teSortPods TE pods))"

section \<open>Counting\<close>

definition count_node :: "topology_env \<Rightarrow> TopologyGroup \<Rightarrow> StateNodeLabels \<Rightarrow> TopologyGroup option" where
  "count_node TE tg n =
     (case snNode n of
        None \<Rightarrow> Some tg
      | Some node \<Rightarrow>
          (case NewLabelRequirements (teLabels TE) (nodeLabels node) of
             None \<Rightarrow> None
           | Some rs \<Rightarrow>
               if \<not> TopologyNodeFilter_Matches (teLabels TE) (teTolerates TE) [] (nodeFilter tg) (nodeTaints node) rs then Some tg
               else (case map_of (snLabels n) (tgKey tg) of
                       None \<Rightarrow> Some tg
                     | Some domain \<Rightarrow> Some (Register1 tg domain))))"

fun count_nodes :: "topology_env \<Rightarrow> TopologyGroup \<Rightarrow> StateNodeLabels list \<Rightarrow> TopologyGroup option" where
  "count_nodes TE tg [] = Some tg"
| "count_nodes TE tg (n # ns) =
     (case count_node TE tg n of None \<Rightarrow> None | Some tg' \<Rightarrow> count_nodes TE tg' ns)"

definition countDomains :: "topology_env \<Rightarrow> Topology \<Rightarrow> TopologyGroup \<Rightarrow> (kube_error, TopologyGroup) result" where
  "countDomains TE t tg =
     (case count_nodes TE tg (stateNodes t) of
        None \<Rightarrow> Panic
      | Some tg1 \<Rightarrow>
          rbind (scanTopologyPodDomains TE tg1) (\<lambda>records.
            Ok (TopologyGroup_Record tg1 (map snd (filter (\<lambda>(uid, _). uid \<notin> excludedPods t) records)))))"

section \<open>The groups of a pod\<close>

definition match_label_keys :: "Pod \<Rightarrow> string list \<Rightarrow> NodeSelectorRequirement list" where
  "match_label_keys p ks =
     concat (map (\<lambda>key. case map_of (podLabels p) key of
                          None \<Rightarrow> []
                        | Some value \<Rightarrow> [\<lparr>nsKey = key, nsOperator = OpIn, nsValues = [value], nsMinValues = None\<rparr>]) ks)"

definition tsc_selector :: "Pod \<Rightarrow> TopologySpreadConstraint \<Rightarrow> LabelSelector option" where
  "tsc_selector p tsc =
     (case tscLabelSelector tsc of
        None \<Rightarrow> None
      | Some sel \<Rightarrow>
          (let extra = match_label_keys p (tscMatchLabelKeys tsc) in
           if extra \<noteq> [] then Some (sel\<lparr>matchExpressions := matchExpressions sel @ extra\<rparr>) else Some sel))"

definition newForTopologies :: "topology_env \<Rightarrow> Topology \<Rightarrow> Pod \<Rightarrow> TopologyGroup list option" where
  "newForTopologies TE t p =
     those (map (\<lambda>tsc.
        NewTopologyGroup (teLabels TE) (teTolerates TE) (teSelector TE) TopologyTypeSpread (tscTopologyKey tsc) p
          {podNamespace p} (tsc_selector p tsc) (tscMaxSkew tsc) (tscMinDomains tsc)
          (tscNodeTaintsPolicy tsc) (tscNodeAffinityPolicy tsc) (mget [] (domainGroups t) (tscTopologyKey tsc)))
       (filter (\<lambda>tsc. \<not> (preferencePolicy t = PreferencePolicyIgnore \<and> tscWhenUnsatisfiable tsc \<noteq> DoNotSchedule))
          (podSpread p)))"

definition buildNamespaceList ::
  "topology_env \<Rightarrow> string \<Rightarrow> string list \<Rightarrow> LabelSelector option \<Rightarrow> (kube_error, string set) result" where
  "buildNamespaceList TE ns nss sel =
     (if nss = [] \<and> sel = None then Ok {ns}
      else if sel = None then Ok (set nss)
      else (case teSelector TE sel of
              None \<Rightarrow> Err (OtherError ''parsing selector'')
            | Some labelSelector \<Rightarrow>
                rbind (tcListNamespaces (teClient TE) labelSelector) (\<lambda>found. Ok (set found \<union> set nss))))"

text \<open>The terms of an affinity that count under the preference policy: required, then preferred.\<close>

definition affinity_terms :: "PreferencePolicy \<Rightarrow> PodAffinity option \<Rightarrow> PodAffinityTerm list" where
  "affinity_terms policy a =
     (case a of
        None \<Rightarrow> []
      | Some pa \<Rightarrow> paRequired pa @ (if policy = PreferencePolicyRespect then map wptTerm (paPreferred pa) else []))"

fun affinity_groups ::
  "topology_env \<Rightarrow> Topology \<Rightarrow> Pod \<Rightarrow> (TopologyType \<times> PodAffinityTerm) list \<Rightarrow> (kube_error, TopologyGroup list) result" where
  "affinity_groups TE t p [] = Ok []"
| "affinity_groups TE t p ((ty, term) # rest) =
     rbind (buildNamespaceList TE (podNamespace p) (patNamespaces term) (patNamespaceSelector term)) (\<lambda>nss.
       case NewTopologyGroup (teLabels TE) (teTolerates TE) (teSelector TE) ty (patTopologyKey term) p nss
              (patLabelSelector term) MaxInt32 None None None (mget [] (domainGroups t) (patTopologyKey term)) of
         None \<Rightarrow> Panic
       | Some tg \<Rightarrow> rbind (affinity_groups TE t p rest) (\<lambda>tgs. Ok (tg # tgs)))"

text \<open>The two kinds of terms are the entries of a map; \<open>antiFirst\<close> is the order its range visits them in.\<close>

definition newForAffinities ::
  "topology_env \<Rightarrow> bool \<Rightarrow> Topology \<Rightarrow> Pod \<Rightarrow> (kube_error, TopologyGroup list) result" where
  "newForAffinities TE antiFirst t p =
     (case podAffinities p of
        None \<Rightarrow> Ok []
      | Some a \<Rightarrow>
          (let aff = map (Pair TopologyTypePodAffinity) (affinity_terms (preferencePolicy t) (podAffinity a));
               anti = map (Pair TopologyTypePodAntiAffinity) (affinity_terms (preferencePolicy t) (podAntiAffinity a))
           in affinity_groups TE t p (if antiFirst then anti @ aff else aff @ anti)))"

section \<open>The key of an anti-affinity term\<close>

text \<open>\<^verbatim>\<open>strings.Join\<close> with a separator of one byte.\<close>

fun strings_Join :: "char \<Rightarrow> string list \<Rightarrow> string" where
  "strings_Join sep [] = []"
| "strings_Join sep [x] = x"
| "strings_Join sep (x # y # ys) = x @ sep # strings_Join sep (y # ys)"

definition operator_text :: "operator \<Rightarrow> string" where
  "operator_text op =
     (case op of
        OpIn \<Rightarrow> ''In'' | OpNotIn \<Rightarrow> ''NotIn'' | OpExists \<Rightarrow> ''Exists'' | OpDoesNotExist \<Rightarrow> ''DoesNotExist''
      | OpGt \<Rightarrow> ''Gt'' | OpLt \<Rightarrow> ''Lt'' | OpGte \<Rightarrow> ''Gte'' | OpLte \<Rightarrow> ''Lte'' | OpOther s \<Rightarrow> s)"

definition label_pairs :: "LabelSelector \<Rightarrow> string list" where
  "label_pairs sel = sort (map (\<lambda>(k, v). k @ ''='' @ v) (matchLabels sel))"

definition expression_texts :: "LabelSelector \<Rightarrow> string set" where
  "expression_texts sel =
     set (map (\<lambda>e. strings_Join (CHR 0x02) ([nsKey e, operator_text (nsOperator e)] @ sort (nsValues e)))
            (matchExpressions sel))"

definition canonicalLabelSelector :: "LabelSelector option \<Rightarrow> string" where
  "canonicalLabelSelector sel =
     (case sel of
        None \<Rightarrow> ''<nil>''
      | Some s \<Rightarrow> strings_Join (CHR 0x01) (label_pairs s) @ CHR 0x00 #
                  strings_Join (CHR 0x01) (sorted_list_of_set (expression_texts s)))"

definition inverseTopologyGroupKey :: "string \<Rightarrow> string set \<Rightarrow> LabelSelector option \<Rightarrow> string" where
  "inverseTopologyGroupKey topologyKey nss sel =
     strings_Join (CHR 0x00)
       [topologyKey, strings_Join (CHR 0x01) (sorted_list_of_set nss), canonicalLabelSelector sel]"

definition buildInverseGroupKeyAndNamespaces ::
  "topology_env \<Rightarrow> Pod \<Rightarrow> PodAffinityTerm \<Rightarrow> (kube_error, string \<times> string set) result" where
  "buildInverseGroupKeyAndNamespaces TE pod term =
     rbind (buildNamespaceList TE (podNamespace pod) (patNamespaces term) (patNamespaceSelector term))
       (\<lambda>nss. Ok (inverseTopologyGroupKey (patTopologyKey term) nss (patLabelSelector term), nss))"

section \<open>Keeping the groups up to date\<close>

text \<open>
  An update changes the topology and may return an error after having changed part of it; None is a
  panic.
\<close>

type_synonym update = "(Topology \<times> kube_error option) option"

fun inverse_terms ::
  "topology_env \<Rightarrow> Pod \<Rightarrow> (string, string) gomap \<Rightarrow> PodAffinityTerm list \<Rightarrow> Topology \<Rightarrow> update" where
  "inverse_terms TE pod labels [] t = Some (t, None)"
| "inverse_terms TE pod labels (term # terms) t =
     (case buildInverseGroupKeyAndNamespaces TE pod term of
        Panic \<Rightarrow> None
      | Err e \<Rightarrow> Some (t, Some e)
      | Ok (groupKey, nss) \<Rightarrow>
          (case (case map_of (inverseTopologyGroups t) groupKey of
                   Some tg \<Rightarrow> Some tg
                 | None \<Rightarrow> NewTopologyGroup (teLabels TE) (teTolerates TE) (teSelector TE) TopologyTypePodAntiAffinity
                             (patTopologyKey term) pod nss (patLabelSelector term) MaxInt32 None None None
                             (mget [] (domainGroups t) (patTopologyKey term))) of
             None \<Rightarrow> None
           | Some tg \<Rightarrow>
               (let tg1 = (case map_of labels (tgKey tg) of None \<Rightarrow> tg | Some d \<Rightarrow> TopologyGroup_Record tg [d]);
                    tg2 = AddOwner tg1 (podUID pod)
                in inverse_terms TE pod labels terms
                     (t\<lparr>inverseTopologyGroups := mput groupKey tg2 (inverseTopologyGroups t)\<rparr>))))"

definition updateInverseAntiAffinity ::
  "topology_env \<Rightarrow> Topology \<Rightarrow> Pod \<Rightarrow> (string, string) gomap \<Rightarrow> update" where
  "updateInverseAntiAffinity TE t pod labels =
     (case podAffinities pod of
        None \<Rightarrow> None
      | Some a \<Rightarrow>
          (case podAntiAffinity a of
             None \<Rightarrow> None
           | Some pa \<Rightarrow> inverse_terms TE pod labels (paRequired pa) t))"

text \<open>The cluster's pods with anti-affinity terms, each with the labels of its node.\<close>

fun updateInverseAffinities ::
  "topology_env \<Rightarrow> (Pod \<times> (string, string) gomap) list \<Rightarrow> Topology \<Rightarrow> (Topology \<times> kube_error list) option" where
  "updateInverseAffinities TE [] t = Some (t, [])"
| "updateInverseAffinities TE ((pod, labels) # rest) t =
     (if podUID pod \<in> excludedPods t then updateInverseAffinities TE rest t
      else case updateInverseAntiAffinity TE t pod labels of
             None \<Rightarrow> None
           | Some (t', err) \<Rightarrow>
               map_option (\<lambda>(u, errs). (u, (case err of None \<Rightarrow> errs | Some e \<Rightarrow> e # errs)))
                 (updateInverseAffinities TE rest t'))"

fun adopt_groups :: "topology_env \<Rightarrow> Pod \<Rightarrow> TopologyGroup list \<Rightarrow> Topology \<Rightarrow> update" where
  "adopt_groups TE p [] t = Some (t, None)"
| "adopt_groups TE p (tg # tgs) t =
     (let hash = teHash TE tg in
      case map_of (topologyGroups t) hash of
        Some existing \<Rightarrow>
          adopt_groups TE p tgs (t\<lparr>topologyGroups := mput hash (AddOwner existing (podUID p)) (topologyGroups t)\<rparr>)
      | None \<Rightarrow>
          (case countDomains TE t tg of
             Panic \<Rightarrow> None
           | Err e \<Rightarrow> Some (t, Some e)
           | Ok tg' \<Rightarrow>
               adopt_groups TE p tgs (t\<lparr>topologyGroups := mput hash (AddOwner tg' (podUID p)) (topologyGroups t)\<rparr>)))"

definition map_groups :: "(TopologyGroup \<Rightarrow> TopologyGroup) \<Rightarrow> ('k, TopologyGroup) gomap \<Rightarrow> ('k, TopologyGroup) gomap" where
  "map_groups f m = map (\<lambda>(k, tg). (k, f tg)) m"

definition Topology_Update :: "topology_env \<Rightarrow> bool \<Rightarrow> Topology \<Rightarrow> Pod \<Rightarrow> update" where
  "Topology_Update TE antiFirst t0 p =
     (let t = t0\<lparr>topologyGroups := map_groups (\<lambda>tg. RemoveOwner tg (podUID p)) (topologyGroups t0)\<rparr> in
      case (if preferencePolicy t = PreferencePolicyIgnore \<and> HasRequiredPodAntiAffinity p \<or>
               preferencePolicy t = PreferencePolicyRespect \<and> HasPodAntiAffinity p
            then updateInverseAntiAffinity TE t p [] else Some (t, None)) of
        None \<Rightarrow> None
      | Some (t1, Some e) \<Rightarrow> Some (t1, Some e)
      | Some (t1, None) \<Rightarrow>
          (case newForTopologies TE t1 p of
             None \<Rightarrow> None
           | Some topologies \<Rightarrow>
               (case newForAffinities TE antiFirst t1 p of
                  Panic \<Rightarrow> None
                | Err e \<Rightarrow> Some (t1, Some e)
                | Ok affinities \<Rightarrow> adopt_groups TE p (topologies @ affinities) t1)))"

fun update_all :: "topology_env \<Rightarrow> bool \<Rightarrow> Pod list \<Rightarrow> Topology \<Rightarrow> (Topology \<times> kube_error list) option" where
  "update_all TE antiFirst [] t = Some (t, [])"
| "update_all TE antiFirst (p # ps) t =
     (case Topology_Update TE antiFirst t p of
        None \<Rightarrow> None
      | Some (t', err) \<Rightarrow>
          map_option (\<lambda>(u, errs). (u, (case err of None \<Rightarrow> errs | Some e \<Rightarrow> e # errs)))
            (update_all TE antiFirst ps t'))"

definition NewTopology ::
  "topology_env \<Rightarrow> bool \<Rightarrow> PreferencePolicy \<Rightarrow> (string, TopologyDomainGroup) gomap \<Rightarrow> StateNodeLabels list \<Rightarrow>
   (Pod \<times> (string, string) gomap) list \<Rightarrow> Pod list \<Rightarrow> (kube_error list, Topology) result" where
  "NewTopology TE antiFirst policy groups nodes antiAffinityPods pods =
     (let t = \<lparr>preferencePolicy = policy, topologyGroups = [], inverseTopologyGroups = [],
               domainGroups = groups, excludedPods = podUID ` set pods, stateNodes = nodes\<rparr> in
      case updateInverseAffinities TE antiAffinityPods t of
        None \<Rightarrow> Panic
      | Some (t1, errs1) \<Rightarrow>
          (case update_all TE antiFirst pods t1 of
             None \<Rightarrow> Panic
           | Some (t2, errs2) \<Rightarrow> if errs1 @ errs2 = [] then Ok t2 else Err (errs1 @ errs2)))"

section \<open>Placing pods\<close>

definition record_group ::
  "topology_env \<Rightarrow> string list \<Rightarrow> Pod \<Rightarrow> Taint list \<Rightarrow> requirements \<Rightarrow> TopologyGroup \<Rightarrow> TopologyGroup" where
  "record_group TE allow p taints rs tg =
     (if Counts (teLabels TE) (teTolerates TE) allow tg p taints rs then
        (let ds = Requirements_Get (teLabels TE) rs (tgKey tg) in
         if tgType tg = TopologyTypePodAntiAffinity then TopologyGroup_Record tg (teUnsorted TE (rvalues ds))
         else if Requirement_Len ds = 1 then TopologyGroup_Record tg [hd (teUnsorted TE (rvalues ds))]
         else tg)
      else tg)"

definition record_inverse ::
  "topology_env \<Rightarrow> Pod \<Rightarrow> requirements \<Rightarrow> TopologyGroup \<Rightarrow> TopologyGroup" where
  "record_inverse TE p rs tg =
     (if TopologyGroup_IsOwnedBy tg (podUID p)
      then TopologyGroup_Record tg (teUnsorted TE (rvalues (Requirements_Get (teLabels TE) rs (tgKey tg))))
      else tg)"

definition Topology_Record ::
  "topology_env \<Rightarrow> string list \<Rightarrow> Topology \<Rightarrow> Pod \<Rightarrow> Taint list \<Rightarrow> requirements \<Rightarrow> Topology" where
  "Topology_Record TE allow t p taints rs =
     t\<lparr>topologyGroups := map_groups (record_group TE allow p taints rs) (topologyGroups t),
       inverseTopologyGroups := map_groups (record_inverse TE p rs) (inverseTopologyGroups t)\<rparr>"

definition getMatchingTopologies ::
  "topology_env \<Rightarrow> string list \<Rightarrow> Topology \<Rightarrow> Pod \<Rightarrow> Taint list \<Rightarrow> requirements \<Rightarrow> TopologyGroup list" where
  "getMatchingTopologies TE allow t p taints rs =
     filter (\<lambda>tg. TopologyGroup_IsOwnedBy tg (podUID p)) (map snd (topologyGroups t)) @
     filter (\<lambda>tg. Counts (teLabels TE) (teTolerates TE) allow tg p taints rs) (map snd (inverseTopologyGroups t))"

definition Constrains :: "Topology \<Rightarrow> Pod \<Rightarrow> bool" where
  "Constrains t p =
     (if list_ex (\<lambda>(_, tg). TopologyGroup_IsOwnedBy tg (podUID p)) (topologyGroups t) then True
      else list_ex (\<lambda>(_, tg). selects tg p) (inverseTopologyGroups t))"

text \<open>The domains of a key that requirements admit: all of them where the key is absent.\<close>

definition key_domains :: "label_env \<Rightarrow> requirements \<Rightarrow> string \<Rightarrow> requirement option" where
  "key_domains E rs key =
     (if Requirements_Has rs key then Some (Requirements_Get E rs key) else NewRequirement E key OpExists [])"

definition group_domains ::
  "topology_env \<Rightarrow> Pod \<Rightarrow> requirements \<Rightarrow> requirements \<Rightarrow> TopologyGroup \<Rightarrow> (requirement \<times> string set) option" where
  "group_domains TE p podRequirements nodeRequirements tg =
     (case (key_domains (teLabels TE) podRequirements (tgKey tg), key_domains (teLabels TE) nodeRequirements (tgKey tg)) of
        (Some podDomains, Some nodeDomains) \<Rightarrow>
          TopologyGroup_Get (teLabels TE) (teUnsorted TE) tg p podDomains nodeDomains
      | _ \<Rightarrow> None)"

text \<open>The error is the group that leaves no domain.\<close>

fun add_topologies ::
  "topology_env \<Rightarrow> Pod \<Rightarrow> requirements \<Rightarrow> requirements \<Rightarrow> TopologyGroup list \<Rightarrow> requirements \<Rightarrow>
   (TopologyGroup, requirements) result" where
  "add_topologies TE p podRequirements nodeRequirements [] rs = Ok rs"
| "add_topologies TE p podRequirements nodeRequirements (tg # tgs) rs =
     (case group_domains TE p podRequirements nodeRequirements tg of
        None \<Rightarrow> Panic
      | Some (ds, _) \<Rightarrow>
          if Requirement_Len ds = 0 then Err tg
          else add_topologies TE p podRequirements nodeRequirements tgs (Requirements_Add (teLabels TE) rs [ds]))"

definition AddRequirements ::
  "topology_env \<Rightarrow> string list \<Rightarrow> Topology \<Rightarrow> Pod \<Rightarrow> Taint list \<Rightarrow> requirements \<Rightarrow> requirements \<Rightarrow>
   (TopologyGroup, requirements) result" where
  "AddRequirements TE allow t p taints podRequirements nodeRequirements =
     add_topologies TE p podRequirements nodeRequirements
       (getMatchingTopologies TE allow t p taints nodeRequirements)
       (NewRequirements (teLabels TE) (Requirements_Values nodeRequirements))"

text \<open>The zones every zonal constraint of a pod admits; None is a panic, the second result whether they
  can be met; no constraint is \<^verbatim>\<open>nil\<close>.\<close>

fun zone_constraints ::
  "topology_env \<Rightarrow> Pod \<Rightarrow> requirements \<Rightarrow> TopologyGroup list \<Rightarrow> string set option \<Rightarrow> (string set option \<times> bool) option" where
  "zone_constraints TE p podRequirements [] res = Some (res, True)"
| "zone_constraints TE p podRequirements (tg # tgs) res =
     (if \<not> TopologyGroup_IsOwnedBy tg (podUID p) \<or> tgKey tg \<noteq> LabelTopologyZone
      then zone_constraints TE p podRequirements tgs res
      else case group_domains TE p podRequirements [] tg of
             None \<Rightarrow> None
           | Some (_, valid) \<Rightarrow>
               if valid = {} then Some (None, False)
               else zone_constraints TE p podRequirements tgs
                      (Some (case res of None \<Rightarrow> valid | Some zs \<Rightarrow> zs \<inter> valid)))"

definition GetTopologyZoneConstraints ::
  "topology_env \<Rightarrow> Topology \<Rightarrow> Pod \<Rightarrow> requirements \<Rightarrow> (string set option \<times> bool) option" where
  "GetTopologyZoneConstraints TE t p podRequirements =
     zone_constraints TE p podRequirements (map snd (topologyGroups t)) None"

definition register_key :: "(TopologyGroup \<Rightarrow> TopologyGroup) \<Rightarrow> string \<Rightarrow> Topology \<Rightarrow> Topology" where
  "register_key f topologyKey t =
     (let g = (\<lambda>tg. if tgKey tg = topologyKey then f tg else tg) in
      t\<lparr>topologyGroups := map_groups g (topologyGroups t),
        inverseTopologyGroups := map_groups g (inverseTopologyGroups t)\<rparr>)"

definition Topology_Register :: "Topology \<Rightarrow> string \<Rightarrow> string \<Rightarrow> Topology" where
  "Topology_Register t topologyKey domain = register_key (\<lambda>tg. TopologyGroup_Register tg [domain]) topologyKey t"

definition Topology_Unregister :: "Topology \<Rightarrow> string \<Rightarrow> string \<Rightarrow> Topology" where
  "Topology_Unregister t topologyKey domain = register_key (\<lambda>tg. TopologyGroup_Unregister tg [domain]) topologyKey t"

section \<open>The scan reads each node as often as it needs\<close>

text \<open>The scan without the memory of the previous node: every pod's node is read.\<close>

fun direct_scan ::
  "topology_env \<Rightarrow> TopologyGroup \<Rightarrow> Pod list \<Rightarrow> (kube_error, (string \<times> string) list) result" where
  "direct_scan TE tg [] = Ok []"
| "direct_scan TE tg (p # ps) =
     (if IgnoredForTopology p then direct_scan TE tg ps
      else rbind (getTopologyNode (teClient TE) (podNodeName p)) (\<lambda>node.
        case node of
          None \<Rightarrow> direct_scan TE tg ps
        | Some node \<Rightarrow>
            (case NewLabelRequirements (teLabels TE) (nodeLabels node) of
               None \<Rightarrow> Panic
             | Some rs \<Rightarrow> rbind (direct_scan TE tg ps) (\<lambda>records. Ok (pod_record TE tg p node rs @ records)))))"

definition named_nodes :: "topology_client \<Rightarrow> bool" where
  "named_nodes c \<longleftrightarrow> (\<forall>name node. tcGetNode c name = Ok node \<longrightarrow> nodeName node = name)"

definition remembered :: "topology_env \<Rightarrow> (Node \<times> requirements) option \<Rightarrow> bool" where
  "remembered TE previous \<longleftrightarrow>
     (case previous of None \<Rightarrow> True
      | Some (node, rs) \<Rightarrow> getTopologyNode (teClient TE) (nodeName node) = Ok (Some node) \<and>
          NewLabelRequirements (teLabels TE) (nodeLabels node) = Some rs)"

lemma getTopologyNode_named:
  "named_nodes c \<Longrightarrow> getTopologyNode c name = Ok (Some node) \<Longrightarrow> nodeName node = name"
  by (auto simp: getTopologyNode_def named_nodes_def split: result.splits kube_error.splits)

lemma scan_loop_direct:
  assumes "named_nodes (teClient TE)"
  shows "remembered TE previous \<Longrightarrow> scan_loop TE tg previous ps = direct_scan TE tg ps"
proof (induction ps arbitrary: previous)
  case (Cons p ps)
  consider "IgnoredForTopology p"
    | node rs where "\<not> IgnoredForTopology p" "previous = Some (node, rs)" "nodeName node = podNodeName p"
    | "\<not> IgnoredForTopology p" "\<not> (case previous of None \<Rightarrow> False | Some (n, _) \<Rightarrow> nodeName n = podNodeName p)"
    by (cases previous) auto
  then show ?case
  proof cases
    case 1
    then show ?thesis using Cons by simp
  next
    case 2
    then have "getTopologyNode (teClient TE) (podNodeName p) = Ok (Some node)"
      "NewLabelRequirements (teLabels TE) (nodeLabels node) = Some rs"
      using Cons.prems by (simp_all add: remembered_def)
    then show ?thesis using 2 Cons.IH[OF Cons.prems] by simp
  next
    case 3
    show ?thesis
    proof (cases "getTopologyNode (teClient TE) (podNodeName p)")
      case (Ok found)
      show ?thesis
      proof (cases found)
        case None
        then show ?thesis using 3 Ok Cons by simp
      next
        case (Some node)
        have name: "nodeName node = podNodeName p" using getTopologyNode_named[OF assms] Ok Some by blast
        show ?thesis
        proof (cases "NewLabelRequirements (teLabels TE) (nodeLabels node)")
          case (Some rs)
          then have "remembered TE (Some (node, rs))" using Ok \<open>found = Some node\<close> name by (simp add: remembered_def)
          then show ?thesis using 3 Ok Some \<open>found = Some node\<close> Cons.IH by simp
        qed (use 3 Ok \<open>found = Some node\<close> in simp)
      qed
    qed (use 3 in simp_all)
  qed
qed simp

text \<open>
  The scan that reuses the node of the previous pod returns the same records, or the same error,
  as reading the node of every pod, provided the API server returns a node under the name it was
  asked for.
\<close>

theorem scanTopologyPodDomains_exact:
  assumes "named_nodes (teClient TE)"
  shows "scanTopologyPodDomains TE tg =
    rbind (list_namespaces (teClient TE) (TopologyListOptions (teNewRequirement TE) (rawSelector tg))
             (sorted_list_of_set (namespaces tg)))
      (\<lambda>pods. direct_scan TE tg (teSortPods TE pods))"
  unfolding scanTopologyPodDomains_def
  by (simp add: scan_loop_direct[OF assms] remembered_def)

definition one_node_client :: topology_client where
  "one_node_client = \<lparr>tcListPods = (\<lambda>ns sel. Ok [(bare_pod ''p'')\<lparr>podNodeName := ''n''\<rparr>, (bare_pod ''q'')\<lparr>podNodeName := ''n''\<rparr>]),
     tcGetNode = (\<lambda>name. if name = ''n'' then Ok \<lparr>nodeName = ''n'', nodeLabels = [(''zone'', ''a'')], nodeTaints = []\<rparr> else Err NotFound),
     tcListNamespaces = (\<lambda>sel. Ok [])\<rparr>"

definition small_env :: topology_env where
  "small_env = \<lparr>teLabels = core_labels, teTolerates = (\<lambda>_ _. False), teSelector = (\<lambda>_. Some (\<lambda>_. True)),
     teNewRequirement = (\<lambda>_ _ _. None), teUnsorted = sorted_list_of_set, teHash = (\<lambda>_. 0),
     teSortPods = insertion_sort scan_order, teClient = one_node_client\<rparr>"

lemma zero_filter_matches [simp]: "TopologyNodeFilter_Matches E tol allow zero_filter taints rs"
  by (simp add: TopologyNodeFilter_Matches_def zero_filter_def)

theorem scanTopologyPodDomains_exact_witness:
  "scanTopologyPodDomains small_env (zone_group TopologyTypePodAffinity) = Ok [(''p'', ''a''), (''q'', ''a'')]"
proof -
  have named: "named_nodes (teClient small_env)"
    by (auto simp: named_nodes_def small_env_def one_node_client_def split: if_splits)
  have "\<exists>rs. NewLabelRequirements core_labels [(''zone'', ''a'')] = Some rs"
    using NewLabelRequirements_sound[OF wf_core_labels] by (force simp: core_labels_def)
  then show ?thesis
    unfolding scanTopologyPodDomains_exact[OF named]
    by (auto simp: small_env_def one_node_client_def zone_group_def insertion_sort_def scan_order_def bare_pod_def
        IgnoredForTopology_def IsScheduled_def IsTerminal_def IsTerminating_def getTopologyNode_def pod_record_def pod_domain_def)
qed

end
