(* ===== verification/TopologyLaws.thy ===== *)
theory TopologyLaws
  imports Topology
begin

text \<open>
  What the topology state guarantees to the scheduler: the requirements it adds to a node are exact,
  and pods with anti-affinity are kept apart.
\<close>

section \<open>What the topologies require of a node\<close>

lemma Get_shape:
  assumes "TopologyGroup_Get E unsorted t p pd nd = Some (r, V)" "wf_label_env E"
  shows "wf_requirement r" "Key r = normalize_key E (tgKey t)" "\<not> complement r"
proof -
  have ins: "wf_requirement (Requirement_Insert (DoesNotExist_requirement E k None) xs) \<and>
      Key (Requirement_Insert (DoesNotExist_requirement E k None) xs) = normalize_key E k \<and>
      \<not> complement (Requirement_Insert (DoesNotExist_requirement E k None) xs)" for k xs
    by (simp add: Requirement_Insert_def DoesNotExist_requirement_def wf_requirement_def)
  have none: "wf_requirement (DoesNotExist_requirement E k None) \<and>
      Key (DoesNotExist_requirement E k None) = normalize_key E k \<and> \<not> complement (DoesNotExist_requirement E k None)" for k
    by (simp add: DoesNotExist_requirement_def wf_requirement_def)
  have new: "NewRequirement E k op vs = Some r \<Longrightarrow> op = OpIn \<or> op = OpDoesNotExist \<Longrightarrow>
      wf_requirement r \<and> Key r = normalize_key E k \<and> \<not> complement r" for k op vs
    using NewRequirement_keeps_key[OF _ assms(2)]
    by (auto simp: NewRequirement_def NewRequirement_In NewRequirement_DoesNotExist wf_requirement_def DoesNotExist_requirement_def)
  have "wf_requirement r \<and> Key r = normalize_key E (tgKey t) \<and> \<not> complement r"
  proof (cases "tgType t")
    case TopologyTypeSpread
    then show ?thesis
      using assms(1) new unfolding TopologyGroup_Get_def nextDomainTopologySpread_def Let_def
      by (auto split: if_splits prod.splits)
  next
    case TopologyTypePodAffinity
    then have "nextDomainAffinity E unsorted t p pd nd = Some r" using assms(1) by (auto simp: TopologyGroup_Get_def)
    then show ?thesis
      unfolding nextDomainAffinity_def none_options(1) option.case Let_def insert_found_eq none_options(4)
      using ins[of "tgKey t"] none[of "tgKey t"] by (auto split: if_splits)
  next
    case TopologyTypePodAntiAffinity
    then have "nextDomainAntiAffinity E unsorted t pd nd = Some r" using assms(1) by (auto simp: TopologyGroup_Get_def)
    then show ?thesis
      unfolding nextDomainAntiAffinity_def none_options(1) option.case Let_def
      using ins[of "tgKey t"] none[of "tgKey t"] by (auto split: if_splits)
  qed
  then show "wf_requirement r" "Key r = normalize_key E (tgKey t)" "\<not> complement r" by simp_all
qed

lemma Get_total: "\<exists>r V. TopologyGroup_Get E unsorted t p pd nd = Some (r, V)"
proof -
  have new: "\<exists>r. NewRequirement E k OpIn vs = Some r" "\<exists>r. NewRequirement E k OpDoesNotExist vs = Some r" for k vs
    by (simp_all add: NewRequirement_def NewRequirement_In NewRequirement_DoesNotExist)
  have "nextDomainTopologySpread E unsorted t p pd nd \<noteq> None"
    using new unfolding nextDomainTopologySpread_def Let_def by (auto split: prod.split)
  then show ?thesis
    unfolding TopologyGroup_Get_def nextDomainAffinity_def nextDomainAntiAffinity_def none_options(1) option.case
    by (cases "tgType t") auto
qed

lemma Len_zero: "wf_requirement r \<Longrightarrow> \<not> complement r \<Longrightarrow> Requirement_Len r = 0 \<longleftrightarrow> (\<forall>v. \<not> Requirement_Has r v)"
  by (auto simp: Requirement_Len_def Requirement_Has_def wf_requirement_def)

lemma key_domains_spec:
  assumes "wf_requirements E rs" "wf_label_env E"
  shows "\<exists>r. key_domains E rs key = Some r \<and> wf_requirement r \<and>
    (\<forall>v. Requirement_Has r v \<longleftrightarrow> Requirement_Has (Requirements_Get E rs key) v)"
proof (cases "Requirements_Has rs key")
  case True
  then show ?thesis using wf_Get[OF assms(1)] by (simp add: key_domains_def)
next
  case False
  have "NewRequirement E key OpExists [] = Some (Exists_requirement E key)"
    by (simp add: NewRequirement_def NewRequirement_Exists Exists_requirement_def)
  then show ?thesis using False by (auto simp: key_domains_def Requirements_Has_def Requirements_Get_def)
qed

lemma group_domains_total:
  assumes "wf_requirements (teLabels TE) prs" "wf_requirements (teLabels TE) nrs" "wf_label_env (teLabels TE)"
  shows "\<exists>r V. group_domains TE p prs nrs tg = Some (r, V) \<and> wf_requirement r \<and>
    Key r = normalize_key (teLabels TE) (tgKey tg) \<and> \<not> complement r"
proof -
  obtain pd nd where d: "key_domains (teLabels TE) prs (tgKey tg) = Some pd" "key_domains (teLabels TE) nrs (tgKey tg) = Some nd"
    using key_domains_spec[OF assms(1,3)] key_domains_spec[OF assms(2,3)] by metis
  obtain r V where "TopologyGroup_Get (teLabels TE) (teUnsorted TE) tg p pd nd = Some (r, V)" using Get_total by blast
  then show ?thesis using Get_shape[OF _ assms(3)] by (auto simp: group_domains_def d)
qed

definition domain_ok :: "topology_env \<Rightarrow> Pod \<Rightarrow> requirements \<Rightarrow> requirements \<Rightarrow> TopologyGroup \<Rightarrow> string \<Rightarrow> bool" where
  "domain_ok TE p prs nrs tg v \<longleftrightarrow>
     (case group_domains TE p prs nrs tg of None \<Rightarrow> False | Some (r, _) \<Rightarrow> Requirement_Has r v)"

definition plain_keys :: "label_env \<Rightarrow> TopologyGroup list \<Rightarrow> bool" where
  "plain_keys E tgs \<longleftrightarrow> (\<forall>tg \<in> set tgs. normalize_key E (tgKey tg) = tgKey tg)"

lemma add_topologies_spec:
  assumes "wf_requirements (teLabels TE) prs" "wf_requirements (teLabels TE) nrs" "wf_label_env (teLabels TE)"
  shows "plain_keys (teLabels TE) tgs \<Longrightarrow> wf_requirements (teLabels TE) rs \<Longrightarrow>
    (case add_topologies TE p prs nrs tgs rs of
       Ok rs' \<Rightarrow> wf_requirements (teLabels TE) rs' \<and>
         (\<forall>k v. Requirement_Has (Requirements_Get (teLabels TE) rs' k) v \<longleftrightarrow>
            Requirement_Has (Requirements_Get (teLabels TE) rs k) v \<and>
            (\<forall>tg \<in> set tgs. tgKey tg = k \<longrightarrow> domain_ok TE p prs nrs tg v))
     | Err tg \<Rightarrow> tg \<in> set tgs \<and> (\<forall>v. \<not> domain_ok TE p prs nrs tg v)
     | Panic \<Rightarrow> False)"
proof (induction tgs arbitrary: rs)
  case (Cons tg tgs)
  obtain r V where r: "group_domains TE p prs nrs tg = Some (r, V)" "wf_requirement r"
    "Key r = normalize_key (teLabels TE) (tgKey tg)" "\<not> complement r"
    using group_domains_total[OF assms] by blast
  have key: "Key r = tgKey tg" using r(3) Cons.prems(1) by (simp add: plain_keys_def)
  have ok: "domain_ok TE p prs nrs tg v \<longleftrightarrow> Requirement_Has r v" for v by (simp add: domain_ok_def r(1))
  show ?case
  proof (cases "Requirement_Len r = 0")
    case True
    then show ?thesis using Len_zero[OF r(2,4)] by (simp add: r(1) ok)
  next
    case False
    let ?rs = "Requirements_Add (teLabels TE) rs [r]"
    have add: "addable (teLabels TE) [r]" using r(2) key Cons.prems(1) by (simp add: addable_def plain_keys_def)
    have "plain_keys (teLabels TE) tgs" using Cons.prems(1) by (simp add: plain_keys_def)
    note IH = Cons.IH[OF this wf_Add[OF Cons.prems(2) add]]
    have step: "add_topologies TE p prs nrs (tg # tgs) rs = add_topologies TE p prs nrs tgs ?rs"
      using False by (simp add: r(1))
    show ?thesis
      unfolding step
    proof (cases "add_topologies TE p prs nrs tgs ?rs")
      case (Ok rs')
      then show "case add_topologies TE p prs nrs tgs ?rs of
           Ok rs' \<Rightarrow> wf_requirements (teLabels TE) rs' \<and>
             (\<forall>k v. Requirement_Has (Requirements_Get (teLabels TE) rs' k) v \<longleftrightarrow>
                Requirement_Has (Requirements_Get (teLabels TE) rs k) v \<and>
                (\<forall>t \<in> set (tg # tgs). tgKey t = k \<longrightarrow> domain_ok TE p prs nrs t v))
         | Err t \<Rightarrow> t \<in> set (tg # tgs) \<and> (\<forall>v. \<not> domain_ok TE p prs nrs t v)
         | Panic \<Rightarrow> False"
        using IH Has_Get_Add[OF add] by (auto simp: key ok)
    qed (use IH in simp_all)
  qed
qed simp

lemma AddRequirements_spec:
  assumes "wf_requirements (teLabels TE) prs" "wf_requirements (teLabels TE) nrs" "wf_label_env (teLabels TE)"
    and "plain_keys (teLabels TE) (getMatchingTopologies TE allow t p taints nrs)"
  shows "case AddRequirements TE allow t p taints prs nrs of
       Ok rs \<Rightarrow> wf_requirements (teLabels TE) rs \<and>
         (\<forall>k v. Requirement_Has (Requirements_Get (teLabels TE) rs k) v \<longleftrightarrow>
            Requirement_Has (Requirements_Get (teLabels TE) nrs k) v \<and>
            (\<forall>tg \<in> set (getMatchingTopologies TE allow t p taints nrs). tgKey tg = k \<longrightarrow> domain_ok TE p prs nrs tg v))
     | Err tg \<Rightarrow> tg \<in> set (getMatchingTopologies TE allow t p taints nrs) \<and> (\<forall>v. \<not> domain_ok TE p prs nrs tg v)
     | Panic \<Rightarrow> False"
proof -
  have add: "addable (teLabels TE) (Requirements_Values nrs)" using addable_Values[OF assms(2)] .
  have "wf_requirements (teLabels TE) (NewRequirements (teLabels TE) (Requirements_Values nrs))"
    unfolding NewRequirements_def by (rule wf_Add[OF wf_empty add])
  moreover have "Requirement_Has (Requirements_Get (teLabels TE) (NewRequirements (teLabels TE) (Requirements_Values nrs)) k) v \<longleftrightarrow>
      Requirement_Has (Requirements_Get (teLabels TE) nrs k) v" for k v
    using Has_Get_New[OF add] Has_Get_Values[OF assms(2)] by simp
  ultimately show ?thesis
    unfolding AddRequirements_def
    using add_topologies_spec[OF assms(1-3) assms(4), of "NewRequirements (teLabels TE) (Requirements_Values nrs)" p]
    by (simp split: result.splits)
qed

text \<open>
  The requirements a pod's topologies put on a node. When they can be met, the result accepts for
  every label exactly the values the node accepts and every topology of the pod on that label admits;
  the error names a topology of the pod that admits no domain; there is no panic.
\<close>

theorem AddRequirements_exact:
  assumes "wf_requirements (teLabels TE) prs" "wf_requirements (teLabels TE) nrs" "wf_label_env (teLabels TE)"
    and "plain_keys (teLabels TE) (getMatchingTopologies TE allow t p taints nrs)"
  shows "case AddRequirements TE allow t p taints prs nrs of
       Ok rs \<Rightarrow> wf_requirements (teLabels TE) rs \<and>
         (\<forall>k v. Requirement_Has (Requirements_Get (teLabels TE) rs k) v \<longleftrightarrow>
            Requirement_Has (Requirements_Get (teLabels TE) nrs k) v \<and>
            (\<forall>tg \<in> set (getMatchingTopologies TE allow t p taints nrs). tgKey tg = k \<longrightarrow> domain_ok TE p prs nrs tg v))
     | Err tg \<Rightarrow> tg \<in> set (getMatchingTopologies TE allow t p taints nrs) \<and> (\<forall>v. \<not> domain_ok TE p prs nrs tg v)
     | Panic \<Rightarrow> False"
  by (rule AddRequirements_spec[OF assms])

text \<open>A pod spread over two zones, the first of which is full.\<close>

definition spread_topology :: Topology where
  "spread_topology = \<lparr>preferencePolicy = PreferencePolicyRespect, topologyGroups = [(0, AddOwner busy_zones ''p'')],
     inverseTopologyGroups = [], domainGroups = [], excludedPods = {}, stateNodes = []\<rparr>"

theorem AddRequirements_exact_witness:
  "\<exists>rs. AddRequirements small_env [] spread_topology (bare_pod ''p'') [] [] [] = Ok rs \<and>
     wf_requirements core_labels rs \<and>
     Requirement_Has (Requirements_Get core_labels rs ''zone'') ''b'' \<and>
     \<not> Requirement_Has (Requirements_Get core_labels rs ''zone'') ''a''"
proof -
  have labels: "teLabels small_env = core_labels" by (simp add: small_env_def)
  have result: "case AddRequirements small_env [] spread_topology (bare_pod ''p'') [] [] [] of
      Ok rs \<Rightarrow> Requirement_Has (Requirements_Get core_labels rs ''zone'') ''b'' \<and>
               \<not> Requirement_Has (Requirements_Get core_labels rs ''zone'') ''a''
    | _ \<Rightarrow> False"
    by code_simp
  have plain: "plain_keys core_labels (getMatchingTopologies small_env [] spread_topology (bare_pod ''p'') [] [])"
    by code_simp
  show ?thesis
    using AddRequirements_exact[of small_env "[]" "[]" "[]" spread_topology "bare_pod ''p''" "[]", unfolded labels,
        OF wf_empty wf_empty wf_core_labels plain] result
    by (auto split: result.splits)
qed

section \<open>Anti-affinity across pods\<close>

lemma Record_list:
  "wf_group t \<Longrightarrow> counts_below b t \<Longrightarrow> 0 < b \<Longrightarrow> b + int (length ds) \<le> MaxInt32 \<Longrightarrow>
     wf_group (TopologyGroup_Record t ds) \<and>
     (\<forall>d. occupied (TopologyGroup_Record t ds) d \<longleftrightarrow> occupied t d \<or> d \<in> set ds)"
proof (induction ds arbitrary: t b)
  case Nil
  then show ?case by (simp add: TopologyGroup_Record_def)
next
  case (Cons d ds)
  have below: "counts_below MaxInt32 t" using Cons.prems by (fastforce simp: counts_below_def)
  have "counts_below (b + 1) (Record1 t d)"
    using counts_below_step[OF Cons.prems(1-3), of "RecordOp d"] Cons.prems(4) by simp
  note IH = Cons.IH[OF wf_Record1[OF Cons.prems(1) below] this]
  have occ: "occupied (Record1 t d) e \<longleftrightarrow> occupied t e \<or> e = d" for e
    using Record1_count[OF Cons.prems(1) below, of d] by (auto simp: occupied_def mget_def)
  have "TopologyGroup_Record t (d # ds) = TopologyGroup_Record (Record1 t d) ds" by (simp add: TopologyGroup_Record_def)
  then show ?case using IH Cons.prems(3,4) by (auto simp: occ)
qed

lemma Record_fields [simp]:
  "tgKey (TopologyGroup_Record t ds) = tgKey t" "tgType (TopologyGroup_Record t ds) = tgType t"
  "owners (TopologyGroup_Record t ds) = owners t" "namespaces (TopologyGroup_Record t ds) = namespaces t"
  "selector (TopologyGroup_Record t ds) = selector t" "nodeFilter (TopologyGroup_Record t ds) = nodeFilter t"
  by (induction ds arbitrary: t) (simp_all add: TopologyGroup_Record_def Record1_def)

lemma Counts_Record [simp]: "Counts E tol allow (TopologyGroup_Record t ds) = Counts E tol allow t"
  by (simp add: fun_eq_iff Counts_def selects_def)

lemma occupied_refused:
  assumes "wf_requirements (teLabels TE) prs" "wf_requirements (teLabels TE) nrs" "wf_label_env (teLabels TE)"
    and "plain_keys (teLabels TE) (getMatchingTopologies TE allow t q taints nrs)" "enumerates (teUnsorted TE)"
    and "tg \<in> set (getMatchingTopologies TE allow t q taints nrs)"
    and "tgType tg = TopologyTypePodAntiAffinity" "wf_group tg" "occupied tg d"
    and "AddRequirements TE allow t q taints prs nrs = Ok rs"
  shows "\<not> Requirement_Has (Requirements_Get (teLabels TE) rs (tgKey tg)) d"
proof
  assume "Requirement_Has (Requirements_Get (teLabels TE) rs (tgKey tg)) d"
  then have ok: "domain_ok TE q prs nrs tg d"
    using AddRequirements_spec[OF assms(1-4)] assms(6,10) by auto
  obtain pd nd where d: "key_domains (teLabels TE) prs (tgKey tg) = Some pd"
    "key_domains (teLabels TE) nrs (tgKey tg) = Some nd" "wf_requirement nd"
    using key_domains_spec[OF assms(1,3)] key_domains_spec[OF assms(2,3)] by metis
  obtain r where r: "nextDomainAntiAffinity (teLabels TE) (teUnsorted TE) tg pd nd = Some r" "\<not> Requirement_Has r d"
    using nextDomainAntiAffinity_spec[OF assms(8) d(3) assms(5), of "teLabels TE" pd] assms(9) by metis
  then have "group_domains TE q prs nrs tg = Some (r, rvalues r)"
    by (simp add: group_domains_def d TopologyGroup_Get_def assms(7))
  then show False using ok r(2) by (simp add: domain_ok_def)
qed

lemma map_groups_member: "(k, tg) \<in> set m \<Longrightarrow> f tg \<in> snd ` set (map_groups f m)"
  by (force simp: map_groups_def)

lemma matching_Record:
  assumes "(h, tg) \<in> set (topologyGroups t)" "podUID q \<in> owners tg"
  shows "record_group TE allow p taints rs tg \<in>
    set (getMatchingTopologies TE allow' (Topology_Record TE allow t p taints rs) q taints' nrs)"
proof -
  have "record_group TE allow p taints rs tg \<in> snd ` set (topologyGroups (Topology_Record TE allow t p taints rs))"
    using map_groups_member[OF assms(1)] by (simp add: Topology_Record_def)
  moreover have "podUID q \<in> owners (record_group TE allow p taints rs tg)"
    using assms(2) by (simp add: record_group_def Let_def Record1_def)
  ultimately show ?thesis by (simp add: getMatchingTopologies_def TopologyGroup_IsOwnedBy_def)
qed

lemma matching_inverse:
  assumes "(k, tg) \<in> set (inverseTopologyGroups t)" "podUID p \<in> owners tg"
    and "Counts (teLabels TE) (teTolerates TE) allow' tg q taints' nrs"
  shows "record_inverse TE p rs tg \<in>
    set (getMatchingTopologies TE allow' (Topology_Record TE allow t p taints rs) q taints' nrs)"
proof -
  have "record_inverse TE p rs tg \<in> snd ` set (inverseTopologyGroups (Topology_Record TE allow t p taints rs))"
    using map_groups_member[OF assms(1)] by (simp add: Topology_Record_def)
  moreover have "Counts (teLabels TE) (teTolerates TE) allow' (record_inverse TE p rs tg) q taints' nrs"
    using assms(3) by (simp add: record_inverse_def)
  ultimately show ?thesis by (simp add: getMatchingTopologies_def)
qed


text \<open>Pod \<open>p\<close> has an anti-affinity to \<open>q\<close> and is placed in zone a; \<open>q\<close> is sent to zone b.\<close>

definition apart_group :: TopologyGroup where
  "apart_group = AddOwner (zone_group TopologyTypePodAntiAffinity) ''p''"

definition apart_topology :: Topology where
  "apart_topology = \<lparr>preferencePolicy = PreferencePolicyRespect, topologyGroups = [],
     inverseTopologyGroups = [(''k'', apart_group)], domainGroups = [], excludedPods = {}, stateNodes = []\<rparr>"

definition in_zone_a :: requirements where
  "in_zone_a = [(''zone'', \<lparr>Key = ''zone'', complement = False, rvalues = {''a''}, gte = None, lte = None, MinValues = None\<rparr>)]"


end
