(* ===== verification/GroupKeys.thy ===== *)
theory GroupKeys
  imports Topology
begin

text \<open>
  The key under which an anti-affinity term is filed
  (\<^verbatim>\<open>pkg/controllers/provisioning/scheduling/inverseaffinitycache.go\<close>): terms share a key exactly when
  topology key, namespaces and selector are the same.
\<close>

section \<open>Joining strings\<close>

lemma split_at_sep: "sep \<notin> set a \<Longrightarrow> sep \<notin> set c \<Longrightarrow> a @ sep # b = c @ sep # d \<longleftrightarrow> a = c \<and> b = d"
proof (induction a arbitrary: c)
  case Nil
  then show ?case by (cases c) auto
next
  case (Cons x a)
  then show ?case by (cases c) auto
qed

lemma sep_in_Join: "sep \<in> set (strings_Join sep (x # y # ys))"
  by simp

lemma Join_inj:
  "xs \<noteq> [] \<Longrightarrow> ys \<noteq> [] \<Longrightarrow> \<forall>x \<in> set xs \<union> set ys. sep \<notin> set x \<Longrightarrow>
     strings_Join sep xs = strings_Join sep ys \<Longrightarrow> xs = ys"
proof (induction sep xs arbitrary: ys rule: strings_Join.induct)
  case (2 sep x)
  then show ?case by (cases ys; cases "tl ys") auto
next
  case (3 sep x x' xs)
  then obtain y y' ys' where ys: "ys = y # y' # ys'"
    using sep_in_Join[of sep x x' xs] by (cases ys; cases "tl ys") auto
  then have "x = y" "strings_Join sep (x' # xs) = strings_Join sep (y' # ys')"
    using 3(3,4,5) split_at_sep[of sep x y] by auto
  then show ?case using 3(1)[of "y' # ys'"] 3(4) ys by auto
qed simp

lemma set_Join: "set (strings_Join sep xs) \<subseteq> insert sep (\<Union> (set ` set xs))"
  by (induction sep xs rule: strings_Join.induct) auto

lemma Join_Nil: "\<forall>x \<in> set xs. x \<noteq> [] \<Longrightarrow> strings_Join sep xs = [] \<longleftrightarrow> xs = []"
  by (cases xs; cases "tl xs") auto

lemma Join_inj_nonempty:
  assumes "\<forall>x \<in> set xs \<union> set ys. sep \<notin> set x \<and> x \<noteq> []" "strings_Join sep xs = strings_Join sep ys"
  shows "xs = ys"
  using assms Join_inj[of xs ys sep] Join_Nil[of xs sep] Join_Nil[of ys sep] by (cases "xs = []"; cases "ys = []") auto

section \<open>Selectors and keys\<close>

text \<open>Text without the separators, as every name, label and operator of the API is.\<close>

definition clean :: "string \<Rightarrow> bool" where
  "clean s \<longleftrightarrow> CHR 0x00 \<notin> set s \<and> CHR 0x01 \<notin> set s \<and> CHR 0x02 \<notin> set s"

definition wf_expression :: "NodeSelectorRequirement \<Rightarrow> bool" where
  "wf_expression e \<longleftrightarrow> clean (nsKey e) \<and> (\<forall>v \<in> set (nsValues e). clean v) \<and>
     nsOperator e \<in> {OpIn, OpNotIn, OpExists, OpDoesNotExist}"

definition wf_selector :: "LabelSelector \<Rightarrow> bool" where
  "wf_selector s \<longleftrightarrow> wf_map (matchLabels s) \<and>
     (\<forall>(k, v) \<in> set (matchLabels s). clean k \<and> CHR ''='' \<notin> set k \<and> clean v) \<and>
     (\<forall>e \<in> set (matchExpressions s). wf_expression e)"

text \<open>What an expression says, whatever the order of its values.\<close>

definition expression_content :: "NodeSelectorRequirement \<Rightarrow> string \<times> operator \<times> string list" where
  "expression_content e = (nsKey e, nsOperator e, sort (nsValues e))"

definition same_selector :: "LabelSelector option \<Rightarrow> LabelSelector option \<Rightarrow> bool" where
  "same_selector a b \<longleftrightarrow>
     (case (a, b) of
        (None, None) \<Rightarrow> True
      | (Some s, Some u) \<Rightarrow> set (matchLabels s) = set (matchLabels u) \<and>
          expression_content ` set (matchExpressions s) = expression_content ` set (matchExpressions u)
      | _ \<Rightarrow> False)"

definition expression_text :: "NodeSelectorRequirement \<Rightarrow> string" where
  "expression_text e = strings_Join (CHR 0x02) ([nsKey e, operator_text (nsOperator e)] @ sort (nsValues e))"

lemma expression_texts_eq: "expression_texts s = expression_text ` set (matchExpressions s)"
  by (simp add: expression_texts_def expression_text_def)

lemma clean_operator: "wf_expression e \<Longrightarrow> clean (operator_text (nsOperator e))"
  by (auto simp: wf_expression_def clean_def operator_text_def)

lemma expression_text_eq:
  assumes "wf_expression e" "wf_expression f"
  shows "expression_text e = expression_text f \<longleftrightarrow> expression_content e = expression_content f"
proof
  let ?xs = "\<lambda>e. [nsKey e, operator_text (nsOperator e)] @ sort (nsValues e)"
  have cl: "\<forall>x \<in> set (?xs e). CHR 0x02 \<notin> set x" if "wf_expression e" for e
    using that clean_operator[OF that] by (auto simp: wf_expression_def clean_def)
  assume "expression_text e = expression_text f"
  then have eq: "?xs e = ?xs f"
    unfolding expression_text_def using cl[OF assms(1)] cl[OF assms(2)] by (intro Join_inj) auto
  have op: "operator_text a = operator_text b \<Longrightarrow> a = b"
    if "a \<in> {OpIn, OpNotIn, OpExists, OpDoesNotExist}" "b \<in> {OpIn, OpNotIn, OpExists, OpDoesNotExist}" for a b
    using that by (auto simp: operator_text_def)
  have "nsKey e = nsKey f" "operator_text (nsOperator e) = operator_text (nsOperator f)" "sort (nsValues e) = sort (nsValues f)"
    using eq by simp_all
  moreover have "nsOperator e = nsOperator f"
    by (rule op) (use assms calculation in \<open>simp_all add: wf_expression_def\<close>)
  ultimately show "expression_content e = expression_content f" by (simp add: expression_content_def)
qed (simp add: expression_text_def expression_content_def)

definition pair_text :: "string \<times> string \<Rightarrow> string" where
  "pair_text = (\<lambda>(k, v). k @ ''='' @ v)"

lemma pair_text_inj: "wf_selector s \<Longrightarrow> wf_selector u \<Longrightarrow> inj_on pair_text (set (matchLabels s) \<union> set (matchLabels u))"
proof (intro inj_onI)
  fix x y
  assume wf: "wf_selector s" "wf_selector u"
    and x: "x \<in> set (matchLabels s) \<union> set (matchLabels u)" and y: "y \<in> set (matchLabels s) \<union> set (matchLabels u)"
    and eq: "pair_text x = pair_text y"
  have key: "CHR ''='' \<notin> set (fst z)" if "z \<in> set (matchLabels s) \<union> set (matchLabels u)" for z
    using that wf by (auto simp: wf_selector_def)
  show "x = y"
    using eq split_at_sep[OF key[OF x] key[OF y], of "snd x" "snd y"]
    by (cases x; cases y) (auto simp: pair_text_def)
qed

lemma label_pairs_eq: "label_pairs s = sort (map pair_text (matchLabels s))"
  by (simp add: label_pairs_def pair_text_def)

lemma label_pairs_iff:
  assumes "wf_selector s" "wf_selector u"
  shows "label_pairs s = label_pairs u \<longleftrightarrow> set (matchLabels s) = set (matchLabels u)"
proof
  assume "label_pairs s = label_pairs u"
  then have "set (label_pairs s) = set (label_pairs u)" by simp
  then have "pair_text ` set (matchLabels s) = pair_text ` set (matchLabels u)"
    by (simp add: label_pairs_eq)
  then show "set (matchLabels s) = set (matchLabels u)"
    using inj_on_Un_image_eq_iff[OF pair_text_inj[OF assms]] by blast
next
  assume eq: "set (matchLabels s) = set (matchLabels u)"
  have "distinct (map pair_text (matchLabels v))" if "wf_selector v" for v
    using that pair_text_inj[OF that that] by (auto simp: distinct_map wf_selector_def)
  then have "mset (map pair_text (matchLabels s)) = mset (map pair_text (matchLabels u))"
    using assms eq by (metis set_eq_iff_mset_eq_distinct set_map)
  then show "label_pairs s = label_pairs u"
    unfolding label_pairs_eq by (metis mset_sort sorted_sort properties_for_sort)
qed

lemma pair_clean:
  assumes "wf_selector s" "x \<in> set (label_pairs s)"
  shows "clean x" "x \<noteq> []"
  using assms by (auto simp: label_pairs_eq pair_text_def wf_selector_def clean_def)

lemma text_clean:
  assumes "wf_selector s" "x \<in> expression_texts s"
  shows "CHR 0x00 \<notin> set x" "CHR 0x01 \<notin> set x" "x \<noteq> []"
proof -
  obtain e where e: "e \<in> set (matchExpressions s)" "x = expression_text e" using assms(2) by (auto simp: expression_texts_eq)
  then have wf: "wf_expression e" using assms(1) by (simp add: wf_selector_def)
  let ?xs = "[nsKey e, operator_text (nsOperator e)] @ sort (nsValues e)"
  have "\<forall>y \<in> set ?xs. clean y" using wf clean_operator[OF wf] by (auto simp: wf_expression_def)
  then have "CHR 0x00 \<notin> \<Union> (set ` set ?xs)" "CHR 0x01 \<notin> \<Union> (set ` set ?xs)" by (auto simp: clean_def)
  then show "CHR 0x00 \<notin> set x" "CHR 0x01 \<notin> set x"
    using set_Join[of "CHR 0x02" ?xs] unfolding e(2) expression_text_def by auto
  show "x \<noteq> []" by (simp add: e(2) expression_text_def)
qed

lemma finite_texts [simp]: "finite (expression_texts s)"
  by (simp add: expression_texts_def)

lemma texts_iff:
  assumes "wf_selector s" "wf_selector u"
  shows "expression_texts s = expression_texts u \<longleftrightarrow>
    expression_content ` set (matchExpressions s) = expression_content ` set (matchExpressions u)"
proof -
  have wf: "e \<in> set (matchExpressions s) \<union> set (matchExpressions u) \<Longrightarrow> wf_expression e" for e
    using assms by (auto simp: wf_selector_def)
  have "expression_text ` A \<subseteq> expression_text ` B \<longleftrightarrow> expression_content ` A \<subseteq> expression_content ` B"
    if "A \<subseteq> set (matchExpressions s) \<union> set (matchExpressions u)" "B \<subseteq> set (matchExpressions s) \<union> set (matchExpressions u)" for A B
    using that expression_text_eq[OF wf wf] by (fastforce simp: image_subset_iff image_iff)
  then show ?thesis unfolding expression_texts_eq by (metis Un_upper1 Un_upper2 subset_antisym set_eq_subset)
qed

lemma canonicalLabelSelector_iff:
  assumes "\<forall>s. a = Some s \<or> b = Some s \<longrightarrow> wf_selector s"
  shows "canonicalLabelSelector a = canonicalLabelSelector b \<longleftrightarrow> same_selector a b"
proof -
  have sep: "CHR 0x00 \<in> set (canonicalLabelSelector (Some s))" for s by (simp add: canonicalLabelSelector_def)
  have nil: "CHR 0x00 \<notin> set (canonicalLabelSelector None)" by (simp add: canonicalLabelSelector_def)
  show ?thesis
  proof (cases "a = None \<or> b = None")
    case True
    then show ?thesis using sep nil by (cases a; cases b) (auto simp: same_selector_def, metis+)
  next
    case False
    then obtain s u where su: "a = Some s" "b = Some u" by auto
    then have wf: "wf_selector s" "wf_selector u" using assms by auto
    let ?L = "\<lambda>s. strings_Join (CHR 0x01) (label_pairs s)"
    let ?T = "\<lambda>s. strings_Join (CHR 0x01) (sorted_list_of_set (expression_texts s))"
    have no0: "CHR 0x00 \<notin> set (?L s)" if "wf_selector s" for s
      using set_Join[of "CHR 0x01" "label_pairs s"] pair_clean[OF that] by (fastforce simp: clean_def)
    have "canonicalLabelSelector a = canonicalLabelSelector b \<longleftrightarrow> ?L s = ?L u \<and> ?T s = ?T u"
      using split_at_sep[OF no0[OF wf(1)] no0[OF wf(2)]] by (simp add: canonicalLabelSelector_def su)
    also have "?L s = ?L u \<longleftrightarrow> label_pairs s = label_pairs u"
    proof
      assume "?L s = ?L u"
      then show "label_pairs s = label_pairs u"
        using pair_clean[OF wf(1)] pair_clean[OF wf(2)] by (intro Join_inj_nonempty[of _ _ "CHR 0x01"]) (auto simp: clean_def)
    qed simp
    also have "?T s = ?T u \<longleftrightarrow> expression_texts s = expression_texts u"
    proof
      assume "?T s = ?T u"
      moreover have "\<forall>x \<in> expression_texts s \<union> expression_texts u. CHR 0x01 \<notin> set x \<and> x \<noteq> []"
        using text_clean[OF wf(1)] text_clean[OF wf(2)] by blast
      ultimately have "sorted_list_of_set (expression_texts s) = sorted_list_of_set (expression_texts u)"
        by (intro Join_inj_nonempty[of _ _ "CHR 0x01"]) simp_all
      then show "expression_texts s = expression_texts u" by (metis finite_texts set_sorted_list_of_set)
    qed simp
    finally show ?thesis
      unfolding label_pairs_iff[OF wf] texts_iff[OF wf] by (simp add: same_selector_def su)
  qed
qed

text \<open>
  Two anti-affinity terms are filed under the same key exactly when they have the same topology
  key, the same namespaces and selectors with the same labels and the same expressions, whatever the
  order in which labels, expressions and values are written.
\<close>

theorem inverseTopologyGroupKey_exact:
  assumes "clean k" "clean k'" "finite nss" "finite nss'"
    and "\<forall>n \<in> nss \<union> nss'. clean n \<and> n \<noteq> []"
    and "\<forall>s. a = Some s \<or> b = Some s \<longrightarrow> wf_selector s"
  shows "inverseTopologyGroupKey k nss a = inverseTopologyGroupKey k' nss' b \<longleftrightarrow>
    k = k' \<and> nss = nss' \<and> same_selector a b"
proof -
  let ?N = "\<lambda>nss. strings_Join (CHR 0x01) (sorted_list_of_set nss)"
  have no0: "CHR 0x00 \<notin> set k" "CHR 0x00 \<notin> set k'" using assms(1,2) by (simp_all add: clean_def)
  have n0: "CHR 0x00 \<notin> set (?N m)" if "finite m" "\<forall>n \<in> m. clean n \<and> n \<noteq> []" for m
    using set_Join[of "CHR 0x01" "sorted_list_of_set m"] that by (auto simp: clean_def)
  have "CHR 0x00 \<notin> set (?N nss)" "CHR 0x00 \<notin> set (?N nss')" using n0[OF assms(3)] n0[OF assms(4)] assms(5) by auto
  then have "inverseTopologyGroupKey k nss a = inverseTopologyGroupKey k' nss' b \<longleftrightarrow>
      k = k' \<and> ?N nss = ?N nss' \<and> canonicalLabelSelector a = canonicalLabelSelector b"
    using split_at_sep[OF no0] split_at_sep[of "CHR 0x00" "?N nss" "?N nss'"] by (simp add: inverseTopologyGroupKey_def)
  also have "?N nss = ?N nss' \<longleftrightarrow> nss = nss'"
  proof
    assume "?N nss = ?N nss'"
    then have "sorted_list_of_set nss = sorted_list_of_set nss'"
      using assms(3,4,5) by (intro Join_inj_nonempty[of _ _ "CHR 0x01"]) (auto simp: clean_def)
    then show "nss = nss'" using assms(3,4) by (metis set_sorted_list_of_set)
  qed simp
  finally show ?thesis unfolding canonicalLabelSelector_iff[OF assms(6)] .
qed

theorem inverseTopologyGroupKey_exact_witness:
  "inverseTopologyGroupKey ''zone'' {''x'', ''y''} (Some \<lparr>matchLabels = [(''a'', ''1''), (''b'', ''2'')], matchExpressions = []\<rparr>) =
     inverseTopologyGroupKey ''zone'' {''y'', ''x''} (Some \<lparr>matchLabels = [(''b'', ''2''), (''a'', ''1'')], matchExpressions = []\<rparr>) \<and>
   inverseTopologyGroupKey ''zone'' {''x''} None \<noteq>
     inverseTopologyGroupKey ''zone'' {''x''} (Some \<lparr>matchLabels = [], matchExpressions = []\<rparr>)"
proof
  let ?s = "Some \<lparr>matchLabels = [(''a'', ''1''), (''b'', ''2'')], matchExpressions = []\<rparr>"
  let ?u = "Some \<lparr>matchLabels = [(''b'', ''2''), (''a'', ''1'')], matchExpressions = []\<rparr>"
  show "inverseTopologyGroupKey ''zone'' {''x'', ''y''} ?s = inverseTopologyGroupKey ''zone'' {''y'', ''x''} ?u"
    by (subst inverseTopologyGroupKey_exact) (auto simp: clean_def wf_selector_def same_selector_def)
  show "inverseTopologyGroupKey ''zone'' {''x''} None \<noteq>
     inverseTopologyGroupKey ''zone'' {''x''} (Some \<lparr>matchLabels = [], matchExpressions = []\<rparr>)"
    by (subst inverseTopologyGroupKey_exact) (auto simp: clean_def wf_selector_def same_selector_def)
qed

end
