(* ===== verification/Parallel.thy ===== *)
theory Parallel
  imports Prelude
begin

text \<open>
  \<^verbatim>\<open>parallelizeUntil\<close> of \<^verbatim>\<open>pkg/controllers/provisioning/scheduling/scheduler.go\<close>: workers take pieces of
  work from a channel until a piece tells them to stop. A configuration holds the pieces left in the
  channel, what each worker is doing and the state the workers share under a mutex. A run is an
  interleaving: the list of the workers in the order in which they move. The piece itself is one
  move, since only its locked part touches the shared state.
\<close>

datatype worker = Idle | Busy nat | Finished

record 's pool =
  toProcess :: "nat list"
  pworkers :: "worker list"
  pshared :: 's

section \<open>The pool\<close>

definition start_pool :: "nat \<Rightarrow> nat \<Rightarrow> 's \<Rightarrow> 's pool" where
  "start_pool workers pieces s =
     \<lparr>toProcess = [0..<pieces],
      pworkers = replicate (if pieces < workers then pieces else workers) Idle, pshared = s\<rparr>"

definition worker_move :: "(nat \<Rightarrow> 's \<Rightarrow> 's \<times> bool) \<Rightarrow> nat \<Rightarrow> 's pool \<Rightarrow> 's pool option" where
  "worker_move doWorkPiece k c =
     (if k < length (pworkers c)
      then (case pworkers c ! k of
              Idle \<Rightarrow>
                (case toProcess c of
                   [] \<Rightarrow> Some (c\<lparr>pworkers := (pworkers c)[k := Finished]\<rparr>)
                 | i # rest \<Rightarrow> Some (c\<lparr>toProcess := rest, pworkers := (pworkers c)[k := Busy i]\<rparr>))
            | Busy i \<Rightarrow>
                (case doWorkPiece i (pshared c) of
                   (s, continue) \<Rightarrow>
                     Some (c\<lparr>pworkers := (pworkers c)[k := (if continue then Idle else Finished)], pshared := s\<rparr>))
            | Finished \<Rightarrow> None)
      else None)"

text \<open>\<^verbatim>\<open>wg.Wait()\<close> returns.\<close>

definition pool_done :: "'s pool \<Rightarrow> bool" where
  "pool_done c \<longleftrightarrow> list_all (\<lambda>w. w = Finished) (pworkers c)"

section \<open>The searches of the scheduler\<close>

text \<open>
  The three searches of the scheduler share one body: a piece without a verdict goes on to the next
  one; a verdict is kept under the mutex unless one with a smaller index is already there, and ends
  the worker. The shared state is the index, \<^verbatim>\<open>math.MaxInt\<close> at first, with the verdict.
\<close>

definition keep_first :: "(nat \<Rightarrow> 'r option) \<Rightarrow> nat \<Rightarrow> int \<times> 'r option \<Rightarrow> (int \<times> 'r option) \<times> bool" where
  "keep_first verdict i s =
     (case verdict i of
        None \<Rightarrow> (s, True)
      | Some r \<Rightarrow> if int i \<ge> fst s then (s, False) else ((int i, Some r), False))"

text \<open>What the searches compute: the verdict of the smallest index that has one.\<close>

definition first_verdict :: "(nat \<Rightarrow> 'r option) \<Rightarrow> nat \<Rightarrow> int \<times> 'r option" where
  "first_verdict verdict pieces =
     (case find (\<lambda>i. verdict i \<noteq> None) [0..<pieces] of
        None \<Rightarrow> (MaxInt64, None)
      | Some i \<Rightarrow> (int i, verdict i))"

section \<open>Every run ends\<close>

fun worker_weight :: "worker \<Rightarrow> nat" where
  "worker_weight Idle = 1"
| "worker_weight (Busy i) = 2"
| "worker_weight Finished = 0"

definition pool_weight :: "'s pool \<Rightarrow> nat" where
  "pool_weight c = 2 * length (toProcess c) + (\<Sum>w\<leftarrow>pworkers c. worker_weight w)"

lemma sum_list_replace:
  fixes f :: "'a \<Rightarrow> nat"
  shows "k < length xs \<Longrightarrow> (\<Sum>x\<leftarrow>xs[k := y]. f x) + f (xs ! k) = (\<Sum>x\<leftarrow>xs. f x) + f y"
  by (induction xs arbitrary: k) (auto split: nat.splits)

lemma worker_move_cases [consumes 1, case_names drained takes works]:
  assumes "worker_move f k c = Some d"
  obtains "k < length (pworkers c)" "pworkers c ! k = Idle" "toProcess c = []"
      "d = c\<lparr>pworkers := (pworkers c)[k := Finished]\<rparr>"
  | i rest where "k < length (pworkers c)" "pworkers c ! k = Idle" "toProcess c = i # rest"
      "d = c\<lparr>toProcess := rest, pworkers := (pworkers c)[k := Busy i]\<rparr>"
  | i s b where "k < length (pworkers c)" "pworkers c ! k = Busy i" "f i (pshared c) = (s, b)"
      "d = c\<lparr>pworkers := (pworkers c)[k := (if b then Idle else Finished)], pshared := s\<rparr>"
  using assms by (auto simp: worker_move_def split: if_splits worker.splits list.splits prod.splits)

lemma move_weight:
  assumes "worker_move f k c = Some d"
  shows "pool_weight d < pool_weight c"
  using assms
proof (cases rule: worker_move_cases)
  case drained
  then show ?thesis using sum_list_replace[of k "pworkers c" worker_weight Finished] by (simp add: pool_weight_def)
next
  case (takes i rest)
  then show ?thesis using sum_list_replace[of k "pworkers c" worker_weight "Busy i"] by (simp add: pool_weight_def)
next
  case (works i s b)
  then show ?thesis
    using sum_list_replace[of k "pworkers c" worker_weight "if b then Idle else Finished"]
    by (cases b) (simp_all add: pool_weight_def)
qed

lemma run_weight: "run_steps (worker_move f) ks c = Some d \<Longrightarrow> length ks + pool_weight d \<le> pool_weight c"
proof (induction ks arbitrary: c)
  case (Cons k ks)
  then obtain e where e: "worker_move f k c = Some e" "run_steps (worker_move f) ks e = Some d"
    by (auto split: option.splits)
  from Cons.IH[OF e(2)] move_weight[OF e(1)] show ?case by simp
qed simp

lemma move_possible: "\<not> pool_done c \<longleftrightarrow> (\<exists>k d. worker_move f k c = Some d)"
proof
  assume "\<not> pool_done c"
  then obtain k where k: "k < length (pworkers c)" "pworkers c ! k \<noteq> Finished"
    by (auto simp: pool_done_def list_all_length)
  then have "worker_move f k c \<noteq> None"
    by (auto simp: worker_move_def split: worker.splits list.splits prod.splits)
  then show "\<exists>k d. worker_move f k c = Some d" by blast
next
  assume "\<exists>k d. worker_move f k c = Some d"
  then show "\<not> pool_done c"
    by (auto simp: worker_move_def pool_done_def list_all_length split: if_splits)
qed

section \<open>Every run finds the first verdict\<close>

text \<open>
  The channel holds the indices from \<open>j\<close> on. Every verdict taken from it is with a worker or not
  better than the one kept, and a worker is finished only when the channel is empty or a verdict is
  kept.
\<close>

definition search_inv :: "(nat \<Rightarrow> 'r option) \<Rightarrow> nat \<Rightarrow> (int \<times> 'r option) pool \<Rightarrow> bool" where
  "search_inv verdict pieces c \<longleftrightarrow>
     (\<exists>j \<le> pieces. toProcess c = [j..<pieces] \<and>
        (\<forall>i. Busy i \<in> set (pworkers c) \<longrightarrow> i < j) \<and>
        (\<forall>i < j. verdict i = None \<or> Busy i \<in> set (pworkers c) \<or> fst (pshared c) \<le> int i) \<and>
        (pshared c = (MaxInt64, None) \<or>
          (\<exists>i < j. \<exists>r. verdict i = Some r \<and> pshared c = (int i, Some r))) \<and>
        (Finished \<in> set (pworkers c) \<longrightarrow> j = pieces \<or> pshared c \<noteq> (MaxInt64, None)))"

lemma in_set_replaced:
  "k < length xs \<Longrightarrow> x \<in> set xs \<Longrightarrow> x \<noteq> xs ! k \<Longrightarrow> x \<in> set (xs[k := y])"
  by (metis in_set_conv_nth length_list_update nth_list_update_neq)

lemma set_replacedD: "x \<in> set (xs[k := y]) \<Longrightarrow> x = y \<or> x \<in> set xs"
  using set_update_subset_insert[of xs k y] by blast

lemma search_inv_drained:
  assumes "search_inv verdict pieces c" "k < length (pworkers c)" "pworkers c ! k = Idle" "toProcess c = []"
  shows "search_inv verdict pieces (c\<lparr>pworkers := (pworkers c)[k := Finished]\<rparr>)"
proof -
  obtain j where j: "j \<le> pieces" "toProcess c = [j..<pieces]"
      "\<forall>i. Busy i \<in> set (pworkers c) \<longrightarrow> i < j"
      "\<forall>i < j. verdict i = None \<or> Busy i \<in> set (pworkers c) \<or> fst (pshared c) \<le> int i"
      "pshared c = (MaxInt64, None) \<or> (\<exists>i < j. \<exists>r. verdict i = Some r \<and> pshared c = (int i, Some r))"
    using assms(1) unfolding search_inv_def by blast
  have "[j..<pieces] = []" using j(2) assms(4) by (rule trans[OF sym])
  then have "j = pieces" using j(1) by auto
  moreover have "Busy i \<in> set ((pworkers c)[k := Finished]) \<longleftrightarrow> Busy i \<in> set (pworkers c)" for i
    using in_set_replaced[OF assms(2), of "Busy i" Finished] set_replacedD[of "Busy i"] assms(3) by auto
  ultimately show ?thesis
    unfolding search_inv_def using j by (intro exI[of _ pieces]) simp
qed

lemma search_inv_takes:
  assumes "search_inv verdict pieces c" "k < length (pworkers c)" "pworkers c ! k = Idle" "toProcess c = i # rest"
  shows "search_inv verdict pieces (c\<lparr>toProcess := rest, pworkers := (pworkers c)[k := Busy i]\<rparr>)"
proof -
  obtain j where j: "j \<le> pieces" "toProcess c = [j..<pieces]"
      "\<forall>i. Busy i \<in> set (pworkers c) \<longrightarrow> i < j"
      "\<forall>i < j. verdict i = None \<or> Busy i \<in> set (pworkers c) \<or> fst (pshared c) \<le> int i"
      "pshared c = (MaxInt64, None) \<or> (\<exists>i < j. \<exists>r. verdict i = Some r \<and> pshared c = (int i, Some r))"
      "Finished \<in> set (pworkers c) \<longrightarrow> j = pieces \<or> pshared c \<noteq> (MaxInt64, None)"
    using assms(1) unfolding search_inv_def by blast
  have "[j..<pieces] = i # rest" using j(2) assms(4) by (rule trans[OF sym])
  then have i: "i = j" "rest = [Suc j..<pieces]" "j < pieces" by (auto simp: upt_eq_Cons_conv)
  have busy: "Busy n \<in> set ((pworkers c)[k := Busy i]) \<longleftrightarrow> n = i \<or> Busy n \<in> set (pworkers c)" for n
    using in_set_replaced[OF assms(2), of "Busy n" "Busy i"] set_replacedD[of "Busy n"] assms(2,3)
      set_update_memI[OF assms(2)] by auto
  have fin: "Finished \<in> set ((pworkers c)[k := Busy i]) \<Longrightarrow> Finished \<in> set (pworkers c)"
    using set_replacedD[of Finished] by blast
  have "\<forall>n < Suc j. verdict n = None \<or> n = j \<or> Busy n \<in> set (pworkers c) \<or> fst (pshared c) \<le> int n"
    using j(4) less_Suc_eq by metis
  moreover have "\<forall>n. n = j \<or> Busy n \<in> set (pworkers c) \<longrightarrow> n < Suc j" using j(3) less_SucI by blast
  moreover have "pshared c = (MaxInt64, None) \<or> (\<exists>n < Suc j. \<exists>r. verdict n = Some r \<and> pshared c = (int n, Some r))"
    using j(5) less_SucI by metis
  ultimately show ?thesis
    unfolding search_inv_def using i j(6) fin busy by (intro exI[of _ "Suc j"]) auto
qed

lemma search_inv_works:
  assumes "search_inv verdict pieces c" "k < length (pworkers c)" "pworkers c ! k = Busy i"
    and "keep_first verdict i (pshared c) = (s, b)" "int pieces \<le> MaxInt64"
  shows "search_inv verdict pieces
     (c\<lparr>pworkers := (pworkers c)[k := (if b then Idle else Finished)], pshared := s\<rparr>)"
proof -
  let ?w = "if b then Idle else Finished"
  obtain j where j: "j \<le> pieces" "toProcess c = [j..<pieces]"
      "\<forall>i. Busy i \<in> set (pworkers c) \<longrightarrow> i < j"
      "\<forall>i < j. verdict i = None \<or> Busy i \<in> set (pworkers c) \<or> fst (pshared c) \<le> int i"
      "pshared c = (MaxInt64, None) \<or> (\<exists>i < j. \<exists>r. verdict i = Some r \<and> pshared c = (int i, Some r))"
      "Finished \<in> set (pworkers c) \<longrightarrow> j = pieces \<or> pshared c \<noteq> (MaxInt64, None)"
    using assms(1) unfolding search_inv_def by blast
  have i: "i < j" using j(3) assms(2,3) nth_mem by metis
  have busy: "Busy n \<in> set ((pworkers c)[k := ?w]) \<Longrightarrow> Busy n \<in> set (pworkers c)" for n
    using set_replacedD[of "Busy n"] by (auto split: if_splits)
  have kept: "n = i \<or> Busy n \<in> set ((pworkers c)[k := ?w])" if "Busy n \<in> set (pworkers c)" for n
    using in_set_replaced[OF assms(2) that] assms(3) by auto
  have s: "fst s \<le> fst (pshared c)" "verdict i = None \<or> fst s \<le> int i"
      "s = (MaxInt64, None) \<or> (\<exists>i < j. \<exists>r. verdict i = Some r \<and> s = (int i, Some r))"
      "b \<longrightarrow> s = pshared c" "\<not> b \<longrightarrow> s \<noteq> (MaxInt64, None)"
    using assms(4,5) i j(1,5) by (auto simp: keep_first_def split: option.splits if_splits)
  have "Finished \<in> set ((pworkers c)[k := ?w]) \<longrightarrow> j = pieces \<or> s \<noteq> (MaxInt64, None)"
    using s(4,5) j(6) set_replacedD[of Finished] by (cases b) fastforce+
  moreover have "\<forall>n < j. verdict n = None \<or> Busy n \<in> set ((pworkers c)[k := ?w]) \<or> fst s \<le> int n"
    using j(4) kept s(1,2) by (metis order_trans)
  ultimately show ?thesis
    unfolding search_inv_def using j(1-3) s(3) busy by (intro exI[of _ j]) simp
qed

lemma search_inv_start: "search_inv verdict pieces (start_pool workers pieces (MaxInt64, None))"
  unfolding search_inv_def start_pool_def by (intro exI[of _ 0]) auto

lemma search_done:
  assumes "search_inv verdict pieces c" "pool_done c" "pworkers c \<noteq> [] \<or> pieces = 0"
    and "int pieces \<le> MaxInt64"
  shows "pshared c = first_verdict verdict pieces"
proof -
  have noBusy: "Busy n \<notin> set (pworkers c)" for n using assms(2) by (auto simp: pool_done_def list_all_iff)
  obtain j where j: "j \<le> pieces"
      "\<forall>i < j. verdict i = None \<or> fst (pshared c) \<le> int i"
      "pshared c = (MaxInt64, None) \<or> (\<exists>i < j. \<exists>r. verdict i = Some r \<and> pshared c = (int i, Some r))"
      "Finished \<in> set (pworkers c) \<longrightarrow> j = pieces \<or> pshared c \<noteq> (MaxInt64, None)"
    using assms(1) noBusy unfolding search_inv_def by metis
  have fin: "pieces = 0 \<or> j = pieces \<or> pshared c \<noteq> (MaxInt64, None)"
    using assms(2,3) j(4) by (cases "pworkers c") (auto simp: pool_done_def)
  show ?thesis
  proof (cases "pshared c = (MaxInt64, None)")
    case True
    then have "j = pieces" using fin j(1) by auto
    then have "\<forall>i < pieces. verdict i = None" using j(2) True assms(4) by fastforce
    then have "find (\<lambda>i. verdict i \<noteq> None) [0..<pieces] = None" by (auto simp: find_None_iff)
    then show ?thesis using True by (simp add: first_verdict_def)
  next
    case False
    then obtain i r where i: "i < j" "verdict i = Some r" "pshared c = (int i, Some r)" using j(3) by blast
    have "verdict n = None" if "n < i" for n using j(2)[rule_format, of n] i(1,3) that by auto
    then have "find (\<lambda>i. verdict i \<noteq> None) [0..<pieces] = Some i"
      using i(1,2) j(1) by (auto simp: find_Some_iff intro!: exI[of _ i])
    then show ?thesis using i by (simp add: first_verdict_def)
  qed
qed

interpretation search: step_machine "worker_move (keep_first verdict)"
  "\<lambda>c. search_inv verdict pieces c \<and> int pieces \<le> MaxInt64 \<and> length (pworkers c) = w"
proof unfold_locales
  fix c k d
  assume c: "search_inv verdict pieces c \<and> int pieces \<le> MaxInt64 \<and> length (pworkers c) = w"
  assume "worker_move (keep_first verdict) k c = Some d"
  then show "search_inv verdict pieces d \<and> int pieces \<le> MaxInt64 \<and> length (pworkers d) = w"
  proof (cases rule: worker_move_cases)
    case drained
    then show ?thesis using search_inv_drained[of verdict pieces c k] c by simp
  next
    case (takes i rest)
    then show ?thesis using search_inv_takes[of verdict pieces c k i rest] c by simp
  next
    case (works i s b)
    then show ?thesis using search_inv_works[of verdict pieces c k i s b] c by simp
  qed
qed

text \<open>
  C33. The searches of the scheduler are deterministic although their workers race. From the start,
  every interleaving of the workers is at most \<open>2 * pieces + workers\<close> moves long; as long as not all
  workers are finished one of them can move, so every interleaving can be completed and none gets
  stuck; and when all are finished, the kept verdict is the one of the smallest index that has a
  verdict, whatever the order of the moves and the number of workers.
\<close>

theorem parallelizeUntil_first:
  assumes "0 < workers" "int pieces \<le> MaxInt64"
    and run: "run_steps (worker_move (keep_first verdict)) moves (start_pool workers pieces (MaxInt64, None)) = Some c"
  shows "length moves \<le> 2 * pieces + workers \<and>
    (pool_done c \<longleftrightarrow> \<not> (\<exists>k d. worker_move (keep_first verdict) k c = Some d)) \<and>
    (pool_done c \<longrightarrow> pshared c = first_verdict verdict pieces)"
proof -
  let ?start = "start_pool workers pieces (MaxInt64, None) :: (int \<times> 'a option) pool"
  have weight: "pool_weight ?start \<le> 2 * pieces + workers"
    by (simp add: pool_weight_def start_pool_def map_replicate_const sum_list_replicate)
  have inv: "search_inv verdict pieces c \<and> length (pworkers c) = length (pworkers ?start)"
    using search.run_inv[of verdict pieces ?start "length (pworkers ?start)" moves c] search_inv_start assms by blast
  then have "pworkers c \<noteq> [] \<or> pieces = 0"
    using assms(1) by (auto simp: start_pool_def split: if_splits)
  then have "pool_done c \<longrightarrow> pshared c = first_verdict verdict pieces"
    using inv search_done assms(2) by blast
  moreover have "length moves \<le> 2 * pieces + workers" using run_weight[OF run] weight by linarith
  ultimately show ?thesis using move_possible[of c "keep_first verdict"] by blast
qed

text \<open>Two workers and three pieces: the later success is found first and then replaced.\<close>

definition odd_verdict :: "nat \<Rightarrow> nat option" where
  "odd_verdict i = (if i = 0 then None else Some (10 * i))"

theorem parallelizeUntil_first_witness:
  "map_option pshared (run_steps (worker_move (keep_first odd_verdict)) [0, 0, 0, 1, 1, 0]
     (start_pool 2 3 (MaxInt64, None))) = Some (1, Some 10) \<and>
   first_verdict odd_verdict 3 = (1, Some 10)"
proof -
  let ?c = "\<lparr>toProcess = [], pworkers = [Finished, Finished], pshared = (1, Some 10)\<rparr> :: (int \<times> nat option) pool"
  have run: "run_steps (worker_move (keep_first odd_verdict)) [0, 0, 0, 1, 1, 0] (start_pool 2 3 (MaxInt64, None)) = Some ?c"
    by code_simp
  have "first_verdict odd_verdict 3 = pshared ?c"
    using parallelizeUntil_first[OF _ _ run] by (simp add: MaxInt64_def pool_done_def)
  then show ?thesis using run by simp
qed

end
