(* ===== verification/NodePools.thy ===== *)
theory NodePools
  imports InstanceTypes Taints
begin

text \<open>
  NodePools and the templates the scheduler makes of them: \<^verbatim>\<open>pkg/apis/v1/nodepool.go\<close>,
  \<^verbatim>\<open>nodepool_validation.go\<close>, \<^verbatim>\<open>pkg/utils/nodepool\<close> and
  \<^verbatim>\<open>pkg/controllers/provisioning/scheduling/nodeclaimtemplate.go\<close>.

  The hash of a NodePool, the cron library and the reading of a count or percentage are parameters.
\<close>

section \<open>The objects\<close>

record NodeClassReference =
  ncrGroup :: string
  ncrKind :: string
  ncrName :: string

record 'q NodeClaimSpec =
  specTaints :: "Taint list"
  specStartupTaints :: "Taint list"
  specRequirements :: "NodeSelectorRequirement list"
  specRequests :: "'q ResourceList"
  specNodeClassRef :: "NodeClassReference option"
  specTerminationGracePeriod :: "int option"
  specExpireAfter :: "int option"

datatype DisruptionReason = DisruptionReasonUnderutilized | DisruptionReasonEmpty | DisruptionReasonDrifted

datatype ConsolidationPolicy =
  ConsolidationPolicyWhenEmpty | ConsolidationPolicyWhenEmptyOrUnderutilized | ConsolidationPolicyBalanced

record Budget =
  bReasons :: "DisruptionReason list option"
  bNodes :: string
  bSchedule :: "string option"
  bDuration :: "int option"

record 'q NodePool =
  npName :: string
  npUID :: string
  npAnnotations :: "(string, string) gomap"
  npTemplateLabels :: "(string, string) gomap"
  npTemplateAnnotations :: "(string, string) gomap"
  npTemplateSpec :: "'q NodeClaimSpec"
  npConsolidateAfter :: "int option"
  npConsolidationPolicy :: ConsolidationPolicy
  npBudgets :: "Budget list"
  npLimits :: "'q ResourceList option"
  npWeight :: "int option"
  npReplicas :: "int option"

definition IsStatic :: "'q NodePool \<Rightarrow> bool" where
  "IsStatic np \<longleftrightarrow> npReplicas np \<noteq> None"

definition IsBalanced :: "ConsolidationPolicy \<Rightarrow> bool" where
  "IsBalanced p \<longleftrightarrow> p = ConsolidationPolicyBalanced"

section \<open>Limits and weights\<close>

text \<open>The resource that exceeds its limit with usage and limit, or None.\<close>

definition Limits_ExceededBy ::
  "'q::linordered_ab_group_add ResourceList option \<Rightarrow> 'q ResourceList \<Rightarrow> (string \<times> 'q \<times> 'q) option" where
  "Limits_ExceededBy l resources =
     (case l of
        None \<Rightarrow> None
      | Some m \<Rightarrow>
          map_option (\<lambda>(k, usage). (k, usage, mget 0 m k))
            (find (\<lambda>(k, usage). case map_of m k of None \<Rightarrow> False | Some bound \<Rightarrow> usage > bound) resources))"

definition from_ptr :: "'a \<Rightarrow> 'a option \<Rightarrow> 'a" where
  "from_ptr z p = (case p of None \<Rightarrow> z | Some v \<Rightarrow> v)"

definition weight_before :: "'q NodePool \<Rightarrow> 'q NodePool \<Rightarrow> bool" where
  "weight_before a b =
     (let weightA = from_ptr 0 (npWeight a); weightB = from_ptr 0 (npWeight b) in
      if weightA = weightB then npName a > npName b else weightA > weightB)"

definition OrderByWeight :: "('q NodePool list \<Rightarrow> 'q NodePool list) \<Rightarrow> 'q NodePool list \<Rightarrow> 'q NodePool list" where
  "OrderByWeight sortPools nps = sortPools nps"

interpretation by_weight: key_order weight_before
  by unfold_locales (auto simp: weight_before_def Let_def split: if_splits)

section \<open>Disruption budgets\<close>

datatype budget_error = InvalidCron string | InvalidNodes string

datatype int_or_string = IntVal int | StrVal string

text \<open>\<^verbatim>\<open>intstr.FromInt\<close> keeps 32 bits.\<close>

definition GetIntStrFromValue :: "string \<Rightarrow> int_or_string" where
  "GetIntStrFromValue str = (case Atoi str of (intVal, err) \<Rightarrow> if err = None then IntVal (wrap32 intVal) else StrVal str)"

text \<open>
  \<open>cronNext\<close> parses a schedule and gives its next hit strictly after a time, \<open>scaled\<close> is
  \<^verbatim>\<open>GetScaledValueFromIntOrPercent\<close> rounding up; both may fail.
\<close>

record budget_env =
  cronNext :: "string \<Rightarrow> (int \<Rightarrow> int) option"
  scaled :: "int_or_string \<Rightarrow> int \<Rightarrow> int option"

definition Budget_IsActive :: "budget_env \<Rightarrow> int \<Rightarrow> Budget \<Rightarrow> (budget_error, bool) result" where
  "Budget_IsActive BE now b =
     (if bSchedule b = None \<and> bDuration b = None then Ok True
      else
        (case cronNext BE (''TZ=UTC '' @ from_ptr [] (bSchedule b)) of
           None \<Rightarrow> Err (InvalidCron (from_ptr [] (bSchedule b)))
         | Some nextOf \<Rightarrow>
             (let checkPoint = now - from_ptr 0 (bDuration b) in
              Ok (nextOf checkPoint \<le> now))))"

definition Budget_GetAllowedDisruptions :: "budget_env \<Rightarrow> int \<Rightarrow> int \<Rightarrow> Budget \<Rightarrow> int \<times> budget_error option" where
  "Budget_GetAllowedDisruptions BE now numNodes b =
     (case Budget_IsActive BE now b of
        Err e \<Rightarrow> (0, Some e)
      | Panic \<Rightarrow> (0, None)
      | Ok active \<Rightarrow>
          if \<not> active then (MaxInt32, None)
          else
            (case scaled BE (GetIntStrFromValue (bNodes b)) numNodes of
               None \<Rightarrow> (0, Some (InvalidNodes (bNodes b)))
             | Some res \<Rightarrow> (res, None)))"

fun allowed_loop ::
  "budget_env \<Rightarrow> int \<Rightarrow> int \<Rightarrow> DisruptionReason \<Rightarrow> Budget list \<Rightarrow> int \<Rightarrow> budget_error list \<Rightarrow> int \<times> budget_error list" where
  "allowed_loop BE now numNodes reason [] allowedNodes errs = (allowedNodes, errs)"
| "allowed_loop BE now numNodes reason (b # bs) allowedNodes errs =
     (case Budget_GetAllowedDisruptions BE now numNodes b of
        (val, err) \<Rightarrow>
          allowed_loop BE now numNodes reason bs
            (if (case bReasons b of None \<Rightarrow> True | Some rs \<Rightarrow> reason \<in> set rs) then min allowedNodes val else allowedNodes)
            (case err of None \<Rightarrow> errs | Some e \<Rightarrow> errs @ [e]))"

definition GetAllowedDisruptionsByReason ::
  "budget_env \<Rightarrow> int \<Rightarrow> 'q NodePool \<Rightarrow> int \<Rightarrow> DisruptionReason \<Rightarrow> int \<times> budget_error list" where
  "GetAllowedDisruptionsByReason BE now np numNodes reason =
     allowed_loop BE now numNodes reason (npBudgets np) MaxInt32 []"

definition MustGetAllowedDisruptions :: "budget_env \<Rightarrow> int \<Rightarrow> 'q NodePool \<Rightarrow> int \<Rightarrow> DisruptionReason \<Rightarrow> int" where
  "MustGetAllowedDisruptions BE now np numNodes reason =
     (case GetAllowedDisruptionsByReason BE now np numNodes reason of
        (allowedDisruptions, errs) \<Rightarrow> if errs \<noteq> [] then 0 else allowedDisruptions)"

section \<open>Validation\<close>

datatype template_label_error =
    RestrictedNodePoolKey string
  | BadLabelName string
  | BadLabelValue string string
  | RestrictedTemplateLabel Labels.label_error

text \<open>
  \<open>isQualifiedName\<close> and \<open>isValidLabelValue\<close> give the number of complaints of the two checks of the
  Kubernetes library.
\<close>

definition validateLabels ::
  "label_env \<Rightarrow> (string \<Rightarrow> nat) \<Rightarrow> (string \<Rightarrow> nat) \<Rightarrow> 'q NodePool \<Rightarrow> template_label_error list" where
  "validateLabels E isQualifiedName isValidLabelValue np =
     concat (map (\<lambda>(key, val).
       (if key = NodePoolLabelKey then [RestrictedNodePoolKey key] else []) @
       replicate (isQualifiedName key) (BadLabelName key) @
       replicate (isValidLabelValue val) (BadLabelValue val key) @
       (case IsRestrictedLabel E key of None \<Rightarrow> [] | Some e \<Rightarrow> [RestrictedTemplateLabel e])) (npTemplateLabels np))"

definition validateRequirementsNodePoolKeyDoesNotExist :: "'q NodePool \<Rightarrow> string list" where
  "validateRequirementsNodePoolKeyDoesNotExist np =
     map nsKey (filter (\<lambda>r. nsKey r = NodePoolLabelKey) (specRequirements (npTemplateSpec np)))"

section \<open>Templates\<close>

definition NodeRegisteredLabelKey :: string where "NodeRegisteredLabelKey = Group @ ''/registered''"
definition NodeInitializedLabelKey :: string where "NodeInitializedLabelKey = Group @ ''/initialized''"
definition NodePoolHashAnnotationKey :: string where "NodePoolHashAnnotationKey = Group @ ''/nodepool-hash''"
definition NodePoolHashVersionAnnotationKey :: string where
  "NodePoolHashVersionAnnotationKey = Group @ ''/nodepool-hash-version''"
definition NodeClaimTerminationCauseAnnotationKey :: string where
  "NodeClaimTerminationCauseAnnotationKey = Group @ ''/termination-cause''"
definition NodePoolPackingPolicyAnnotationKey :: string where
  "NodePoolPackingPolicyAnnotationKey = Group @ ''/nodeclaim-packing-policy''"
definition PriceOverlayAppliedAnnotationKey :: string where
  "PriceOverlayAppliedAnnotationKey = Group @ ''/price-overlay-applied''"
definition CapacityOverlayAppliedAnnotationKey :: string where
  "CapacityOverlayAppliedAnnotationKey = Group @ ''/capacity-overlay-applied''"

definition schedulingSimulationKeys :: "string set" where
  "schedulingSimulationKeys = {NodeRegisteredLabelKey, NodeInitializedLabelKey}"

definition MaxInstanceTypes :: nat where "MaxInstanceTypes = 600"

datatype PackingPolicy = PackingPolicyBinpack | PackingPolicyMarginalCost | PackingPolicyMarginalCostShadow

text \<open>The policy and whether the annotation has a value that is not recognised.\<close>

definition PackingPolicyForNodePool :: "'q NodePool \<Rightarrow> PackingPolicy \<times> bool" where
  "PackingPolicyForNodePool np =
     (let v = mget [] (npAnnotations np) NodePoolPackingPolicyAnnotationKey in
      if v = [] \<or> v = ''binpack'' then (PackingPolicyBinpack, False)
      else if v = ''marginal-cost'' then (PackingPolicyMarginalCost, False)
      else if v = ''marginal-cost-shadow'' then (PackingPolicyMarginalCostShadow, False)
      else (PackingPolicyBinpack, True))"

record 'q NodeClaimTemplate =
  nctLabels :: "(string, string) gomap"
  nctAnnotations :: "(string, string) gomap"
  nctSpec :: "'q NodeClaimSpec"
  nctNodePoolName :: string
  nctNodePoolUUID :: string
  nctNodePoolWeight :: int
  nctInstanceTypeOptions :: "'q InstanceType list"
  nctRequirements :: requirements
  nctIsStaticNodeClaim :: bool
  nctPackingPolicy :: PackingPolicy

text \<open>\<^verbatim>\<open>lo.Assign\<close> of two maps: the later entries win.\<close>

definition lo_Assign :: "('k, 'v) gomap \<Rightarrow> ('k, 'v) gomap \<Rightarrow> ('k, 'v) gomap" where
  "lo_Assign m n = foldl (\<lambda>acc (k, v). mput k v acc) m n"

text \<open>\<^verbatim>\<open>strings.ToLower\<close> on the ASCII letters a kind consists of.\<close>

definition char_to_lower :: "char \<Rightarrow> char" where
  "char_to_lower c = (let n = (of_char c :: nat) in if 65 \<le> n \<and> n \<le> 90 then char_of (n + 32) else c)"

definition NodeClassLabelKey :: "NodeClassReference \<Rightarrow> string" where
  "NodeClassLabelKey ref = ncrGroup ref @ ''/'' @ map char_to_lower (ncrKind ref)"

text \<open>None is a panic: a missing NodeClass reference or a selector expression the constructor rejects.\<close>

definition NewNodeClaimTemplate ::
  "label_env \<Rightarrow> ('q NodePool \<Rightarrow> string) \<Rightarrow> 'q NodePool \<Rightarrow> 'q NodeClaimTemplate option" where
  "NewNodeClaimTemplate E hash np =
     (case specNodeClassRef (npTemplateSpec np) of
        None \<Rightarrow> None
      | Some ref \<Rightarrow>
          (let labels = lo_Assign (npTemplateLabels np)
                 [(NodePoolLabelKey, npName np), (NodeClassLabelKey ref, ncrName ref)];
               annotations = lo_Assign (npTemplateAnnotations np)
                 [(NodePoolHashAnnotationKey, hash np), (NodePoolHashVersionAnnotationKey, ''v3'')]
           in case (NewNodeSelectorRequirementsWithMinValues E (specRequirements (npTemplateSpec np)),
                    NewLabelRequirements E labels,
                    NewRequirement E NodeRegisteredLabelKey OpIn [''true''],
                    NewRequirement E NodeInitializedLabelKey OpIn [''true'']) of
                (Some rs, Some ls, Some reg, Some ini) \<Rightarrow>
                  Some \<lparr>nctLabels = labels, nctAnnotations = annotations,
                    nctSpec = (npTemplateSpec np)\<lparr>specRequests := []\<rparr>,
                    nctNodePoolName = npName np, nctNodePoolUUID = npUID np,
                    nctNodePoolWeight = from_ptr 0 (npWeight np), nctInstanceTypeOptions = [],
                    nctRequirements =
                      Requirements_Add E
                        (Requirements_Add E
                          (Requirements_Add E (Requirements_Add E (NewRequirements E []) (Requirements_Values rs))
                            (Requirements_Values ls)) [reg]) [ini],
                    nctIsStaticNodeClaim = (npReplicas np \<noteq> None), nctPackingPolicy = PackingPolicyBinpack\<rparr>
              | _ \<Rightarrow> None))"

fun resolve_labels ::
  "label_env \<Rightarrow> (string set \<Rightarrow> string) \<Rightarrow> (int \<Rightarrow> int) \<Rightarrow> requirements \<Rightarrow> (string, string) gomap \<Rightarrow>
   (string, string) gomap option" where
  "resolve_labels E pick intn [] labels = Some labels"
| "resolve_labels E pick intn ((key, requirement) # rs) labels =
     (if key \<in> set (WellKnownLabels E) \<or> key \<in> RestrictedLabels E \<or> key \<in> schedulingSimulationKeys
      then resolve_labels E pick intn rs labels
      else
        (case Requirement_Any pick intn requirement of
           None \<Rightarrow> None
         | Some v \<Rightarrow> resolve_labels E pick intn rs (if v \<noteq> [] then mput key v labels else labels)))"

definition resolveCustomLabelsFromRequirements ::
  "label_env \<Rightarrow> (string set \<Rightarrow> string) \<Rightarrow> (int \<Rightarrow> int) \<Rightarrow> 'q NodeClaimTemplate \<Rightarrow> (string, string) gomap option" where
  "resolveCustomLabelsFromRequirements E pick intn i = resolve_labels E pick intn (nctRequirements i) []"

text \<open>The NodeClaim object that is sent to the API server.\<close>

record 'q APINodeClaim =
  ancGenerateName :: string
  ancAnnotations :: "(string, string) gomap"
  ancLabels :: "(string, string) gomap"
  ancOwnerName :: string
  ancOwnerUID :: string
  ancSpec :: "'q NodeClaimSpec"

text \<open>The requirements and annotations after the instance types are injected; a static template has none.\<close>

definition inject_instance_types ::
  "label_env \<Rightarrow> (('q InstanceType \<times> rat) list \<Rightarrow> ('q InstanceType \<times> rat) list) \<Rightarrow> (string set \<Rightarrow> string) \<Rightarrow>
   (int \<Rightarrow> int) \<Rightarrow> 'q NodeClaimTemplate \<Rightarrow> 'q NodeClaimTemplate option" where
  "inject_instance_types E sortByPrice pick intn i =
     (if nctIsStaticNodeClaim i then Some i
      else
        (let instanceTypes = take MaxInstanceTypes (OrderByPrice E sortByPrice (nctInstanceTypeOptions i) (nctRequirements i))
         in case NewRequirementWithFlexibility E LabelInstanceTypeStable OpIn
                   (MinValues (Requirements_Get E (nctRequirements i) LabelInstanceTypeStable)) (map itName instanceTypes) of
              None \<Rightarrow> None
            | Some named \<Rightarrow>
                (let rs = Requirements_Add E (nctRequirements i) [named] in
                 case those (concat (map (\<lambda>it. map (CapacityType E pick intn) (Offerings_Compatible E (itOfferings it) rs))
                               instanceTypes)) of
                   None \<Rightarrow> None
                 | Some cts \<Rightarrow>
                     (case (if remdups cts = [] then Some rs
                            else map_option (\<lambda>r. Requirements_Add E rs [r])
                                   (NewRequirement E CapacityTypeLabelKey OpIn (remdups cts))) of
                        None \<Rightarrow> None
                      | Some rs' \<Rightarrow>
                          (let a1 = (if list_ex IsPricingOverlayApplied instanceTypes
                                     then lo_Assign (nctAnnotations i) [(PriceOverlayAppliedAnnotationKey, ''true'')]
                                     else nctAnnotations i);
                               a2 = (if list_ex itCapacityOverlayApplied instanceTypes
                                     then lo_Assign a1 [(CapacityOverlayAppliedAnnotationKey, ''true'')] else a1)
                           in Some (i\<lparr>nctRequirements := rs', nctAnnotations := a2\<rparr>))))))"

definition ToNodeClaim ::
  "label_env \<Rightarrow> (('q InstanceType \<times> rat) list \<Rightarrow> ('q InstanceType \<times> rat) list) \<Rightarrow> (string set \<Rightarrow> string) \<Rightarrow>
   (int \<Rightarrow> int) \<Rightarrow> int option \<Rightarrow> 'q NodeClaimTemplate \<Rightarrow> 'q APINodeClaim option" where
  "ToNodeClaim E sortByPrice pick intn defaultGracePeriod i0 =
     (case inject_instance_types E sortByPrice pick intn i0 of
        None \<Rightarrow> None
      | Some i \<Rightarrow>
          (case resolveCustomLabelsFromRequirements E pick intn i of
             None \<Rightarrow> None
           | Some custom \<Rightarrow>
               (case NodeSelectorRequirements
                       (NewRequirements E (filter (\<lambda>req. Key req \<notin> schedulingSimulationKeys)
                          (Requirements_Values (nctRequirements i)))) of
                  None \<Rightarrow> None
                | Some reqs \<Rightarrow>
                    Some \<lparr>ancGenerateName = nctNodePoolName i @ ''-'',
                      ancAnnotations = mdel NodeClaimTerminationCauseAnnotationKey (nctAnnotations i),
                      ancLabels = lo_Assign (nctLabels i) custom,
                      ancOwnerName = nctNodePoolName i, ancOwnerUID = nctNodePoolUUID i,
                      ancSpec = (nctSpec i)\<lparr>specRequirements := reqs,
                        specTerminationGracePeriod :=
                          (if specTerminationGracePeriod (nctSpec i) = None then defaultGracePeriod
                           else specTerminationGracePeriod (nctSpec i))\<rparr>\<rparr>)))"

end
