(* ===== verification/Preferences.thy ===== *)
theory Preferences
  imports Kube
begin

text \<open>
  Relaxation of a pod's preferences (\<^verbatim>\<open>pkg/controllers/provisioning/scheduling/preferences.go\<close>). Each
  relaxation returns the changed pod, or None where the code returns nil. \<^verbatim>\<open>sort.SliceStable\<close> has one
  result, that of the stable \<^const>\<open>insertion_sort\<close>. The comparison of tolerations
  (\<^verbatim>\<open>Toleration.MatchToleration\<close>) is Kubernetes code and a parameter; the code relies on a
  toleration matching itself.
\<close>

section \<open>The relaxations\<close>

definition removePreferredNodeAffinityTerm :: "Pod \<Rightarrow> Pod option" where
  "removePreferredNodeAffinityTerm pod =
     (case podAffinities pod of
        None \<Rightarrow> None
      | Some a \<Rightarrow>
          (case nodeAffinity a of
             None \<Rightarrow> None
           | Some na \<Rightarrow>
               if naPreferred na = [] then None
               else Some (pod\<lparr>podAffinities := Some (a\<lparr>nodeAffinity :=
                      Some (na\<lparr>naPreferred := tl (insertion_sort heavier (naPreferred na))\<rparr>)\<rparr>)\<rparr>)))"

definition removeRequiredNodeAffinityTerm :: "Pod \<Rightarrow> Pod option" where
  "removeRequiredNodeAffinityTerm pod =
     (case podAffinities pod of
        None \<Rightarrow> None
      | Some a \<Rightarrow>
          (case nodeAffinity a of
             None \<Rightarrow> None
           | Some na \<Rightarrow>
               (case naRequired na of
                  None \<Rightarrow> None
                | Some terms \<Rightarrow>
                    if length terms > 1
                    then Some (pod\<lparr>podAffinities := Some (a\<lparr>nodeAffinity :=
                           Some (na\<lparr>naRequired := Some (tl terms)\<rparr>)\<rparr>)\<rparr>)
                    else None)))"

definition removeTopologySpreadScheduleAnyway :: "Pod \<Rightarrow> Pod option" where
  "removeTopologySpreadScheduleAnyway pod =
     (let cs = podSpread pod in
      case find (\<lambda>i. tscWhenUnsatisfiable (cs ! i) = ScheduleAnyway) [0..<length cs] of
        None \<Rightarrow> None
      | Some i \<Rightarrow> Some (pod\<lparr>podSpread := butlast (cs[i := last cs])\<rparr>))"

definition heavier_term :: "WeightedPodAffinityTerm \<Rightarrow> WeightedPodAffinityTerm \<Rightarrow> bool" where
  "heavier_term s t \<longleftrightarrow> wptWeight s > wptWeight t"

definition drop_preferred_pod_term :: "PodAffinity option \<Rightarrow> PodAffinity option" where
  "drop_preferred_pod_term pa =
     (case pa of
        None \<Rightarrow> None
      | Some t \<Rightarrow>
          if paPreferred t = [] then None
          else Some (t\<lparr>paPreferred := tl (insertion_sort heavier_term (paPreferred t))\<rparr>))"

definition removePreferredPodAffinityTerm :: "Pod \<Rightarrow> Pod option" where
  "removePreferredPodAffinityTerm pod =
     (case podAffinities pod of
        None \<Rightarrow> None
      | Some a \<Rightarrow> map_option (\<lambda>t. pod\<lparr>podAffinities := Some (a\<lparr>podAffinity := Some t\<rparr>)\<rparr>)
                    (drop_preferred_pod_term (podAffinity a)))"

definition removePreferredPodAntiAffinityTerm :: "Pod \<Rightarrow> Pod option" where
  "removePreferredPodAntiAffinityTerm pod =
     (case podAffinities pod of
        None \<Rightarrow> None
      | Some a \<Rightarrow> map_option (\<lambda>t. pod\<lparr>podAffinities := Some (a\<lparr>podAntiAffinity := Some t\<rparr>)\<rparr>)
                    (drop_preferred_pod_term (podAntiAffinity a)))"

definition prefer_no_schedule_toleration :: Toleration where
  "prefer_no_schedule_toleration =
     \<lparr>tolKey = [], tolOperator = ''Exists'', tolValue = [], tolEffect = Some PreferNoSchedule\<rparr>"

definition toleratePreferNoScheduleTaints :: "(Toleration \<Rightarrow> Toleration \<Rightarrow> bool) \<Rightarrow> Pod \<Rightarrow> Pod option" where
  "toleratePreferNoScheduleTaints matchToleration pod =
     (if list_ex (\<lambda>t. matchToleration t prefer_no_schedule_toleration) (podTolerations pod) then None
      else Some (pod\<lparr>podTolerations := podTolerations pod @ [prefer_no_schedule_toleration]\<rparr>))"

fun first_relaxation :: "(Pod \<Rightarrow> Pod option) list \<Rightarrow> Pod \<Rightarrow> Pod option" where
  "first_relaxation [] pod = None"
| "first_relaxation (f # fs) pod = (case f pod of None \<Rightarrow> first_relaxation fs pod | Some p \<Rightarrow> Some p)"

definition Relax :: "(Toleration \<Rightarrow> Toleration \<Rightarrow> bool) \<Rightarrow> bool \<Rightarrow> Pod \<Rightarrow> Pod option" where
  "Relax matchToleration ToleratePreferNoSchedule pod =
     first_relaxation
       ([removeRequiredNodeAffinityTerm, removePreferredPodAffinityTerm, removePreferredPodAntiAffinityTerm,
         removePreferredNodeAffinityTerm, removeTopologySpreadScheduleAnyway] @
        (if ToleratePreferNoSchedule then [toleratePreferNoScheduleTaints matchToleration] else [])) pod"

section \<open>What can be relaxed\<close>

text \<open>The soft constraints a pod has, one number per relaxation, in the order they are tried.\<close>

definition required_alternatives :: "Pod \<Rightarrow> NodeSelectorRequirement list list" where
  "required_alternatives pod =
     (case Option.bind (Option.bind (podAffinities pod) nodeAffinity) naRequired of None \<Rightarrow> [] | Some ts \<Rightarrow> ts)"

definition preferred_node_terms :: "Pod \<Rightarrow> PreferredSchedulingTerm list" where
  "preferred_node_terms pod =
     (case Option.bind (podAffinities pod) nodeAffinity of None \<Rightarrow> [] | Some na \<Rightarrow> naPreferred na)"

definition preferred_pod_terms :: "(Affinity \<Rightarrow> PodAffinity option) \<Rightarrow> Pod \<Rightarrow> WeightedPodAffinityTerm list" where
  "preferred_pod_terms f pod =
     (case Option.bind (podAffinities pod) f of None \<Rightarrow> [] | Some pa \<Rightarrow> paPreferred pa)"

definition required_pod_terms :: "(Affinity \<Rightarrow> PodAffinity option) \<Rightarrow> Pod \<Rightarrow> PodAffinityTerm list" where
  "required_pod_terms f pod =
     (case Option.bind (podAffinities pod) f of None \<Rightarrow> [] | Some pa \<Rightarrow> paRequired pa)"

definition soft_spread :: "Pod \<Rightarrow> TopologySpreadConstraint list" where
  "soft_spread pod = filter (\<lambda>c. tscWhenUnsatisfiable c = ScheduleAnyway) (podSpread pod)"

definition hard_spread :: "Pod \<Rightarrow> TopologySpreadConstraint list" where
  "hard_spread pod = filter (\<lambda>c. tscWhenUnsatisfiable c \<noteq> ScheduleAnyway) (podSpread pod)"

definition soft_counts :: "(Toleration \<Rightarrow> Toleration \<Rightarrow> bool) \<Rightarrow> bool \<Rightarrow> Pod \<Rightarrow> nat list" where
  "soft_counts matchToleration tolerate pod =
     [length (required_alternatives pod) - 1, length (preferred_pod_terms podAffinity pod),
      length (preferred_pod_terms podAntiAffinity pod), length (preferred_node_terms pod), length (soft_spread pod),
      (if tolerate \<and> \<not> list_ex (\<lambda>t. matchToleration t prefer_no_schedule_toleration) (podTolerations pod)
       then 1 else 0)]"

definition soft_constraints :: "(Toleration \<Rightarrow> Toleration \<Rightarrow> bool) \<Rightarrow> bool \<Rightarrow> Pod \<Rightarrow> nat" where
  "soft_constraints matchToleration tolerate pod = sum_list (soft_counts matchToleration tolerate pod)"

lemmas soft_defs = required_alternatives_def preferred_node_terms_def preferred_pod_terms_def
  required_pod_terms_def soft_spread_def hard_spread_def

text \<open>What no relaxation may touch; required node affinity keeps its last alternatives.\<close>

definition keeps_hard :: "Pod \<Rightarrow> Pod \<Rightarrow> bool" where
  "keeps_hard p p' \<longleftrightarrow>
     mset (hard_spread p') = mset (hard_spread p) \<and>
     required_pod_terms podAffinity p' = required_pod_terms podAffinity p \<and>
     required_pod_terms podAntiAffinity p' = required_pod_terms podAntiAffinity p \<and>
     podNodeSelector p' = podNodeSelector p \<and> podUID p' = podUID p \<and> podLabels p' = podLabels p \<and>
     podNamespace p' = podNamespace p \<and> set (podTolerations p) \<subseteq> set (podTolerations p') \<and>
     (\<exists>k. required_alternatives p' = drop k (required_alternatives p)) \<and>
     (required_alternatives p' = [] \<longleftrightarrow> required_alternatives p = [])"

section \<open>Each relaxation takes one soft constraint away\<close>

lemma mset_insertion_sort [simp]: "mset (insertion_sort lt xs) = mset xs"
  by (induction xs) (simp_all add: insertion_sort_def)

lemma length_insertion_sort [simp]: "length (insertion_sort lt xs) = length xs"
  by (metis mset_insertion_sort size_mset)

lemma spread_removed:
  assumes "i < length cs" "tscWhenUnsatisfiable (cs ! i) = ScheduleAnyway"
  shows "mset cs = add_mset (cs ! i) (mset (butlast (cs[i := last cs])))"
proof -
  have ne: "cs[i := last cs] \<noteq> []" using assms(1) by auto
  have "last (cs[i := last cs]) = last cs"
    using ne assms(1) by (cases "i = length cs - 1") (simp_all add: last_conv_nth)
  then have "mset (cs[i := last cs]) = add_mset (last cs) (mset (butlast (cs[i := last cs])))"
    using append_butlast_last_id[OF ne]
    by (metis add.right_neutral mset.simps mset_append union_mset_add_mset_right)
  moreover have "mset (cs[i := last cs]) = add_mset (last cs) (mset cs - {#cs ! i#})"
    using assms(1) by (rule mset_update)
  moreover have "cs ! i \<in># mset cs" using assms(1) by simp
  ultimately show ?thesis by (metis add_mset_add_mset_same_iff insert_DiffM)
qed

lemma mset_filter_eq: "mset xs = add_mset x (mset ys) \<Longrightarrow>
    mset (filter P xs) = (if P x then add_mset x (mset (filter P ys)) else mset (filter P ys))"
  by (simp add: mset_filter)

lemma removeTopologySpread_Some:
  assumes "removeTopologySpreadScheduleAnyway p = Some p'"
  shows "length (soft_spread p) = Suc (length (soft_spread p'))" "mset (hard_spread p') = mset (hard_spread p)"
    "\<exists>cs. p' = p\<lparr>podSpread := cs\<rparr>"
proof -
  let ?cs = "podSpread p"
  obtain i where i: "i < length ?cs" "tscWhenUnsatisfiable (?cs ! i) = ScheduleAnyway"
      "p' = p\<lparr>podSpread := butlast (?cs[i := last ?cs])\<rparr>"
    using assms by (auto simp: removeTopologySpreadScheduleAnyway_def Let_def find_Some_iff split: option.splits)
  note m = mset_filter_eq[OF spread_removed[OF i(1,2)]]
  from m[of "\<lambda>c. tscWhenUnsatisfiable c = ScheduleAnyway"] i(2,3)
  have "mset (soft_spread p) = add_mset (?cs ! i) (mset (soft_spread p'))" by (simp add: soft_spread_def)
  then show "length (soft_spread p) = Suc (length (soft_spread p'))" by (metis size_add_mset size_mset)
  from m[of "\<lambda>c. tscWhenUnsatisfiable c \<noteq> ScheduleAnyway"] i(2,3)
  show "mset (hard_spread p') = mset (hard_spread p)" by (simp add: hard_spread_def)
  show "\<exists>cs. p' = p\<lparr>podSpread := cs\<rparr>" using i(3) by blast
qed

lemma removeTopologySpread_None:
  "removeTopologySpreadScheduleAnyway p = None \<longleftrightarrow> soft_spread p = []"
proof -
  have "removeTopologySpreadScheduleAnyway p = None \<longleftrightarrow>
      find (\<lambda>i. tscWhenUnsatisfiable (podSpread p ! i) = ScheduleAnyway) [0..<length (podSpread p)] = None"
    by (auto simp: removeTopologySpreadScheduleAnyway_def Let_def split: option.splits)
  also have "\<dots> \<longleftrightarrow> (\<forall>c \<in> set (podSpread p). tscWhenUnsatisfiable c \<noteq> ScheduleAnyway)"
    by (simp add: find_None_iff all_set_conv_all_nth)
  finally show ?thesis by (simp add: soft_spread_def filter_empty_conv)
qed

text \<open>
  A relaxation takes one off the \<open>i\<close>-th count and leaves the other counts and the hard constraints, or
  finds the \<open>i\<close>-th count at zero.
\<close>

definition relaxes :: "(Pod \<Rightarrow> nat list) \<Rightarrow> nat \<Rightarrow> (Pod \<Rightarrow> Pod option) \<Rightarrow> bool" where
  "relaxes counts i f \<longleftrightarrow>
     (\<forall>p. case f p of
            None \<Rightarrow> counts p ! i = 0
          | Some p' \<Rightarrow> counts p = (counts p')[i := Suc (counts p' ! i)] \<and> i < length (counts p') \<and> keeps_hard p p')"

lemma relaxes_sum:
  assumes "counts p = (counts p')[i := Suc (counts p' ! i)]" "i < length (counts p' :: nat list)"
  shows "sum_list (counts p) = Suc (sum_list (counts p'))"
  using assms by (simp add: sum_list_update)

lemma relaxesI:
  assumes "\<And>p. f p = None \<Longrightarrow> counts p ! i = 0"
    and "\<And>p p'. f p = Some p' \<Longrightarrow>
      counts p = (counts p')[i := Suc (counts p' ! i)] \<and> i < length (counts p') \<and> keeps_hard p p'"
  shows "relaxes counts i f"
  unfolding relaxes_def by (simp add: assms split: option.split)

lemma relaxesD:
  "relaxes counts i f \<Longrightarrow> f p = None \<Longrightarrow> counts p ! i = 0"
  "relaxes counts i f \<Longrightarrow> f p = Some p' \<Longrightarrow> sum_list (counts p) = Suc (sum_list (counts p')) \<and> keeps_hard p p'"
  unfolding relaxes_def using relaxes_sum[of counts p p' i]
  by (auto dest!: spec[of _ p])

lemma first_relaxation_spec:
  assumes "\<forall>(i, f) \<in> set fs. relaxes counts i f"
  shows "case first_relaxation (map snd fs) p of
      None \<Rightarrow> \<forall>(i, f) \<in> set fs. counts p ! i = 0
    | Some p' \<Rightarrow> sum_list (counts p) = Suc (sum_list (counts p')) \<and> keeps_hard p p'"
  using assms
proof (induction fs)
  case (Cons e fs)
  obtain i f where e: "e = (i, f)" by (cases e)
  then have f: "relaxes counts i f" using Cons.prems by auto
  show ?case
  proof (cases "f p")
    case None
    with relaxesD(1)[OF f None] Cons show ?thesis
      by (cases "first_relaxation (map snd fs) p") (simp_all add: e)
  next
    case (Some p')
    with relaxesD(2)[OF f Some] show ?thesis by (simp add: e)
  qed
qed simp

text \<open>Removing a required alternative, a preferred term of either kind, or adding the toleration.\<close>

abbreviation same_pod_terms :: "(Affinity \<Rightarrow> PodAffinity option) \<Rightarrow> Pod \<Rightarrow> Pod \<Rightarrow> bool" where
  "same_pod_terms f p p' \<equiv> preferred_pod_terms f p' = preferred_pod_terms f p \<and> required_pod_terms f p' = required_pod_terms f p"

lemma removeRequired_spec:
  "(case removeRequiredNodeAffinityTerm p of
      None \<Rightarrow> length (required_alternatives p) \<le> 1
    | Some p' \<Rightarrow> (\<exists>a. p' = p\<lparr>podAffinities := a\<rparr>) \<and> length (required_alternatives p) > 1 \<and>
        required_alternatives p' = drop 1 (required_alternatives p) \<and>
        preferred_node_terms p' = preferred_node_terms p \<and>
        same_pod_terms podAffinity p p' \<and> same_pod_terms podAntiAffinity p p')"
  by (auto simp: removeRequiredNodeAffinityTerm_def soft_defs drop_Suc split: option.splits)

lemma removePreferredNode_spec:
  "(case removePreferredNodeAffinityTerm p of
      None \<Rightarrow> preferred_node_terms p = []
    | Some p' \<Rightarrow> (\<exists>a. p' = p\<lparr>podAffinities := a\<rparr>) \<and> required_alternatives p' = required_alternatives p \<and>
        length (preferred_node_terms p) = Suc (length (preferred_node_terms p')) \<and>
        same_pod_terms podAffinity p p' \<and> same_pod_terms podAntiAffinity p p')"
  by (auto simp: removePreferredNodeAffinityTerm_def soft_defs split: option.splits)

lemma removePreferredPodAffinity_spec:
  "(case removePreferredPodAffinityTerm p of
      None \<Rightarrow> preferred_pod_terms podAffinity p = []
    | Some p' \<Rightarrow> (\<exists>a. p' = p\<lparr>podAffinities := a\<rparr>) \<and> required_alternatives p' = required_alternatives p \<and>
        preferred_node_terms p' = preferred_node_terms p \<and>
        length (preferred_pod_terms podAffinity p) = Suc (length (preferred_pod_terms podAffinity p')) \<and>
        required_pod_terms podAffinity p' = required_pod_terms podAffinity p \<and> same_pod_terms podAntiAffinity p p')"
  by (auto simp: removePreferredPodAffinityTerm_def drop_preferred_pod_term_def soft_defs split: option.splits)

lemma removePreferredPodAntiAffinity_spec:
  "(case removePreferredPodAntiAffinityTerm p of
      None \<Rightarrow> preferred_pod_terms podAntiAffinity p = []
    | Some p' \<Rightarrow> (\<exists>a. p' = p\<lparr>podAffinities := a\<rparr>) \<and> required_alternatives p' = required_alternatives p \<and>
        preferred_node_terms p' = preferred_node_terms p \<and>
        length (preferred_pod_terms podAntiAffinity p) = Suc (length (preferred_pod_terms podAntiAffinity p')) \<and>
        required_pod_terms podAntiAffinity p' = required_pod_terms podAntiAffinity p \<and> same_pod_terms podAffinity p p')"
  by (auto simp: removePreferredPodAntiAffinityTerm_def drop_preferred_pod_term_def soft_defs split: option.splits)

lemma affinity_relaxed:
  assumes "\<exists>a. p' = p\<lparr>podAffinities := a\<rparr>" "required_alternatives p' = drop k (required_alternatives p)"
    and "required_alternatives p' = [] \<longleftrightarrow> required_alternatives p = []"
    and "required_pod_terms podAffinity p' = required_pod_terms podAffinity p"
    and "required_pod_terms podAntiAffinity p' = required_pod_terms podAntiAffinity p"
  shows "keeps_hard p p' \<and> soft_spread p' = soft_spread p \<and> podTolerations p' = podTolerations p"
proof -
  obtain a where a: "p' = p\<lparr>podAffinities := a\<rparr>" using assms(1) by blast
  have "keeps_hard p p'"
    unfolding keeps_hard_def using assms(2-5) by (intro conjI exI[of _ k]) (simp_all add: a hard_spread_def)
  then show ?thesis by (simp add: a soft_spread_def)
qed

lemma relaxes_required: "relaxes (soft_counts m b) 0 removeRequiredNodeAffinityTerm"
proof (rule relaxesI)
  fix p p'
  assume s: "removeRequiredNodeAffinityTerm p = Some p'"
  note r = removeRequired_spec[of p, unfolded s option.case]
  have "keeps_hard p p' \<and> soft_spread p' = soft_spread p \<and> podTolerations p' = podTolerations p"
    by (rule affinity_relaxed[of p' p 1]) (use r in auto)
  then show "soft_counts m b p = (soft_counts m b p')[0 := Suc (soft_counts m b p' ! 0)] \<and>
      0 < length (soft_counts m b p') \<and> keeps_hard p p'"
    using r by (simp add: soft_counts_def Suc_diff_Suc)
next
  fix p
  assume "removeRequiredNodeAffinityTerm p = None"
  then show "soft_counts m b p ! 0 = 0" using removeRequired_spec[of p] by (simp add: soft_counts_def)
qed

lemma relaxes_preferred_pod: "relaxes (soft_counts m b) 1 removePreferredPodAffinityTerm"
proof (rule relaxesI)
  fix p p'
  assume s: "removePreferredPodAffinityTerm p = Some p'"
  note r = removePreferredPodAffinity_spec[of p, unfolded s option.case]
  have "keeps_hard p p' \<and> soft_spread p' = soft_spread p \<and> podTolerations p' = podTolerations p"
    by (rule affinity_relaxed[of p' p 0]) (use r in auto)
  then show "soft_counts m b p = (soft_counts m b p')[1 := Suc (soft_counts m b p' ! 1)] \<and>
      1 < length (soft_counts m b p') \<and> keeps_hard p p'"
    using r by (simp add: soft_counts_def)
next
  fix p
  assume "removePreferredPodAffinityTerm p = None"
  then show "soft_counts m b p ! 1 = 0" using removePreferredPodAffinity_spec[of p] by (simp add: soft_counts_def)
qed

lemma relaxes_preferred_anti: "relaxes (soft_counts m b) 2 removePreferredPodAntiAffinityTerm"
proof (rule relaxesI)
  fix p p'
  assume s: "removePreferredPodAntiAffinityTerm p = Some p'"
  note r = removePreferredPodAntiAffinity_spec[of p, unfolded s option.case]
  have "keeps_hard p p' \<and> soft_spread p' = soft_spread p \<and> podTolerations p' = podTolerations p"
    by (rule affinity_relaxed[of p' p 0]) (use r in auto)
  then show "soft_counts m b p = (soft_counts m b p')[2 := Suc (soft_counts m b p' ! 2)] \<and>
      2 < length (soft_counts m b p') \<and> keeps_hard p p'"
    using r by (simp add: soft_counts_def)
next
  fix p
  assume "removePreferredPodAntiAffinityTerm p = None"
  then show "soft_counts m b p ! 2 = 0" using removePreferredPodAntiAffinity_spec[of p] by (simp add: soft_counts_def)
qed

lemma relaxes_preferred_node: "relaxes (soft_counts m b) 3 removePreferredNodeAffinityTerm"
proof (rule relaxesI)
  fix p p'
  assume s: "removePreferredNodeAffinityTerm p = Some p'"
  note r = removePreferredNode_spec[of p, unfolded s option.case]
  have "keeps_hard p p' \<and> soft_spread p' = soft_spread p \<and> podTolerations p' = podTolerations p"
    by (rule affinity_relaxed[of p' p 0]) (use r in auto)
  then show "soft_counts m b p = (soft_counts m b p')[3 := Suc (soft_counts m b p' ! 3)] \<and>
      3 < length (soft_counts m b p') \<and> keeps_hard p p'"
    using r by (simp add: soft_counts_def)
next
  fix p
  assume "removePreferredNodeAffinityTerm p = None"
  then show "soft_counts m b p ! 3 = 0" using removePreferredNode_spec[of p] by (simp add: soft_counts_def)
qed

lemma terms_same_affinity:
  assumes "podAffinities p' = podAffinities p"
  shows "required_alternatives p' = required_alternatives p" "preferred_node_terms p' = preferred_node_terms p"
    "preferred_pod_terms f p' = preferred_pod_terms f p" "required_pod_terms f p' = required_pod_terms f p"
  using assms by (simp_all add: soft_defs)

lemma relaxes_spread: "relaxes (soft_counts m b) 4 removeTopologySpreadScheduleAnyway"
proof (rule relaxesI)
  fix p p'
  assume s: "removeTopologySpreadScheduleAnyway p = Some p'"
  note r = removeTopologySpread_Some[OF s]
  then obtain cs where cs: "p' = p\<lparr>podSpread := cs\<rparr>" by blast
  then have a: "podAffinities p' = podAffinities p" "podTolerations p' = podTolerations p" by simp_all
  have "keeps_hard p p'" unfolding keeps_hard_def terms_same_affinity[OF a(1)]
    using r(2) by (intro conjI exI[of _ "0::nat"]) (simp_all add: cs)
  then show "soft_counts m b p = (soft_counts m b p')[4 := Suc (soft_counts m b p' ! 4)] \<and>
      4 < length (soft_counts m b p') \<and> keeps_hard p p'"
    using r(1) terms_same_affinity[OF a(1)] a(2) by (simp add: soft_counts_def)
next
  fix p
  assume "removeTopologySpreadScheduleAnyway p = None"
  then show "soft_counts m b p ! 4 = 0" by (simp add: soft_counts_def removeTopologySpread_None)
qed

lemma relaxes_toleration:
  assumes "m prefer_no_schedule_toleration prefer_no_schedule_toleration"
  shows "relaxes (soft_counts m True) 5 (toleratePreferNoScheduleTaints m)"
proof (rule relaxesI)
  fix p p'
  assume s: "toleratePreferNoScheduleTaints m p = Some p'"
  then have r: "p' = p\<lparr>podTolerations := podTolerations p @ [prefer_no_schedule_toleration]\<rparr>"
      "\<not> list_ex (\<lambda>t. m t prefer_no_schedule_toleration) (podTolerations p)"
    by (auto simp: toleratePreferNoScheduleTaints_def split: if_splits)
  then have a: "podAffinities p' = podAffinities p" "podSpread p' = podSpread p" by simp_all
  have "keeps_hard p p'" unfolding keeps_hard_def terms_same_affinity[OF a(1)]
    by (intro conjI exI[of _ "0::nat"]) (auto simp: r(1) hard_spread_def)
  then show "soft_counts m True p = (soft_counts m True p')[5 := Suc (soft_counts m True p' ! 5)] \<and>
      5 < length (soft_counts m True p') \<and> keeps_hard p p'"
    using r assms terms_same_affinity[OF a(1)] by (simp add: soft_counts_def soft_spread_def)
next
  fix p
  assume "toleratePreferNoScheduleTaints m p = None"
  then show "soft_counts m True p ! 5 = 0"
    by (simp add: toleratePreferNoScheduleTaints_def soft_counts_def split: if_splits)
qed

lemma Relax_step:
  assumes "m prefer_no_schedule_toleration prefer_no_schedule_toleration"
  shows "case Relax m b p of
      None \<Rightarrow> soft_constraints m b p = 0
    | Some p' \<Rightarrow> soft_constraints m b p = Suc (soft_constraints m b p') \<and> keeps_hard p p'"
proof -
  let ?fs = "[(0::nat, removeRequiredNodeAffinityTerm), (1, removePreferredPodAffinityTerm),
    (2, removePreferredPodAntiAffinityTerm), (3, removePreferredNodeAffinityTerm),
    (4, removeTopologySpreadScheduleAnyway)] @ (if b then [(5, toleratePreferNoScheduleTaints m)] else [])"
  have "\<forall>(i, f) \<in> set ?fs. relaxes (soft_counts m b) i f"
    using relaxes_required relaxes_preferred_pod relaxes_preferred_anti relaxes_preferred_node relaxes_spread
      relaxes_toleration[of m, OF assms] by simp
  note spec = first_relaxation_spec[OF this, of p]
  have "map snd ?fs = [removeRequiredNodeAffinityTerm, removePreferredPodAffinityTerm,
      removePreferredPodAntiAffinityTerm, removePreferredNodeAffinityTerm, removeTopologySpreadScheduleAnyway] @
      (if b then [toleratePreferNoScheduleTaints m] else [])" by simp
  then have r: "Relax m b p = first_relaxation (map snd ?fs) p" by (simp only: Relax_def)
  show ?thesis
  proof (cases "Relax m b p")
    case None
    then have "\<forall>(i, f) \<in> set ?fs. soft_counts m b p ! i = 0" using spec unfolding r by simp
    then have "soft_counts m b p = [0, 0, 0, 0, 0, 0]" by (cases b) (simp_all add: soft_counts_def)
    then show ?thesis using None by (simp add: soft_constraints_def)
  next
    case (Some p')
    then show ?thesis using spec unfolding r soft_constraints_def by simp
  qed
qed

section \<open>Relaxing again and again\<close>

fun relax_times :: "(Toleration \<Rightarrow> Toleration \<Rightarrow> bool) \<Rightarrow> bool \<Rightarrow> nat \<Rightarrow> Pod \<Rightarrow> Pod option" where
  "relax_times m b 0 p = Some p"
| "relax_times m b (Suc n) p = Option.bind (Relax m b p) (relax_times m b n)"

lemma keeps_hard_refl: "keeps_hard p p"
  unfolding keeps_hard_def by (intro conjI exI[of _ "0::nat"]) simp_all

lemma keeps_hard_trans:
  assumes "keeps_hard p q" "keeps_hard q r"
  shows "keeps_hard p r"
proof -
  obtain j k where "required_alternatives q = drop j (required_alternatives p)"
      "required_alternatives r = drop k (required_alternatives q)"
    using assms unfolding keeps_hard_def by blast
  then have "required_alternatives r = drop (k + j) (required_alternatives p)" by (simp add: add.commute)
  then show ?thesis using assms unfolding keeps_hard_def by (intro conjI exI[of _ "k + j"]) auto
qed

text \<open>
  C34. Relaxation ends. A pod can be relaxed exactly as many times as it has soft constraints: one
  for every required node affinity alternative but the last, every preferred term of pod affinity,
  pod anti-affinity and node affinity, every spread constraint that may be violated, and the missing
  toleration of PreferNoSchedule taints where it applies. At every stage the node selector, the
  required pod affinity and anti-affinity terms and the spread constraints that must hold are the
  pod's own, and required node affinity keeps at least one of its alternatives.
\<close>

theorem relaxation_exact:
  assumes "matchToleration prefer_no_schedule_toleration prefer_no_schedule_toleration"
  shows "if n \<le> soft_constraints matchToleration tolerate p
    then \<exists>p'. relax_times matchToleration tolerate n p = Some p' \<and> keeps_hard p p' \<and>
       soft_constraints matchToleration tolerate p' = soft_constraints matchToleration tolerate p - n
    else relax_times matchToleration tolerate n p = None"
proof (induction n arbitrary: p)
  case 0
  then show ?case using keeps_hard_refl by simp
next
  case (Suc n)
  note step = Relax_step[of matchToleration tolerate p, OF assms]
  show ?case
  proof (cases "Relax matchToleration tolerate p")
    case None
    then show ?thesis using step by simp
  next
    case (Some q)
    then have q: "soft_constraints matchToleration tolerate p = Suc (soft_constraints matchToleration tolerate q)"
        "keeps_hard p q"
      using step by simp_all
    show ?thesis using Suc.IH[of q] q keeps_hard_trans[OF q(2)] Some by (auto split: if_splits)
  qed
qed

text \<open>A pod with two alternatives, of which one is required, and a spread constraint that may be violated.\<close>

definition soft_pod :: Pod where
  "soft_pod = (bare_pod ''p'')\<lparr>
     podAffinities := Some \<lparr>nodeAffinity = Some \<lparr>naRequired = Some [[], []], naPreferred = []\<rparr>,
       podAffinity = None, podAntiAffinity = None\<rparr>,
     podSpread := [\<lparr>tscMaxSkew = 1, tscTopologyKey = ''zone'', tscWhenUnsatisfiable = ScheduleAnyway,
       tscLabelSelector = None, tscMinDomains = None, tscNodeTaintsPolicy = None, tscNodeAffinityPolicy = None,
       tscMatchLabelKeys = []\<rparr>]\<rparr>"

theorem relaxation_exact_witness:
  "soft_constraints (=) True soft_pod = 3 \<and>
   (\<exists>p'. relax_times (=) True 3 soft_pod = Some p' \<and> keeps_hard soft_pod p' \<and> soft_constraints (=) True p' = 0) \<and>
   relax_times (=) True 4 soft_pod = None"
proof -
  have n: "soft_constraints (=) True soft_pod = 3"
    by (simp add: soft_constraints_def soft_counts_def soft_defs soft_pod_def bare_pod_def)
  show ?thesis
    using relaxation_exact[of "(=)" 3 True soft_pod] relaxation_exact[of "(=)" 4 True soft_pod] n by simp
qed

end
