(* ===== verification/DaemonOverhead.thy ===== *)
theory DaemonOverhead
  imports NodePools Preferences Pods HostPort
begin

text \<open>
  What a planned node must reserve for daemon pods
  (\<^verbatim>\<open>pkg/controllers/provisioning/scheduling/daemonoverhead.go\<close> and the grouping of instance types by
  overhead in \<^verbatim>\<open>scheduler.go\<close>). Functions that build requirements of a pod return None where the
  constructor of a requirement panics.
\<close>

record daemon_env =
  deLabels :: label_env
  deTolerates :: "Toleration \<Rightarrow> Taint \<Rightarrow> bool"
  deMatchToleration :: "Toleration \<Rightarrow> Toleration \<Rightarrow> bool"
  deSortSlice :: "PreferredSchedulingTerm list \<Rightarrow> PreferredSchedulingTerm list"
  deIgnoreDRA :: bool

datatype labelValue = Value string | Absent

definition daemonOverheadRealizationLimit :: nat where "daemonOverheadRealizationLimit = 4096"

section \<open>The overhead of a candidate\<close>

definition candidateRequirements :: "label_env \<Rightarrow> 'q NodeClaimTemplate \<Rightarrow> 'q InstanceType \<Rightarrow> requirements" where
  "candidateRequirements E nct it =
     Requirements_Add E (NewRequirements E (Requirements_Values (nctRequirements nct)))
       (Requirements_Values (itRequirements it))"

text \<open>The node selection alternatives of a pod: its node selector with each required term.\<close>

definition term_alternative :: "label_env \<Rightarrow> requirements \<Rightarrow> NodeSelectorRequirement list \<Rightarrow> requirements option" where
  "term_alternative E labels trm =
     map_option (\<lambda>q. Requirements_Add E (NewRequirements E (Requirements_Values labels)) (Requirements_Values q))
       (NewNodeSelectorRequirements E trm)"

definition daemonAlternatives :: "daemon_env \<Rightarrow> requirements \<Rightarrow> Pod \<Rightarrow> requirements list option" where
  "daemonAlternatives DE candidate p =
     (let E = deLabels DE in
      case NewLabelRequirements E (podNodeSelector p) of
        None \<Rightarrow> None
      | Some labels \<Rightarrow>
          (let terms = required_alternatives p in
           if terms = [] then Some [labels]
           else
             (case those (map (term_alternative E labels) terms) of
                None \<Rightarrow> None
              | Some built \<Rightarrow>
                  (let alternatives = filter (IsCompatible E (WellKnownLabels E) candidate) built in
                   if alternatives = [] then map_option (\<lambda>r. [r]) (NewStrictPodRequirements E (deSortSlice DE) p)
                   else Some alternatives))))"

definition hasNumericBounds :: "requirement \<Rightarrow> bool" where
  "hasNumericBounds req \<longleftrightarrow> nsOperator (toNodeSelectorRequirement req) \<in> {OpGte, OpLte}"

definition requirements_for :: "string \<Rightarrow> requirements list \<Rightarrow> requirement list" where
  "requirements_for key daemonRequirements = List.map_filter (\<lambda>reqs. map_of reqs key) daemonRequirements"

definition partitioningLabelKeys :: "requirements list \<Rightarrow> string list" where
  "partitioningLabelKeys daemonRequirements =
     filter (\<lambda>key. let reqs = requirements_for key daemonRequirements in
               list_ex (\<lambda>req. \<not> SubsetOf req (hd reqs) \<or> \<not> SubsetOf (hd reqs) req) reqs)
       (sorted_list_of_set (\<Union>reqs \<in> set daemonRequirements. set (map fst reqs)))"

definition candidateAllowsAbsent :: "label_env \<Rightarrow> string \<Rightarrow> requirements \<Rightarrow> bool" where
  "candidateAllowsAbsent E key candidate =
     (if \<not> Requirements_Has candidate key then key \<notin> set (WellKnownLabels E)
      else Requirement_Operator (Requirements_Get E candidate key) \<in> {OpNotIn, OpDoesNotExist})"

definition other_value :: string where "other_value = CHR 0x00 # ''other''"

text \<open>The values the daemon pods name for a key that the candidate permits.\<close>

definition named_values :: "label_env \<Rightarrow> string \<Rightarrow> requirements \<Rightarrow> requirements list \<Rightarrow> string set" where
  "named_values E key candidate dreqs =
     {v \<in> (\<Union>r \<in> set (requirements_for key dreqs). rvalues r). Requirement_Has (Requirements_Get E candidate key) v}"

definition realizationDomain :: "label_env \<Rightarrow> string \<Rightarrow> requirements \<Rightarrow> requirements list \<Rightarrow> labelValue list" where
  "realizationDomain E key candidate daemonRequirements =
     (let candidateReq = Requirements_Get E candidate key;
          reqs = requirements_for key daemonRequirements
      in if hasNumericBounds candidateReq then []
         else if list_ex hasNumericBounds reqs then []
         else
           (let named = named_values E key candidate daemonRequirements;
                domain = map Value (sorted_list_of_set named);
                other = (case Requirement_Operator candidateReq of
                           OpIn \<Rightarrow> (case find (\<lambda>v. v \<notin> named) (sorted_list_of_set (rvalues candidateReq)) of
                                      Some v \<Rightarrow> [Value v] | None \<Rightarrow> [])
                         | OpNotIn \<Rightarrow> [Value other_value]
                         | OpExists \<Rightarrow> [Value other_value]
                         | _ \<Rightarrow> [])
            in domain @ other @ (if candidateAllowsAbsent E key candidate then [Absent] else [])))"

definition accepts_value :: "requirement \<Rightarrow> labelValue \<Rightarrow> bool" where
  "accepts_value req lv =
     (case lv of
        Absent \<Rightarrow> Requirement_Operator req \<in> {OpNotIn, OpDoesNotExist}
      | Value v \<Rightarrow> Requirement_Has req v)"

definition acceptsRealization :: "requirements \<Rightarrow> string list \<Rightarrow> labelValue list \<Rightarrow> bool" where
  "acceptsRealization reqs keys realization =
     list_all (\<lambda>(key, lv). case map_of reqs key of None \<Rightarrow> True | Some req \<Rightarrow> accepts_value req lv)
       (zip keys realization)"

text \<open>The keys with their domains; None where there are too many realizations.\<close>

fun enumerated_keys ::
  "label_env \<Rightarrow> requirements \<Rightarrow> requirements list \<Rightarrow> string list \<Rightarrow> nat \<Rightarrow> (string \<times> labelValue list) list option" where
  "enumerated_keys E candidate dreqs [] realizations = Some []"
| "enumerated_keys E candidate dreqs (key # ks) realizations =
     (let domain = realizationDomain E key candidate dreqs in
      if domain = [] then enumerated_keys E candidate dreqs ks realizations
      else
        (let realizations' = realizations * length domain in
         if realizations' > daemonOverheadRealizationLimit then None
         else map_option ((#) (key, domain)) (enumerated_keys E candidate dreqs ks realizations')))"

definition accepted_pods :: "(Pod \<times> requirements list) list \<Rightarrow> string list \<Rightarrow> labelValue list \<Rightarrow> Pod list" where
  "accepted_pods pods keys realization =
     map fst (filter (\<lambda>(_, alts). list_ex (\<lambda>alt. acceptsRealization alt keys realization) alts) pods)"

primrec walk ::
  "labelValue list list \<Rightarrow> (labelValue list \<Rightarrow> 'q::linordered_ab_group_add ResourceList option) \<Rightarrow> labelValue list \<Rightarrow>
   'q ResourceList \<Rightarrow> 'q ResourceList" where
  "walk [] requested realization overhead =
     (case requested realization of None \<Rightarrow> overhead | Some r \<Rightarrow> MaxResources [overhead, r])"
| "walk (d # ds) requested realization overhead =
     foldl (\<lambda>ov v. walk ds requested (realization @ [v]) ov) overhead d"

definition computeDaemonOverhead ::
  "daemon_env \<Rightarrow> (Pod list \<Rightarrow> 'q::linordered_ab_group_add ResourceList) \<Rightarrow> requirements \<Rightarrow> Pod list \<Rightarrow>
   ('q ResourceList \<times> bool) option" where
  "computeDaemonOverhead DE requestsForPods candidate daemonPods =
     (if daemonPods = [] then Some ([], False)
      else
        (case those (map (daemonAlternatives DE candidate) daemonPods) of
           None \<Rightarrow> None
         | Some alternatives \<Rightarrow>
             (let dreqs = concat alternatives in
              case enumerated_keys (deLabels DE) candidate dreqs (partitioningLabelKeys dreqs) 1 of
                None \<Rightarrow> Some (requestsForPods daemonPods, True)
              | Some kds \<Rightarrow>
                  if kds = [] then Some (requestsForPods daemonPods, False)
                  else
                    Some (walk (map snd kds)
                      (\<lambda>realization.
                        let accepted = accepted_pods (zip daemonPods alternatives) (map fst kds) realization in
                        if accepted \<noteq> [] then Some (requestsForPods accepted) else None) [] [], False))))"

section \<open>Maxima of resource lists\<close>

definition nonneg :: "'q::linordered_ab_group_add ResourceList \<Rightarrow> bool" where
  "nonneg l \<longleftrightarrow> wf_map l \<and> (\<forall>k. 0 \<le> qty l k)"

definition max_into :: "'q::linordered_ab_group_add ResourceList \<Rightarrow> 'q ResourceList \<Rightarrow> 'q ResourceList" where
  "max_into acc l = foldl (\<lambda>result (name, quantity).
     if (case map_of result name of None \<Rightarrow> True | Some v \<Rightarrow> quantity > v)
     then mput name quantity result else result) acc l"

lemma MaxResources_pair: "MaxResources [a, b] = max_into (max_into [] a) b"
  by (simp add: MaxResources_def max_into_def)

lemma max_into_Cons:
  "max_into acc ((j, v) # l) =
     max_into (if (case map_of acc j of None \<Rightarrow> True | Some w \<Rightarrow> v > w) then mput j v acc else acc) l"
  by (simp add: max_into_def)

lemma map_of_max_into:
  "wf_map l \<Longrightarrow> map_of (max_into acc l) k =
     (case map_of l k of None \<Rightarrow> map_of acc k
      | Some v \<Rightarrow> (case map_of acc k of None \<Rightarrow> Some v | Some w \<Rightarrow> Some (max v w)))"
proof (induction l arbitrary: acc)
  case Nil
  then show ?case by (simp add: max_into_def)
next
  case (Cons e l)
  obtain j v where e: "e = (j, v)" by (cases e)
  have fresh: "map_of l j = None" using Cons.prems by (simp add: e map_of_eq_None_iff)
  show ?case using Cons fresh
    by (auto simp: e max_into_Cons gomap_simps max_def split: option.splits)
qed

lemma wf_max_into: "wf_map acc \<Longrightarrow> wf_map (max_into acc l)"
proof (induction l arbitrary: acc)
  case Nil
  then show ?case by (simp add: max_into_def)
next
  case (Cons e l)
  then show ?case by (cases e) (simp add: max_into_Cons wf_intros)
qed

lemma max_into_nonneg:
  assumes "nonneg acc" "nonneg l"
  shows "nonneg (max_into acc l)" "qty acc k \<le> qty (max_into acc l) k" "qty l k \<le> qty (max_into acc l) k"
proof -
  have wf: "wf_map l" "wf_map acc" using assms by (simp_all add: nonneg_def)
  have pos: "0 \<le> qty acc k" "0 \<le> qty l k" for k using assms by (simp_all add: nonneg_def)
  have eq: "qty (max_into acc l) k = max (qty acc k) (qty l k)" for k
    using pos[of k] by (auto simp: mget_def map_of_max_into[OF wf(1)] max_def split: option.splits)
  show "nonneg (max_into acc l)" using pos wf by (auto simp: nonneg_def eq wf_max_into le_max_iff_disj)
  show "qty acc k \<le> qty (max_into acc l) k" "qty l k \<le> qty (max_into acc l) k" by (simp_all add: eq)
qed

lemma nonneg_Nil [simp]: "nonneg []"
  by (simp add: nonneg_def mget_def)

lemma MaxResources_upper:
  assumes "nonneg a" "nonneg b"
  shows "nonneg (MaxResources [a, b])" "qty a k \<le> qty (MaxResources [a, b]) k" "qty b k \<le> qty (MaxResources [a, b]) k"
  unfolding MaxResources_pair
  using max_into_nonneg[OF nonneg_Nil assms(1)] max_into_nonneg[OF max_into_nonneg(1)[OF nonneg_Nil assms(1)] assms(2)]
    order_trans by blast+

section \<open>The walk reaches every realization\<close>

lemma foldl_upper:
  assumes "\<And>ov v. v \<in> set d \<Longrightarrow> nonneg ov \<Longrightarrow> nonneg (f ov v) \<and> (\<forall>k. qty ov k \<le> qty (f ov v) k)"
    and "nonneg ov"
  shows "nonneg (foldl f ov d) \<and> (\<forall>k. qty ov k \<le> qty (foldl f ov d) k)"
  using assms
proof (induction d arbitrary: ov)
  case (Cons v d)
  have v: "nonneg (f ov v) \<and> (\<forall>k. qty ov k \<le> qty (f ov v) k)" using Cons.prems by simp
  have "nonneg (foldl f (f ov v) d) \<and> (\<forall>k. qty (f ov v) k \<le> qty (foldl f (f ov v) d) k)"
    using Cons.prems v by (intro Cons.IH) auto
  then show ?case using v order_trans by (metis foldl_Cons)
qed simp

lemma foldl_member_upper:
  assumes "\<And>ov v. v \<in> set d \<Longrightarrow> nonneg ov \<Longrightarrow> nonneg (f ov v) \<and> (\<forall>k. qty ov k \<le> qty (f ov v) k)"
    and "nonneg ov" "v \<in> set d" "\<And>ov. nonneg ov \<Longrightarrow> x \<le> qty (f ov v) k"
  shows "x \<le> qty (foldl f ov d) k"
proof -
  obtain d1 d2 where d: "d = d1 @ v # d2" using split_list[OF assms(3)] by blast
  have a: "nonneg (foldl f ov d1)" using foldl_upper[of d1 f ov] assms(1,2) d by auto
  have b: "nonneg (f (foldl f ov d1) v)" using assms(1)[of v] a d by simp
  have "x \<le> qty (f (foldl f ov d1) v) k" using assms(4) a by blast
  also have "\<dots> \<le> qty (foldl f (f (foldl f ov d1) v) d2) k"
    using foldl_upper[of d2 f "f (foldl f ov d1) v"] assms(1) b d by auto
  finally show ?thesis by (simp add: d)
qed

lemma walk_upper:
  assumes "\<And>rl r. requested rl = Some r \<Longrightarrow> nonneg r" "nonneg ov"
  shows "nonneg (walk ds requested pre ov) \<and> (\<forall>k. qty ov k \<le> qty (walk ds requested pre ov) k)"
  using assms(2)
proof (induction ds arbitrary: pre ov)
  case Nil
  then show ?case using assms(1) MaxResources_upper[of ov] by (auto split: option.splits)
next
  case (Cons d ds)
  show ?case unfolding walk.simps by (rule foldl_upper) (use Cons in auto)
qed

lemma walk_reaches:
  assumes "\<And>rl r. requested rl = Some r \<Longrightarrow> nonneg r" "nonneg ov"
    and "list_all2 (\<lambda>v d. v \<in> set d) rl ds" "requested (pre @ rl) = Some r"
  shows "qty r k \<le> qty (walk ds requested pre ov) k"
  using assms(2-4)
proof (induction ds arbitrary: pre ov rl)
  case Nil
  then show ?case using assms(1)[OF Nil(3)] MaxResources_upper(3)[of ov r] by simp
next
  case (Cons d ds)
  obtain v rl' where rl: "rl = v # rl'" "v \<in> set d" "list_all2 (\<lambda>v d. v \<in> set d) rl' ds"
    using Cons.prems(2) by (auto simp: list_all2_Cons2)
  show ?case unfolding walk.simps
  proof (rule foldl_member_upper[where v = v])
    fix ov :: "'a ResourceList" and w assume "nonneg ov"
    then show "nonneg (walk ds requested (pre @ [w]) ov) \<and>
        (\<forall>k. qty ov k \<le> qty (walk ds requested (pre @ [w]) ov) k)"
      using walk_upper[of requested] assms(1) by blast
  next
    fix ov :: "'a ResourceList" assume "nonneg ov"
    then show "qty r k \<le> qty (walk ds requested (pre @ [v]) ov) k"
      using Cons.IH[of ov rl' "pre @ [v]"] rl(1,3) Cons.prems(3) by simp
  qed (use Cons.prems rl in auto)
qed

section \<open>Concrete nodes\<close>

text \<open>The labels of a node, and what a node launched for a candidate carries.\<close>

definition label_of :: "(string \<Rightarrow> string option) \<Rightarrow> string \<Rightarrow> labelValue" where
  "label_of labels k = (case labels k of None \<Rightarrow> Absent | Some v \<Rightarrow> Value v)"

definition node_matches :: "(string \<Rightarrow> string option) \<Rightarrow> requirements \<Rightarrow> bool" where
  "node_matches labels rs \<longleftrightarrow> (\<forall>k r. map_of rs k = Some r \<longrightarrow> accepts_value r (label_of labels k))"

text \<open>
  A node satisfies a candidate when its labels match the candidate's requirements, the well-known
  labels are set, and no other label is set that the candidate does not mention.
\<close>

definition node_satisfies :: "label_env \<Rightarrow> requirements \<Rightarrow> (string \<Rightarrow> string option) \<Rightarrow> bool" where
  "node_satisfies E candidate labels \<longleftrightarrow> node_matches labels candidate \<and>
     (\<forall>k. map_of candidate k = None \<longrightarrow> (labels k = None \<longleftrightarrow> k \<notin> set (WellKnownLabels E)))"

text \<open>Every alternative of a pod; a node hosts the pod when it matches one of them.\<close>

definition pod_alternatives :: "label_env \<Rightarrow> Pod \<Rightarrow> requirements list" where
  "pod_alternatives E p =
     (case NewLabelRequirements E (podNodeSelector p) of
        None \<Rightarrow> []
      | Some labels \<Rightarrow>
          if required_alternatives p = [] then [labels]
          else (case those (map (term_alternative E labels) (required_alternatives p)) of None \<Rightarrow> [] | Some built \<Rightarrow> built))"

definition hosts :: "label_env \<Rightarrow> (string \<Rightarrow> string option) \<Rightarrow> Pod \<Rightarrow> bool" where
  "hosts E labels p \<longleftrightarrow> list_ex (node_matches labels) (pod_alternatives E p)"

definition sound_pod :: "Pod \<Rightarrow> bool" where
  "sound_pod p \<longleftrightarrow> (\<forall>trm \<in> set (required_alternatives p). \<forall>n \<in> set trm. sound_expr n)"

lemma absent_ok_accepts: "absent_ok r \<longleftrightarrow> accepts_value r Absent"
  by (simp add: absent_ok_def accepts_value_def)

lemma node_matchesD:
  assumes "node_matches labels rs" "map_of rs k = Some r"
  shows "labels k = None \<Longrightarrow> absent_ok r" "labels k = Some v \<Longrightarrow> Requirement_Has r v"
proof -
  have "accepts_value r (label_of labels k)" using assms by (simp add: node_matches_def)
  then show "labels k = None \<Longrightarrow> absent_ok r" "labels k = Some v \<Longrightarrow> Requirement_Has r v"
    by (simp_all add: label_of_def absent_ok_accepts) (simp add: accepts_value_def)
qed

lemma those_SomeD: "those xs = Some ys \<Longrightarrow> xs = map Some ys"
  by (induction xs arbitrary: ys) (auto split: option.splits)

lemma term_alternative_sound:
  assumes "wf_label_env E" "NormalizedLabelValues E = []" "wf_requirements E labels" "\<forall>n \<in> set trm. sound_expr n"
  shows "\<exists>alt. term_alternative E labels trm = Some alt \<and> wf_requirements E alt"
proof -
  obtain q where q: "NewNodeSelectorRequirements E trm = Some q" "wf_requirements E q"
    using NewNodeSelectorRequirements_sound[OF assms(1,2,4)] by blast
  have "wf_requirements E (NewRequirements E (Requirements_Values labels))"
    unfolding NewRequirements_def using assms(3) by (intro wf_Add wf_empty addable_Values)
  then have "wf_requirements E (Requirements_Add E (NewRequirements E (Requirements_Values labels)) (Requirements_Values q))"
    using q(2) by (intro wf_Add addable_Values)
  then show ?thesis using q(1) by (simp add: term_alternative_def)
qed

lemma pod_alternatives_wf:
  assumes "wf_label_env E" "NormalizedLabelValues E = []" "sound_pod p" "alt \<in> set (pod_alternatives E p)"
  shows "wf_requirements E alt"
proof -
  obtain labels where l: "NewLabelRequirements E (podNodeSelector p) = Some labels" "wf_requirements E labels"
    using NewLabelRequirements_sound[OF assms(1,2)] by blast
  show ?thesis
  proof (cases "required_alternatives p = []")
    case True
    then show ?thesis using assms(4) l by (simp add: pod_alternatives_def)
  next
    case False
    then obtain built where b: "those (map (term_alternative E labels) (required_alternatives p)) = Some built"
        "alt \<in> set built"
      using assms(4) l
      by (cases "those (map (term_alternative E labels) (required_alternatives p))") (auto simp: pod_alternatives_def)
    then have "Some alt \<in> set (map (term_alternative E labels) (required_alternatives p))"
      using those_SomeD by fastforce
    then obtain trm where "trm \<in> set (required_alternatives p)" "term_alternative E labels trm = Some alt" by auto
    then show ?thesis
      using term_alternative_sound[OF assms(1,2) l(2), of trm] assms(3) by (auto simp: sound_pod_def)
  qed
qed

text \<open>An alternative that matches a node of the candidate is compatible with the candidate.\<close>

lemma matching_compatible:
  assumes "wf_requirements E candidate" "wf_requirements E alt"
    and "node_satisfies E candidate labels" "node_matches labels alt"
  shows "IsCompatible E (WellKnownLabels E) candidate alt"
proof -
  have "case map_of candidate k of
      Some e \<Rightarrow> (\<exists>v. Requirement_Has e v \<and> Requirement_Has q v) \<or> absent_ok e \<and> absent_ok q
    | None \<Rightarrow> k \<in> set (WellKnownLabels E) \<or> absent_ok q" if q: "map_of alt k = Some q" for k q
  proof (cases "labels k")
    case None
    then have "absent_ok q" using node_matchesD(1)[OF assms(4) q] by blast
    moreover have "absent_ok e" if "map_of candidate k = Some e" for e
      using assms(3) node_matchesD(1)[of labels candidate k e] that None by (simp add: node_satisfies_def)
    ultimately show ?thesis by (simp split: option.split)
  next
    case (Some v)
    then have "Requirement_Has q v" using node_matchesD(2)[OF assms(4) q] by blast
    moreover have "Requirement_Has e v" if "map_of candidate k = Some e" for e
      using assms(3) node_matchesD(2)[of labels candidate k e v] that Some by (simp add: node_satisfies_def)
    moreover have "map_of candidate k = None \<Longrightarrow> k \<in> set (WellKnownLabels E)"
      using assms(3) Some by (metis node_satisfies_def option.distinct(1))
    ultimately show ?thesis by (auto split: option.split)
  qed
  then show ?thesis unfolding IsCompatible_def Compatible_Nil[OF assms(1,2)] by blast
qed

lemma hosted_alternative:
  assumes "wf_label_env E" "NormalizedLabelValues E = []" "wf_requirements E candidate" "sound_pod p"
    and "deLabels DE = E" "daemonAlternatives DE candidate p = Some alts"
    and "node_satisfies E candidate labels" "hosts E labels p"
  shows "\<exists>alt \<in> set alts. node_matches labels alt"
proof -
  obtain alt where alt: "alt \<in> set (pod_alternatives E p)" "node_matches labels alt"
    using assms(8) by (auto simp: hosts_def list_ex_iff)
  have "IsCompatible E (WellKnownLabels E) candidate alt"
    using matching_compatible[OF assms(3) _ assms(7) alt(2)] pod_alternatives_wf[OF assms(1,2,4) alt(1)] by blast
  then have "alt \<in> set alts"
    using assms(5,6) alt(1)
    by (auto simp: daemonAlternatives_def pod_alternatives_def Let_def filter_empty_conv split: option.splits if_splits)
  then show ?thesis using alt(2) by blast
qed

section \<open>A representative of every node\<close>

lemma no_bounds:
  assumes "\<not> hasNumericBounds r"
  shows "gte r = None" "lte r = None"
  using assms by (auto simp: hasNumericBounds_def toNodeSelectorRequirement_def split: option.splits if_splits)

lemma unnamed_accept:
  assumes "\<not> hasNumericBounds r" "v \<notin> rvalues r" "w \<notin> rvalues r"
  shows "Requirement_Has r v \<longleftrightarrow> Requirement_Has r w"
  using assms no_bounds[OF assms(1)] by (simp add: Requirement_Has_def)

lemma set_requirements_for: "r \<in> set (requirements_for key dreqs) \<longleftrightarrow> (\<exists>rs \<in> set dreqs. map_of rs key = Some r)"
  by (force simp: requirements_for_def map_filter_def)

lemma set_realizationDomain:
  assumes "\<forall>rs \<in> set dreqs. wf_requirements E rs" "realizationDomain E key candidate dreqs \<noteq> []"
  shows "\<not> hasNumericBounds (Requirements_Get E candidate key)"
    and "\<forall>r \<in> set (requirements_for key dreqs). \<not> hasNumericBounds r"
    and "set (realizationDomain E key candidate dreqs) = Value ` named_values E key candidate dreqs \<union>
      set (case Requirement_Operator (Requirements_Get E candidate key) of
             OpIn \<Rightarrow> (case find (\<lambda>v. v \<notin> named_values E key candidate dreqs)
                              (sorted_list_of_set (rvalues (Requirements_Get E candidate key))) of
                        Some v \<Rightarrow> [Value v] | None \<Rightarrow> [])
           | OpNotIn \<Rightarrow> [Value other_value] | OpExists \<Rightarrow> [Value other_value] | _ \<Rightarrow> []) \<union>
      (if candidateAllowsAbsent E key candidate then {Absent} else {})"
proof -
  show nb: "\<not> hasNumericBounds (Requirements_Get E candidate key)"
      "\<forall>r \<in> set (requirements_for key dreqs). \<not> hasNumericBounds r"
    using assms(2) by (auto simp: realizationDomain_def Let_def list_ex_iff split: if_splits)
  have "finite (rvalues r)" if "r \<in> set (requirements_for key dreqs)" for r
    using that assms(1) by (auto simp: set_requirements_for dest!: wf_requirementsD(3))
  then have "finite (named_values E key candidate dreqs)" by (simp add: named_values_def)
  then show "set (realizationDomain E key candidate dreqs) = Value ` named_values E key candidate dreqs \<union>
      set (case Requirement_Operator (Requirements_Get E candidate key) of
             OpIn \<Rightarrow> (case find (\<lambda>v. v \<notin> named_values E key candidate dreqs)
                              (sorted_list_of_set (rvalues (Requirements_Get E candidate key))) of
                        Some v \<Rightarrow> [Value v] | None \<Rightarrow> [])
           | OpNotIn \<Rightarrow> [Value other_value] | OpExists \<Rightarrow> [Value other_value] | _ \<Rightarrow> []) \<union>
      (if candidateAllowsAbsent E key candidate then {Absent} else {})"
    using nb by (simp add: realizationDomain_def Let_def list_ex_iff Un_assoc)
qed

text \<open>Where the node has a value no pod names, the domain has another such value.\<close>

lemma unnamed_representative:
  assumes "wf_requirements E candidate" "\<forall>rs \<in> set dreqs. wf_requirements E rs"
    and "realizationDomain E key candidate dreqs \<noteq> []"
    and "\<forall>r \<in> set (requirements_for key dreqs). other_value \<notin> rvalues r"
    and "Requirement_Has (Requirements_Get E candidate key) v" "v \<notin> named_values E key candidate dreqs"
  shows "\<exists>w. Value w \<in> set (realizationDomain E key candidate dreqs) \<and>
     (\<forall>r \<in> set (requirements_for key dreqs). w \<notin> rvalues r)"
proof -
  let ?c = "Requirements_Get E candidate key" and ?named = "named_values E key candidate dreqs"
  note D = set_realizationDomain[OF assms(2,3)]
  have wfc: "wf_requirement ?c" using assms(1) by (rule wf_Get)
  show ?thesis
  proof (cases "complement ?c")
    case True
    then have "Value other_value \<in> set (realizationDomain E key candidate dreqs)" using D(3) wfc by (auto simp: Operator_eq)
    then show ?thesis using assms(4) by blast
  next
    case False
    have v: "v \<in> rvalues ?c" using assms(5) False by (simp add: Requirement_Has_def)
    then obtain w where w: "find (\<lambda>v. v \<notin> ?named) (sorted_list_of_set (rvalues ?c)) = Some w"
      using assms(6) wfc by (cases "find (\<lambda>v. v \<notin> ?named) (sorted_list_of_set (rvalues ?c))") (auto simp: find_None_iff)
    then have "w \<in> set (sorted_list_of_set (rvalues ?c))" "w \<notin> ?named" by (auto simp: find_Some_iff)
    then have "w \<in> rvalues ?c" "w \<notin> ?named" using wfc by auto
    moreover have "Requirement_Has ?c w" using \<open>w \<in> rvalues ?c\<close> False no_bounds[OF D(1)] by (simp add: Requirement_Has_def)
    moreover have "Value w \<in> set (realizationDomain E key candidate dreqs)"
      using D(3) wfc False v w by (auto simp: Operator_eq)
    ultimately show ?thesis by (auto simp: named_values_def)
  qed
qed

lemma realization_of_key:
  assumes "wf_requirements E candidate" "\<forall>rs \<in> set dreqs. wf_requirements E rs"
    and "node_satisfies E candidate labels" "realizationDomain E key candidate dreqs \<noteq> []"
    and "\<forall>r \<in> set (requirements_for key dreqs). other_value \<notin> rvalues r"
  shows "\<exists>lv \<in> set (realizationDomain E key candidate dreqs). \<forall>r \<in> set (requirements_for key dreqs).
     accepts_value r (label_of labels key) \<longrightarrow> accepts_value r lv"
proof -
  let ?c = "Requirements_Get E candidate key" and ?D = "realizationDomain E key candidate dreqs"
  note D = set_realizationDomain[OF assms(2,4)]
  show ?thesis
  proof (cases "labels key")
    case None
    have "candidateAllowsAbsent E key candidate"
    proof (cases "map_of candidate key")
      case None
      with \<open>labels key = None\<close> assms(3) show ?thesis
        by (simp add: candidateAllowsAbsent_def Requirements_Has_def node_satisfies_def)
    next
      case (Some r)
      with \<open>labels key = None\<close> assms(3) node_matchesD(1)[of labels candidate key r] show ?thesis
        by (simp add: candidateAllowsAbsent_def Requirements_Has_def Requirements_Get_def node_satisfies_def absent_ok_def)
    qed
    then have "Absent \<in> set ?D" using D(3) by simp
    then show ?thesis using None by (intro bexI[of _ Absent]) (simp_all add: label_of_def)
  next
    case (Some v)
    have has: "Requirement_Has ?c v"
      using assms(3) node_matchesD(2)[of labels candidate key] Some
      by (auto simp: Requirements_Get_def node_satisfies_def split: option.split)
    have lab: "label_of labels key = Value v" by (simp add: label_of_def Some)
    show ?thesis
    proof (cases "v \<in> named_values E key candidate dreqs")
      case True
      then show ?thesis using D(3) lab by (intro bexI[of _ "Value v"]) simp_all
    next
      case False
      obtain w where w: "Value w \<in> set ?D" "\<forall>r \<in> set (requirements_for key dreqs). w \<notin> rvalues r"
        using unnamed_representative[OF assms(1,2,4,5) has False] by blast
      have "\<forall>r \<in> set (requirements_for key dreqs). v \<notin> rvalues r"
        using False has by (auto simp: named_values_def)
      then show ?thesis
        using w D(2) unnamed_accept[of _ v w] by (intro bexI[of _ "Value w"]) (auto simp: accepts_value_def lab)
    qed
  qed
qed

lemma enumerated_keys_domains:
  "enumerated_keys E candidate dreqs ks n = Some kds \<Longrightarrow> (k, d) \<in> set kds \<Longrightarrow>
     d = realizationDomain E k candidate dreqs \<and> d \<noteq> []"
  by (induction ks arbitrary: n kds) (auto simp: Let_def split: if_splits)

lemma realization_of_node:
  assumes "wf_requirements E candidate" "\<forall>rs \<in> set dreqs. wf_requirements E rs"
    and "node_satisfies E candidate labels" "\<forall>k. \<forall>r \<in> set (requirements_for k dreqs). other_value \<notin> rvalues r"
    and "enumerated_keys E candidate dreqs ks n = Some kds"
  shows "\<exists>rl. list_all2 (\<lambda>v d. v \<in> set d) rl (map snd kds) \<and>
     (\<forall>alt \<in> set dreqs. node_matches labels alt \<longrightarrow> acceptsRealization alt (map fst kds) rl)"
proof -
  have "\<forall>k \<in> set (map fst kds). \<exists>lv. lv \<in> set (realizationDomain E k candidate dreqs) \<and>
     (\<forall>r \<in> set (requirements_for k dreqs). accepts_value r (label_of labels k) \<longrightarrow> accepts_value r lv)"
    using realization_of_key[OF assms(1-3)] assms(4) enumerated_keys_domains[OF assms(5)] by fastforce
  from bchoice[OF this] obtain f where f: "\<forall>k \<in> set (map fst kds). f k \<in> set (realizationDomain E k candidate dreqs) \<and>
     (\<forall>r \<in> set (requirements_for k dreqs). accepts_value r (label_of labels k) \<longrightarrow> accepts_value r (f k))"
    by blast
  let ?rl = "map (\<lambda>(k, d). f k) kds"
  have "f k \<in> set d" if "(k, d) \<in> set kds" for k d
    using f that enumerated_keys_domains[OF assms(5) that] by fastforce
  then have "list_all2 (\<lambda>v d. v \<in> set d) ?rl (map snd kds)"
    by (auto simp: list_all2_map1 list_all2_map2 list_all2_same)
  moreover have "acceptsRealization alt (map fst kds) ?rl" if alt: "alt \<in> set dreqs" "node_matches labels alt" for alt
  proof -
    have "accepts_value r (f k)" if "(k, d) \<in> set kds" "map_of alt k = Some r" for k d r
    proof -
      have "r \<in> set (requirements_for k dreqs)" using alt(1) that(2) set_requirements_for by blast
      moreover have "accepts_value r (label_of labels k)" using alt(2) that(2) by (simp add: node_matches_def)
      ultimately show ?thesis using f that(1) by force
    qed
    then show ?thesis
      by (auto simp: acceptsRealization_def list_all_iff zip_map_map zip_same_conv_map split: option.split)
  qed
  ultimately show ?thesis by blast
qed

lemma qty_RequestsForPods:
  assumes "\<forall>p \<in> set ps. nonneg (requests p)"
  shows "qty (RequestsForPods requests newQuantity ps) k =
     (if k = ResourcePods then newQuantity (int (length ps)) else (\<Sum>p\<leftarrow>ps. qty (requests p) k))"
  using qty_Merge[of "map requests ps" k] assms by (auto simp: RequestsForPods_def gomap_simps nonneg_def o_def)

lemma nonneg_RequestsForPods:
  assumes "\<forall>p \<in> set ps. nonneg (requests p)" "mono newQuantity" "newQuantity 0 = 0"
  shows "nonneg (RequestsForPods requests newQuantity ps)"
proof -
  have "0 \<le> newQuantity (int (length ps))" using monoD[OF assms(2), of 0 "int (length ps)"] assms(3) by simp
  moreover have "0 \<le> (\<Sum>p\<leftarrow>ps. qty (requests p) k)" for k
    using assms(1) by (intro sum_list_nonneg) (auto simp: nonneg_def)
  moreover have "wf_map (RequestsForPods requests newQuantity ps)"
    using assms(1) wf_Merge[of "map requests ps"] by (auto simp: RequestsForPods_def nonneg_def intro!: wf_map_mput)
  ultimately show ?thesis using qty_RequestsForPods[of ps requests newQuantity] assms(1) by (simp add: nonneg_def)
qed

lemma sum_list_filter_mono:
  fixes f :: "'a \<Rightarrow> 'q::linordered_ab_group_add"
  assumes "\<forall>x \<in> set xs. 0 \<le> f x" "\<forall>x \<in> set xs. P x \<longrightarrow> Q x"
  shows "(\<Sum>x\<leftarrow>filter P xs. f x) \<le> (\<Sum>x\<leftarrow>filter Q xs. f x)"
  using assms by (induction xs) (auto intro: add_mono add_increasing)

lemma RequestsForPods_mono:
  assumes "\<forall>p \<in> set ps. nonneg (requests p)" "mono newQuantity" "length alts = length ps"
    and "\<forall>(p, a) \<in> set (zip ps alts). P p \<longrightarrow> Q (p, a)"
  shows "qty (RequestsForPods requests newQuantity (filter P ps)) k \<le>
     qty (RequestsForPods requests newQuantity (map fst (filter Q (zip ps alts)))) k"
proof -
  let ?zs = "zip ps alts"
  have eq: "filter P ps = map fst (filter (\<lambda>z. P (fst z)) ?zs)"
    using assms(3) by (simp add: map_fst_zip filter_map[of P fst ?zs, unfolded o_def, symmetric])
  have imp: "\<forall>z \<in> set ?zs. P (fst z) \<longrightarrow> Q z" using assms(4) by auto
  have nn: "\<forall>p \<in> set (map fst (filter R ?zs)). nonneg (requests p)" for R
    using assms(1) by (auto dest: set_zip_leftD)
  have "int (length (map fst (filter (\<lambda>z. P (fst z)) ?zs))) \<le> int (length (map fst (filter Q ?zs)))"
    using sum_list_filter_mono[of ?zs "\<lambda>_. 1::int" "\<lambda>z. P (fst z)" Q] imp
    by (simp add: sum_list_triv)
  moreover have "0 \<le> qty (requests (fst z)) k" if "z \<in> set ?zs" for z
    using assms(1) that by (cases z) (auto simp: nonneg_def dest: set_zip_leftD)
  then have "(\<Sum>p\<leftarrow>map fst (filter (\<lambda>z. P (fst z)) ?zs). qty (requests p) k) \<le>
      (\<Sum>p\<leftarrow>map fst (filter Q ?zs). qty (requests p) k)"
    using sum_list_filter_mono[of ?zs "\<lambda>z. qty (requests (fst z)) k" "\<lambda>z. P (fst z)" Q] imp
    by (simp add: o_def)
  ultimately show ?thesis
    unfolding eq qty_RequestsForPods[OF nn] using monoD[OF assms(2)] by simp
qed

lemma daemonAlternatives_wf:
  assumes "wf_label_env E" "NormalizedLabelValues E = []" "sound_pod p" "deLabels DE = E"
    and "daemonAlternatives DE candidate p = Some alts" "alt \<in> set alts"
  shows "wf_requirements E alt"
proof (cases "alt \<in> set (pod_alternatives E p)")
  case True
  then show ?thesis using pod_alternatives_wf assms(1-3) by blast
next
  case False
  obtain labels where l: "NewLabelRequirements E (podNodeSelector p) = Some labels" "wf_requirements E labels"
    using NewLabelRequirements_sound[OF assms(1,2)] by blast
  have strict: "NewStrictPodRequirements E (deSortSlice DE) p = Some alt" "required_alternatives p \<noteq> []"
    using assms(4-6) False l
    by (auto simp: daemonAlternatives_def pod_alternatives_def Let_def split: option.splits if_splits)
  have first: "first_required_term p = hd (required_alternatives p)"
    using strict(2) by (auto simp: first_required_term_def required_alternatives_def split: option.splits list.splits)
  then have "\<forall>n \<in> set (first_required_term p). sound_expr n"
    using assms(3) strict(2) by (auto simp: sound_pod_def)
  then obtain q where "NewNodeSelectorRequirements E (first_required_term p) = Some q" "wf_requirements E q"
    using NewNodeSelectorRequirements_sound[OF assms(1,2)] by blast
  then show ?thesis using strict(1) l by (auto simp: strict_requirements_eq intro: wf_Add)
qed

lemma realized_sufficient:
  fixes requests :: "Pod \<Rightarrow> 'q::linordered_ab_group_add ResourceList"
  assumes nn: "\<forall>p \<in> set pods. nonneg (requests p)" and nq: "mono newQuantity" "newQuantity 0 = 0"
    and len: "length alts = length pods" and rl: "list_all2 (\<lambda>v d. v \<in> set d) rl (map snd kds)"
    and acc: "\<forall>(p, as) \<in> set (zip pods alts). H p \<longrightarrow>
        (\<lambda>(_, alts). list_ex (\<lambda>alt. acceptsRealization alt (map fst kds) rl) alts) (p, as)"
    and req: "req = (\<lambda>rl. let accepted = accepted_pods (zip pods alts) (map fst kds) rl in
        if accepted \<noteq> [] then Some (RequestsForPods requests newQuantity accepted) else None)"
  shows "qty (RequestsForPods requests newQuantity (filter H pods)) k \<le> qty (walk (map snd kds) req [] []) k"
proof -
  let ?R = "RequestsForPods requests newQuantity" and ?acc = "accepted_pods (zip pods alts) (map fst kds) rl"
  have bound: "qty (?R (filter H pods)) k \<le> qty (?R ?acc) k"
    using RequestsForPods_mono[OF nn nq(1) len acc, of k] by (simp add: accepted_pods_def)
  have sub: "set (accepted_pods (zip pods alts) ks rl') \<subseteq> set pods" for ks rl'
    by (auto simp: accepted_pods_def dest: set_zip_leftD)
  have rnn: "nonneg r" if "req rl' = Some r" for rl' r
  proof -
    have "r = ?R (accepted_pods (zip pods alts) (map fst kds) rl')"
      using that by (auto simp: req Let_def split: if_splits)
    then show ?thesis using nonneg_RequestsForPods[OF _ nq] nn sub by blast
  qed
  show ?thesis
  proof (cases "?acc = []")
    case True
    have "qty (?R ?acc) k = 0" using True nq(2) by (simp add: RequestsForPods_def Merge_def gomap_simps mget_def)
    moreover have "nonneg (walk (map snd kds) req [] [])" using walk_upper[of req "[]"] rnn by simp
    ultimately show ?thesis using bound by (simp add: nonneg_def order_trans)
  next
    case False
    then have "qty (?R ?acc) k \<le> qty (walk (map snd kds) req [] []) k"
      using walk_reaches[of req "[]" rl "map snd kds" "[]" "?R ?acc" k] rnn rl by (simp add: req Let_def)
    then show ?thesis using bound by (rule order_trans[rotated])
  qed
qed

text \<open>
  C17. The daemon overhead of a candidate is enough. Take any node that satisfies the candidate: its
  labels match the candidate's requirements, well-known labels are set and no other label is set that
  the candidate does not mention. Then for every resource, the requests of all daemon pods that node
  hosts are at most the overhead that was computed, although the overhead enumerates only one
  representative per label for all values no pod names and ignores labels with numeric bounds.
\<close>

theorem daemon_overhead_sufficient:
  fixes requests :: "Pod \<Rightarrow> 'q::linordered_ab_group_add ResourceList"
  assumes "wf_label_env (deLabels DE)" "NormalizedLabelValues (deLabels DE) = []"
    and "wf_requirements (deLabels DE) candidate" "\<forall>p \<in> set pods. sound_pod p \<and> nonneg (requests p)"
    and "mono newQuantity" "newQuantity 0 = 0"
    and "\<forall>p \<in> set pods. \<forall>alts. daemonAlternatives DE candidate p = Some alts \<longrightarrow>
           (\<forall>alt \<in> set alts. \<forall>(k, r) \<in> set alt. other_value \<notin> rvalues r)"
    and run: "computeDaemonOverhead DE (RequestsForPods requests newQuantity) candidate pods = Some (overhead, truncated)"
    and node: "node_satisfies (deLabels DE) candidate labels"
  shows "qty (RequestsForPods requests newQuantity (filter (hosts (deLabels DE) labels) pods)) k \<le> qty overhead k"
proof (cases "pods = []")
  case True
  then show ?thesis using run assms(6)
    by (auto simp: computeDaemonOverhead_def RequestsForPods_def Merge_def gomap_simps mget_def)
next
  case False
  let ?E = "deLabels DE" and ?R = "RequestsForPods requests newQuantity"
  obtain alts where alts: "those (map (daemonAlternatives DE candidate) pods) = Some alts"
    using run False by (auto simp: computeDaemonOverhead_def split: option.splits)
  have alt_eq: "map (daemonAlternatives DE candidate) pods = map Some alts" using those_SomeD[OF alts] .
  then have len: "length alts = length pods" by (metis length_map)
  have pair: "daemonAlternatives DE candidate p = Some as" if "(p, as) \<in> set (zip pods alts)" for p as
    using that alt_eq len by (auto simp: in_set_zip) (metis nth_map)
  have members: "\<exists>p \<in> set pods. daemonAlternatives DE candidate p = Some as" if "as \<in> set alts" for as
    using that alt_eq by (metis image_iff list.set_map)
  have wf: "\<forall>rs \<in> set (concat alts). wf_requirements ?E rs"
    using members daemonAlternatives_wf[OF assms(1,2) _ refl] assms(4) by fastforce
  have nn: "\<forall>p \<in> set pods. nonneg (requests p)" using assms(4) by blast
  have all: "qty (?R (filter (hosts ?E labels) pods)) k \<le> qty (?R pods) k"
    using RequestsForPods_mono[OF nn assms(5) len, of "hosts ?E labels" "\<lambda>_. True" k] len by auto
  show ?thesis
  proof (cases "enumerated_keys ?E candidate (concat alts) (partitioningLabelKeys (concat alts)) 1")
    case None
    then show ?thesis using run False alts all by (auto simp: computeDaemonOverhead_def Let_def)
  next
    case (Some kds)
    define req where "req = (\<lambda>rl. let accepted = accepted_pods (zip pods alts) (map fst kds) rl in
      if accepted \<noteq> [] then Some (?R accepted) else None)"
    have over: "overhead = (if kds = [] then ?R pods else walk (map snd kds) req [] [])"
      using run False alts Some by (auto simp: computeDaemonOverhead_def Let_def req_def split: if_splits)
    have "\<forall>k. \<forall>r \<in> set (requirements_for k (concat alts)). other_value \<notin> rvalues r"
      using assms(7) members by (fastforce simp: set_requirements_for dest!: map_of_SomeD)
    from realization_of_node[OF assms(3) wf node this Some] obtain rl where
      rl: "list_all2 (\<lambda>v d. v \<in> set d) rl (map snd kds)"
        "\<forall>alt \<in> set (concat alts). node_matches labels alt \<longrightarrow> acceptsRealization alt (map fst kds) rl" by blast
    have "list_ex (\<lambda>alt. acceptsRealization alt (map fst kds) rl) as"
      if z: "(p, as) \<in> set (zip pods alts)" and h: "hosts ?E labels p" for p as
    proof -
      have "sound_pod p" using assms(4) set_zip_leftD[OF z] by blast
      from hosted_alternative[OF assms(1-3) this refl pair[OF z] node h]
      show ?thesis using rl(2) set_zip_rightD[OF z] by (auto simp: list_ex_iff)
    qed
    then have "\<forall>(p, as) \<in> set (zip pods alts). hosts ?E labels p \<longrightarrow>
        (\<lambda>(_, alts). list_ex (\<lambda>alt. acceptsRealization alt (map fst kds) rl) alts) (p, as)" by auto
    from realized_sufficient[OF nn assms(5,6) len rl(1) this req_def, of k]
    show ?thesis using over all by (simp split: if_splits)
  qed
qed

text \<open>
  Two daemon pods for different zones: a candidate that may be in either zone reserves the larger of
  the two requests and not their sum.
\<close>

definition zone_pod :: "string \<Rightarrow> Pod" where
  "zone_pod z = (bare_pod z)\<lparr>podNodeSelector := [(LabelTopologyZone, z)]\<rparr>"

definition cpu_of :: "Pod \<Rightarrow> int ResourceList" where
  "cpu_of p = [(''cpu'', if podName p = ''a'' then 1 else 2)]"

definition two_zones :: requirements where
  "two_zones = [(LabelTopologyZone, \<lparr>Key = LabelTopologyZone, complement = False, rvalues = {''a'', ''b''},
     gte = None, lte = None, MinValues = None\<rparr>)]"

definition core_daemons :: daemon_env where
  "core_daemons = \<lparr>deLabels = core_labels, deTolerates = (\<lambda>_ _. True),
     deMatchToleration = (=), deSortSlice = (\<lambda>x. x), deIgnoreDRA = False\<rparr>"

definition node_in_a :: "string \<Rightarrow> string option" where
  "node_in_a k = (if k = LabelTopologyZone then Some ''a''
     else if k \<in> set (WellKnownLabels core_labels) then Some ''x'' else None)"

lemma two_zones_overhead:
  "computeDaemonOverhead core_daemons (RequestsForPods cpu_of id) two_zones [zone_pod ''a'', zone_pod ''b''] =
     Some ([(''cpu'', 2), (''pods'', 1)], False)"
  by code_simp

definition in_zone :: "string \<Rightarrow> requirements" where
  "in_zone z = [(LabelTopologyZone, \<lparr>Key = LabelTopologyZone, complement = False, rvalues = {z},
     gte = None, lte = None, MinValues = None\<rparr>)]"

lemma zone_alternatives:
  "daemonAlternatives core_daemons two_zones (zone_pod ''a'') = Some [in_zone ''a'']"
  "daemonAlternatives core_daemons two_zones (zone_pod ''b'') = Some [in_zone ''b'']"
  "pod_alternatives core_labels (zone_pod ''a'') = [in_zone ''a'']"
  "pod_alternatives core_labels (zone_pod ''b'') = [in_zone ''b'']"
  by code_simp+

lemma hosted_in_a: "filter (hosts core_labels node_in_a) [zone_pod ''a'', zone_pod ''b''] = [zone_pod ''a'']"
  by (simp add: hosts_def zone_alternatives node_matches_def in_zone_def node_in_a_def label_of_def accepts_value_def
      Requirement_Has_def)

theorem daemon_overhead_sufficient_witness:
  "filter (hosts core_labels node_in_a) [zone_pod ''a'', zone_pod ''b''] = [zone_pod ''a''] \<and>
   qty (RequestsForPods cpu_of id [zone_pod ''a'']) ''cpu'' \<le> 2"
proof -
  have "qty (RequestsForPods cpu_of id (filter (hosts (deLabels core_daemons) node_in_a) [zone_pod ''a'', zone_pod ''b''])) ''cpu''
      \<le> qty [(''cpu'', 2), (''pods'', 1)] ''cpu''"
  proof (rule daemon_overhead_sufficient[OF _ _ _ _ _ _ _ two_zones_overhead])
    show "wf_label_env (deLabels core_daemons)" by (simp add: core_daemons_def wf_core_labels)
    show "NormalizedLabelValues (deLabels core_daemons) = []" by (simp add: core_daemons_def core_labels_def)
    show "wf_requirements (deLabels core_daemons) two_zones"
      by (simp add: wf_requirements_def two_zones_def wf_requirement_def core_daemons_def core_labels_def normalize_key_def label_key_defs)
    show "\<forall>p \<in> set [zone_pod ''a'', zone_pod ''b'']. sound_pod p \<and> nonneg (cpu_of p)"
      by (simp add: sound_pod_def required_alternatives_def zone_pod_def bare_pod_def nonneg_def cpu_of_def mget_def)
    show "mono (id :: int \<Rightarrow> int)" "id (0::int) = 0" by (simp_all add: mono_def)
    show "node_satisfies (deLabels core_daemons) two_zones node_in_a"
      by (auto simp: node_satisfies_def node_matches_def two_zones_def node_in_a_def core_daemons_def label_of_def
          accepts_value_def Requirement_Has_def)
    show "\<forall>p \<in> set [zone_pod ''a'', zone_pod ''b'']. \<forall>alts. daemonAlternatives core_daemons two_zones p = Some alts \<longrightarrow>
        (\<forall>alt \<in> set alts. \<forall>(k, r) \<in> set alt. other_value \<notin> rvalues r)"
      by (simp add: zone_alternatives in_zone_def other_value_def)
  qed
  then show ?thesis using hosted_in_a by (simp add: core_daemons_def mget_def)
qed

end
