(* ===== verification/StateNodes.thy ===== *)
theory StateNodes
  imports NodePools Pods HostPort VolumeUsage
begin

text \<open>
  The cached view of one node (\<^verbatim>\<open>pkg/controllers/state/statenode.go\<close>) and the cost of evicting its
  pods (\<^verbatim>\<open>pkg/utils/disruption\<close>). A state node joins a Node and the NodeClaim it came from, either of
  which may be missing; an accessor that would follow a nil pointer returns None.

  The requests and limits of a pod, taint matching and the parsing of floating point numbers come from
  libraries and are parameters. A \<^verbatim>\<open>float64\<close> is a rational number: rounding is not modelled.
\<close>

section \<open>Objects\<close>

definition NodeInitializedLabelKey :: string where "NodeInitializedLabelKey = Group @ ''/initialized''"
definition NodeRegisteredLabelKey :: string where "NodeRegisteredLabelKey = Group @ ''/registered''"

definition ConditionTypeInitialized :: string where "ConditionTypeInitialized = ''Initialized''"
definition ConditionTypeInstanceTerminating :: string where
  "ConditionTypeInstanceTerminating = ''InstanceTerminating''"

record Condition =
  condStatus :: string
  condReason :: string
  condTransition :: int

record 'q CoreNode =
  cnName :: string
  cnLabels :: "(string, string) gomap"
  cnAnnotations :: "(string, string) gomap"
  cnDeletionTimestamp :: "int option"
  cnProviderID :: string
  cnTaints :: "Taint list"
  cnCapacity :: "'q ResourceList"
  cnAllocatable :: "'q ResourceList"
  cnConditions :: "(string \<times> string) list"

text \<open>A NodeClaim with its status; the conditions are a list with one entry per type.\<close>

record 'q NodeClaim =
  ncName :: string
  ncUID :: string
  ncLabels :: "(string, string) gomap"
  ncAnnotations :: "(string, string) gomap"
  ncCreationTimestamp :: int
  ncDeletionTimestamp :: "int option"
  ncSpec :: "'q NodeClaimSpec"
  ncNodeName :: string
  ncProviderID :: string
  ncCapacity :: "'q ResourceList"
  ncAllocatable :: "'q ResourceList"
  ncConditions :: "(string, Condition) gomap"
  ncLastPodEventTime :: "int option"

definition cond_true :: "'q NodeClaim \<Rightarrow> string \<Rightarrow> bool" where
  "cond_true nc t = (case map_of (ncConditions nc) t of None \<Rightarrow> False | Some c \<Rightarrow> condStatus c = ''True'')"

section \<open>Disruption cost\<close>

definition lo_Clamp :: "'a::linorder \<Rightarrow> 'a \<Rightarrow> 'a \<Rightarrow> 'a" where
  "lo_Clamp v mn mx = (if v < mn then mn else if v > mx then mx else v)"

definition PodDeletionCost :: string where "PodDeletionCost = ''controller.kubernetes.io/pod-deletion-cost''"

definition EvictionCost :: "(string \<Rightarrow> rat option) \<Rightarrow> Pod \<Rightarrow> rat" where
  "EvictionCost parseFloat p =
     (let cost = 1;
          cost = (case map_of (podAnnotations p) PodDeletionCost of
                    None \<Rightarrow> cost
                  | Some s \<Rightarrow> (case parseFloat s of None \<Rightarrow> cost | Some c \<Rightarrow> cost + c / 2 ^ 27));
          cost = (case podPriority p of None \<Rightarrow> cost | Some pr \<Rightarrow> cost + of_int pr / 2 ^ 25)
      in lo_Clamp cost (- 10) 10)"

definition ReschedulingCost :: "(string \<Rightarrow> rat option) \<Rightarrow> Pod list \<Rightarrow> rat" where
  "ReschedulingCost parseFloat pods = foldl (\<lambda>cost p. cost + EvictionCost parseFloat p) 0 pods"

text \<open>
  A quotient by zero is infinite in Go and clamped to the end of the interval by its sign; the quotient
  of zero and zero, which is not a number, is not modelled and counted as 0.
\<close>

definition LifetimeRemaining :: "int \<Rightarrow> 'q NodeClaim \<Rightarrow> rat" where
  "LifetimeRemaining now nodeClaim =
     (case specExpireAfter (ncSpec nodeClaim) of
        None \<Rightarrow> 1
      | Some life \<Rightarrow>
          (let age = of_int (time_Sub now (ncCreationTimestamp nodeClaim)) / 1000000000;
               whole = of_int life / 1000000000
           in if whole = 0 then (if age < 0 then 1 else 0) else lo_Clamp ((whole - age) / whole) 0 1))"

definition IsUnderConsolidateAfter :: "int \<Rightarrow> 'q NodePool option \<Rightarrow> 'q NodeClaim option \<Rightarrow> bool" where
  "IsUnderConsolidateAfter now nodePool nodeClaim =
     (case (nodePool, nodeClaim) of
        (Some np, Some nc) \<Rightarrow>
          (case npConsolidateAfter np of
             None \<Rightarrow> False
           | Some after \<Rightarrow>
               if after = 0 then False
               else if \<not> cond_true nc ConditionTypeInitialized then False
               else
                 (case map_of (ncConditions nc) ConditionTypeInitialized of
                    None \<Rightarrow> False
                  | Some initialized \<Rightarrow>
                      time_Sub now (case ncLastPodEventTime nc of Some t \<Rightarrow> t | None \<Rightarrow> condTransition initialized) < after))
      | _ \<Rightarrow> False)"

section \<open>State nodes\<close>

record 'q StateNode =
  stNode :: "'q CoreNode option"
  stNodeClaim :: "'q NodeClaim option"
  daemonSetRequests :: "(NamespacedName, 'q ResourceList) gomap"
  daemonSetLimits :: "(NamespacedName, 'q ResourceList) gomap"
  podRequests :: "(NamespacedName, 'q ResourceList) gomap"
  podLimits :: "(NamespacedName, 'q ResourceList) gomap"
  podDisruptionCosts :: "(NamespacedName, rat) gomap"
  podRequestsTotal :: "'q ResourceList option"
  daemonSetRequestsTotal :: "'q ResourceList option"
  hostPortUsage :: HostPortUsage
  volumeUsage :: VolumeUsage
  markedForDeletion :: bool
  nominatedUntil :: int

record 'q state_env =
  seKube :: kube
  seRequests :: "Pod \<Rightarrow> 'q ResourceList"
  seLimits :: "Pod \<Rightarrow> 'q ResourceList"
  seNewQuantity :: "int \<Rightarrow> 'q"
  seParseFloat :: "string \<Rightarrow> rat option"
  seMatchTaint :: "Taint \<Rightarrow> Taint \<Rightarrow> bool"

definition NewNode :: "'q StateNode" where
  "NewNode = \<lparr>stNode = None, stNodeClaim = None, daemonSetRequests = [], daemonSetLimits = [], podRequests = [],
     podLimits = [], podDisruptionCosts = [], podRequestsTotal = None, daemonSetRequestsTotal = None,
     hostPortUsage = NewHostPortUsage, volumeUsage = NewVolumeUsage, markedForDeletion = False, nominatedUntil = 0\<rparr>"

definition Managed :: "'q StateNode \<Rightarrow> bool" where "Managed n \<longleftrightarrow> stNodeClaim n \<noteq> None"

definition node_label_true :: "string \<Rightarrow> 'q StateNode \<Rightarrow> bool" where
  "node_label_true key n =
     (if Managed n
      then (case stNode n of None \<Rightarrow> False | Some nd \<Rightarrow> mget [] (cnLabels nd) key = ''true'')
      else True)"

definition Registered :: "'q StateNode \<Rightarrow> bool" where
  "Registered n = node_label_true NodeRegisteredLabelKey n"

definition Initialized :: "'q StateNode \<Rightarrow> bool" where
  "Initialized n = node_label_true NodeInitializedLabelKey n"

text \<open>Name, annotations and labels come from the NodeClaim until the node is registered.\<close>

definition from_objects :: "('q NodeClaim \<Rightarrow> 'a) \<Rightarrow> ('q CoreNode \<Rightarrow> 'a) \<Rightarrow> 'q StateNode \<Rightarrow> 'a option" where
  "from_objects ofClaim ofNode n =
     (case stNode n of
        None \<Rightarrow> map_option ofClaim (stNodeClaim n)
      | Some nd \<Rightarrow>
          (case stNodeClaim n of
             None \<Rightarrow> Some (ofNode nd)
           | Some nc \<Rightarrow> if \<not> Registered n then Some (ofClaim nc) else Some (ofNode nd)))"

definition StateNode_Name :: "'q StateNode \<Rightarrow> string option" where
  "StateNode_Name = from_objects ncName cnName"

definition StateNode_Annotations :: "'q StateNode \<Rightarrow> (string, string) gomap option" where
  "StateNode_Annotations = from_objects ncAnnotations cnAnnotations"

definition StateNode_Labels :: "'q StateNode \<Rightarrow> (string, string) gomap option" where
  "StateNode_Labels = from_objects ncLabels cnLabels"

definition StateNode_ProviderID :: "'q StateNode \<Rightarrow> string option" where
  "StateNode_ProviderID n =
     (case stNode n of None \<Rightarrow> map_option ncProviderID (stNodeClaim n) | Some nd \<Rightarrow> Some (cnProviderID nd))"

definition HostName :: "'q StateNode \<Rightarrow> string option" where
  "HostName n =
     Option.bind (StateNode_Labels n) (\<lambda>labels.
       if mget [] labels LabelHostname = [] then StateNode_Name n else Some (mget [] labels LabelHostname))"

definition StateNode_Taints :: "(Taint \<Rightarrow> Taint \<Rightarrow> bool) \<Rightarrow> 'q StateNode \<Rightarrow> Taint list option" where
  "StateNode_Taints matchTaint n =
     Option.bind
       (if \<not> Registered n \<and> Managed n \<or> stNode n = None then map_option (specTaints \<circ> ncSpec) (stNodeClaim n)
        else map_option cnTaints (stNode n))
       (\<lambda>taints.
          case (if \<not> Initialized n then stNodeClaim n else None) of
            None \<Rightarrow> Some taints
          | Some nc \<Rightarrow>
              Some (filter (\<lambda>taint. \<not> (IsKnownEphemeralTaint matchTaint (Some taint) \<or>
                      list_ex (\<lambda>t. matchTaint t taint) (specStartupTaints (ncSpec nc)))) taints))"

definition ResourceNode :: string where "ResourceNode = ''nodes''"

text \<open>The quantities of a node status with the zero ones replaced by those of the NodeClaim.\<close>

definition override_zero :: "'q::linordered_ab_group_add ResourceList \<Rightarrow> 'q ResourceList \<Rightarrow> 'q ResourceList" where
  "override_zero ret claim =
     foldl (\<lambda>acc (resourceName, quantity). if mget 0 acc resourceName = 0 then mput resourceName quantity acc else acc) ret claim"

definition one_node :: "'q state_env \<Rightarrow> 'q ResourceList" where "one_node SE = [(ResourceNode, seNewQuantity SE 1)]"

definition StateNode_Capacity ::
  "'q::linordered_ab_group_add state_env \<Rightarrow> 'q StateNode \<Rightarrow> 'q ResourceList option" where
  "StateNode_Capacity SE n =
     (case (if \<not> Initialized n then stNodeClaim n else None) of
        Some nc \<Rightarrow>
          (case stNode n of
             Some nd \<Rightarrow> Some (lo_Assign (override_zero (cnCapacity nd) (ncCapacity nc)) (one_node SE))
           | None \<Rightarrow> Some (lo_Assign (ncCapacity nc) (one_node SE)))
      | None \<Rightarrow> map_option (\<lambda>nd. lo_Assign (cnCapacity nd) (one_node SE)) (stNode n))"

definition StateNode_Allocatable :: "'q::linordered_ab_group_add StateNode \<Rightarrow> 'q ResourceList option" where
  "StateNode_Allocatable n =
     (case (if \<not> Initialized n then stNodeClaim n else None) of
        Some nc \<Rightarrow>
          (case stNode n of
             Some nd \<Rightarrow> Some (override_zero (cnAllocatable nd) (ncAllocatable nc))
           | None \<Rightarrow> Some (ncAllocatable nc))
      | None \<Rightarrow> map_option cnAllocatable (stNode n))"

definition Merge_values :: "('k, 'q::linordered_ab_group_add ResourceList) gomap \<Rightarrow> 'q ResourceList" where
  "Merge_values m = Merge (map snd m)"

definition PodRequests :: "'q::linordered_ab_group_add StateNode \<Rightarrow> 'q ResourceList" where
  "PodRequests n =
     (case podRequestsTotal n of
        Some t \<Rightarrow> t
      | None \<Rightarrow> foldl (\<lambda>acc (_, requests). MergeInto (Some acc) requests) [] (podRequests n))"

definition DaemonSetRequests :: "'q::linordered_ab_group_add StateNode \<Rightarrow> 'q ResourceList" where
  "DaemonSetRequests n =
     (case daemonSetRequestsTotal n of Some t \<Rightarrow> t | None \<Rightarrow> Merge_values (daemonSetRequests n))"

definition DaemonSetLimits :: "'q::linordered_ab_group_add StateNode \<Rightarrow> 'q ResourceList" where
  "DaemonSetLimits n = Merge_values (daemonSetLimits n)"

definition PodLimits :: "'q::linordered_ab_group_add StateNode \<Rightarrow> 'q ResourceList" where
  "PodLimits n = Merge_values (podLimits n)"

definition StateNode_Available :: "'q::linordered_ab_group_add StateNode \<Rightarrow> 'q ResourceList option" where
  "StateNode_Available n = map_option (\<lambda>a. Subtract a (PodRequests n)) (StateNode_Allocatable n)"

definition DisruptionCost :: "'q StateNode \<Rightarrow> rat" where
  "DisruptionCost n = foldl (\<lambda>cost (_, c). cost + c) 1 (podDisruptionCosts n)"

definition Deleted :: "'q StateNode \<Rightarrow> bool" where
  "Deleted n =
     (case stNodeClaim n of
        Some nc \<Rightarrow> ncDeletionTimestamp nc \<noteq> None \<or> cond_true nc ConditionTypeInstanceTerminating
      | None \<Rightarrow> (case stNode n of Some nd \<Rightarrow> cnDeletionTimestamp nd \<noteq> None | None \<Rightarrow> False))"

definition MarkedForDeletion :: "'q StateNode \<Rightarrow> bool" where
  "MarkedForDeletion n \<longleftrightarrow> markedForDeletion n \<or> Deleted n"

definition StateNodes_Active :: "'q StateNode list \<Rightarrow> 'q StateNode list" where
  "StateNodes_Active ns = filter (\<lambda>n. \<not> MarkedForDeletion n) ns"

definition StateNodes_Deleting :: "'q StateNode list \<Rightarrow> 'q StateNode list" where
  "StateNodes_Deleting ns = filter MarkedForDeletion ns"

definition nominationWindow :: "int \<Rightarrow> int" where
  "nominationWindow batchMaxDuration = max (wrap64 (2 * batchMaxDuration)) 10000000000"

definition Nominate :: "int \<Rightarrow> int \<Rightarrow> 'q StateNode \<Rightarrow> 'q StateNode" where
  "Nominate batchMaxDuration now n = n\<lparr>nominatedUntil := now + nominationWindow batchMaxDuration\<rparr>"

definition Nominated :: "int \<Rightarrow> 'q StateNode \<Rightarrow> bool" where
  "Nominated now n \<longleftrightarrow> nominatedUntil n > now"

section \<open>Totals and copies\<close>

definition podRequestsTotalOrCompute :: "'q::linordered_ab_group_add StateNode \<Rightarrow> 'q ResourceList" where
  "podRequestsTotalOrCompute n = (case podRequestsTotal n of Some t \<Rightarrow> t | None \<Rightarrow> Merge_values (podRequests n))"

definition daemonSetRequestsTotalOrCompute :: "'q::linordered_ab_group_add StateNode \<Rightarrow> 'q ResourceList" where
  "daemonSetRequestsTotalOrCompute n =
     (case daemonSetRequestsTotal n of Some t \<Rightarrow> t | None \<Rightarrow> Merge_values (daemonSetRequests n))"

definition ensureRequestTotals :: "'q::linordered_ab_group_add StateNode \<Rightarrow> 'q StateNode" where
  "ensureRequestTotals n =
     n\<lparr>podRequestsTotal := Some (podRequestsTotalOrCompute n),
       daemonSetRequestsTotal := Some (daemonSetRequestsTotalOrCompute n)\<rparr>"

definition SimulationCopy :: "'q::linordered_ab_group_add StateNode \<Rightarrow> 'q StateNode" where
  "SimulationCopy n =
     n\<lparr>podRequestsTotal := Some (podRequestsTotalOrCompute n),
       daemonSetRequestsTotal := Some (daemonSetRequestsTotalOrCompute n)\<rparr>"

section \<open>Pods on a node\<close>

definition updateForPod ::
  "'q::linordered_ab_group_add state_env \<Rightarrow> Pod \<Rightarrow> 'q StateNode \<Rightarrow> (kube_error, 'q StateNode) result" where
  "updateForPod SE pod n =
     rbind (GetVolumes (seKube SE) pod) (\<lambda>vols.
       (let key = podKey pod;
            requests = RequestsForPods (seRequests SE) (seNewQuantity SE) [pod];
            lims = LimitsForPods (seLimits SE) (seNewQuantity SE) [pod];
            daemon = IsOwnedByDaemonSet pod;
            evictionCost = EvictionCost (seParseFloat SE) pod
        in Ok (n\<lparr>podRequests := mput key requests (podRequests n),
                 podLimits := mput key lims (podLimits n),
                 podRequestsTotal := None,
                 daemonSetRequests := (if daemon then mput key requests (daemonSetRequests n) else daemonSetRequests n),
                 daemonSetLimits := (if daemon then mput key lims (daemonSetLimits n) else daemonSetLimits n),
                 daemonSetRequestsTotal := (if daemon then None else daemonSetRequestsTotal n),
                 podDisruptionCosts := (if daemon then podDisruptionCosts n
                                        else if evictionCost > 0 then mput key evictionCost (podDisruptionCosts n)
                                        else mdel key (podDisruptionCosts n)),
                 hostPortUsage := HostPortUsage_Add (hostPortUsage n) pod (GetHostPorts pod),
                 volumeUsage := VolumeUsage_Add (volumeUsage n) pod vols\<rparr>)))"

definition cleanupForPod :: "NamespacedName \<Rightarrow> 'q StateNode \<Rightarrow> 'q StateNode" where
  "cleanupForPod key n =
     n\<lparr>hostPortUsage := HostPortUsage_DeletePod (hostPortUsage n) key,
       volumeUsage := VolumeUsage_DeletePod (volumeUsage n) key,
       podRequests := mdel key (podRequests n), podLimits := mdel key (podLimits n),
       daemonSetRequests := mdel key (daemonSetRequests n), daemonSetLimits := mdel key (daemonSetLimits n),
       podDisruptionCosts := mdel key (podDisruptionCosts n),
       podRequestsTotal := None, daemonSetRequestsTotal := None\<rparr>"

section \<open>Disruptability\<close>

datatype disruptable_error = NotManaged | NoNode | NotInitialized | IsDeleting | IsNominated | DoNotDisrupt | MissingNodePoolLabel

definition ValidateNodeDisruptable :: "int \<Rightarrow> 'q StateNode \<Rightarrow> disruptable_error option" where
  "ValidateNodeDisruptable now n =
     (if stNodeClaim n = None then Some NotManaged
      else if stNode n = None then Some NoNode
      else if \<not> Initialized n then Some NotInitialized
      else if MarkedForDeletion n then Some IsDeleting
      else if Nominated now n then Some IsNominated
      else if mget [] (case StateNode_Annotations n of Some a \<Rightarrow> a | None \<Rightarrow> []) DoNotDisruptAnnotationKey = ''true''
        then Some DoNotDisrupt
      else if \<not> mhas (case StateNode_Labels n of Some l \<Rightarrow> l | None \<Rightarrow> []) NodePoolLabelKey then Some MissingNodePoolLabel
      else None)"

datatype pod_block = PodDoNotDisrupt NamespacedName | MultiplePDBs "NamespacedName list" | PDBPrevents "NamespacedName list"

definition ValidatePodsDisruptable ::
  "(Toleration \<Rightarrow> Taint \<Rightarrow> bool) \<Rightarrow> (string \<Rightarrow> int option) \<Rightarrow> int \<Rightarrow> pdbItem list \<Rightarrow> (kube_error, Pod list) result \<Rightarrow>
   (kube_error, Pod list \<times> pod_block option) result" where
  "ValidatePodsDisruptable tol parseDuration now pdbs listed =
     rbind listed (\<lambda>pods.
       case find (\<lambda>p. \<not> IsDisruptable parseDuration now p) pods of
         Some p \<Rightarrow> Ok (pods, Some (PodDoNotDisrupt (podKey p)))
       | None \<Rightarrow>
           (let (keys, ok) = CanEvictPods tol parseDuration now pdbs pods in
            if \<not> ok then Ok (pods, Some (if length keys > 1 then MultiplePDBs keys else PDBPrevents keys))
            else Ok (pods, None)))"

text \<open>What \<^verbatim>\<open>RequireNoScheduleTaint\<close> makes of one node it has read; None where nothing is patched.\<close>

definition require_taint :: "(Taint \<Rightarrow> Taint \<Rightarrow> bool) \<Rightarrow> bool \<Rightarrow> 'q CoreNode \<Rightarrow> 'q CoreNode option" where
  "require_taint matchTaint addTaint node =
     (let hasTaint = list_ex (\<lambda>t. matchTaint t DisruptedNoScheduleTaint) (cnTaints node);
          others = filter (\<lambda>t. \<not> matchTaint t DisruptedNoScheduleTaint) (cnTaints node)
      in if hasTaint \<and> cnDeletionTimestamp node \<noteq> None then None
         else
           (let taints = (if \<not> addTaint then others
                          else if \<not> hasTaint then others @ [DisruptedNoScheduleTaint] else cnTaints node)
            in if taints = cnTaints node then None else Some (node\<lparr>cnTaints := taints\<rparr>)))"

text \<open>What \<^verbatim>\<open>ClearNodeClaimsCondition\<close> makes of one NodeClaim it has read.\<close>

definition clear_condition :: "string \<Rightarrow> 'q NodeClaim \<Rightarrow> 'q NodeClaim option" where
  "clear_condition conditionType nc =
     (if mhas (ncConditions nc) conditionType then Some (nc\<lparr>ncConditions := mdel conditionType (ncConditions nc)\<rparr>) else None)"

end
