(* ===== verification/PoolStates.thy ===== *)
theory PoolStates
  imports StateNodes
begin

text \<open>
  Which NodeClaims a NodePool has, by their state, and the node count reserved against its limit
  (\<^verbatim>\<open>pkg/controllers/state/statenodepool.go\<close>). Every method holds the lock, so the compare-and-swap
  loops of the code succeed at once. None is the panic of a nil counter.
\<close>

record NodeClaimState =
  Active :: "string set"
  PendingDisruption :: "string set"
  Deleting :: "string set"

record NodePoolState =
  poolClaims :: "(string, NodeClaimState) gomap"
  claimPool :: "(string, string) gomap"
  poolReserved :: "(string, int) gomap"

definition NewNodePoolState :: NodePoolState where
  "NewNodePoolState = \<lparr>poolClaims = [], claimPool = [], poolReserved = []\<rparr>"

definition noClaims :: NodeClaimState where
  "noClaims = \<lparr>Active = {}, PendingDisruption = {}, Deleting = {}\<rparr>"

definition ensureNodePoolEntry :: "string \<Rightarrow> NodePoolState \<Rightarrow> NodePoolState" where
  "ensureNodePoolEntry np s =
     s\<lparr>poolClaims := (if mhas (poolClaims s) np then poolClaims s else mput np noClaims (poolClaims s)),
       poolReserved := (if mhas (poolReserved s) np then poolReserved s else mput np 0 (poolReserved s))\<rparr>"

definition SetNodeClaimMapping :: "string \<Rightarrow> string \<Rightarrow> NodePoolState \<Rightarrow> NodePoolState" where
  "SetNodeClaimMapping np nc s =
     (if np = [] \<or> nc = [] then s
      else (let s = ensureNodePoolEntry np s in s\<lparr>claimPool := mput nc np (claimPool s)\<rparr>))"

definition MarkNodeClaimActive :: "string \<Rightarrow> string \<Rightarrow> NodePoolState \<Rightarrow> NodePoolState" where
  "MarkNodeClaimActive np nc s =
     (let s = ensureNodePoolEntry np s; st = mget noClaims (poolClaims s) np
      in s\<lparr>poolClaims := mput np
             \<lparr>Active = insert nc (Active st), PendingDisruption = PendingDisruption st - {nc},
              Deleting = Deleting st - {nc}\<rparr> (poolClaims s)\<rparr>)"

definition MarkNodeClaimDeleting :: "string \<Rightarrow> string \<Rightarrow> NodePoolState \<Rightarrow> NodePoolState" where
  "MarkNodeClaimDeleting np nc s =
     (let s = ensureNodePoolEntry np s; st = mget noClaims (poolClaims s) np
      in s\<lparr>poolClaims := mput np
             \<lparr>Active = Active st - {nc}, PendingDisruption = PendingDisruption st - {nc},
              Deleting = insert nc (Deleting st)\<rparr> (poolClaims s)\<rparr>)"

definition MarkNodeClaimPendingDisruption :: "string \<Rightarrow> string \<Rightarrow> NodePoolState \<Rightarrow> NodePoolState" where
  "MarkNodeClaimPendingDisruption np nc s =
     (let s = ensureNodePoolEntry np s; st = mget noClaims (poolClaims s) np
      in s\<lparr>poolClaims := mput np
             \<lparr>Active = Active st - {nc}, PendingDisruption = insert nc (PendingDisruption st),
              Deleting = Deleting st - {nc}\<rparr> (poolClaims s)\<rparr>)"

definition NodePoolState_Cleanup :: "string \<Rightarrow> NodePoolState \<Rightarrow> NodePoolState" where
  "NodePoolState_Cleanup nc s =
     (let np = mget [] (claimPool s) nc;
          s' = (case map_of (poolClaims s) np of
                  None \<Rightarrow> s
                | Some st \<Rightarrow>
                    (let st = \<lparr>Active = Active st - {nc}, PendingDisruption = PendingDisruption st - {nc},
                               Deleting = Deleting st - {nc}\<rparr>
                     in if card (Active st) = 0 \<and> card (Deleting st) = 0
                        then s\<lparr>poolClaims := mdel np (poolClaims s), poolReserved := mdel np (poolReserved s)\<rparr>
                        else s\<lparr>poolClaims := mput np st (poolClaims s)\<rparr>))
      in s'\<lparr>claimPool := mdel nc (claimPool s')\<rparr>)"

definition nodeCounts :: "string \<Rightarrow> NodePoolState \<Rightarrow> int \<times> int \<times> int" where
  "nodeCounts np s =
     (case map_of (poolClaims s) np of
        Some st \<Rightarrow> (int (card (Active st)), int (card (Deleting st)), int (card (PendingDisruption st)))
      | None \<Rightarrow> (0, 0, 0))"

definition ReserveNodeCount :: "string \<Rightarrow> int \<Rightarrow> int \<Rightarrow> NodePoolState \<Rightarrow> NodePoolState \<times> int" where
  "ReserveNodeCount np lm wantedLimit s =
     (let s = ensureNodePoolEntry np s;
          (active, deleting, pendingdisruption) = nodeCounts np s;
          currentlyReserved = mget 0 (poolReserved s) np;
          remainingLimit = wrap64 (lm - (active + deleting + pendingdisruption) - currentlyReserved)
      in if remainingLimit < 0 then (s, 0)
         else
           (let grantedLimit = (if wantedLimit > remainingLimit then remainingLimit else wantedLimit)
            in (s\<lparr>poolReserved := mput np (wrap64 (currentlyReserved + grantedLimit)) (poolReserved s)\<rparr>, grantedLimit)))"

definition ReleaseNodeCount :: "string \<Rightarrow> int \<Rightarrow> NodePoolState \<Rightarrow> NodePoolState option" where
  "ReleaseNodeCount np cnt s =
     (case map_of (poolReserved s) np of
        None \<Rightarrow> None
      | Some currentlyReserved \<Rightarrow>
          Some (s\<lparr>poolReserved := mput np
            (if wrap64 (currentlyReserved - cnt) < 0 then 0 else wrap64 (currentlyReserved - cnt)) (poolReserved s)\<rparr>))"

definition NodePoolState_UpdateNodeClaim :: "'q NodeClaim \<Rightarrow> bool \<Rightarrow> NodePoolState \<Rightarrow> NodePoolState" where
  "NodePoolState_UpdateNodeClaim nodeClaim marked s =
     (let np = mget [] (ncLabels nodeClaim) NodePoolLabelKey in
      if np = [] then s
      else
        (let s = SetNodeClaimMapping np (ncName nodeClaim) s in
         if marked then MarkNodeClaimDeleting np (ncName nodeClaim) s
         else MarkNodeClaimActive np (ncName nodeClaim) s))"

end
