(* ===== verification/Cluster.thy ===== *)
theory Cluster
  imports PoolStates
begin

text \<open>
  The cached state of the cluster (\<^verbatim>\<open>pkg/controllers/state/cluster.go\<close>) and the operations the watches
  apply to it. Every operation runs under the cluster lock and is one step here. The clock reading of an
  operation is its argument \<open>now\<close>, and what an operation reads from the API server (the pods and the
  CSINode of a node) is part of its arguments.

  None is a panic. An operation that returns an error also returns the state it leaves behind.
  Metrics and logs are left out.
\<close>

record 'q Cluster =
  clNodes :: "(string, 'q StateNode) gomap"
  clBindings :: "(NamespacedName, string) gomap"
  clNodeName :: "(string, string) gomap"
  clClaimName :: "(string, string) gomap"
  clPoolResources :: "(string, 'q ResourceList) gomap"
  clDaemonSetPods :: "(NamespacedName, Pod) gomap"
  clPoolState :: NodePoolState
  clPodAcks :: "(NamespacedName, int) gomap"
  clSchedulingAttempted :: "(NamespacedName, int) gomap"
  clSchedulableTimes :: "(NamespacedName, int) gomap"
  clHealthyScheduled :: "(NamespacedName, int) gomap"
  clPodToNodeClaim :: "(NamespacedName, string) gomap"
  clUnprovisionable :: "(NamespacedName, int) gomap"
  clAntiAffinityPods :: "(NamespacedName, Pod) gomap"
  clClusterState :: "int option"
  clHasSynced :: bool
  clBufferPodCounts :: "(string, int) gomap"

definition NewCluster :: "'q Cluster" where
  "NewCluster = \<lparr>clNodes = [], clBindings = [], clNodeName = [], clClaimName = [], clPoolResources = [],
     clDaemonSetPods = [], clPoolState = NewNodePoolState, clPodAcks = [], clSchedulingAttempted = [],
     clSchedulableTimes = [], clHealthyScheduled = [], clPodToNodeClaim = [], clUnprovisionable = [],
     clAntiAffinityPods = [], clClusterState = None, clHasSynced = False, clBufferPodCounts = []\<rparr>"

definition MarkUnconsolidated :: "int \<Rightarrow> 'q Cluster \<Rightarrow> 'q Cluster" where
  "MarkUnconsolidated now c = c\<lparr>clClusterState := Some now\<rparr>"

text \<open>The time since the zero time is longer than any duration.\<close>

definition ConsolidationState :: "int \<Rightarrow> 'q Cluster \<Rightarrow> 'q Cluster \<times> int" where
  "ConsolidationState now c =
     (case clClusterState c of
        Some st \<Rightarrow> if time_Sub now st < 5 * Minute then (c, st) else (MarkUnconsolidated now c, now)
      | None \<Rightarrow> (MarkUnconsolidated now c, now))"

section \<open>Resources of a NodePool\<close>

definition has_object :: "'q StateNode \<Rightarrow> bool" where
  "has_object n \<longleftrightarrow> stNode n \<noteq> None \<or> stNodeClaim n \<noteq> None"

text \<open>The NodePool of a state node and what the node adds to its resources; nothing for a placeholder.\<close>

definition pool_share ::
  "'q::linordered_ab_group_add state_env \<Rightarrow> 'q StateNode option \<Rightarrow> (string \<times> 'q ResourceList) option" where
  "pool_share SE n =
     (case n of
        None \<Rightarrow> Some ([], [])
      | Some n \<Rightarrow>
          if \<not> has_object n then Some ([], [])
          else
            Option.bind (StateNode_Labels n) (\<lambda>labels.
              Option.bind (if MarkedForDeletion n then Some [] else StateNode_Capacity SE n) (\<lambda>res.
                Some (mget [] labels NodePoolLabelKey,
                      if res \<noteq> [] then mput ResourceNode (seNewQuantity SE 1) res else res))))"

text \<open>Storing into the map of a NodePool that has no entry is a panic.\<close>

definition change_pool ::
  "('q ResourceList \<Rightarrow> 'q ResourceList \<Rightarrow> 'q ResourceList) \<Rightarrow> string \<Rightarrow> 'q ResourceList \<Rightarrow>
   (string, 'q ResourceList) gomap \<Rightarrow> (string, 'q ResourceList) gomap option" where
  "change_pool f pool res m =
     (if pool = [] \<or> res = [] then Some m
      else (case map_of m pool of None \<Rightarrow> None | Some cur \<Rightarrow> Some (mput pool (f cur res) m)))"

definition collect_pool ::
  "string \<Rightarrow> (string, 'q::linordered_ab_group_add ResourceList) gomap \<Rightarrow> (string, 'q ResourceList) gomap" where
  "collect_pool name m = (if list_all (\<lambda>(_, v). v = 0) (mget [] m name) then mdel name m else m)"

definition updateNodePoolResources ::
  "'q::linordered_ab_group_add state_env \<Rightarrow> 'q StateNode option \<Rightarrow> 'q StateNode option \<Rightarrow> 'q Cluster \<Rightarrow> 'q Cluster option" where
  "updateNodePoolResources SE oldNode newNode c =
     Option.bind (pool_share SE oldNode) (\<lambda>(oldPool, oldResources).
       Option.bind (pool_share SE newNode) (\<lambda>(newPool, newResources).
         (let m = (if \<not> mhas (clPoolResources c) newPool \<and> newPool \<noteq> []
                   then mput newPool [] (clPoolResources c) else clPoolResources c)
          in Option.bind (change_pool sub_list oldPool oldResources m) (\<lambda>m.
               Option.bind (change_pool add_list newPool newResources m) (\<lambda>m.
                 Some (c\<lparr>clPoolResources := collect_pool newPool (collect_pool oldPool m)\<rparr>))))))"

definition triggerConsolidationOnChange :: "int \<Rightarrow> 'q StateNode \<Rightarrow> 'q StateNode \<Rightarrow> 'q Cluster \<Rightarrow> 'q Cluster" where
  "triggerConsolidationOnChange now old new c =
     (if \<not> has_object old \<or> \<not> has_object new then MarkUnconsolidated now c
      else if Initialized old \<noteq> Initialized new then MarkUnconsolidated now c
      else if MarkedForDeletion old \<noteq> MarkedForDeletion new then MarkUnconsolidated now c
      else c)"

definition NodePoolResourcesFor :: "string \<Rightarrow> 'q Cluster \<Rightarrow> 'q ResourceList" where
  "NodePoolResourcesFor np c = mget [] (clPoolResources c) np"

section \<open>NodeClaims\<close>

definition cleanupNodeClaim ::
  "'q::linordered_ab_group_add state_env \<Rightarrow> int \<Rightarrow> string \<Rightarrow> 'q Cluster \<Rightarrow> 'q Cluster option" where
  "cleanupNodeClaim SE now name c =
     (let pid = mget [] (clClaimName c) name in
      Option.bind
        (if pid \<noteq> []
         then
           (case map_of (clNodes c) pid of
              None \<Rightarrow> None
            | Some n \<Rightarrow>
                Option.bind
                  (if stNode n = None
                   then map_option (\<lambda>c. c\<lparr>clNodes := mdel pid (clNodes c)\<rparr>) (updateNodePoolResources SE (Some n) None c)
                   else
                     (let new = n\<lparr>stNodeClaim := None\<rparr> in
                      updateNodePoolResources SE (Some n) (Some new) (c\<lparr>clNodes := mput pid new (clNodes c)\<rparr>)))
                  (\<lambda>c. Some (MarkUnconsolidated now c)))
         else Some c)
        (\<lambda>c. Some (c\<lparr>clClaimName := mdel name (clClaimName c),
                     clPoolState := NodePoolState_Cleanup name (clPoolState c)\<rparr>)))"

text \<open>The constructor copies all fields of the old node but the disruption costs of its pods.\<close>

definition newStateFromNodeClaim ::
  "'q::linordered_ab_group_add state_env \<Rightarrow> int \<Rightarrow> 'q NodeClaim \<Rightarrow> 'q StateNode option \<Rightarrow> 'q Cluster \<Rightarrow>
   ('q Cluster \<times> 'q StateNode) option" where
  "newStateFromNodeClaim SE now nodeClaim oldNode c =
     (let old = (case oldNode of None \<Rightarrow> NewNode | Some o1 \<Rightarrow> o1);
          n = old\<lparr>stNodeClaim := Some nodeClaim, podDisruptionCosts := []\<rparr>
      in Option.bind
           (case map_of (clClaimName c) (ncName nodeClaim) of
              Some pid \<Rightarrow> if pid \<noteq> ncProviderID nodeClaim then cleanupNodeClaim SE now (ncName nodeClaim) c else Some c
            | None \<Rightarrow> Some c)
           (\<lambda>c. Option.bind (updateNodePoolResources SE (Some old) (Some n) c)
                  (\<lambda>c. Some (triggerConsolidationOnChange now old n c, n))))"

definition UpdateNodeClaim ::
  "'q::linordered_ab_group_add state_env \<Rightarrow> int \<Rightarrow> 'q NodeClaim \<Rightarrow> 'q Cluster \<Rightarrow> 'q Cluster option" where
  "UpdateNodeClaim SE now nodeClaim c =
     Option.bind
       (if ncProviderID nodeClaim \<noteq> []
        then Option.bind (newStateFromNodeClaim SE now nodeClaim (map_of (clNodes c) (ncProviderID nodeClaim)) c)
               (\<lambda>(c, n). Some (c\<lparr>clNodes := mput (ncProviderID nodeClaim) n (clNodes c)\<rparr>))
        else Some c)
       (\<lambda>c. (let markedForDel = (case map_of (clNodes c) (ncProviderID nodeClaim) of
                                     None \<Rightarrow> False | Some n \<Rightarrow> MarkedForDeletion n)
              in Some (c\<lparr>clPoolState := NodePoolState_UpdateNodeClaim nodeClaim markedForDel (clPoolState c),
                         clClaimName := mput (ncName nodeClaim) (ncProviderID nodeClaim) (clClaimName c)\<rparr>)))"

definition DeleteNodeClaim ::
  "'q::linordered_ab_group_add state_env \<Rightarrow> int \<Rightarrow> string \<Rightarrow> 'q Cluster \<Rightarrow> 'q Cluster option" where
  "DeleteNodeClaim SE now name c = cleanupNodeClaim SE now name c"

definition NodeClaimExists :: "string \<Rightarrow> 'q Cluster \<Rightarrow> bool" where
  "NodeClaimExists name c = mhas (clClaimName c) name"

section \<open>Pods and nodes\<close>

text \<open>A change of the state node under a provider id, where there is one.\<close>

definition on_node :: "string \<Rightarrow> ('q StateNode \<Rightarrow> 'q StateNode) \<Rightarrow> 'q Cluster \<Rightarrow> 'q Cluster" where
  "on_node pid f c =
     (case map_of (clNodes c) pid of None \<Rightarrow> c | Some n \<Rightarrow> c\<lparr>clNodes := mput pid (f n) (clNodes c)\<rparr>)"

definition cleanupOldBindings :: "int \<Rightarrow> Pod \<Rightarrow> 'q Cluster \<Rightarrow> 'q Cluster" where
  "cleanupOldBindings now pod c =
     (case map_of (clBindings c) (podKey pod) of
        None \<Rightarrow> MarkUnconsolidated now c
      | Some oldNodeName \<Rightarrow>
          if oldNodeName = podNodeName pod then c
          else
            (let pid = mget [] (clNodeName c) oldNodeName in
             MarkUnconsolidated now
               (if mhas (clNodes c) pid
                then (on_node pid (cleanupForPod (podKey pod)) c)\<lparr>clBindings := mdel (podKey pod) (clBindings c)\<rparr>
                else c)))"

definition bind_pod :: "int \<Rightarrow> Pod \<Rightarrow> 'q Cluster \<Rightarrow> 'q Cluster" where
  "bind_pod now pod c =
     (let c = cleanupOldBindings now pod c in c\<lparr>clBindings := mput (podKey pod) (podNodeName pod) (clBindings c)\<rparr>)"

fun populate_loop ::
  "'q::linordered_ab_group_add state_env \<Rightarrow> int \<Rightarrow> Pod list \<Rightarrow> 'q Cluster \<Rightarrow> 'q StateNode \<Rightarrow>
   ('q Cluster \<times> 'q StateNode \<times> kube_error option) option" where
  "populate_loop SE now [] c n = Some (c, n, None)"
| "populate_loop SE now (pod # pods) c n =
     (if IsTerminal pod then populate_loop SE now pods c n
      else
        (case updateForPod SE pod n of
           Panic \<Rightarrow> None
         | Err e \<Rightarrow> Some (c, n, Some e)
         | Ok n \<Rightarrow> populate_loop SE now pods (bind_pod now pod c) n))"

definition populateResourceRequests ::
  "'q::linordered_ab_group_add state_env \<Rightarrow> int \<Rightarrow> (kube_error, Pod list) result \<Rightarrow> 'q Cluster \<Rightarrow> 'q StateNode \<Rightarrow>
   ('q Cluster \<times> 'q StateNode \<times> kube_error option) option" where
  "populateResourceRequests SE now listed c n =
     (case listed of
        Panic \<Rightarrow> None
      | Err e \<Rightarrow> Some (c, n, Some e)
      | Ok pods \<Rightarrow> populate_loop SE now pods c n)"

text \<open>The drivers of the CSINode with the number of volumes each allows, where it says so.\<close>

definition populateVolumeLimits ::
  "kube_error + (string \<times> int option option) list \<Rightarrow> 'q StateNode \<Rightarrow> 'q StateNode \<times> kube_error option" where
  "populateVolumeLimits csiNode n =
     (case csiNode of
        Inl e \<Rightarrow> (n, if e = NotFound then None else Some e)
      | Inr drivers \<Rightarrow>
          (n\<lparr>volumeUsage := foldl (\<lambda>u (name, allocatable).
               case allocatable of None \<Rightarrow> u | Some cnt \<Rightarrow> AddLimit u name (case cnt of None \<Rightarrow> 0 | Some k \<Rightarrow> k))
               (volumeUsage n) drivers\<rparr>, None))"

definition cleanupNode ::
  "'q::linordered_ab_group_add state_env \<Rightarrow> int \<Rightarrow> string \<Rightarrow> 'q Cluster \<Rightarrow> 'q Cluster option" where
  "cleanupNode SE now name c =
     (let pid = mget [] (clNodeName c) name in
      if pid \<noteq> []
      then
        (case map_of (clNodes c) pid of
           None \<Rightarrow> None
         | Some n \<Rightarrow>
             Option.bind
               (if stNodeClaim n = None
                then map_option (\<lambda>c. c\<lparr>clNodes := mdel pid (clNodes c)\<rparr>) (updateNodePoolResources SE (Some n) None c)
                else
                  (let new = n\<lparr>stNode := None\<rparr> in
                   updateNodePoolResources SE (Some n) (Some new) (c\<lparr>clNodes := mput pid new (clNodes c)\<rparr>)))
               (\<lambda>c. Some (MarkUnconsolidated now (c\<lparr>clNodeName := mdel name (clNodeName c)\<rparr>))))
      else Some c)"

definition newStateFromNode ::
  "'q::linordered_ab_group_add state_env \<Rightarrow> int \<Rightarrow> (kube_error, Pod list) result \<Rightarrow>
   kube_error + (string \<times> int option option) list \<Rightarrow> 'q CoreNode \<Rightarrow> 'q StateNode option \<Rightarrow> 'q Cluster \<Rightarrow>
   ('q Cluster \<times> 'q StateNode \<times> kube_error list) option" where
  "newStateFromNode SE now listed csiNode node oldNode c =
     (let old = (case oldNode of None \<Rightarrow> NewNode | Some o1 \<Rightarrow> o1);
          n = NewNode\<lparr>stNode := Some node, stNodeClaim := stNodeClaim old, markedForDeletion := markedForDeletion old,
                      nominatedUntil := nominatedUntil old\<rparr>
      in case populateResourceRequests SE now listed c n of
           None \<Rightarrow> None
         | Some (c, n, e1) \<Rightarrow>
             (let (n, e2) = populateVolumeLimits csiNode n;
                  errs = (case e1 of None \<Rightarrow> [] | Some e \<Rightarrow> [e]) @ (case e2 of None \<Rightarrow> [] | Some e \<Rightarrow> [e])
              in if errs \<noteq> [] then Some (c, n, errs)
                 else
                   Option.bind
                     (case map_of (clNodeName c) (cnName node) of
                        Some pid \<Rightarrow> if pid \<noteq> cnProviderID node then cleanupNode SE now (cnName node) c else Some c
                      | None \<Rightarrow> Some c)
                     (\<lambda>c. Option.bind (updateNodePoolResources SE (Some old) (Some n) c)
                            (\<lambda>c. Some (triggerConsolidationOnChange now old n c, n, [])))))"

definition UpdateNode ::
  "'q::linordered_ab_group_add state_env \<Rightarrow> int \<Rightarrow> (kube_error, Pod list) result \<Rightarrow>
   kube_error + (string \<times> int option option) list \<Rightarrow> 'q CoreNode \<Rightarrow> 'q Cluster \<Rightarrow> ('q Cluster \<times> kube_error list) option" where
  "UpdateNode SE now listed csiNode node c =
     (let managed = mget [] (cnLabels node) NodePoolLabelKey \<noteq> [];
          initialized = mget [] (cnLabels node) NodeInitializedLabelKey \<noteq> []
      in if cnProviderID node = [] \<and> managed then Some (c, [])
         else
           (let node = (if cnProviderID node = [] then node\<lparr>cnProviderID := cnName node\<rparr> else node) in
            if managed \<and> mget [] (cnLabels node) LabelInstanceTypeStable = [] \<and> \<not> initialized then Some (c, [])
            else
              (case newStateFromNode SE now listed csiNode node (map_of (clNodes c) (cnProviderID node)) c of
                 None \<Rightarrow> None
               | Some (c, n, errs) \<Rightarrow>
                   if errs \<noteq> [] then Some (c, errs)
                   else Some (c\<lparr>clNodes := mput (cnProviderID node) n (clNodes c),
                                clNodeName := mput (cnName node) (cnProviderID node) (clNodeName c)\<rparr>, []))))"

definition DeleteNode ::
  "'q::linordered_ab_group_add state_env \<Rightarrow> int \<Rightarrow> string \<Rightarrow> 'q Cluster \<Rightarrow> 'q Cluster option" where
  "DeleteNode SE now name c = cleanupNode SE now name c"

definition updateNodeUsageFromPod ::
  "'q::linordered_ab_group_add state_env \<Rightarrow> int \<Rightarrow> Pod \<Rightarrow> 'q Cluster \<Rightarrow> ('q Cluster \<times> kube_error option) option" where
  "updateNodeUsageFromPod SE now pod c =
     (if podNodeName pod = [] then Some (c, None)
      else
        (let pid = mget [] (clNodeName c) (podNodeName pod) in
         case map_of (clNodes c) pid of
           None \<Rightarrow> Some (c, Some NotFound)
         | Some n \<Rightarrow>
             (case updateForPod SE pod n of
                Panic \<Rightarrow> None
              | Err e \<Rightarrow> Some (c, Some e)
              | Ok n \<Rightarrow> Some (bind_pod now pod (c\<lparr>clNodes := mput pid n (clNodes c)\<rparr>), None))))"

definition updateNodeUsageFromPodCompletion :: "NamespacedName \<Rightarrow> 'q Cluster \<Rightarrow> 'q Cluster" where
  "updateNodeUsageFromPodCompletion key c =
     (case map_of (clBindings c) key of
        None \<Rightarrow> c
      | Some name \<Rightarrow>
          on_node (mget [] (clNodeName c) name) (cleanupForPod key) (c\<lparr>clBindings := mdel key (clBindings c)\<rparr>))"

definition updatePodAntiAffinities :: "Pod \<Rightarrow> 'q Cluster \<Rightarrow> 'q Cluster" where
  "updatePodAntiAffinities pod c =
     (if HasRequiredPodAntiAffinity pod
      then c\<lparr>clAntiAffinityPods := mput (podKey pod) pod (clAntiAffinityPods c)\<rparr>
      else c\<lparr>clAntiAffinityPods := mdel (podKey pod) (clAntiAffinityPods c)\<rparr>)"

definition UpdatePod ::
  "'q::linordered_ab_group_add state_env \<Rightarrow> int \<Rightarrow> Pod \<Rightarrow> 'q Cluster \<Rightarrow> ('q Cluster \<times> kube_error option) option" where
  "UpdatePod SE now pod c =
     map_option (map_prod (updatePodAntiAffinities pod) id)
       (if IsTerminal pod then Some (updateNodeUsageFromPodCompletion (podKey pod) c, None)
        else updateNodeUsageFromPod SE now pod c)"

definition ClearPodSchedulingMappings :: "NamespacedName \<Rightarrow> 'q Cluster \<Rightarrow> 'q Cluster" where
  "ClearPodSchedulingMappings key c =
     c\<lparr>clPodAcks := mdel key (clPodAcks c), clSchedulableTimes := mdel key (clSchedulableTimes c),
       clSchedulingAttempted := mdel key (clSchedulingAttempted c), clHealthyScheduled := mdel key (clHealthyScheduled c),
       clPodToNodeClaim := mdel key (clPodToNodeClaim c), clUnprovisionable := mdel key (clUnprovisionable c)\<rparr>"

definition DeletePod :: "int \<Rightarrow> NamespacedName \<Rightarrow> 'q Cluster \<Rightarrow> 'q Cluster" where
  "DeletePod now key c =
     MarkUnconsolidated now (ClearPodSchedulingMappings key
       (updateNodeUsageFromPodCompletion key (c\<lparr>clAntiAffinityPods := mdel key (clAntiAffinityPods c)\<rparr>)))"

section \<open>Deletion marks and nominations\<close>

definition set_mark :: "'q::linordered_ab_group_add state_env \<Rightarrow> bool \<Rightarrow> string \<Rightarrow> 'q Cluster \<Rightarrow> 'q Cluster option" where
  "set_mark SE mark pid c =
     (case map_of (clNodes c) pid of
        None \<Rightarrow> Some c
      | Some n \<Rightarrow>
          (let new = n\<lparr>markedForDeletion := mark\<rparr> in
           Option.bind (updateNodePoolResources SE (Some n) (Some new) (c\<lparr>clNodes := mput pid new (clNodes c)\<rparr>)) (\<lambda>c.
             case stNodeClaim n of
               None \<Rightarrow> Some c
             | Some nc \<Rightarrow>
                 (let np = mget [] (ncLabels nc) NodePoolLabelKey in
                  Some (if mark then c\<lparr>clPoolState := MarkNodeClaimDeleting np (ncName nc) (clPoolState c)\<rparr>
                        else if ncDeletionTimestamp nc = None
                        then c\<lparr>clPoolState := MarkNodeClaimActive np (ncName nc) (clPoolState c)\<rparr>
                        else c)))))"

definition MarkForDeletion ::
  "'q::linordered_ab_group_add state_env \<Rightarrow> string list \<Rightarrow> 'q Cluster \<Rightarrow> 'q Cluster option" where
  "MarkForDeletion SE providerIDs c = run_steps (set_mark SE True) providerIDs c"

definition UnmarkForDeletion ::
  "'q::linordered_ab_group_add state_env \<Rightarrow> string list \<Rightarrow> 'q Cluster \<Rightarrow> 'q Cluster option" where
  "UnmarkForDeletion SE providerIDs c = run_steps (set_mark SE False) providerIDs c"

definition IsNodeNominated :: "int \<Rightarrow> string \<Rightarrow> 'q Cluster \<Rightarrow> bool" where
  "IsNodeNominated now pid c = (case map_of (clNodes c) pid of None \<Rightarrow> False | Some n \<Rightarrow> Nominated now n)"

definition NominateNodeForPod :: "int \<Rightarrow> int \<Rightarrow> string \<Rightarrow> 'q Cluster \<Rightarrow> 'q Cluster" where
  "NominateNodeForPod batchMaxDuration now pid c = on_node pid (Nominate batchMaxDuration now) c"

definition SimulationCopyNodes :: "'q::linordered_ab_group_add Cluster \<Rightarrow> 'q Cluster \<times> 'q StateNode list" where
  "SimulationCopyNodes c =
     (let c = c\<lparr>clNodes := map (\<lambda>(pid, n). (pid, ensureRequestTotals n)) (clNodes c)\<rparr>
      in (c, map (SimulationCopy \<circ> snd) (clNodes c)))"

definition UpdateBufferPodCounts :: "(string, int) gomap \<Rightarrow> 'q Cluster \<Rightarrow> 'q Cluster" where
  "UpdateBufferPodCounts counts c = c\<lparr>clBufferPodCounts := counts\<rparr>"

definition BufferPodCount :: "string \<Rightarrow> 'q Cluster \<Rightarrow> int" where
  "BufferPodCount pid c = mget 0 (clBufferPodCounts c) pid"

definition HasBufferPods :: "string \<Rightarrow> 'q Cluster \<Rightarrow> bool" where
  "HasBufferPods pid c \<longleftrightarrow> BufferPodCount pid c > 0"

section \<open>Scheduling decisions\<close>

definition LoadOrStore :: "'k \<Rightarrow> 'v \<Rightarrow> ('k, 'v) gomap \<Rightarrow> ('k, 'v) gomap" where
  "LoadOrStore k v m = (if mhas m k then m else mput k v m)"

definition AckPods :: "int \<Rightarrow> Pod list \<Rightarrow> 'q Cluster \<Rightarrow> 'q Cluster" where
  "AckPods now pods c = c\<lparr>clPodAcks := foldl (\<lambda>m p. LoadOrStore (podKey p) now m) (clPodAcks c) pods\<rparr>"

definition mark_error :: "int \<Rightarrow> Pod \<Rightarrow> 'q Cluster \<Rightarrow> 'q Cluster" where
  "mark_error now pod c =
     (let nn = podKey pod in
      c\<lparr>clSchedulableTimes := mdel nn (clSchedulableTimes c),
        clSchedulingAttempted := LoadOrStore nn now (clSchedulingAttempted c),
        clHealthyScheduled := mdel nn (clHealthyScheduled c), clPodToNodeClaim := mdel nn (clPodToNodeClaim c),
        clUnprovisionable := mdel nn (clUnprovisionable c)\<rparr>)"

text \<open>\<open>healthy\<close> tells whether the NodePool of a name was read and has registered nodes successfully.\<close>

definition mark_scheduled :: "(string \<Rightarrow> bool) \<Rightarrow> int \<Rightarrow> string \<Rightarrow> Pod \<Rightarrow> 'q Cluster \<Rightarrow> 'q Cluster" where
  "mark_scheduled healthy now nodePoolName p c =
     (if IsScheduled p then c
      else
        (let nn = podKey p in
         c\<lparr>clUnprovisionable := mdel nn (clUnprovisionable c),
           clSchedulableTimes := LoadOrStore nn now (clSchedulableTimes c),
           clSchedulingAttempted := LoadOrStore nn now (clSchedulingAttempted c),
           clHealthyScheduled := (if nodePoolName \<noteq> [] \<and> healthy nodePoolName
                                  then LoadOrStore nn now (clHealthyScheduled c) else mdel nn (clHealthyScheduled c))\<rparr>))"

definition UpdatePodToNodeClaimMapping :: "(string, Pod list) gomap \<Rightarrow> 'q Cluster \<Rightarrow> 'q Cluster" where
  "UpdatePodToNodeClaimMapping ncPods c =
     foldl (\<lambda>c (name, pods). foldl (\<lambda>c p.
       c\<lparr>clPodToNodeClaim := mput (podKey p) name (clPodToNodeClaim c),
         clUnprovisionable := mdel (podKey p) (clUnprovisionable c)\<rparr>) c pods) c ncPods"

definition MarkPodSchedulingDecisions ::
  "(string \<Rightarrow> bool) \<Rightarrow> int \<Rightarrow> Pod list \<Rightarrow> (string, Pod list) gomap \<Rightarrow> (string, Pod list) gomap \<Rightarrow> 'q Cluster \<Rightarrow> 'q Cluster" where
  "MarkPodSchedulingDecisions healthy now podErrors npPods ncPods c =
     (let c = foldl (\<lambda>c p. mark_error now p c) c podErrors;
          c = foldl (\<lambda>c (np, pods). foldl (\<lambda>c p. mark_scheduled healthy now np p c) c pods) c npPods
      in UpdatePodToNodeClaimMapping ncPods c)"

definition MarkPodsUnprovisionable :: "int \<Rightarrow> Pod list \<Rightarrow> 'q Cluster \<Rightarrow> 'q Cluster" where
  "MarkPodsUnprovisionable now pods c =
     c\<lparr>clUnprovisionable := foldl (\<lambda>m p. mput (podKey p) now m) (clUnprovisionable c) pods\<rparr>"

text \<open>The recorded times; None is the zero time.\<close>

definition PodAckTime :: "NamespacedName \<Rightarrow> 'q Cluster \<Rightarrow> int option" where
  "PodAckTime key c = map_of (clPodAcks c) key"

definition PodUnprovisionableTime :: "NamespacedName \<Rightarrow> 'q Cluster \<Rightarrow> int option" where
  "PodUnprovisionableTime key c = map_of (clUnprovisionable c) key"

definition PodSchedulingDecisionTime :: "NamespacedName \<Rightarrow> 'q Cluster \<Rightarrow> int option" where
  "PodSchedulingDecisionTime key c = map_of (clSchedulingAttempted c) key"

definition PodSchedulingSuccessTime :: "NamespacedName \<Rightarrow> 'q Cluster \<Rightarrow> int option" where
  "PodSchedulingSuccessTime key c = map_of (clSchedulableTimes c) key"

definition PodNodeClaimMapping :: "NamespacedName \<Rightarrow> 'q Cluster \<Rightarrow> string" where
  "PodNodeClaimMapping key c = mget [] (clPodToNodeClaim c) key"

definition PodSchedulingSuccessTimeRegistrationHealthyCheck :: "NamespacedName \<Rightarrow> 'q Cluster \<Rightarrow> int option" where
  "PodSchedulingSuccessTimeRegistrationHealthyCheck key c = map_of (clHealthyScheduled c) key"

section \<open>Synchronisation\<close>

text \<open>The names of the NodeClaims and Nodes the API server has; None where listing fails.\<close>

definition Synced :: "string list option \<Rightarrow> string list option \<Rightarrow> 'q Cluster \<Rightarrow> 'q Cluster \<times> bool" where
  "Synced nodeClaims nodes c =
     (if clHasSynced c then (c, list_all (\<lambda>(_, pid). pid \<noteq> []) (clClaimName c))
      else
        (case (nodeClaims, nodes) of
           (Some ncs, Some ns) \<Rightarrow>
             if list_ex (\<lambda>(_, pid). pid = []) (clClaimName c) then (c, False)
             else
               (let synced = (set ncs \<subseteq> fst ` set (clClaimName c) \<and> set ns \<subseteq> fst ` set (clNodeName c))
                in (if synced then c\<lparr>clHasSynced := True\<rparr> else c, synced))
         | _ \<Rightarrow> (c, False)))"

text \<open>The pods with required anti-affinity with the nodes they are bound to, in the order of the map.\<close>

definition pods_with_anti_affinity :: "'q Cluster \<Rightarrow> (Pod \<times> 'q CoreNode) list" where
  "pods_with_anti_affinity c =
     List.map_filter (\<lambda>(_, pod).
       Option.bind (map_of (clBindings c) (podKey pod)) (\<lambda>name.
         Option.bind (map_of (clNodes c) (mget [] (clNodeName c) name)) (\<lambda>n.
           map_option (Pair pod) (stNode n)))) (clAntiAffinityPods c)"

section \<open>Daemon sets\<close>

definition GetDaemonSetPod :: "NamespacedName \<Rightarrow> 'q Cluster \<Rightarrow> Pod option" where
  "GetDaemonSetPod daemonset c = map_of (clDaemonSetPods c) daemonset"

text \<open>The newest of the pods the daemon set controls; of several, the first.\<close>

definition UpdateDaemonSet ::
  "(Pod \<Rightarrow> bool) \<Rightarrow> (kube_error, Pod list) result \<Rightarrow> NamespacedName \<Rightarrow> 'q Cluster \<Rightarrow> (kube_error, 'q Cluster) result" where
  "UpdateDaemonSet controlled listed daemonset c =
     rbind listed (\<lambda>pods.
       case foldl (\<lambda>best p. if controlled p \<and> (case best of None \<Rightarrow> True | Some b \<Rightarrow> podCreated p > podCreated b)
                              then Some p else best) None pods of
         None \<Rightarrow> Ok c
       | Some p \<Rightarrow> Ok (c\<lparr>clDaemonSetPods := mput daemonset p (clDaemonSetPods c)\<rparr>))"

definition DeleteDaemonSet :: "NamespacedName \<Rightarrow> 'q Cluster \<Rightarrow> 'q Cluster" where
  "DeleteDaemonSet key c = c\<lparr>clDaemonSetPods := mdel key (clDaemonSetPods c)\<rparr>"

end
