(* ===== verification/ClusterLaws.thy ===== *)
theory ClusterLaws
  imports Cluster
begin

text \<open>
  What the operations of the cluster state keep true, for every sequence of watch events: the resources
  tracked for a NodePool are the sum of the capacities of its nodes, no operation panics, and every pod
  is counted on at most one node.
\<close>

section \<open>The share of a node\<close>

definition object_wf :: "'q StateNode \<Rightarrow> bool" where
  "object_wf n \<longleftrightarrow> (\<forall>nd. stNode n = Some nd \<longrightarrow> wf_map (cnCapacity nd)) \<and>
     (\<forall>nc. stNodeClaim n = Some nc \<longrightarrow> wf_map (ncCapacity nc))"

text \<open>What a state node contributes to a resource of a NodePool.\<close>

definition contribution :: "'q::linordered_ab_group_add state_env \<Rightarrow> string \<Rightarrow> string \<Rightarrow> 'q StateNode \<Rightarrow> 'q" where
  "contribution SE p k n =
     (case pool_share SE (Some n) of None \<Rightarrow> 0 | Some (q, res) \<Rightarrow> if q = p then qty res k else 0)"

lemma wf_lo_Assign [wf_intros]: "wf_map m \<Longrightarrow> wf_map (lo_Assign m n)"
  unfolding lo_Assign_def by (induction n arbitrary: m) (simp_all add: split_def wf_map_mput)

lemma wf_override_zero [wf_intros]: "wf_map m \<Longrightarrow> wf_map (override_zero m n)"
  unfolding override_zero_def by (induction n arbitrary: m) (auto simp: split_def wf_map_mput)

lemma Labels_Some: "has_object n \<Longrightarrow> \<exists>l. StateNode_Labels n = Some l"
  by (auto simp: has_object_def StateNode_Labels_def from_objects_def split: option.splits)

lemma Capacity_Some:
  assumes "has_object n" "object_wf n"
  shows "\<exists>l. StateNode_Capacity SE n = Some l \<and> wf_map l"
proof (cases "stNodeClaim n")
  case None
  then obtain nd where "stNode n = Some nd" using assms(1) by (auto simp: has_object_def)
  then show ?thesis using None assms(2)
    by (auto simp: StateNode_Capacity_def object_wf_def intro!: wf_intros)
next
  case (Some nc)
  then show ?thesis using assms(2)
    by (cases "stNode n") (auto simp: StateNode_Capacity_def object_wf_def Initialized_def node_label_true_def
        Managed_def intro!: wf_intros)
qed

lemma pool_share_placeholder [simp]: "pool_share SE None = Some ([], [])" "pool_share SE (Some NewNode) = Some ([], [])"
  by (simp_all add: pool_share_def has_object_def NewNode_def)

lemma pool_share_Some:
  assumes "has_object n" "object_wf n"
  shows "\<exists>p res. pool_share SE (Some n) = Some (p, res) \<and> wf_map res \<and>
           (res \<noteq> [] \<longrightarrow> qty res ResourceNode = seNewQuantity SE 1)"
proof -
  obtain l where l: "StateNode_Labels n = Some l" using Labels_Some[OF assms(1)] by blast
  obtain cap where cap: "StateNode_Capacity SE n = Some cap" "wf_map cap" using Capacity_Some[OF assms] by blast
  define res where "res = (if MarkedForDeletion n then [] else cap)"
  have "pool_share SE (Some n) =
      Some (mget [] l NodePoolLabelKey, if res \<noteq> [] then mput ResourceNode (seNewQuantity SE 1) res else res)"
    using assms(1) l cap by (simp add: pool_share_def res_def)
  moreover have "wf_map res" using cap by (simp add: res_def)
  ultimately show ?thesis by (auto simp: gomap_simps wf_map_mput)
qed

lemma contribution_node:
  assumes "has_object n" "object_wf n"
  shows "contribution SE p ResourceNode n \<in> {0, seNewQuantity SE 1}"
proof -
  obtain q res where r: "pool_share SE (Some n) = Some (q, res)" "res \<noteq> [] \<longrightarrow> qty res ResourceNode = seNewQuantity SE 1"
    using pool_share_Some[OF assms] by blast
  then show ?thesis by (cases "res = []") (auto simp: contribution_def mget_def)
qed

text \<open>The share depends only on the two objects and the deletion mark.\<close>

definition same_objects :: "'q StateNode \<Rightarrow> 'q StateNode \<Rightarrow> bool" where
  "same_objects n m \<longleftrightarrow> stNode n = stNode m \<and> stNodeClaim n = stNodeClaim m \<and> markedForDeletion n = markedForDeletion m"

lemma same_objects_share:
  assumes "same_objects n m"
  shows "has_object n = has_object m" "object_wf n = object_wf m" "pool_share SE (Some n) = pool_share SE (Some m)"
    "contribution SE p k n = contribution SE p k m" "MarkedForDeletion n = MarkedForDeletion m" "Initialized n = Initialized m"
proof -
  note defs = pool_share_def has_object_def StateNode_Labels_def from_objects_def Registered_def node_label_true_def
    Managed_def MarkedForDeletion_def Deleted_def StateNode_Capacity_def Initialized_def object_wf_def
  have e: "stNode n = stNode m" "stNodeClaim n = stNodeClaim m" "markedForDeletion n = markedForDeletion m"
    using assms by (simp_all add: same_objects_def)
  show "has_object n = has_object m" "object_wf n = object_wf m" "MarkedForDeletion n = MarkedForDeletion m"
    "Initialized n = Initialized m" unfolding defs e by (rule refl)+
  show share: "pool_share SE (Some n) = pool_share SE (Some m)" unfolding defs option.case e by (rule refl)
  show "contribution SE p k n = contribution SE p k m" by (simp add: contribution_def share)
qed

section \<open>The resources of the NodePools\<close>

definition pools_wf :: "(string, 'q ResourceList) gomap \<Rightarrow> bool" where
  "pools_wf m \<longleftrightarrow> wf_map m \<and> (\<forall>p l. map_of m p = Some l \<longrightarrow> wf_map l)"

abbreviation tally :: "(string, 'q::linordered_ab_group_add ResourceList) gomap \<Rightarrow> string \<Rightarrow> string \<Rightarrow> 'q" where
  "tally m p k \<equiv> qty (mget [] m p) k"

lemma pools_wf_mput: "pools_wf m \<Longrightarrow> wf_map l \<Longrightarrow> pools_wf (mput p l m)"
  by (auto simp: pools_wf_def gomap_simps wf_map_mput)

lemma change_pool_Some:
  assumes "pools_wf m" "wf_map res" "pool \<noteq> [] \<and> res \<noteq> [] \<longrightarrow> mhas m pool"
    and "\<And>cur. wf_map cur \<Longrightarrow> wf_map (f cur res)" "\<And>cur k. qty (f cur res) k = qty cur k + g k"
    and "res = [] \<Longrightarrow> \<forall>k. g k = 0"
  shows "\<exists>m'. change_pool f pool res m = Some m' \<and> pools_wf m' \<and> (\<forall>q. mhas m q \<longrightarrow> mhas m' q) \<and>
           (\<forall>q k. q \<noteq> [] \<longrightarrow> tally m' q k = tally m q k + (if q = pool then g k else 0))"
proof (cases "pool = [] \<or> res = []")
  case True
  then show ?thesis using assms(1,6) by (auto simp: change_pool_def)
next
  case False
  then obtain cur where cur: "map_of m pool = Some cur" "wf_map cur" using assms(1,3) by (auto simp: pools_wf_def)
  have m: "mget [] m pool = cur" using cur by (simp add: mget_def)
  show ?thesis using False cur m assms(5) pools_wf_mput[OF assms(1) assms(4)[OF cur(2)], of pool]
    by (auto simp: change_pool_def gomap_simps)
qed

lemma collect_pool_keeps:
  assumes "pools_wf m"
  shows "pools_wf (collect_pool name m)" "tally (collect_pool name m) q k = tally m q k"
proof -
  show "pools_wf (collect_pool name m)" using assms
    by (auto simp: collect_pool_def pools_wf_def gomap_simps wf_map_mdel simp del: map_of_eq_Some_iff)
  have "qty l k = 0" if "list_all (\<lambda>(_, v). v = 0) l" for l :: "'a ResourceList"
    using that by (induction l) (auto simp: mget_def)
  then show "tally (collect_pool name m) q k = tally m q k"
    by (auto simp: collect_pool_def gomap_simps mget_def)
qed

lemma updateNodePoolResources_Some:
  assumes "pools_wf (clPoolResources c)"
    and old: "pool_share SE old = Some (op, ores)" "wf_map ores" "op \<noteq> [] \<and> ores \<noteq> [] \<longrightarrow> mhas (clPoolResources c) op"
    and new: "pool_share SE new = Some (np, nres)" "wf_map nres"
  shows "\<exists>m. updateNodePoolResources SE old new c = Some (c\<lparr>clPoolResources := m\<rparr>) \<and> pools_wf m \<and>
           (\<forall>q k. q \<noteq> [] \<longrightarrow> tally m q k = tally (clPoolResources c) q k
              - (if q = op then qty ores k else 0) + (if q = np then qty nres k else 0))"
proof -
  let ?m0 = "clPoolResources c"
  have empty: "qty ([] :: 'a ResourceList) k = 0" for k by (simp add: mget_def)
  define m1 where "m1 = (if \<not> mhas ?m0 np \<and> np \<noteq> [] then mput np [] ?m0 else ?m0)"
  have m1: "pools_wf m1" "\<And>q k. tally m1 q k = tally ?m0 q k" "np \<noteq> [] \<longrightarrow> mhas m1 np" "\<And>q. mhas ?m0 q \<Longrightarrow> mhas m1 q"
    using assms(1) by (auto simp: m1_def pools_wf_mput gomap_simps mget_def)
  obtain m2 where m2: "change_pool sub_list op ores m1 = Some m2" "pools_wf m2" "\<forall>q. mhas m1 q \<longrightarrow> mhas m2 q"
      "\<forall>q k. q \<noteq> [] \<longrightarrow> tally m2 q k = tally m1 q k + (if q = op then - qty ores k else 0)"
    using change_pool_Some[OF m1(1) old(2), of op sub_list "\<lambda>k. - qty ores k"] m1(4) old
    by (auto simp: qty_sub_list wf_sub_list empty)
  obtain m3 where m3: "change_pool add_list np nres m2 = Some m3" "pools_wf m3"
      "\<forall>q k. q \<noteq> [] \<longrightarrow> tally m3 q k = tally m2 q k + (if q = np then qty nres k else 0)"
    using change_pool_Some[OF m2(2) new(2), of np add_list "\<lambda>k. qty nres k"] m1(3) m2(3) new
    by (auto simp: qty_add_list wf_add_list empty)
  show ?thesis
  proof (intro exI conjI allI impI)
    show "updateNodePoolResources SE old new c = Some (c\<lparr>clPoolResources := collect_pool np (collect_pool op m3)\<rparr>)"
      using m2(1)[unfolded m1_def] m3(1) by (auto simp: updateNodePoolResources_def old new split: if_splits)
    show "pools_wf (collect_pool np (collect_pool op m3))" using m3(2) by (simp add: collect_pool_keeps)
    show "tally (collect_pool np (collect_pool op m3)) q k = tally ?m0 q k - (if q = op then qty ores k else 0)
        + (if q = np then qty nres k else 0)" if "q \<noteq> []" for q k
      using that m3 m2(4) m1(2) by (simp add: collect_pool_keeps)
  qed
qed

section \<open>Invariants\<close>

text \<open>
  A provider id belongs to one NodeClaim and one Node; \<open>co\<close> and \<open>no\<close> give their names. The names a
  state node carries are those of its provider id.
\<close>

definition node_ok :: "(string \<Rightarrow> string) \<Rightarrow> (string \<Rightarrow> string) \<Rightarrow> string \<Rightarrow> 'q StateNode \<Rightarrow> bool" where
  "node_ok co no pid n \<longleftrightarrow> pid \<noteq> [] \<and> has_object n \<and> object_wf n \<and>
     (\<forall>nc. stNodeClaim n = Some nc \<longrightarrow> ncName nc = co pid) \<and> (\<forall>nd. stNode n = Some nd \<longrightarrow> cnName nd = no pid)"

definition nodes_inv :: "(string \<Rightarrow> string) \<Rightarrow> (string \<Rightarrow> string) \<Rightarrow> 'q Cluster \<Rightarrow> bool" where
  "nodes_inv co no c \<longleftrightarrow> wf_map (clNodes c) \<and> (\<forall>pid n. map_of (clNodes c) pid = Some n \<longrightarrow> node_ok co no pid n)"

definition claim_at :: "'q Cluster \<Rightarrow> string \<Rightarrow> 'q NodeClaim option" where
  "claim_at c pid = Option.bind (map_of (clNodes c) pid) stNodeClaim"

definition node_at :: "'q Cluster \<Rightarrow> string \<Rightarrow> 'q CoreNode option" where
  "node_at c pid = Option.bind (map_of (clNodes c) pid) stNode"

definition names_inv :: "'q Cluster \<Rightarrow> bool" where
  "names_inv c \<longleftrightarrow>
     (\<forall>nm pid. map_of (clClaimName c) nm = Some pid \<longrightarrow> pid \<noteq> [] \<longrightarrow> map_option ncName (claim_at c pid) = Some nm) \<and>
     (\<forall>nm pid. map_of (clNodeName c) nm = Some pid \<longleftrightarrow> map_option cnName (node_at c pid) = Some nm)"

definition pool_inv :: "'q::linordered_ab_group_add state_env \<Rightarrow> 'q Cluster \<Rightarrow> bool" where
  "pool_inv SE c \<longleftrightarrow> 0 < seNewQuantity SE 1 \<and> pools_wf (clPoolResources c) \<and>
     (\<forall>p k. p \<noteq> [] \<longrightarrow> tally (clPoolResources c) p k = map_sum (contribution SE p k) (clNodes c))"

lemma map_sum_nonneg:
  fixes f :: "'v \<Rightarrow> 'a::linordered_ab_group_add"
  assumes "\<forall>(k, v) \<in> set m. 0 \<le> f v" "(k0, v0) \<in> set m"
  shows "f v0 \<le> map_sum f m"
  using assms
proof (induction m)
  case Nil
  then show ?case by simp
next
  case (Cons e m)
  obtain k v where e: "e = (k, v)" by (cases e)
  have pos: "0 \<le> f v" and rest: "\<forall>(k, v) \<in> set m. 0 \<le> f v" using Cons.prems e by auto
  have "0 \<le> map_sum f m" unfolding map_sum_def using rest by (intro sum_list_nonneg) auto
  with Cons e pos rest show ?case by (auto simp: map_sum_def intro: add_increasing add_increasing2)
qed

lemma pool_present:
  assumes "nodes_inv co no c" "pool_inv SE c" "map_of (clNodes c) pid = Some n"
    and "pool_share SE (Some n) = Some (p, res)" "p \<noteq> []" "res \<noteq> []"
  shows "mhas (clPoolResources c) p"
proof (rule ccontr)
  assume "\<not> mhas (clPoolResources c) p"
  then have "tally (clPoolResources c) p ResourceNode = 0" by (simp add: mget_def)
  then have zero: "map_sum (contribution SE p ResourceNode) (clNodes c) = 0" using assms(2,5) by (simp add: pool_inv_def)
  have one: "0 < seNewQuantity SE 1" using assms(2) by (simp add: pool_inv_def)
  have ok: "has_object m \<and> object_wf m" if "(i, m) \<in> set (clNodes c)" for i m
    using assms(1) that by (auto simp: nodes_inv_def node_ok_def)
  have "\<forall>(i, m) \<in> set (clNodes c). 0 \<le> contribution SE p ResourceNode m"
  proof (clarify)
    fix i m assume "(i, m) \<in> set (clNodes c)"
    then show "0 \<le> contribution SE p ResourceNode m" using contribution_node[of m SE p] ok one by fastforce
  qed
  moreover have mem: "(pid, n) \<in> set (clNodes c)" using assms(3) by (rule map_of_SomeD)
  ultimately have "contribution SE p ResourceNode n \<le> 0" using map_sum_nonneg zero by metis
  moreover have "contribution SE p ResourceNode n = seNewQuantity SE 1"
    using pool_share_Some[of n SE] ok[OF mem] assms(4,6) by (auto simp: contribution_def)
  ultimately show False using one by simp
qed

text \<open>The state node stored under a provider id before and after an operation.\<close>

definition put_node :: "string \<Rightarrow> 'q StateNode option \<Rightarrow> (string, 'q StateNode) gomap \<Rightarrow> (string, 'q StateNode) gomap" where
  "put_node pid new m = (case new of None \<Rightarrow> mdel pid m | Some n \<Rightarrow> mput pid n m)"

lemma retally:
  assumes inv: "nodes_inv co no c" "pool_inv SE c"
    and old: "case map_of (clNodes c) pid of None \<Rightarrow> old \<in> {None, Some NewNode} | Some o1 \<Rightarrow> old = Some o1"
    and new: "\<forall>n. new = Some n \<longrightarrow> node_ok co no pid n"
    and same: "clPoolResources d = clPoolResources c"
  shows "\<exists>m. updateNodePoolResources SE old new d = Some (d\<lparr>clPoolResources := m\<rparr>) \<and>
           (\<forall>c'. clNodes c' = put_node pid new (clNodes c) \<and> clPoolResources c' = m \<longrightarrow> pool_inv SE c')"
proof -
  define before where "before q k = (case map_of (clNodes c) pid of None \<Rightarrow> 0 | Some w \<Rightarrow> contribution SE q k w)" for q k
  define after where "after q k = (case new of None \<Rightarrow> 0 | Some w \<Rightarrow> contribution SE q k w)" for q k
  have wf: "wf_map (clNodes c)" "pools_wf (clPoolResources c)" using inv by (auto simp: nodes_inv_def pool_inv_def)
  have "\<exists>op ores. pool_share SE old = Some (op, ores) \<and> wf_map ores \<and> (op \<noteq> [] \<and> ores \<noteq> [] \<longrightarrow> mhas (clPoolResources c) op) \<and>
      (\<forall>q k. q \<noteq> [] \<longrightarrow> (if q = op then qty ores k else 0) = before q k)"
  proof (cases "map_of (clNodes c) pid")
    case None
    then have "pool_share SE old = Some ([], [])" using old by auto
    then show ?thesis using None by (simp add: before_def)
  next
    case (Some o1)
    then have ok: "has_object o1" "object_wf o1" using inv(1) by (auto simp: nodes_inv_def node_ok_def)
    obtain op ores where s: "pool_share SE (Some o1) = Some (op, ores)" "wf_map ores" using pool_share_Some[OF ok] by blast
    then show ?thesis using Some old pool_present[OF inv Some s(1)] by (auto simp: before_def contribution_def)
  qed
  then obtain op ores where o: "pool_share SE old = Some (op, ores)" "wf_map ores"
      "op \<noteq> [] \<and> ores \<noteq> [] \<longrightarrow> mhas (clPoolResources c) op"
      "\<forall>q k. q \<noteq> [] \<longrightarrow> (if q = op then qty ores k else 0) = before q k" by blast
  have "\<exists>np nres. pool_share SE new = Some (np, nres) \<and> wf_map nres \<and>
      (\<forall>q k. q \<noteq> [] \<longrightarrow> (if q = np then qty nres k else 0) = after q k)"
  proof (cases new)
    case None
    then show ?thesis by (simp add: after_def mget_def)
  next
    case (Some n)
    then show ?thesis using pool_share_Some[of n SE] new by (fastforce simp: after_def contribution_def node_ok_def)
  qed
  then obtain np nres where n: "pool_share SE new = Some (np, nres)" "wf_map nres"
      "\<forall>q k. q \<noteq> [] \<longrightarrow> (if q = np then qty nres k else 0) = after q k" by blast
  obtain m where m: "updateNodePoolResources SE old new d = Some (d\<lparr>clPoolResources := m\<rparr>)" "pools_wf m"
      "\<forall>q k. q \<noteq> [] \<longrightarrow> tally m q k = tally (clPoolResources c) q k - before q k + after q k"
    using updateNodePoolResources_Some[of d SE old op ores new np nres] o n wf(2) same by auto
  have sum: "map_sum (contribution SE q k) (put_node pid new (clNodes c)) =
      map_sum (contribution SE q k) (clNodes c) - before q k + after q k" for q k
    by (cases new) (simp_all add: put_node_def map_sum_mput map_sum_mdel[OF wf(1)] before_def after_def)
  show ?thesis using m inv(2) sum by (intro exI[of _ m]) (auto simp: pool_inv_def)
qed

text \<open>A pod counted on a node is bound to that node.\<close>

definition pods_inv_but :: "NamespacedName \<Rightarrow> string \<Rightarrow> 'q Cluster \<Rightarrow> bool" where
  "pods_inv_but key nm c \<longleftrightarrow>
     (\<forall>pid n nd k. map_of (clNodes c) pid = Some n \<longrightarrow> stNode n = Some nd \<longrightarrow> mhas (podRequests n) k \<longrightarrow>
        map_of (clBindings c) k = Some (cnName nd) \<or> k = key \<and> cnName nd = nm)"

definition pods_inv :: "'q Cluster \<Rightarrow> bool" where
  "pods_inv c \<longleftrightarrow>
     (\<forall>pid n nd k. map_of (clNodes c) pid = Some n \<longrightarrow> stNode n = Some nd \<longrightarrow> mhas (podRequests n) k \<longrightarrow>
        map_of (clBindings c) k = Some (cnName nd))"

lemma pods_inv_butD:
  "pods_inv_but key nm c \<Longrightarrow> map_of (clNodes c) pid = Some n \<Longrightarrow> stNode n = Some nd \<Longrightarrow> mhas (podRequests n) k \<Longrightarrow>
   map_of (clBindings c) k = Some (cnName nd) \<or> k = key \<and> cnName nd = nm"
  unfolding pods_inv_but_def by blast

lemma pods_invD:
  "pods_inv c \<Longrightarrow> map_of (clNodes c) pid = Some n \<Longrightarrow> stNode n = Some nd \<Longrightarrow> mhas (podRequests n) k \<Longrightarrow>
   map_of (clBindings c) k = Some (cnName nd)"
  unfolding pods_inv_def by blast

text \<open>The memoized totals of a state node are the sums of the requests of its pods.\<close>

definition total_ok :: "'q::linordered_ab_group_add ResourceList option \<Rightarrow> (NamespacedName, 'q ResourceList) gomap \<Rightarrow> bool" where
  "total_ok t m \<longleftrightarrow> wf_map m \<and> (\<forall>k l. map_of m k = Some l \<longrightarrow> wf_map l) \<and>
     (\<forall>l. t = Some l \<longrightarrow> (\<forall>k. qty l k = map_sum (\<lambda>r. qty r k) m))"

definition usage_ok :: "'q::linordered_ab_group_add StateNode \<Rightarrow> bool" where
  "usage_ok n \<longleftrightarrow> total_ok (podRequestsTotal n) (podRequests n) \<and> total_ok (daemonSetRequestsTotal n) (daemonSetRequests n)"

definition env_ok :: "'q::linordered_ab_group_add state_env \<Rightarrow> bool" where
  "env_ok SE \<longleftrightarrow> 0 < seNewQuantity SE 1 \<and> (\<forall>p. wf_map (seRequests SE p))"

definition base_inv ::
  "'q::linordered_ab_group_add state_env \<Rightarrow> (string \<Rightarrow> string) \<Rightarrow> (string \<Rightarrow> string) \<Rightarrow> 'q Cluster \<Rightarrow> bool" where
  "base_inv SE co no c \<longleftrightarrow> env_ok SE \<and> nodes_inv co no c \<and> names_inv c \<and> pool_inv SE c \<and>
     (\<forall>pid n. map_of (clNodes c) pid = Some n \<longrightarrow> usage_ok n)"

definition cluster_inv ::
  "'q::linordered_ab_group_add state_env \<Rightarrow> (string \<Rightarrow> string) \<Rightarrow> (string \<Rightarrow> string) \<Rightarrow> 'q Cluster \<Rightarrow> bool" where
  "cluster_inv SE co no c \<longleftrightarrow> base_inv SE co no c \<and> pods_inv c"

text \<open>The invariants look at the nodes, the two name maps and the resources of the NodePools only.\<close>

definition same_base :: "'q Cluster \<Rightarrow> 'q Cluster \<Rightarrow> bool" where
  "same_base d c \<longleftrightarrow> clNodes d = clNodes c \<and> clClaimName d = clClaimName c \<and> clNodeName d = clNodeName c \<and>
     clPoolResources d = clPoolResources c"

lemma base_inv_same: "same_base d c \<Longrightarrow> base_inv SE co no d = base_inv SE co no c"
  by (simp add: same_base_def base_inv_def nodes_inv_def names_inv_def claim_at_def node_at_def pool_inv_def)

lemma cluster_inv_same:
  "same_base d c \<Longrightarrow> clBindings d = clBindings c \<Longrightarrow> cluster_inv SE co no d = cluster_inv SE co no c"
  by (simp add: cluster_inv_def base_inv_same) (simp add: pods_inv_def same_base_def)

section \<open>Pods on a state node\<close>

lemma qty_Merge_values: "total_ok t m \<Longrightarrow> qty (Merge_values m) k = map_sum (\<lambda>r. qty r k) m"
  unfolding Merge_values_def map_sum_def total_ok_def by (subst qty_Merge) (auto simp: o_def)

lemma PodRequests_sum:
  assumes "usage_ok n"
  shows "qty (PodRequests n) k = map_sum (\<lambda>r. qty r k) (podRequests n)"
proof (cases "podRequestsTotal n")
  case None
  have wf: "total_ok (podRequestsTotal n) (podRequests n)" using assms by (simp add: usage_ok_def)
  have "foldl (\<lambda>acc (_, r). MergeInto (Some acc) r) acc m = foldl add_list acc (map snd m)" for acc and m :: "(NamespacedName, 'a ResourceList) gomap"
    by (induction m arbitrary: acc) (auto simp: MergeInto_def)
  then have "PodRequests n = Merge_values (podRequests n)" using None by (simp add: PodRequests_def Merge_values_def Merge_eq)
  then show ?thesis using qty_Merge_values[OF wf] by simp
next
  case (Some t)
  then show ?thesis using assms by (simp add: PodRequests_def usage_ok_def total_ok_def)
qed

lemma total_ok_mput: "total_ok t m \<Longrightarrow> wf_map l \<Longrightarrow> total_ok None (mput key l m)"
  by (auto simp: total_ok_def wf_map_mput gomap_simps simp del: map_of_eq_Some_iff)

lemma total_ok_mdel: "total_ok t m \<Longrightarrow> total_ok None (mdel key m)"
  by (auto simp: total_ok_def wf_map_mdel gomap_simps simp del: map_of_eq_Some_iff)

lemma total_ok_None: "total_ok t m \<Longrightarrow> total_ok None m"
  by (simp add: total_ok_def)

lemma updateForPod_Ok:
  assumes "updateForPod SE pod n = Ok n'" "env_ok SE" "usage_ok n"
  shows "same_objects n' n" "usage_ok n'" "map_of (podRequests n') = (map_of (podRequests n))(podKey pod \<mapsto>
    RequestsForPods (seRequests SE) (seNewQuantity SE) [pod])"
proof -
  have wf: "wf_map (RequestsForPods (seRequests SE) (seNewQuantity SE) [pod])"
    using assms(2) by (simp add: RequestsForPods_def env_ok_def wf_intros)
  obtain vols where vols: "GetVolumes (seKube SE) pod = Ok vols" using assms(1) by (auto simp: updateForPod_def rbind_Ok_iff)
  have "total_ok (podRequestsTotal n) (podRequests n)" "total_ok (daemonSetRequestsTotal n) (daemonSetRequests n)"
    using assms(3) by (simp_all add: usage_ok_def)
  note kept = total_ok_mput[OF this(1) wf, of "podKey pod"] total_ok_mput[OF this(2) wf, of "podKey pod"] this
  show "same_objects n' n" "usage_ok n'" "map_of (podRequests n') = (map_of (podRequests n))(podKey pod \<mapsto>
      RequestsForPods (seRequests SE) (seNewQuantity SE) [pod])"
    using assms(1) vols kept
    by (auto simp: updateForPod_def same_objects_def Let_def gomap_simps usage_ok_def)
qed

lemma cleanupForPod_keeps:
  shows "same_objects (cleanupForPod key n) n" "usage_ok n \<Longrightarrow> usage_ok (cleanupForPod key n)"
    "map_of (podRequests (cleanupForPod key n)) = (map_of (podRequests n))(key := None)"
  by (auto simp: cleanupForPod_def same_objects_def usage_ok_def gomap_simps intro: total_ok_mdel)

section \<open>Operations on pods\<close>

lemma node_ok_same: "same_objects n m \<Longrightarrow> node_ok co no pid n = node_ok co no pid m"
  by (auto simp: node_ok_def has_object_def object_wf_def same_objects_def)

text \<open>A change of one state node that leaves its objects alone.\<close>

lemma on_node_keeps:
  assumes "\<And>n. map_of (clNodes c) pid = Some n \<Longrightarrow> same_objects (f n) n"
  shows "nodes_inv co no c \<Longrightarrow> nodes_inv co no (on_node pid f c)"
    and "names_inv c \<Longrightarrow> names_inv (on_node pid f c)"
    and "pool_inv SE c \<Longrightarrow> pool_inv SE (on_node pid f c)"
proof -
  show "nodes_inv co no (on_node pid f c)" if "nodes_inv co no c"
    using that assms
    by (auto simp: nodes_inv_def on_node_def gomap_simps wf_map_mput node_ok_same simp del: map_of_eq_Some_iff
        split: option.splits)
  have "claim_at (on_node pid f c) = claim_at c" "node_at (on_node pid f c) = node_at c"
    using assms
    by (auto simp: fun_eq_iff claim_at_def node_at_def on_node_def same_objects_def gomap_simps simp del: map_of_eq_Some_iff
        split: option.splits)
  moreover have "clClaimName (on_node pid f c) = clClaimName c" "clNodeName (on_node pid f c) = clNodeName c"
    by (auto simp: on_node_def split: option.splits)
  ultimately show "names_inv (on_node pid f c)" if "names_inv c" using that by (simp add: names_inv_def)
  show "pool_inv SE (on_node pid f c)" if "pool_inv SE c"
    using that assms same_objects_share(4) by (auto simp: pool_inv_def on_node_def map_sum_mput split: option.splits)
qed

lemma base_inv_on_node:
  assumes "base_inv SE co no c"
    and "\<And>n. map_of (clNodes c) pid = Some n \<Longrightarrow> same_objects (f n) n \<and> (usage_ok n \<longrightarrow> usage_ok (f n))"
  shows "base_inv SE co no (on_node pid f c)"
  using assms on_node_keeps[of c pid f]
  by (auto simp: base_inv_def on_node_def gomap_simps simp del: map_of_eq_Some_iff split: option.splits)

lemma map_of_on_node:
  "map_of (clNodes (on_node pid f c)) q = (if q = pid then map_option f (map_of (clNodes c) q) else map_of (clNodes c) q)"
  by (auto simp: on_node_def gomap_simps split: option.splits)

lemma on_node_same [simp]:
  "clBindings (on_node pid f c) = clBindings c" "clNodeName (on_node pid f c) = clNodeName c"
  by (auto simp: on_node_def split: option.splits)

lemma names_inv_node:
  "names_inv c \<Longrightarrow> map_of (clNodes c) pid = Some n \<Longrightarrow> stNode n = Some nd \<Longrightarrow> map_of (clNodeName c) (cnName nd) = Some pid"
  by (simp add: names_inv_def node_at_def)

lemma names_inv_claim:
  "names_inv c \<Longrightarrow> map_of (clClaimName c) nm = Some pid \<Longrightarrow> pid \<noteq> [] \<Longrightarrow> map_option ncName (claim_at c pid) = Some nm"
  unfolding names_inv_def by blast

lemma bind_pod_keeps:
  fixes c :: "'q::linordered_ab_group_add Cluster"
  assumes base: "base_inv SE co no c" and pods: "pods_inv_but (podKey pod) (podNodeName pod) c"
  shows "cluster_inv SE co no (bind_pod now pod c)"
    and "map_of (clBindings (bind_pod now pod c)) = (map_of (clBindings c))(podKey pod \<mapsto> podNodeName pod)"
proof -
  let ?d = "bind_pod now pod c" and ?key = "podKey pod"
  show bindings: "map_of (clBindings ?d) = (map_of (clBindings c))(?key \<mapsto> podNodeName pod)"
    by (auto simp: bind_pod_def cleanupOldBindings_def MarkUnconsolidated_def Let_def gomap_simps split: option.splits)
  define clean where "clean = (\<exists>old n. map_of (clBindings c) ?key = Some old \<and> old \<noteq> podNodeName pod \<and>
      map_of (clNodes c) (mget [] (clNodeName c) old) = Some n)"
  define pid where "pid = mget [] (clNodeName c) (mget [] (clBindings c) ?key)"
  have shape: "same_base ?d (if clean then on_node pid (cleanupForPod ?key) c else c)"
    by (auto simp: bind_pod_def cleanupOldBindings_def MarkUnconsolidated_def Let_def clean_def pid_def same_base_def
        mget_def on_node_def split: option.splits)
  have "base_inv SE co no ?d"
    using base base_inv_same[OF shape] base_inv_on_node[OF base, of pid "cleanupForPod ?key"]
    by (auto simp: cleanupForPod_keeps)
  moreover have "pods_inv ?d"
    unfolding pods_inv_def
  proof (intro allI impI)
    fix q n' nd k
    assume n': "map_of (clNodes ?d) q = Some n'" "stNode n' = Some nd" "mhas (podRequests n') k"
    have names: "names_inv c" using base by (simp add: base_inv_def)
    obtain n where n: "map_of (clNodes c) q = Some n" "stNode n = Some nd" "mhas (podRequests n) k"
        "clean \<and> q = pid \<longrightarrow> k \<noteq> ?key"
      using n' shape by (auto simp: same_base_def map_of_on_node cleanupForPod_def gomap_simps split: if_splits)
    show "map_of (clBindings ?d) k = Some (cnName nd)"
    proof (cases "k = ?key \<and> cnName nd \<noteq> podNodeName pod")
      case True
      then have old: "map_of (clBindings c) ?key = Some (cnName nd)" using pods_inv_butD[OF pods n(1-3)] by auto
      then have "q = pid" using names_inv_node[OF names n(1,2)] by (simp add: pid_def mget_def)
      moreover have clean unfolding clean_def using old True n(1) names_inv_node[OF names n(1,2)] by (auto simp: mget_def)
      ultimately show ?thesis using n(4) True by blast
    next
      case False
      then show ?thesis using pods_inv_butD[OF pods n(1-3)] bindings by auto
    qed
  qed
  ultimately show "cluster_inv SE co no ?d" by (simp add: cluster_inv_def)
qed

lemma pods_inv_weaken: "pods_inv c \<Longrightarrow> pods_inv_but key nm c"
  by (auto simp: pods_inv_def pods_inv_but_def)

lemma completion_keeps:
  assumes "cluster_inv SE co no c"
  shows "cluster_inv SE co no (updateNodeUsageFromPodCompletion key c)"
proof (cases "map_of (clBindings c) key")
  case None
  then show ?thesis using assms by (simp add: updateNodeUsageFromPodCompletion_def)
next
  case (Some name)
  let ?b = "c\<lparr>clBindings := mdel key (clBindings c)\<rparr>" and ?pid = "mget [] (clNodeName c) name"
  let ?d = "on_node ?pid (cleanupForPod key) ?b"
  have d: "updateNodeUsageFromPodCompletion key c = ?d" using Some by (simp add: updateNodeUsageFromPodCompletion_def)
  have base: "base_inv SE co no c" and pods: "pods_inv c" using assms by (auto simp: cluster_inv_def)
  have "base_inv SE co no ?b" using base base_inv_same[of ?b c] by (simp add: same_base_def)
  then have "base_inv SE co no ?d" by (intro base_inv_on_node) (simp_all add: cleanupForPod_keeps)
  moreover have "pods_inv ?d"
    unfolding pods_inv_def
  proof (intro allI impI)
    fix q n' nd k
    assume n': "map_of (clNodes ?d) q = Some n'" "stNode n' = Some nd" "mhas (podRequests n') k"
    then obtain n where n: "map_of (clNodes c) q = Some n" "stNode n = Some nd" "mhas (podRequests n) k"
        "q = ?pid \<longrightarrow> k \<noteq> key"
      by (auto simp: map_of_on_node cleanupForPod_def gomap_simps split: if_splits)
    have b: "map_of (clBindings c) k = Some (cnName nd)" using pods_invD[OF pods n(1-3)] .
    have "k \<noteq> key"
    proof
      assume "k = key"
      then have "cnName nd = name" using b Some by simp
      then have "q = ?pid" using names_inv_node[OF _ n(1,2)] base by (simp add: base_inv_def mget_def)
      then show False using n(4) \<open>k = key\<close> by simp
    qed
    then show "map_of (clBindings ?d) k = Some (cnName nd)" using b by (simp add: gomap_simps)
  qed
  ultimately show ?thesis by (simp add: d cluster_inv_def)
qed

section \<open>Operations on nodes\<close>

lemma map_of_put_node: "map_of (put_node pid new m) q = (if q = pid then new else map_of m q)"
  by (cases new) (simp_all add: put_node_def gomap_simps)

lemma at_put_node:
  assumes "clNodes d = put_node pid new (clNodes c)"
  shows "claim_at d q = (if q = pid then Option.bind new stNodeClaim else claim_at c q)"
    "node_at d q = (if q = pid then Option.bind new stNode else node_at c q)"
  by (simp_all add: claim_at_def node_at_def assms map_of_put_node)

lemma install_keeps:
  assumes inv: "cluster_inv SE co no c" and d: "clNodes d = put_node pid new (clNodes c)" "clBindings d = clBindings c"
    and pool: "pool_inv SE d" and names: "names_inv d"
    and new: "\<And>n. new = Some n \<Longrightarrow> node_ok co no pid n \<and> usage_ok n"
    and pods: "\<And>n nd k. new = Some n \<Longrightarrow> stNode n = Some nd \<Longrightarrow> mhas (podRequests n) k \<Longrightarrow>
                 map_of (clBindings c) k = Some (cnName nd)"
  shows "cluster_inv SE co no d"
proof -
  have c: "env_ok SE" "nodes_inv co no c" "\<And>q n. map_of (clNodes c) q = Some n \<Longrightarrow> usage_ok n" "pods_inv c"
    using inv by (auto simp: cluster_inv_def base_inv_def)
  have "wf_map (clNodes d)" using c(2) by (cases new) (auto simp: d nodes_inv_def put_node_def wf_intros)
  then have "nodes_inv co no d" using c(2) new unfolding nodes_inv_def by (simp only: d map_of_put_node) metis
  moreover have "\<forall>q n. map_of (clNodes d) q = Some n \<longrightarrow> usage_ok n"
    using c(3) new unfolding d map_of_put_node by metis
  moreover have "pods_inv d" unfolding pods_inv_def
    using pods pods_invD[OF c(4)] by (simp only: d map_of_put_node) metis
  ultimately show ?thesis using c(1) pool names by (simp add: cluster_inv_def base_inv_def)
qed

lemma inv_parts:
  assumes "cluster_inv SE co no c"
  shows "env_ok SE" "nodes_inv co no c" "names_inv c" "pool_inv SE c" "pods_inv c"
    and "map_of (clNodes c) pid = Some n \<Longrightarrow> node_ok co no pid n \<and> usage_ok n"
  using assms by (auto simp: cluster_inv_def base_inv_def nodes_inv_def simp del: map_of_eq_Some_iff)

text \<open>Removing one of the two objects of a state node, and the state node when it was the only one.\<close>

lemma remove_object:
  assumes inv: "cluster_inv SE co no c" and n: "map_of (clNodes c) pid = Some n"
    and new: "new = None \<or> (\<exists>m. new = Some m \<and> node_ok co no pid m \<and> podRequests m = podRequests n \<and> usage_ok m \<and>
                (stNode m = stNode n \<or> stNode m = None))"
    and d: "clPoolResources d = clPoolResources c"
  shows "\<exists>m. updateNodePoolResources SE (Some n) new d = Some (d\<lparr>clPoolResources := m\<rparr>) \<and>
    (\<forall>e. clNodes e = put_node pid new (clNodes c) \<and> clPoolResources e = m \<and> clBindings e = clBindings c \<and> names_inv e \<longrightarrow>
       cluster_inv SE co no e)"
proof -
  note c = inv_parts[OF inv]
  obtain m where m: "updateNodePoolResources SE (Some n) new d = Some (d\<lparr>clPoolResources := m\<rparr>)"
      "\<forall>c'. clNodes c' = put_node pid new (clNodes c) \<and> clPoolResources c' = m \<longrightarrow> pool_inv SE c'"
    using retally[OF c(2,4), of "Some n" pid new d] n new d by auto
  show ?thesis
  proof (intro exI[of _ m] conjI allI impI m(1))
    fix e assume e': "clNodes e = put_node pid new (clNodes c) \<and> clPoolResources e = m \<and> clBindings e = clBindings c \<and> names_inv e"
    note e = e'[THEN conjunct1] e'[THEN conjunct2, THEN conjunct1] e'[THEN conjunct2, THEN conjunct2, THEN conjunct1]
      e'[THEN conjunct2, THEN conjunct2, THEN conjunct2]
    show "cluster_inv SE co no e"
    proof (rule install_keeps[OF inv e(1,3) _ e(4)])
      show "pool_inv SE e" using m(2) e by blast
      show "node_ok co no pid x \<and> usage_ok x" if "new = Some x" for x using new that by auto
      show "map_of (clBindings c) k = Some (cnName nd)"
        if "new = Some x" "stNode x = Some nd" "mhas (podRequests x) k" for x nd k
        using new that pods_invD[OF c(5) n] by auto
    qed
  qed
qed

lemma cleanupNodeClaim_keeps:
  assumes inv: "cluster_inv SE co no c"
  shows "\<exists>d. cleanupNodeClaim SE now name c = Some d \<and> cluster_inv SE co no d \<and> clClaimName d = mdel name (clClaimName c) \<and>
           clNodeName d = clNodeName c \<and> clBindings d = clBindings c \<and>
           (\<forall>q. q \<noteq> mget [] (clClaimName c) name \<longrightarrow> map_of (clNodes d) q = map_of (clNodes c) q)"
proof (cases "mget [] (clClaimName c) name = []")
  case True
  let ?d = "c\<lparr>clClaimName := mdel name (clClaimName c), clPoolState := NodePoolState_Cleanup name (clPoolState c)\<rparr>"
  have "names_inv ?d" using inv_parts(3)[OF inv] by (auto simp: names_inv_def claim_at_def node_at_def gomap_simps)
  then have "cluster_inv SE co no ?d" using inv
    by (simp add: cluster_inv_def base_inv_def nodes_inv_def pool_inv_def pods_inv_def)
  then show ?thesis using True by (simp add: cleanupNodeClaim_def)
next
  case False
  let ?id = "mget [] (clClaimName c) name"
  have id: "map_of (clClaimName c) name = Some ?id" using False by (auto simp: mget_def split: option.splits)
  have nm: "map_option ncName (claim_at c ?id) = Some name" using inv_parts(3)[OF inv] id False by (simp add: names_inv_def)
  then obtain n nc where n: "map_of (clNodes c) ?id = Some n" "stNodeClaim n = Some nc" "ncName nc = name"
    by (auto simp: claim_at_def split: bind_splits)
  define new where "new = (if stNode n = None then None else Some (n\<lparr>stNodeClaim := None\<rparr>))"
  have ok: "node_ok co no ?id n" "usage_ok n" using inv_parts(6)[OF inv n(1)] by auto
  have new_ok: "new = None \<or> (\<exists>m. new = Some m \<and> node_ok co no ?id m \<and> podRequests m = podRequests n \<and> usage_ok m \<and>
                (stNode m = stNode n \<or> stNode m = None))"
    using ok by (auto simp: new_def node_ok_def has_object_def object_wf_def usage_ok_def)
  define d0 where "d0 = (if stNode n = None then c else c\<lparr>clNodes := mput ?id (n\<lparr>stNodeClaim := None\<rparr>) (clNodes c)\<rparr>)"
  have "clPoolResources d0 = clPoolResources c" by (simp add: d0_def)
  then obtain m where m: "updateNodePoolResources SE (Some n) new d0 = Some (d0\<lparr>clPoolResources := m\<rparr>)"
    and keep: "\<forall>e. clNodes e = put_node ?id new (clNodes c) \<and> clPoolResources e = m \<and> clBindings e = clBindings c \<and>
           names_inv e \<longrightarrow> cluster_inv SE co no e"
    using remove_object[OF inv n(1) new_ok] by blast
  define e where "e = (MarkUnconsolidated now (c\<lparr>clNodes := put_node ?id new (clNodes c), clPoolResources := m\<rparr>))
      \<lparr>clClaimName := mdel name (clClaimName c), clPoolState := NodePoolState_Cleanup name (clPoolState c)\<rparr>"
  have run: "cleanupNodeClaim SE now name c = Some e"
    using False n(1) m by (cases "stNode n") (auto simp: cleanupNodeClaim_def Let_def new_def put_node_def e_def d0_def MarkUnconsolidated_def)
  have e: "clNodes e = put_node ?id new (clNodes c)" "clPoolResources e = m" "clBindings e = clBindings c"
      "clClaimName e = mdel name (clClaimName c)" "clNodeName e = clNodeName c"
    by (simp_all add: e_def MarkUnconsolidated_def)
  have "Option.bind new stNode = node_at c ?id" by (simp add: new_def node_at_def n(1))
  then have at: "node_at e q = node_at c q" "claim_at e q = (if q = ?id then None else claim_at c q)" for q
    using at_put_node[OF e(1)] by (auto simp: new_def)
  have "names_inv e"
    unfolding names_inv_def at e(4,5)
  proof (intro conjI allI impI)
    fix other pid assume a: "map_of (mdel name (clClaimName c)) other = Some pid" "pid \<noteq> []"
    then have "map_of (clClaimName c) other = Some pid" "other \<noteq> name" by (auto simp: gomap_simps split: if_splits)
    with names_inv_claim[OF inv_parts(3)[OF inv] this(1) a(2)] nm
    show "map_option ncName (if pid = ?id then None else claim_at c pid) = Some other" by auto
  qed (use inv_parts(3)[OF inv] in \<open>simp add: names_inv_def\<close>)
  then have "cluster_inv SE co no e" using keep e by blast
  then show ?thesis using run e by (intro exI[of _ e]) (auto simp: map_of_put_node)
qed

lemma cleanupNode_keeps:
  assumes inv: "cluster_inv SE co no c"
  shows "\<exists>d. cleanupNode SE now name c = Some d \<and> cluster_inv SE co no d \<and> clClaimName d = clClaimName c \<and>
           clNodeName d = (if mhas (clNodeName c) name then mdel name (clNodeName c) else clNodeName c) \<and>
           clBindings d = clBindings c \<and>
           (\<forall>q. q \<noteq> mget [] (clNodeName c) name \<longrightarrow> map_of (clNodes d) q = map_of (clNodes c) q)"
proof (cases "map_of (clNodeName c) name")
  case None
  then show ?thesis using inv by (auto simp: cleanupNode_def mget_def)
next
  case (Some pid)
  have nm: "map_option cnName (node_at c pid) = Some name" using inv_parts(3)[OF inv] Some by (simp add: names_inv_def)
  then obtain n nd where n: "map_of (clNodes c) pid = Some n" "stNode n = Some nd" "cnName nd = name"
    by (auto simp: node_at_def split: bind_splits)
  have id: "mget [] (clNodeName c) name = pid" using Some by (simp add: mget_def)
  define new where "new = (if stNodeClaim n = None then None else Some (n\<lparr>stNode := None\<rparr>))"
  have ok: "node_ok co no pid n" "usage_ok n" using inv_parts(6)[OF inv n(1)] by auto
  have new_ok: "new = None \<or> (\<exists>m. new = Some m \<and> node_ok co no pid m \<and> podRequests m = podRequests n \<and> usage_ok m \<and>
                (stNode m = stNode n \<or> stNode m = None))"
    using ok by (auto simp: new_def node_ok_def has_object_def object_wf_def usage_ok_def)
  define d0 where "d0 = (if stNodeClaim n = None then c else c\<lparr>clNodes := mput pid (n\<lparr>stNode := None\<rparr>) (clNodes c)\<rparr>)"
  have "clPoolResources d0 = clPoolResources c" by (simp add: d0_def)
  then obtain m where m: "updateNodePoolResources SE (Some n) new d0 = Some (d0\<lparr>clPoolResources := m\<rparr>)"
    and keep: "\<forall>e. clNodes e = put_node pid new (clNodes c) \<and> clPoolResources e = m \<and> clBindings e = clBindings c \<and>
           names_inv e \<longrightarrow> cluster_inv SE co no e"
    using remove_object[OF inv n(1) new_ok] by blast
  define e where "e = MarkUnconsolidated now (c\<lparr>clNodes := put_node pid new (clNodes c), clPoolResources := m,
      clNodeName := mdel name (clNodeName c)\<rparr>)"
  have run: "cleanupNode SE now name c = Some e"
    using ok(1) id n(1) m by (cases "stNodeClaim n")
      (auto simp: cleanupNode_def Let_def new_def put_node_def e_def d0_def MarkUnconsolidated_def node_ok_def)
  have e: "clNodes e = put_node pid new (clNodes c)" "clPoolResources e = m" "clBindings e = clBindings c"
      "clClaimName e = clClaimName c" "clNodeName e = mdel name (clNodeName c)"
    by (simp_all add: e_def MarkUnconsolidated_def)
  have "Option.bind new stNodeClaim = claim_at c pid" by (simp add: new_def claim_at_def n(1))
  then have at: "claim_at e q = claim_at c q" "node_at e q = (if q = pid then None else node_at c q)" for q
    using at_put_node[OF e(1)] by (auto simp: new_def)
  have "names_inv e"
    unfolding names_inv_def at e(4,5)
  proof (intro conjI allI)
    fix other q
    have "map_of (clNodeName c) other = Some q \<longleftrightarrow> map_option cnName (node_at c q) = Some other"
      using inv_parts(3)[OF inv] by (simp add: names_inv_def)
    moreover have "map_of (clNodeName c) other = Some pid \<longleftrightarrow> other = name" using nm inv_parts(3)[OF inv]
      by (auto simp: names_inv_def)
    ultimately show "map_of (mdel name (clNodeName c)) other = Some q \<longleftrightarrow>
        map_option cnName (if q = pid then None else node_at c q) = Some other"
      using Some by (auto simp: gomap_simps)
  qed (use names_inv_claim[OF inv_parts(3)[OF inv]] in blast)
  then have "cluster_inv SE co no e" using keep e by blast
  then show ?thesis using run e Some id by (intro exI[of _ e]) (auto simp: map_of_put_node)
qed

lemma usage_ok_NewNode [simp]: "usage_ok NewNode"
  by (simp add: usage_ok_def NewNode_def total_ok_def)

lemma trigger_same:
  "same_base (triggerConsolidationOnChange now a b c) c" "clBindings (triggerConsolidationOnChange now a b c) = clBindings c"
  by (simp_all add: triggerConsolidationOnChange_def MarkUnconsolidated_def same_base_def)

text \<open>The state node a NodeClaim or Node event puts in place of the one it finds.\<close>

abbreviation found :: "'q Cluster \<Rightarrow> string \<Rightarrow> 'q StateNode" where
  "found c pid \<equiv> (case map_of (clNodes c) pid of None \<Rightarrow> NewNode | Some n \<Rightarrow> n)"

lemma found_usage: "cluster_inv SE co no c \<Longrightarrow> usage_ok (found c pid)"
  by (auto simp: inv_parts(6) simp del: map_of_eq_Some_iff split: option.split)

lemma found_at: "stNode (found c pid) = node_at c pid" "stNodeClaim (found c pid) = claim_at c pid"
  by (simp_all add: node_at_def claim_at_def NewNode_def split: option.split)

lemma found_node_ok:
  "cluster_inv SE co no c \<Longrightarrow> node_at c pid = Some nd \<Longrightarrow> wf_map (cnCapacity nd) \<and> cnName nd = no pid"
  using inv_parts(6)[of SE co no c pid] by (auto simp: node_at_def node_ok_def object_wf_def split: bind_splits)

lemma found_claim_ok:
  "cluster_inv SE co no c \<Longrightarrow> claim_at c pid = Some nc \<Longrightarrow> wf_map (ncCapacity nc) \<and> ncName nc = co pid"
  using inv_parts(6)[of SE co no c pid] by (auto simp: claim_at_def node_ok_def object_wf_def split: bind_splits)

lemma replace_found:
  assumes inv: "cluster_inv SE co no c" and n: "node_ok co no pid n" "usage_ok n"
    and pods: "\<And>nd k. stNode n = Some nd \<Longrightarrow> mhas (podRequests n) k \<Longrightarrow> map_of (clBindings c) k = Some (cnName nd)"
  shows "\<exists>m. updateNodePoolResources SE (Some (found c pid)) (Some n) c = Some (c\<lparr>clPoolResources := m\<rparr>) \<and>
    (\<forall>e. clNodes e = mput pid n (clNodes c) \<and> clPoolResources e = m \<and> clBindings e = clBindings c \<and> names_inv e \<longrightarrow>
       cluster_inv SE co no e)"
proof -
  note c = inv_parts[OF inv]
  have old: "case map_of (clNodes c) pid of None \<Rightarrow> Some (found c pid) \<in> {None, Some NewNode}
      | Some o1 \<Rightarrow> Some (found c pid) = Some o1" by (simp split: option.split)
  obtain m where m: "updateNodePoolResources SE (Some (found c pid)) (Some n) c = Some (c\<lparr>clPoolResources := m\<rparr>)"
      "\<forall>c'. clNodes c' = put_node pid (Some n) (clNodes c) \<and> clPoolResources c' = m \<longrightarrow> pool_inv SE c'"
    using retally[OF c(2,4) old, of "Some n" c] n(1) by auto
  have "cluster_inv SE co no e"
    if e: "clNodes e = mput pid n (clNodes c)" "clPoolResources e = m" "clBindings e = clBindings c" "names_inv e" for e
  proof (rule install_keeps[OF inv _ e(3) _ e(4), of pid "Some n"])
    show "clNodes e = put_node pid (Some n) (clNodes c)" using e(1) by (simp add: put_node_def)
    then show "pool_inv SE e" using m(2) e(2) by blast
  qed (use n pods in auto)
  with m(1) show ?thesis by blast
qed

lemma UpdateNodeClaim_keeps:
  assumes inv: "cluster_inv SE co no c" and wf: "wf_map (ncCapacity nc)"
    and own: "ncProviderID nc \<noteq> [] \<Longrightarrow> co (ncProviderID nc) = ncName nc"
  shows "\<exists>d. UpdateNodeClaim SE now nc c = Some d \<and> cluster_inv SE co no d"
proof (cases "ncProviderID nc = []")
  case True
  define d where "d = c\<lparr>clPoolState := NodePoolState_UpdateNodeClaim nc (case map_of (clNodes c) [] of
      None \<Rightarrow> False | Some n \<Rightarrow> MarkedForDeletion n) (clPoolState c), clClaimName := mput (ncName nc) [] (clClaimName c)\<rparr>"
  have "names_inv d" using inv_parts(3)[OF inv] by (auto simp: d_def names_inv_def claim_at_def node_at_def gomap_simps)
  then have "cluster_inv SE co no d" using inv
    by (simp add: cluster_inv_def base_inv_def nodes_inv_def pool_inv_def pods_inv_def d_def)
  then show ?thesis using True by (simp add: UpdateNodeClaim_def d_def)
next
  case False
  let ?pid = "ncProviderID nc" and ?nm = "ncName nc"
  define c1o where "c1o = (case map_of (clClaimName c) ?nm of
      Some pid \<Rightarrow> if pid \<noteq> ?pid then cleanupNodeClaim SE now ?nm c else Some c | None \<Rightarrow> Some c)"
  have "\<exists>d. c1o = Some d \<and> cluster_inv SE co no d \<and> clNodeName d = clNodeName c \<and> clBindings d = clBindings c \<and>
      map_of (clNodes d) ?pid = map_of (clNodes c) ?pid"
    using cleanupNodeClaim_keeps[OF inv, of now ?nm] inv
    by (cases "map_of (clClaimName c) ?nm") (auto simp: c1o_def mget_def)
  then obtain c1 where c1: "c1o = Some c1" "cluster_inv SE co no c1" "map_of (clNodes c1) ?pid = map_of (clNodes c) ?pid" by blast
  let ?old = "found c1 ?pid"
  define n where "n = ?old\<lparr>stNodeClaim := Some nc, podDisruptionCosts := []\<rparr>"
  have node: "stNode n = node_at c1 ?pid" by (simp add: n_def found_at)
  have "wf_map (cnCapacity nd) \<and> cnName nd = no ?pid" if "stNode n = Some nd" for nd
    using found_node_ok[OF c1(2)] that node by metis
  then have "node_ok co no ?pid n" using own wf False by (auto simp: node_ok_def n_def has_object_def object_wf_def)
  moreover have "usage_ok n" using found_usage[OF c1(2), of ?pid] by (simp add: n_def usage_ok_def)
  moreover have "map_of (clBindings c1) k = Some (cnName nd)" if "stNode n = Some nd" "mhas (podRequests n) k" for nd k
    using that node pods_invD[OF inv_parts(5)[OF c1(2)], of ?pid]
    by (auto simp: n_def node_at_def simp del: map_of_eq_Some_iff split: bind_splits)
  ultimately obtain m where m: "updateNodePoolResources SE (Some ?old) (Some n) c1 = Some (c1\<lparr>clPoolResources := m\<rparr>)"
      "\<And>e. clNodes e = mput ?pid n (clNodes c1) \<and> clPoolResources e = m \<and> clBindings e = clBindings c1 \<and> names_inv e \<longrightarrow>
         cluster_inv SE co no e"
    using replace_found[OF c1(2), of ?pid n] by blast
  define c2 where "c2 = triggerConsolidationOnChange now ?old n (c1\<lparr>clPoolResources := m\<rparr>)"
  have c2: "same_base c2 (c1\<lparr>clPoolResources := m\<rparr>)" "clBindings c2 = clBindings c1" 
    by (simp_all add: c2_def trigger_same)
  define e where "e = c2\<lparr>clNodes := mput ?pid n (clNodes c2),
      clPoolState := NodePoolState_UpdateNodeClaim nc (MarkedForDeletion n) (clPoolState c2),
      clClaimName := mput ?nm ?pid (clClaimName c2)\<rparr>"
  have run: "UpdateNodeClaim SE now nc c = Some e"
    using False c1(1,3) m(1)
    by (simp add: UpdateNodeClaim_def newStateFromNodeClaim_def Let_def c1o_def[symmetric] n_def c2_def e_def gomap_simps)
  have e: "clNodes e = put_node ?pid (Some n) (clNodes c1)" "clPoolResources e = m" "clBindings e = clBindings c1"
      "clNodeName e = clNodeName c1" "clClaimName e = mput ?nm ?pid (clClaimName c1)"
    using c2 by (simp_all add: e_def same_base_def put_node_def)
  have "node_at e q = node_at c1 q" "claim_at e q = (if q = ?pid then Some nc else claim_at c1 q)" for q
    using at_put_node[OF e(1)] node by (auto simp: n_def)
  note at = this
  have "names_inv e" unfolding names_inv_def at e(4,5)
  proof (intro conjI allI impI)
    fix other q assume a: "map_of (mput ?nm ?pid (clClaimName c1)) other = Some q" "q \<noteq> []"
    show "map_option ncName (if q = ?pid then Some nc else claim_at c1 q) = Some other"
    proof (cases "other = ?nm")
      case True
      then show ?thesis using a by (simp add: gomap_simps)
    next
      case other: False
      then have "map_option ncName (claim_at c1 q) = Some other"
        using a names_inv_claim[OF inv_parts(3)[OF c1(2)]] by (simp add: gomap_simps)
      moreover have "q \<noteq> ?pid"
        using calculation found_claim_ok[OF c1(2)] own[OF False] other by fastforce
      ultimately show ?thesis by simp
    qed
  qed (use inv_parts(3)[OF c1(2)] in \<open>simp add: names_inv_def\<close>)
  then show ?thesis using run m(2) e by (auto simp: put_node_def)
qed

text \<open>What listing the pods of a node changes in the cluster: state nodes keep their objects.\<close>

definition same_nodes :: "'q Cluster \<Rightarrow> 'q Cluster \<Rightarrow> bool" where
  "same_nodes d c \<longleftrightarrow> clNodeName d = clNodeName c \<and> clClaimName d = clClaimName c \<and>
     (\<forall>q. rel_option same_objects (map_of (clNodes d) q) (map_of (clNodes c) q))"

lemma same_objects_refl [simp]: "same_objects n n"
  by (simp add: same_objects_def)

lemma same_nodes_refl [simp]: "same_nodes c c"
  by (simp add: same_nodes_def option.rel_refl)

lemma same_nodes_trans: "same_nodes e d \<Longrightarrow> same_nodes d c \<Longrightarrow> same_nodes e c"
  unfolding same_nodes_def
proof (intro conjI allI)
  fix q
  assume "clNodeName e = clNodeName d \<and> clClaimName e = clClaimName d \<and>
      (\<forall>q. rel_option same_objects (map_of (clNodes e) q) (map_of (clNodes d) q))"
    "clNodeName d = clNodeName c \<and> clClaimName d = clClaimName c \<and>
      (\<forall>q. rel_option same_objects (map_of (clNodes d) q) (map_of (clNodes c) q))"
  then have "rel_option same_objects (map_of (clNodes e) q) (map_of (clNodes d) q)"
    "rel_option same_objects (map_of (clNodes d) q) (map_of (clNodes c) q)" by blast+
  then show "rel_option same_objects (map_of (clNodes e) q) (map_of (clNodes c) q)"
    by (cases "map_of (clNodes e) q"; cases "map_of (clNodes d) q"; cases "map_of (clNodes c) q") (auto simp: same_objects_def)
qed auto

lemma bind_pod_nodes: "same_nodes (bind_pod now pod c) c"
proof -
  have "rel_option same_objects (map_option (cleanupForPod key) x) x" for key and x :: "'a StateNode option"
    by (cases x) (simp_all add: cleanupForPod_def same_objects_def)
  then show ?thesis
    by (auto simp: same_nodes_def bind_pod_def cleanupOldBindings_def MarkUnconsolidated_def Let_def map_of_on_node
        option.rel_refl split: option.split) (auto simp: on_node_def split: option.splits)
qed

lemma populate_loop_keeps:
  assumes "cluster_inv SE co no c" "\<forall>p \<in> set pods. podNodeName p = nm" "usage_ok n"
    and "\<forall>k. mhas (podRequests n) k \<longrightarrow> map_of (clBindings c) k = Some nm"
  shows "\<exists>c' n' e. populate_loop SE now pods c n = Some (c', n', e) \<and> cluster_inv SE co no c' \<and> usage_ok n' \<and>
           same_objects n' n \<and> same_nodes c' c \<and> (\<forall>k. mhas (podRequests n') k \<longrightarrow> map_of (clBindings c') k = Some nm)"
  using assms
proof (induction pods arbitrary: c n)
  case Nil
  then show ?case by simp
next
  case (Cons pod pods)
  show ?case
  proof (cases "IsTerminal pod \<or> (\<exists>e. updateForPod SE pod n = Err e)")
    case True
    then show ?thesis using Cons.IH[of c n] Cons.prems by auto
  next
    case False
    have "updateForPod SE pod n \<noteq> Panic"
      by (simp add: updateForPod_def rbind_Panic_iff GetVolumes_def GetVolumes_loop_not_Panic Let_def)
    then obtain n1 where n1: "updateForPod SE pod n = Ok n1" using False by (cases "updateForPod SE pod n") auto
    let ?d = "bind_pod now pod c"
    have env: "env_ok SE" using inv_parts(1)[OF Cons.prems(1)] .
    note u = updateForPod_Ok[OF n1 env Cons.prems(3)]
    have base: "base_inv SE co no c" "pods_inv c" using Cons.prems(1) by (simp_all add: cluster_inv_def)
    note b = bind_pod_keeps[OF base(1) pods_inv_weaken[OF base(2), of "podKey pod" "podNodeName pod"], of now]
    have keys: "\<forall>k. mhas (podRequests n1) k \<longrightarrow> map_of (clBindings ?d) k = Some nm"
      using Cons.prems(2,4) by (simp add: u(3) b(2))
    obtain c' n' e where r: "populate_loop SE now pods ?d n1 = Some (c', n', e)" "cluster_inv SE co no c'" "usage_ok n'"
        "same_objects n' n1" "same_nodes c' ?d" "\<forall>k. mhas (podRequests n') k \<longrightarrow> map_of (clBindings c') k = Some nm"
      using Cons.IH[OF b(1) _ u(2) keys] Cons.prems(2) by auto
    have "same_objects n' n" "same_nodes c' c"
      using r(4) u(1) same_nodes_trans[OF r(5) bind_pod_nodes] by (auto simp: same_objects_def)
    then show ?thesis using False n1 r by auto
  qed
qed

lemma populateVolumeLimits_keeps:
  assumes "populateVolumeLimits csi n = (m, e)"
  shows "same_objects m n" "usage_ok m = usage_ok n" "podRequests m = podRequests n"
  using assms by (auto simp: populateVolumeLimits_def same_objects_def usage_ok_def split: sum.splits)

lemma same_objects_update:
  "same_objects n m \<Longrightarrow> updateNodePoolResources SE (Some n) x d = updateNodePoolResources SE (Some m) x d"
  by (simp add: updateNodePoolResources_def same_objects_share(3)[of n m])

lemma same_nodes_found:
  assumes "same_nodes d c"
  shows "same_objects (found d pid) (found c pid)"
  using assms by (auto simp: same_nodes_def split: option.split dest!: spec[of _ pid])

text \<open>Storing a state node that carries a Node under the provider id of the Node.\<close>

lemma store_node:
  assumes inv: "cluster_inv SE co no c" and own: "no pid = cnName node" "pid \<noteq> []" and wf: "wf_map (cnCapacity node)"
    and n: "stNode n = Some node" "stNodeClaim n = claim_at c pid" "usage_ok n"
    and pods: "\<forall>k. mhas (podRequests n) k \<longrightarrow> map_of (clBindings c) k = Some (cnName node)"
    and name: "map_of (clNodeName c) (cnName node) \<in> {None, Some pid}"
  shows "\<exists>m. updateNodePoolResources SE (Some (found c pid)) (Some n) c = Some (c\<lparr>clPoolResources := m\<rparr>) \<and>
    (\<forall>e. clNodes e = mput pid n (clNodes c) \<and> clPoolResources e = m \<and> clBindings e = clBindings c \<and>
       clClaimName e = clClaimName c \<and> clNodeName e = mput (cnName node) pid (clNodeName c) \<longrightarrow> cluster_inv SE co no e)"
proof -
  have "node_ok co no pid n" using own wf n found_claim_ok[OF inv, of pid] by (auto simp: node_ok_def has_object_def object_wf_def)
  then obtain m where m: "updateNodePoolResources SE (Some (found c pid)) (Some n) c = Some (c\<lparr>clPoolResources := m\<rparr>)"
      "\<forall>e. clNodes e = mput pid n (clNodes c) \<and> clPoolResources e = m \<and> clBindings e = clBindings c \<and> names_inv e \<longrightarrow>
         cluster_inv SE co no e"
    using replace_found[OF inv _ n(3), of pid] n(1) pods by auto
  have "names_inv e" if e: "clNodes e = mput pid n (clNodes c)" "clClaimName e = clClaimName c"
      "clNodeName e = mput (cnName node) pid (clNodeName c)" for e
  proof -
    have put: "clNodes e = put_node pid (Some n) (clNodes c)" using e(1) by (simp add: put_node_def)
    have at: "claim_at e q = claim_at c q" "node_at e q = (if q = pid then Some node else node_at c q)" for q
      using at_put_node[OF put] n by auto
    have iff: "map_of (clNodeName c) other = Some q \<longleftrightarrow> map_option cnName (node_at c q) = Some other" for other q
      using inv_parts(3)[OF inv] by (simp add: names_inv_def)
    have pid: "map_of (clNodeName c) other = Some pid \<Longrightarrow> other = cnName node" for other
      using iff[of other pid] found_node_ok[OF inv, of pid] own by auto
    show ?thesis unfolding names_inv_def at e(2,3)
    proof (intro conjI allI)
      fix other q
      show "map_of (mput (cnName node) pid (clNodeName c)) other = Some q \<longleftrightarrow>
          map_option cnName (if q = pid then Some node else node_at c q) = Some other"
        using iff[of other q] pid[of other] name by (auto simp: gomap_simps)
    qed (use names_inv_claim[OF inv_parts(3)[OF inv]] in blast)
  qed
  with m show ?thesis by blast
qed

lemma UpdateNode_keeps:
  assumes inv: "cluster_inv SE co no c" and wf: "wf_map (cnCapacity node)"
    and own: "pid = (if cnProviderID node = [] then cnName node else cnProviderID node)" "pid \<noteq> []" "no pid = cnName node"
    and listed: "listed \<noteq> Panic" "\<And>ps. listed = Ok ps \<Longrightarrow> \<forall>p \<in> set ps. podNodeName p = cnName node"
  shows "\<exists>d errs. UpdateNode SE now listed csi node c = Some (d, errs) \<and> cluster_inv SE co no d"
proof -
  define nd where "nd = (if cnProviderID node = [] then node\<lparr>cnProviderID := cnName node\<rparr> else node)"
  have nd: "cnProviderID nd = pid" "cnName nd = cnName node" "cnCapacity nd = cnCapacity node" using own(1) by (auto simp: nd_def)
  define n0 where "n0 = NewNode\<lparr>stNode := Some nd, stNodeClaim := stNodeClaim (found c pid),
      markedForDeletion := markedForDeletion (found c pid), nominatedUntil := nominatedUntil (found c pid)\<rparr>"
  have "\<exists>c1 n1 e1. populateResourceRequests SE now listed c n0 = Some (c1, n1, e1) \<and> cluster_inv SE co no c1 \<and> usage_ok n1 \<and>
      same_objects n1 n0 \<and> same_nodes c1 c \<and> (\<forall>k. mhas (podRequests n1) k \<longrightarrow> map_of (clBindings c1) k = Some (cnName node))"
  proof (cases listed)
    case (Ok ps)
    have "usage_ok n0" "\<forall>k. mhas (podRequests n0) k \<longrightarrow> map_of (clBindings c) k = Some (cnName node)"
      by (simp_all add: n0_def usage_ok_def total_ok_def NewNode_def)
    with populate_loop_keeps[OF inv listed(2)[OF Ok]] show ?thesis using Ok by (simp add: populateResourceRequests_def)
  next
    case (Err e)
    then show ?thesis using inv by (simp add: populateResourceRequests_def n0_def usage_ok_def total_ok_def NewNode_def)
  qed (use listed(1) in simp)
  then obtain c1 n1 e1 where p: "populateResourceRequests SE now listed c n0 = Some (c1, n1, e1)" "cluster_inv SE co no c1"
      "usage_ok n1" "same_objects n1 n0" "same_nodes c1 c" "\<forall>k. mhas (podRequests n1) k \<longrightarrow> map_of (clBindings c1) k = Some (cnName node)"
    by blast
  obtain n2 e2 where v: "populateVolumeLimits csi n1 = (n2, e2)" by (cases "populateVolumeLimits csi n1")
  note pv = populateVolumeLimits_keeps[OF v]
  define errs where "errs = (case e1 of None \<Rightarrow> [] | Some e \<Rightarrow> [e]) @ (case e2 of None \<Rightarrow> [] | Some e \<Rightarrow> [e])"
  define c2o where "c2o = (case map_of (clNodeName c1) (cnName nd) of
      Some q \<Rightarrow> if q \<noteq> cnProviderID nd then cleanupNode SE now (cnName nd) c1 else Some c1 | None \<Rightarrow> Some c1)"
  have "\<exists>d. c2o = Some d \<and> cluster_inv SE co no d \<and> clClaimName d = clClaimName c1 \<and> clBindings d = clBindings c1 \<and>
      map_of (clNodeName d) (cnName nd) \<in> {None, Some pid} \<and> map_of (clNodes d) pid = map_of (clNodes c1) pid"
    using cleanupNode_keeps[OF p(2), of now "cnName nd"] p(2) nd(1)
    by (cases "map_of (clNodeName c1) (cnName nd)") (auto simp: c2o_def mget_def gomap_simps)
  then obtain c2 where c2: "c2o = Some c2" "cluster_inv SE co no c2" "clBindings c2 = clBindings c1"
      "map_of (clNodeName c2) (cnName nd) \<in> {None, Some pid}" "map_of (clNodes c2) pid = map_of (clNodes c1) pid" by blast
  have same: "same_objects (found c pid) (found c2 pid)"
    using same_nodes_found[OF p(5), of pid] c2(5) by (simp add: same_objects_def)
  have n2: "stNode n2 = Some nd" "stNodeClaim n2 = claim_at c2 pid" "usage_ok n2" "podRequests n2 = podRequests n1"
    using p(3,4) pv same found_at(2)[of c2 pid] by (auto simp: same_objects_def n0_def)
  have pods2: "\<forall>k. mhas (podRequests n2) k \<longrightarrow> map_of (clBindings c2) k = Some (cnName nd)" using p(6) n2(4) c2(3) nd(2) by simp
  obtain m where m: "updateNodePoolResources SE (Some (found c2 pid)) (Some n2) c2 = Some (c2\<lparr>clPoolResources := m\<rparr>)"
      "\<And>e. clNodes e = mput pid n2 (clNodes c2) \<and> clPoolResources e = m \<and> clBindings e = clBindings c2 \<and>
       clClaimName e = clClaimName c2 \<and> clNodeName e = mput (cnName nd) pid (clNodeName c2) \<longrightarrow> cluster_inv SE co no e"
    using store_node[OF c2(2) _ own(2) _ n2(1-3) pods2 c2(4)] own(3) nd wf by auto
  define c3 where "c3 = triggerConsolidationOnChange now (found c pid) n2 (c2\<lparr>clPoolResources := m\<rparr>)"
  have c3: "same_base c3 (c2\<lparr>clPoolResources := m\<rparr>)" "clBindings c3 = clBindings c2" by (simp_all add: c3_def trigger_same)
  have run: "newStateFromNode SE now listed csi nd (map_of (clNodes c) pid) c = Some (if errs \<noteq> [] then (c1, n2, errs) else (c3, n2, []))"
    using p(1) v c2(1) m(1) same_objects_update[OF same]
    by (simp add: newStateFromNode_def Let_def n0_def[symmetric] errs_def c2o_def[symmetric] c3_def)
  define e where "e = c3\<lparr>clNodes := mput pid n2 (clNodes c3), clNodeName := mput (cnName nd) pid (clNodeName c3)\<rparr>"
  have "cluster_inv SE co no e" using m(2)[of e] c3 by (simp add: e_def same_base_def)
  then show ?thesis using inv p(2) run nd(1) by (auto simp: UpdateNode_def Let_def nd_def[symmetric] e_def)
qed

lemma updateForPod_not_Panic: "updateForPod SE pod n \<noteq> Panic"
  by (simp add: updateForPod_def rbind_Panic_iff GetVolumes_def GetVolumes_loop_not_Panic Let_def)

lemma updateNodeUsageFromPod_keeps:
  assumes inv: "cluster_inv SE co no c"
  shows "\<exists>d e. updateNodeUsageFromPod SE now pod c = Some (d, e) \<and> cluster_inv SE co no d"
proof -
  let ?pid = "mget [] (clNodeName c) (podNodeName pod)"
  consider (kept) e where "updateNodeUsageFromPod SE now pod c = Some (c, e)"
    | (bound) n n1 where "map_of (clNodes c) ?pid = Some n" "updateForPod SE pod n = Ok n1"
        "updateNodeUsageFromPod SE now pod c = Some (bind_pod now pod (c\<lparr>clNodes := mput ?pid n1 (clNodes c)\<rparr>), None)"
    by (cases "podNodeName pod = []"; cases "map_of (clNodes c) ?pid"; cases "updateForPod SE pod (found c ?pid)")
       (auto simp: updateNodeUsageFromPod_def Let_def updateForPod_not_Panic)
  then show ?thesis
  proof cases
    case kept
    then show ?thesis using inv by blast
  next
    case bound
    note p = inv_parts[OF inv] and u = updateForPod_Ok[OF bound(2) inv_parts(1)[OF inv]]
    have n: "node_ok co no ?pid n" "usage_ok n" using p(6) bound(1) by auto
    let ?d = "c\<lparr>clNodes := mput ?pid n1 (clNodes c)\<rparr>"
    have d: "?d = on_node ?pid (\<lambda>_. n1) c" using bound(1) by (simp add: on_node_def)
    have "base_inv SE co no ?d"
      unfolding d using inv bound(1) u n by (intro base_inv_on_node) (auto simp: cluster_inv_def)
    moreover have "pods_inv_but (podKey pod) (podNodeName pod) ?d"
      unfolding pods_inv_but_def
    proof (intro allI impI)
      fix q x nd k assume x: "map_of (clNodes ?d) q = Some x" "stNode x = Some nd" "mhas (podRequests x) k"
      show "map_of (clBindings ?d) k = Some (cnName nd) \<or> k = podKey pod \<and> cnName nd = podNodeName pod"
      proof (cases "q = ?pid")
        case False
        then show ?thesis using x pods_invD[OF p(5)] by (simp add: gomap_simps)
      next
        case True
        then have "x = n1" "stNode n = Some nd" using x u(1)[OF n(2)] by (auto simp: gomap_simps same_objects_def)
        moreover have "cnName nd = podNodeName pod" using names_inv_node[OF p(3) bound(1)] calculation n(1) p(3)
          by (cases "map_of (clNodeName c) (podNodeName pod)") (auto simp: names_inv_def node_at_def mget_def node_ok_def)
        ultimately show ?thesis using x(3) u(3)[OF n(2)] pods_invD[OF p(5) bound(1)]
          by (auto split: if_splits)
      qed
    qed
    ultimately show ?thesis using bound(3) bind_pod_keeps(1) by blast
  qed
qed

lemma UpdatePod_keeps:
  assumes inv: "cluster_inv SE co no c"
  shows "\<exists>d e. UpdatePod SE now pod c = Some (d, e) \<and> cluster_inv SE co no d"
proof -
  have "\<exists>d e. (if IsTerminal pod then Some (updateNodeUsageFromPodCompletion (podKey pod) c, None)
      else updateNodeUsageFromPod SE now pod c) = Some (d, e) \<and> cluster_inv SE co no d"
    using updateNodeUsageFromPod_keeps[OF inv] completion_keeps[OF inv] by simp
  then obtain d e where d: "(if IsTerminal pod then Some (updateNodeUsageFromPodCompletion (podKey pod) c, None)
      else updateNodeUsageFromPod SE now pod c) = Some (d, e)" "cluster_inv SE co no d" by blast
  have "same_base (updatePodAntiAffinities pod d) d" "clBindings (updatePodAntiAffinities pod d) = clBindings d"
    by (simp_all add: updatePodAntiAffinities_def same_base_def)
  then show ?thesis using d cluster_inv_same[of "updatePodAntiAffinities pod d" d] by (simp add: UpdatePod_def)
qed

lemma DeletePod_keeps:
  assumes "cluster_inv SE co no c"
  shows "cluster_inv SE co no (DeletePod now key c)"
proof -
  let ?c1 = "c\<lparr>clAntiAffinityPods := mdel key (clAntiAffinityPods c)\<rparr>"
  let ?c2 = "updateNodeUsageFromPodCompletion key ?c1"
  have "cluster_inv SE co no ?c1" using assms cluster_inv_same[of ?c1 c] by (simp add: same_base_def)
  then have "cluster_inv SE co no ?c2" by (rule completion_keeps)
  moreover have "same_base (DeletePod now key c) ?c2" "clBindings (DeletePod now key c) = clBindings ?c2"
    by (simp_all add: DeletePod_def same_base_def MarkUnconsolidated_def ClearPodSchedulingMappings_def)
  ultimately show ?thesis using cluster_inv_same by blast
qed

section \<open>Marks, nominations and copies\<close>

lemma set_mark_keeps:
  assumes inv: "cluster_inv SE co no c"
  shows "\<exists>d. set_mark SE mark pid c = Some d \<and> cluster_inv SE co no d"
proof (cases "map_of (clNodes c) pid")
  case None
  then show ?thesis using inv by (simp add: set_mark_def)
next
  case (Some n)
  let ?new = "n\<lparr>markedForDeletion := mark\<rparr>"
  let ?d0 = "c\<lparr>clNodes := mput pid ?new (clNodes c)\<rparr>"
  have "node_ok co no pid ?new" "usage_ok ?new" using inv_parts(6)[OF inv Some]
    by (auto simp: node_ok_def has_object_def object_wf_def usage_ok_def)
  then have new: "Some ?new = None \<or> (\<exists>m. Some ?new = Some m \<and> node_ok co no pid m \<and> podRequests m = podRequests n \<and>
      usage_ok m \<and> (stNode m = stNode n \<or> stNode m = None))" by simp
  obtain m where m: "updateNodePoolResources SE (Some n) (Some ?new) ?d0 = Some (?d0\<lparr>clPoolResources := m\<rparr>)"
      "\<forall>e. clNodes e = put_node pid (Some ?new) (clNodes c) \<and> clPoolResources e = m \<and> clBindings e = clBindings c \<and>
         names_inv e \<longrightarrow> cluster_inv SE co no e"
    using remove_object[OF inv Some new, of ?d0] by auto
  have "cluster_inv SE co no e"
    if e: "clNodes e = mput pid ?new (clNodes c)" "clPoolResources e = m" "clBindings e = clBindings c"
      "clClaimName e = clClaimName c" "clNodeName e = clNodeName c" for e
  proof -
    have put: "clNodes e = put_node pid (Some ?new) (clNodes c)" using e(1) by (simp add: put_node_def)
    have "claim_at e q = claim_at c q" "node_at e q = node_at c q" for q
      using at_put_node[OF put] Some by (auto simp: claim_at_def node_at_def)
    then have "names_inv e" using inv_parts(3)[OF inv] e(4,5) by (simp add: names_inv_def)
    then show ?thesis using m(2) put e(2,3) by blast
  qed
  then show ?thesis using Some m(1) by (auto simp: set_mark_def Let_def split: option.splits)
qed

interpretation marking: guarded_machine "set_mark SE mark" "cluster_inv SE co no" "\<lambda>_. True"
  for SE :: "'q::linordered_ab_group_add state_env" and mark co no
  by unfold_locales (rule set_mark_keeps)

lemma on_node_cluster_inv:
  assumes inv: "cluster_inv SE co no c"
    and f: "\<And>n. same_objects (f n) n \<and> usage_ok (f n) = usage_ok n \<and> podRequests (f n) = podRequests n"
  shows "cluster_inv SE co no (on_node pid f c)"
proof -
  have "base_inv SE co no (on_node pid f c)"
    using inv f by (intro base_inv_on_node) (simp_all add: cluster_inv_def)
  moreover have "pods_inv (on_node pid f c)"
    unfolding pods_inv_def
  proof (intro allI impI)
    fix q x nd k assume x: "map_of (clNodes (on_node pid f c)) q = Some x" "stNode x = Some nd" "mhas (podRequests x) k"
    then obtain n where "map_of (clNodes c) q = Some n" "stNode n = Some nd" "mhas (podRequests n) k"
      using f by (auto simp: map_of_on_node same_objects_def split: if_splits)
    from pods_invD[OF inv_parts(5)[OF inv] this] show "map_of (clBindings (on_node pid f c)) k = Some (cnName nd)" by simp
  qed
  ultimately show ?thesis by (simp add: cluster_inv_def)
qed

lemma ensureRequestTotals_keeps:
  assumes "usage_ok n"
  shows "same_objects (ensureRequestTotals n) n" "usage_ok (ensureRequestTotals n)" "podRequests (ensureRequestTotals n) = podRequests n"
proof -
  have "total_ok (podRequestsTotal n) (podRequests n)" "total_ok (daemonSetRequestsTotal n) (daemonSetRequests n)"
    using assms by (auto simp: usage_ok_def)
  then have "total_ok (Some (podRequestsTotalOrCompute n)) (podRequests n)"
    "total_ok (Some (daemonSetRequestsTotalOrCompute n)) (daemonSetRequests n)"
    using qty_Merge_values by (auto simp: total_ok_def podRequestsTotalOrCompute_def daemonSetRequestsTotalOrCompute_def split: option.splits)
  then show "same_objects (ensureRequestTotals n) n" "usage_ok (ensureRequestTotals n)" "podRequests (ensureRequestTotals n) = podRequests n"
    by (simp_all add: ensureRequestTotals_def same_objects_def usage_ok_def)
qed

lemma SimulationCopyNodes_keeps:
  assumes inv: "cluster_inv SE co no c"
  shows "cluster_inv SE co no (fst (SimulationCopyNodes c))"
proof -
  let ?d = "fst (SimulationCopyNodes c)"
  have nodes: "map_of (clNodes ?d) q = map_option ensureRequestTotals (map_of (clNodes c) q)" for q
    by (simp add: SimulationCopyNodes_def Let_def map_of_map_values)
  have same: "clNodeName ?d = clNodeName c" "clClaimName ?d = clClaimName c" "clPoolResources ?d = clPoolResources c"
    "clBindings ?d = clBindings c" "map fst (clNodes ?d) = map fst (clNodes c)"
    by (simp_all add: SimulationCopyNodes_def Let_def split_def o_def)
  note p = inv_parts[OF inv] and k = ensureRequestTotals_keeps
  have mem: "usage_ok n" if "(q, n) \<in> set (clNodes c)" for q n using p(2,6) that by (auto simp: nodes_inv_def)
  have "nodes_inv co no ?d" using p(2,6) k node_ok_same unfolding nodes_inv_def nodes same(5) by fastforce
  moreover have "names_inv ?d"
  proof -
    have "claim_at ?d q = claim_at c q" "node_at ?d q = node_at c q" for q
      using k(1) p(6) by (auto simp: claim_at_def node_at_def nodes same_objects_def simp del: map_of_eq_Some_iff split: bind_split)
    then show ?thesis using p(3) same by (simp add: names_inv_def)
  qed
  moreover have "pool_inv SE ?d"
  proof -
    have "map_sum (contribution SE q r) (clNodes ?d) = map_sum (contribution SE q r) (clNodes c)" for q r
      unfolding SimulationCopyNodes_def Let_def fst_conv
      by simp (rule map_sum_values, use mem k(1) same_objects_share(4) in blast)
    then show ?thesis using p(4) same(3) by (simp add: pool_inv_def)
  qed
  moreover have "\<forall>q n. map_of (clNodes ?d) q = Some n \<longrightarrow> usage_ok n" using p(6) k(2) by (simp add: nodes) blast
  moreover have "pods_inv ?d"
  proof -
    have "stNode (ensureRequestTotals n) = stNode n \<and> podRequests (ensureRequestTotals n) = podRequests n" for n :: "'a StateNode"
      by (simp add: ensureRequestTotals_def)
    then show ?thesis unfolding pods_inv_def nodes same(4) using pods_invD[OF p(5)] by auto
  qed
  ultimately show ?thesis using p(1) by (simp add: cluster_inv_def base_inv_def)
qed

section \<open>Watch events\<close>

datatype 'q cluster_event =
    NodeClaimUpdated int "'q NodeClaim"
  | NodeClaimDeleted int string
  | NodeUpdated int "(kube_error, Pod list) result" "kube_error + (string \<times> int option option) list" "'q CoreNode"
  | NodeDeleted int string
  | PodUpdated int Pod
  | PodDeleted int NamespacedName
  | Marked "string list"
  | Unmarked "string list"
  | NodeNominated int int string
  | Copied

fun cluster_step :: "'q::linordered_ab_group_add state_env \<Rightarrow> 'q cluster_event \<Rightarrow> 'q Cluster \<Rightarrow> 'q Cluster option" where
  "cluster_step SE (NodeClaimUpdated now nc) c = UpdateNodeClaim SE now nc c"
| "cluster_step SE (NodeClaimDeleted now name) c = DeleteNodeClaim SE now name c"
| "cluster_step SE (NodeUpdated now listed csi node) c = map_option fst (UpdateNode SE now listed csi node c)"
| "cluster_step SE (NodeDeleted now name) c = DeleteNode SE now name c"
| "cluster_step SE (PodUpdated now pod) c = map_option fst (UpdatePod SE now pod c)"
| "cluster_step SE (PodDeleted now key) c = Some (DeletePod now key c)"
| "cluster_step SE (Marked ids) c = MarkForDeletion SE ids c"
| "cluster_step SE (Unmarked ids) c = UnmarkForDeletion SE ids c"
| "cluster_step SE (NodeNominated batchMax now pid) c = Some (NominateNodeForPod batchMax now pid c)"
| "cluster_step SE Copied c = Some (fst (SimulationCopyNodes c))"

text \<open>
  What the API server guarantees of the events: quantities come in Go maps, a provider id belongs to one
  NodeClaim and one Node, an object has a name, and the pods listed for a node name that node.
\<close>

fun proper_event :: "(string \<Rightarrow> string) \<Rightarrow> (string \<Rightarrow> string) \<Rightarrow> 'q cluster_event \<Rightarrow> bool" where
  "proper_event co no (NodeClaimUpdated now nc) \<longleftrightarrow>
     wf_map (ncCapacity nc) \<and> (ncProviderID nc \<noteq> [] \<longrightarrow> co (ncProviderID nc) = ncName nc)"
| "proper_event co no (NodeUpdated now listed csi node) \<longleftrightarrow>
     wf_map (cnCapacity node) \<and> cnName node \<noteq> [] \<and>
     no (if cnProviderID node = [] then cnName node else cnProviderID node) = cnName node \<and>
     (case listed of Panic \<Rightarrow> False | Err e \<Rightarrow> True | Ok ps \<Rightarrow> list_all (\<lambda>p. podNodeName p = cnName node) ps)"
| "proper_event co no _ \<longleftrightarrow> True"

lemma cluster_step_keeps:
  assumes inv: "cluster_inv SE co no c" and ev: "proper_event co no ev"
  shows "\<exists>d. cluster_step SE ev c = Some d \<and> cluster_inv SE co no d"
proof (cases ev)
  case (NodeClaimUpdated now nc)
  then show ?thesis using UpdateNodeClaim_keeps[OF inv, of nc now] ev by simp
next
  case (NodeClaimDeleted now name)
  then show ?thesis using cleanupNodeClaim_keeps[OF inv, of now name] by (auto simp: DeleteNodeClaim_def)
next
  case (NodeUpdated now listed csi node)
  have "listed \<noteq> Panic" "\<And>ps. listed = Ok ps \<Longrightarrow> \<forall>p \<in> set ps. podNodeName p = cnName node"
    using ev NodeUpdated by (auto simp: list_all_iff split: result.splits)
  then have "\<exists>d errs. UpdateNode SE now listed csi node c = Some (d, errs) \<and> cluster_inv SE co no d"
    by (intro UpdateNode_keeps[OF inv _ refl]) (use ev NodeUpdated in auto)
  then show ?thesis using NodeUpdated by auto
next
  case (NodeDeleted now name)
  then show ?thesis using cleanupNode_keeps[OF inv, of now name] by (auto simp: DeleteNode_def)
next
  case (PodUpdated now pod)
  then show ?thesis using UpdatePod_keeps[OF inv, of now pod] by auto
next
  case (PodDeleted now key)
  then show ?thesis using DeletePod_keeps[OF inv] by simp
next
  case (Marked ids)
  then show ?thesis using marking.run_allowed[OF inv] by (simp add: MarkForDeletion_def)
next
  case (Unmarked ids)
  then show ?thesis using marking.run_allowed[OF inv] by (simp add: UnmarkForDeletion_def)
next
  case (NodeNominated batchMax now pid)
  then show ?thesis using on_node_cluster_inv[OF inv, of "Nominate batchMax now" pid]
    by (simp add: NominateNodeForPod_def Nominate_def same_objects_def usage_ok_def)
next
  case Copied
  then show ?thesis using SimulationCopyNodes_keeps[OF inv] by simp
qed

interpretation watching: guarded_machine "cluster_step SE" "cluster_inv SE co no" "proper_event co no"
  for SE :: "'q::linordered_ab_group_add state_env" and co no
  by unfold_locales (rule cluster_step_keeps)

lemma cluster_inv_NewCluster: "env_ok SE \<Longrightarrow> cluster_inv SE co no NewCluster"
  by (simp add: cluster_inv_def base_inv_def nodes_inv_def names_inv_def claim_at_def node_at_def pool_inv_def pods_inv_def
      NewCluster_def env_ok_def pools_wf_def mget_def)

text \<open>What a state node that is not being deleted has of a resource, for the NodePool it is labelled with.\<close>

definition live_capacity :: "'q::linordered_ab_group_add state_env \<Rightarrow> string \<Rightarrow> string \<Rightarrow> 'q StateNode \<Rightarrow> 'q" where
  "live_capacity SE p k n =
     (case (StateNode_Labels n, StateNode_Capacity SE n) of
        (Some labels, Some capacity) \<Rightarrow>
          if mget [] labels NodePoolLabelKey = p \<and> \<not> MarkedForDeletion n then qty capacity k else 0
      | _ \<Rightarrow> 0)"

lemma capacity_one: "StateNode_Capacity SE n = Some l \<Longrightarrow> map_of l ResourceNode = Some (seNewQuantity SE 1)"
  by (auto simp: StateNode_Capacity_def lo_Assign_def one_node_def gomap_simps split: option.splits if_splits)

lemma contribution_live:
  assumes "has_object n" "object_wf n"
  shows "contribution SE p k n = live_capacity SE p k n"
proof -
  obtain l where l: "StateNode_Labels n = Some l" using Labels_Some[OF assms(1)] by blast
  obtain cap where cap: "StateNode_Capacity SE n = Some cap" using Capacity_Some[OF assms] by blast
  note one = capacity_one[OF cap]
  then have "cap \<noteq> []" by auto
  moreover have "qty (mput ResourceNode (seNewQuantity SE 1) cap) k = qty cap k" using one by (simp add: mget_def gomap_simps)
  moreover have "qty ([] :: 'a ResourceList) k = 0" by (simp add: mget_def)
  ultimately show ?thesis using assms(1) l cap by (simp add: contribution_def pool_share_def live_capacity_def)
qed

lemma tally_live:
  assumes "cluster_inv SE co no c" "p \<noteq> []"
  shows "qty (NodePoolResourcesFor p c) k = (\<Sum>(pid, n) \<leftarrow> clNodes c. live_capacity SE p k n)"
proof -
  note i = inv_parts[OF assms(1)]
  have "map_sum (contribution SE p k) (clNodes c) = map_sum (live_capacity SE p k) (clNodes c)"
  proof (rule map_sum_cong)
    fix pid n assume "(pid, n) \<in> set (clNodes c)"
    then have "node_ok co no pid n" using i(2) by (auto simp: nodes_inv_def)
    then show "contribution SE p k n = live_capacity SE p k n" by (intro contribution_live) (simp_all add: node_ok_def)
  qed
  then show ?thesis using i(4) assms(2) by (simp add: pool_inv_def NodePoolResourcesFor_def map_sum_def split_def o_def)
qed

text \<open>
  C9. The resources the cluster tracks for a NodePool are exact. From the empty cluster, every sequence
  of events the API server can deliver is processed without a panic. Afterwards, for every NodePool and
  every resource, the tracked quantity is the sum of the capacities of the state nodes labelled with the
  NodePool that are not being deleted. It holds although the operations only ever add and subtract
  differences, change provider ids on the way, and drop a NodePool whose quantities have become zero.
\<close>

theorem nodepool_resources_exact:
  fixes SE :: "'q::linordered_ab_group_add state_env"
  assumes "env_ok SE" "\<forall>ev \<in> set evs. proper_event co no ev"
  shows "\<exists>c. run_steps (cluster_step SE) evs NewCluster = Some c \<and>
    (\<forall>p k. p \<noteq> [] \<longrightarrow> qty (NodePoolResourcesFor p c) k = (\<Sum>(pid, n) \<leftarrow> clNodes c. live_capacity SE p k n))"
  using watching.run_allowed[OF cluster_inv_NewCluster[OF assms(1)] assms(2)] tally_live by blast

text \<open>
  C10. Pods are counted once. After any sequence of events, a pod is counted in the requests of at most
  one state node that has a Node, whatever the order in which pods are bound, renamed nodes appear and
  watch events arrive. The requests of a state node, memoized or not, are the sum over the pods it
  tracks, and what is available of a resource is the allocatable quantity less that sum.
\<close>

theorem pods_counted_once:
  fixes SE :: "'q::linordered_ab_group_add state_env"
  assumes "env_ok SE" "\<forall>ev \<in> set evs. proper_event co no ev"
  shows "\<exists>c. run_steps (cluster_step SE) evs NewCluster = Some c \<and>
    (\<forall>p q n m key. map_of (clNodes c) p = Some n \<longrightarrow> map_of (clNodes c) q = Some m \<longrightarrow> stNode n \<noteq> None \<longrightarrow> stNode m \<noteq> None \<longrightarrow>
       mhas (podRequests n) key \<longrightarrow> mhas (podRequests m) key \<longrightarrow> p = q) \<and>
    (\<forall>p n k. map_of (clNodes c) p = Some n \<longrightarrow> qty (PodRequests n) k = (\<Sum>(key, l) \<leftarrow> podRequests n. qty l k)) \<and>
    (\<forall>p n a k. map_of (clNodes c) p = Some n \<longrightarrow> StateNode_Allocatable n = Some a \<longrightarrow> mhas a k \<longrightarrow>
       qty (the (StateNode_Available n)) k = qty a k - (\<Sum>(key, l) \<leftarrow> podRequests n. qty l k))"
proof -
  obtain c where c: "run_steps (cluster_step SE) evs NewCluster = Some c" "cluster_inv SE co no c"
    using watching.run_allowed[OF cluster_inv_NewCluster[OF assms(1)] assms(2)] by blast
  note i = inv_parts[OF c(2)]
  have once: "p = q" if "map_of (clNodes c) p = Some n" "map_of (clNodes c) q = Some m" "stNode n = Some nd" "stNode m = Some nd'"
      "mhas (podRequests n) key" "mhas (podRequests m) key" for p q n m nd nd' key
    using pods_invD[OF i(5) that(1,3,5)] pods_invD[OF i(5) that(2,4,6)] names_inv_node[OF i(3) that(1,3)]
      names_inv_node[OF i(3) that(2,4)] by simp
  have sum: "qty (PodRequests n) k = (\<Sum>(key, l) \<leftarrow> podRequests n. qty l k)" if "map_of (clNodes c) p = Some n" for p n k
    using PodRequests_sum i(6)[OF that] by (auto simp: map_sum_def o_def split_def)
  have "qty (the (StateNode_Available n)) k = qty a k - (\<Sum>(key, l) \<leftarrow> podRequests n. qty l k)"
    if "map_of (clNodes c) p = Some n" "StateNode_Allocatable n = Some a" "mhas a k" for p n a k
    using that(2,3) sum[OF that(1), of k] by (auto simp: StateNode_Available_def mget_def map_of_Subtract)
  then show ?thesis using c(1) once sum by (intro exI[of _ c] conjI) (blast+)
qed

section \<open>A run\<close>

text \<open>
  Two NodeClaims of one NodePool launch, the first registers as a node and gets a pod, the second is
  marked for deletion.
\<close>

definition demo_state :: "int state_env" where
  "demo_state = \<lparr>seKube = one_claim, seRequests = (\<lambda>_. [(''cpu'', 1)]), seLimits = (\<lambda>_. []), seNewQuantity = id,
     seParseFloat = (\<lambda>_. None), seMatchTaint = (=)\<rparr>"

definition demo_claim :: "string \<Rightarrow> string \<Rightarrow> int \<Rightarrow> int NodeClaim" where
  "demo_claim name pid cpu = \<lparr>ncName = name, ncUID = name, ncLabels = [(NodePoolLabelKey, ''p'')], ncAnnotations = [],
     ncCreationTimestamp = 0, ncDeletionTimestamp = None,
     ncSpec = \<lparr>specTaints = [], specStartupTaints = [], specRequirements = [], specRequests = [], specNodeClassRef = None,
       specTerminationGracePeriod = None, specExpireAfter = None\<rparr>,
     ncNodeName = [], ncProviderID = pid, ncCapacity = [(''cpu'', cpu)], ncAllocatable = [(''cpu'', cpu)],
     ncConditions = [], ncLastPodEventTime = None\<rparr>"

definition demo_node :: "int CoreNode" where
  "demo_node = \<lparr>cnName = ''n1'', cnLabels = [(NodePoolLabelKey, ''p''), (NodeRegisteredLabelKey, ''true''),
     (NodeInitializedLabelKey, ''true''), (LabelInstanceTypeStable, ''m'')], cnAnnotations = [], cnDeletionTimestamp = None,
     cnProviderID = ''i-1'', cnTaints = [], cnCapacity = [(''cpu'', 4)], cnAllocatable = [(''cpu'', 3)], cnConditions = [(''Ready'', ''True'')]\<rparr>"

definition demo_pod :: Pod where "demo_pod = (bare_pod ''a'')\<lparr>podNodeName := ''n1''\<rparr>"

definition demo_events :: "int cluster_event list" where
  "demo_events = [NodeClaimUpdated 1 (demo_claim ''c1'' ''i-1'' 5), NodeUpdated 2 (Ok []) (Inr []) demo_node,
     PodUpdated 3 demo_pod, NodeClaimUpdated 4 (demo_claim ''c2'' ''i-2'' 8), Marked [''i-2''], Copied]"

definition claim_names :: "string \<Rightarrow> string" where
  "claim_names pid = (if pid = ''i-1'' then ''c1'' else ''c2'')"

lemma demo_proper: "env_ok demo_state" "\<forall>ev \<in> set demo_events. proper_event claim_names (\<lambda>_. ''n1'') ev"
  by (simp_all add: env_ok_def demo_state_def demo_events_def demo_claim_def demo_node_def claim_names_def)

lemma demo_tracked:
  "map_option (\<lambda>c. qty (NodePoolResourcesFor ''p'' c) ''cpu'') (run_steps (cluster_step demo_state) demo_events NewCluster) = Some 4"
  "map_option (\<lambda>c. map_option (\<lambda>n. (map_option (\<lambda>a. qty a ''cpu'') (StateNode_Available n), podRequests n)) (map_of (clNodes c) ''i-1''))
     (run_steps (cluster_step demo_state) demo_events NewCluster) =
   Some (Some (Some 2, [((''default'', ''a''), [(''cpu'', 1), (''pods'', 1)])]))"
  by code_simp+

theorem nodepool_resources_exact_witness:
  "\<exists>c. run_steps (cluster_step demo_state) demo_events NewCluster = Some c \<and>
     (\<Sum>(pid, n) \<leftarrow> clNodes c. live_capacity demo_state ''p'' ''cpu'' n) = 4"
  using nodepool_resources_exact[OF demo_proper] demo_tracked(1) by force

theorem pods_counted_once_witness:
  "\<exists>c n. run_steps (cluster_step demo_state) demo_events NewCluster = Some c \<and> map_of (clNodes c) ''i-1'' = Some n \<and>
     qty (PodRequests n) ''cpu'' = 1"
proof -
  obtain c where c: "run_steps (cluster_step demo_state) demo_events NewCluster = Some c"
      "\<forall>p n k. map_of (clNodes c) p = Some n \<longrightarrow> qty (PodRequests n) k = (\<Sum>(key, l) \<leftarrow> podRequests n. qty l k)"
    using pods_counted_once[OF demo_proper] by blast
  then obtain n where "map_of (clNodes c) ''i-1'' = Some n" "podRequests n = [((''default'', ''a''), [(''cpu'', 1), (''pods'', 1)])]"
    using demo_tracked(2) by auto
  with c show ?thesis by (simp add: mget_def)
qed

end
