(* ===== verification/PoolLaws.thy ===== *)
theory PoolLaws
  imports PoolStates
begin

text \<open>
  The node limit of a static NodePool. Several controllers reserve node count, create NodeClaims for it
  and release the reservation, and watch events move claims between states in between. The theory gives
  these moves as one machine over the state of the NodePools and shows that the limit holds, and what
  breaks it.
\<close>

definition used_count :: "string \<Rightarrow> NodePoolState \<Rightarrow> int" where
  "used_count np s = (case nodeCounts np s of (a, d, p) \<Rightarrow> a + d + p)"

abbreviation claims_of :: "string \<Rightarrow> NodePoolState \<Rightarrow> NodeClaimState" where
  "claims_of np s \<equiv> mget noClaims (poolClaims s) np"

definition known :: "string \<Rightarrow> NodePoolState \<Rightarrow> string set" where
  "known np s = Active (claims_of np s) \<union> Deleting (claims_of np s) \<union> PendingDisruption (claims_of np s)"

definition claims_ok :: "NodeClaimState \<Rightarrow> bool" where
  "claims_ok st \<longleftrightarrow> finite (Active st) \<and> finite (Deleting st) \<and> finite (PendingDisruption st) \<and>
     Active st \<inter> Deleting st = {} \<and> Active st \<inter> PendingDisruption st = {} \<and> Deleting st \<inter> PendingDisruption st = {}"

lemma used_known: "claims_ok (claims_of np s) \<Longrightarrow> used_count np s = int (card (known np s))"
proof -
  assume ok: "claims_ok (claims_of np s)"
  let ?c = "claims_of np s"
  have "card (known np s) = card (Active ?c \<union> Deleting ?c) + card (PendingDisruption ?c)"
    unfolding known_def using ok by (intro card_Un_disjoint) (auto simp: claims_ok_def)
  moreover have "card (Active ?c \<union> Deleting ?c) = card (Active ?c) + card (Deleting ?c)"
    using ok by (intro card_Un_disjoint) (auto simp: claims_ok_def)
  ultimately show ?thesis by (simp add: used_count_def nodeCounts_def mget_def noClaims_def split: option.splits)
qed

section \<open>The moves\<close>

text \<open>
  What the controllers do to one NodePool: reserve node count up to a limit, create a claim for a granted
  unit and release it, or release it after a failed creation; and what the watches do: move a claim
  between the states, or forget it. The second component is the number of granted units not yet used, the
  third the number of created claims whose unit is not yet released. A claim may be forgotten while units
  are reserved only if another claim of the NodePool is active or deleting.
\<close>

inductive limit_step :: "string \<Rightarrow> int \<Rightarrow> NodePoolState \<times> nat \<times> nat \<Rightarrow> NodePoolState \<times> nat \<times> nat \<Rightarrow> bool" for np lm where
  grant: "0 \<le> wanted \<Longrightarrow> ReserveNodeCount np lm wanted s = (s', g) \<Longrightarrow>
    limit_step np lm (s, granted, created) (s', granted + nat g, created)"
| launch: "nc \<notin> known np s \<Longrightarrow>
    limit_step np lm (s, Suc granted, created) (MarkNodeClaimActive np nc (SetNodeClaimMapping np nc s), granted, Suc created)"
| launch_failed: "ReleaseNodeCount np 1 s = Some s' \<Longrightarrow> limit_step np lm (s, Suc granted, created) (s', granted, created)"
| settle: "ReleaseNodeCount np 1 s = Some s' \<Longrightarrow> limit_step np lm (s, granted, Suc created) (s', granted, created)"
| move: "nc \<in> known np s \<Longrightarrow> mark \<in> {MarkNodeClaimActive, MarkNodeClaimDeleting, MarkNodeClaimPendingDisruption} \<Longrightarrow>
    limit_step np lm (s, granted, created) (mark np nc s, granted, created)"
| forget: "Active (claims_of np s) \<union> Deleting (claims_of np s) \<noteq> {nc} \<and> Active (claims_of np s) \<union> Deleting (claims_of np s) \<noteq> {}
      \<or> granted + created = 0 \<Longrightarrow>
    limit_step np lm (s, granted, created) (NodePoolState_Cleanup nc s, granted, created)"

inductive_cases limit_stepE: "limit_step np lm (s, granted, created) t"

section \<open>The operations on one NodePool\<close>

lemma ensure_entry:
  "mget noClaims (poolClaims (ensureNodePoolEntry np s)) q = claims_of q s"
  "mget 0 (poolReserved (ensureNodePoolEntry np s)) q = mget 0 (poolReserved s) q"
  "mhas (poolReserved (ensureNodePoolEntry np s)) np" "mhas (poolClaims (ensureNodePoolEntry np s)) np"
  "mhas (poolReserved s) q \<Longrightarrow> mhas (poolReserved (ensureNodePoolEntry np s)) q"
  by (auto simp: ensureNodePoolEntry_def mget_def gomap_simps noClaims_def split: option.splits)

lemma nodeCounts_claims:
  "nodeCounts np s = (int (card (Active (claims_of np s))), int (card (Deleting (claims_of np s))),
     int (card (PendingDisruption (claims_of np s))))"
  by (simp add: nodeCounts_def mget_def noClaims_def split: option.splits)

lemma used_count_cong: "claims_of np s = claims_of np t \<Longrightarrow> used_count np s = used_count np t"
  by (simp add: used_count_def nodeCounts_claims)

lemma mark_claims:
  "claims_of np (MarkNodeClaimActive np nc s) = \<lparr>Active = insert nc (Active (claims_of np s)),
     PendingDisruption = PendingDisruption (claims_of np s) - {nc}, Deleting = Deleting (claims_of np s) - {nc}\<rparr>"
  "claims_of np (MarkNodeClaimDeleting np nc s) = \<lparr>Active = Active (claims_of np s) - {nc},
     PendingDisruption = PendingDisruption (claims_of np s) - {nc}, Deleting = insert nc (Deleting (claims_of np s))\<rparr>"
  "claims_of np (MarkNodeClaimPendingDisruption np nc s) = \<lparr>Active = Active (claims_of np s) - {nc},
     PendingDisruption = insert nc (PendingDisruption (claims_of np s)), Deleting = Deleting (claims_of np s) - {nc}\<rparr>"
  by (simp_all add: MarkNodeClaimActive_def MarkNodeClaimDeleting_def MarkNodeClaimPendingDisruption_def Let_def ensure_entry
      gomap_simps)

lemma mark_reserved:
  assumes "mark \<in> {MarkNodeClaimActive, MarkNodeClaimDeleting, MarkNodeClaimPendingDisruption}"
  shows "poolReserved (mark np nc s) = poolReserved (ensureNodePoolEntry np s)"
  using assms by (auto simp: MarkNodeClaimActive_def MarkNodeClaimDeleting_def MarkNodeClaimPendingDisruption_def Let_def)

lemma mapping_claims:
  "claims_of np (SetNodeClaimMapping q nc s) = claims_of np s" "mget 0 (poolReserved (SetNodeClaimMapping q nc s)) np = mget 0 (poolReserved s) np"
  by (simp_all add: SetNodeClaimMapping_def Let_def ensure_entry)

lemma ReserveNodeCount_spec:
  assumes "ReserveNodeCount np lm wanted s = (s', g)" "0 \<le> wanted"
    and "remaining = lm - used_count np s - mget 0 (poolReserved s) np" "in_int64 remaining"
    and "in_int64 (mget 0 (poolReserved s) np + max 0 remaining)" "0 \<le> mget 0 (poolReserved s) np"
  shows "0 \<le> g" "g \<le> max 0 remaining" "claims_of np s' = claims_of np s"
    "mget 0 (poolReserved s') np = mget 0 (poolReserved s) np + g" "mhas (poolReserved s') np"
proof -
  let ?e = "ensureNodePoolEntry np s" and ?r = "mget 0 (poolReserved s) np"
  have run: "ReserveNodeCount np lm wanted s = (if remaining < 0 then (?e, 0)
      else (?e\<lparr>poolReserved := mput np (wrap64 (?r + min wanted remaining)) (poolReserved ?e)\<rparr>, min wanted remaining))"
    using assms(3,4) by (auto simp: ReserveNodeCount_def Let_def ensure_entry nodeCounts_claims used_count_def wrap64_id
        diff_diff_eq min_def split: prod.splits)
  have w: "wrap64 (?r + min wanted remaining) = ?r + min wanted remaining" if "\<not> remaining < 0"
    using that assms(2,5,6) by (intro wrap64_id) (auto simp: in_int64_def int_bounds min_def)
  show "0 \<le> g" "g \<le> max 0 remaining" "claims_of np s' = claims_of np s"
    "mget 0 (poolReserved s') np = ?r + g" "mhas (poolReserved s') np"
    using assms(1,2) run w ensure_entry(3)[of np s] by (auto simp: ensure_entry(1,2) gomap_simps split: if_splits)
qed

lemma ReleaseNodeCount_spec:
  assumes "ReleaseNodeCount np 1 s = Some s'" "0 < mget 0 (poolReserved s) np" "in_int64 (mget 0 (poolReserved s) np)"
  shows "claims_of np s' = claims_of np s" "mget 0 (poolReserved s') np = mget 0 (poolReserved s) np - 1"
    "mhas (poolReserved s') np"
proof -
  obtain r where r: "map_of (poolReserved s) np = Some r" using assms(1) by (auto simp: ReleaseNodeCount_def split: option.splits)
  then have "r = mget 0 (poolReserved s) np" by (simp add: mget_def)
  then have "wrap64 (r - 1) = r - 1" using assms(2,3) by (intro wrap64_id) (auto simp: in_int64_def int_bounds)
  then show "claims_of np s' = claims_of np s" "mget 0 (poolReserved s') np = mget 0 (poolReserved s) np - 1" "mhas (poolReserved s') np"
    using assms r \<open>r = _\<close> by (auto simp: ReleaseNodeCount_def gomap_simps)
qed

lemma Cleanup_spec:
  fixes s nc defines "t \<equiv> NodePoolState_Cleanup nc s"
  shows "known np t \<subseteq> known np s" "claims_ok (claims_of np s) \<Longrightarrow> claims_ok (claims_of np t)"
    and "\<not> Active (claims_of np s) \<union> Deleting (claims_of np s) \<subseteq> {nc} \<Longrightarrow> claims_ok (claims_of np s) \<Longrightarrow>
           map_of (poolReserved t) np = map_of (poolReserved s) np"
    and "map_of (poolReserved t) np \<in> {None, map_of (poolReserved s) np}"
proof -
  let ?q = "mget [] (claimPool s) nc" and ?c = "claims_of np s"
  define rest where "rest = \<lparr>Active = Active ?c - {nc}, PendingDisruption = PendingDisruption ?c - {nc}, Deleting = Deleting ?c - {nc}\<rparr>"
  consider (other) "claims_of np t = ?c" "map_of (poolReserved t) np = map_of (poolReserved s) np"
    | (dropped) "claims_of np t = noClaims" "map_of (poolReserved t) np = None" "card (Active rest) = 0" "card (Deleting rest) = 0"
    | (removed) "claims_of np t = rest" "map_of (poolReserved t) np = map_of (poolReserved s) np"
  proof (cases "?q = np \<and> mhas (poolClaims s) np")
    case False
    then have "claims_of np t = ?c \<and> map_of (poolReserved t) np = map_of (poolReserved s) np"
      by (auto simp: t_def NodePoolState_Cleanup_def Let_def mget_def gomap_simps split: option.splits)
    then show ?thesis using other by blast
  next
    case True
    then obtain st where st: "map_of (poolClaims s) np = Some st" by blast
    then have "?c = st" by (simp add: mget_def)
    then have rest': "rest = \<lparr>Active = Active st - {nc}, PendingDisruption = PendingDisruption st - {nc}, Deleting = Deleting st - {nc}\<rparr>"
      by (simp add: rest_def)
    show ?thesis
    proof (cases "card (Active rest) = 0 \<and> card (Deleting rest) = 0")
      case gc: True
      then have "claims_of np t = noClaims \<and> map_of (poolReserved t) np = None"
        using True st by (simp add: t_def NodePoolState_Cleanup_def rest' gomap_simps)
      with gc show ?thesis by (intro dropped) simp_all
    next
      case keep: False
      then have "claims_of np t = rest \<and> map_of (poolReserved t) np = map_of (poolReserved s) np"
        using True st unfolding t_def NodePoolState_Cleanup_def rest' by (auto simp: Let_def gomap_simps)
      then show ?thesis using removed by blast
    qed
  qed
  note shape = this
  show "known np t \<subseteq> known np s"
    by (cases rule: shape) (auto simp: known_def rest_def noClaims_def)
  show "claims_ok (claims_of np t)" if "claims_ok ?c"
    using that by (cases rule: shape) (auto simp: claims_ok_def rest_def noClaims_def)
  show "map_of (poolReserved t) np = map_of (poolReserved s) np"
    if "\<not> Active ?c \<union> Deleting ?c \<subseteq> {nc}" "claims_ok ?c"
    using that by (cases rule: shape) (auto simp: claims_ok_def rest_def)
  show "map_of (poolReserved t) np \<in> {None, map_of (poolReserved s) np}" by (cases rule: shape) auto
qed

section \<open>The invariant\<close>

fun limit_inv :: "string \<Rightarrow> int \<Rightarrow> NodePoolState \<times> nat \<times> nat \<Rightarrow> bool" where
  "limit_inv np lm (s, granted, created) \<longleftrightarrow>
     claims_ok (claims_of np s) \<and> used_count np s + int granted \<le> lm \<and>
     mget 0 (poolReserved s) np = int (granted + created) \<and> int (granted + created) \<le> lm \<and>
     (0 < granted + created \<longrightarrow> mhas (poolReserved s) np)"

lemma used_nonneg: "0 \<le> used_count np s"
  by (simp add: used_count_def nodeCounts_claims)

lemma claims_ok_mark:
  assumes "claims_ok (claims_of np s)" "mark \<in> {MarkNodeClaimActive, MarkNodeClaimDeleting, MarkNodeClaimPendingDisruption}"
  shows "claims_ok (claims_of np (mark np nc s))" "known np (mark np nc s) = insert nc (known np s)"
  using assms by (auto simp: claims_ok_def mark_claims known_def)

lemma limit_step_inv:
  assumes "limit_step np lm st t" "limit_inv np lm st" "0 \<le> lm" "lm \<le> MaxInt64"
  shows "limit_inv np lm t"
  using assms(1,2)
proof (cases rule: limit_step.cases)
  case (grant wanted s s' g granted created)
  let ?rem = "lm - used_count np s - mget 0 (poolReserved s) np"
  have inv: "limit_inv np lm (s, granted, created)" using assms(2) grant by simp
  have "in_int64 ?rem" "in_int64 (mget 0 (poolReserved s) np + max 0 ?rem)" "0 \<le> mget 0 (poolReserved s) np"
    using inv assms(3,4) used_nonneg[of np s] by (auto simp: in_int64_def int_bounds max_def)
  note spec = ReserveNodeCount_spec[OF grant(4,3) refl this]
  then show ?thesis using inv grant used_count_cong[OF spec(3)] used_nonneg[of np s] by (auto simp: max_def split: if_splits)
next
  case (launch nc s granted created)
  let ?m = "SetNodeClaimMapping np nc s"
  let ?t = "MarkNodeClaimActive np nc ?m"
  have inv: "limit_inv np lm (s, Suc granted, created)" using assms(2) launch by simp
  have ok: "claims_ok (claims_of np ?m)" "known np ?m = known np s" using inv by (simp_all add: mapping_claims known_def)
  note mark = claims_ok_mark[OF ok(1), of MarkNodeClaimActive nc, simplified]
  have "finite (known np s)" using inv by (auto simp: known_def claims_ok_def)
  then have "used_count np ?t = used_count np s + 1"
    using launch(3) used_known[OF mark(1)] used_known[where np = np and s = s] mark(2) ok(2) inv by simp
  moreover have "mget 0 (poolReserved ?t) np = mget 0 (poolReserved s) np" "mhas (poolReserved ?t) np"
    using mark_reserved[of MarkNodeClaimActive np nc ?m] by (simp_all add: ensure_entry mapping_claims del: not_None_eq)
  ultimately show ?thesis using inv mark(1) launch by auto
next
  case (launch_failed s s' granted created)
  then have "limit_inv np lm (s, Suc granted, created)" using assms(2) by simp
  then show ?thesis using launch_failed ReleaseNodeCount_spec[OF launch_failed(3)] used_count_cong[where np = np and s = s' and t = s] assms(4)
    by (auto simp: in_int64_def int_bounds)
next
  case (settle s s' granted created)
  then have "limit_inv np lm (s, granted, Suc created)" using assms(2) by simp
  then show ?thesis using settle ReleaseNodeCount_spec[OF settle(3)] used_count_cong[where np = np and s = s' and t = s] assms(4)
    by (auto simp: in_int64_def int_bounds)
next
  case (move nc s mark granted created)
  then have inv: "limit_inv np lm (s, granted, created)" using assms(2) by simp
  note m = claims_ok_mark[OF _ move(4), where np = np and s = s and nc = nc]
  have "used_count np (mark np nc s) = used_count np s"
    using inv m move(3) used_known[where np = np and s = s] used_known[where np = np and s = "mark np nc s"] by (simp add: insert_absorb)
  then show ?thesis using inv m move mark_reserved[OF move(4), of np nc s] ensure_entry(2,3)[of np s] by auto
next
  case (forget s nc granted created)
  then have inv: "limit_inv np lm (s, granted, created)" using assms(2) by simp
  let ?t = "NodePoolState_Cleanup nc s"
  note c = Cleanup_spec[where np = np and nc = nc and s = s]
  have "finite (known np s)" using inv by (auto simp: known_def claims_ok_def)
  then have "used_count np ?t \<le> used_count np s"
    using used_known[where np = np and s = s] used_known[where np = np and s = ?t] c(1,2) inv card_mono by simp
  moreover have "mget 0 (poolReserved ?t) np = int (granted + created) \<and> (0 < granted + created \<longrightarrow> mhas (poolReserved ?t) np)"
  proof (cases "granted + created = 0")
    case True
    then show ?thesis using inv c(4) by (auto simp: mget_def)
  next
    case False
    then have "\<not> Active (claims_of np s) \<union> Deleting (claims_of np s) \<subseteq> {nc}" using forget(3) by auto
    then show ?thesis using c(3) inv by (simp add: mget_def)
  qed
  ultimately show ?thesis using inv c(2) forget by auto
qed


definition one_active :: NodePoolState where
  "one_active = MarkNodeClaimActive ''p'' ''a'' (SetNodeClaimMapping ''p'' ''a'' NewNodePoolState)"

definition one_granted :: NodePoolState where
  "one_granted = fst (ReserveNodeCount ''p'' 2 1 one_active)"

definition two_active :: NodePoolState where
  "two_active = MarkNodeClaimActive ''p'' ''b'' (SetNodeClaimMapping ''p'' ''b'' one_granted)"

lemma limit_run: "(limit_step ''p'' 2)\<^sup>*\<^sup>* (one_active, 0, 0) (two_active, 0, 1)"
proof -
  have "ReserveNodeCount ''p'' 2 1 one_active = (one_granted, 1)" "''b'' \<notin> known ''p'' one_granted" by code_simp+
  then have "limit_step ''p'' 2 (one_active, 0, 0) (one_granted, 0 + nat 1, 0)"
    "limit_step ''p'' 2 (one_granted, Suc 0, 0) (two_active, 0, Suc 0)"
    unfolding two_active_def using limit_step.grant[of 1 "''p''" 2 one_active one_granted 1 0 0] by (auto intro!: limit_step.launch)
  then show ?thesis by (simp add: rtranclp.rtrancl_into_rtrancl converse_rtranclp_into_rtranclp)
qed



end
