(* ===== verification/NodeClaims.thy ===== *)
theory NodeClaims
  imports DaemonOverhead Topology Reservation
begin

text \<open>
  A NodeClaim that is being filled during a scheduling run
  (\<^verbatim>\<open>pkg/controllers/provisioning/scheduling/nodeclaim.go\<close>): the test whether a pod can be added, what
  adding it changes, and the instance types that remain.

  The topology and the reservation manager are shared by all NodeClaims of a run; the operations take
  and return them. The run has no allocator of dynamic resources. An instance type is identified by its
  value, where the code compares pointers. Panic stands for a panic.
\<close>

section \<open>Data\<close>

record 'q DaemonOverheadGroup =
  dgInstanceTypes :: "'q InstanceType list"
  dgDaemonOverhead :: "'q ResourceList"
  dgHostPortUsage :: HostPortUsage

record 'q PodData =
  pdRequests :: "'q ResourceList"
  pdRequirements :: requirements
  pdStrictRequirements :: requirements
  pdHasResourceClaimRequests :: bool
  pdVolumeRequirements :: "requirements list"

datatype ReservedOfferingMode = ReservedOfferingModeFallback | ReservedOfferingModeStrict

text \<open>The NodeClaim of the scheduler.\<close>

record 'q InFlight =
  ifTemplate :: "'q NodeClaimTemplate"
  ifPods :: "Pod list"
  ifDaemonOverheadGroups :: "'q DaemonOverheadGroup list"
  ifHostname :: string
  ifReservedOfferings :: "'q Offering list"
  ifReservedOfferingMode :: ReservedOfferingMode
  ifInstanceTypesBeforeLimits :: "'q InstanceType list option"

record 'q InstanceTypeFilterError =
  feRequirementsMet :: bool
  feFits :: bool
  feHasOffering :: bool
  feRequirementsAndFits :: bool
  feRequirementsAndOffering :: bool
  feFitsAndOffering :: bool
  feMinValuesIncompatible :: "(string, int) gomap"
  feRequirements :: requirements
  fePodRequests :: "'q ResourceList"
  feMinDaemonRequests :: "'q ResourceList"
  feMaxDaemonRequests :: "'q ResourceList"

datatype 'q sched_error =
    UntoleratedTaints "Taint list"
  | IncompatibleRequirements "compat_error list"
  | IncompatibleVolumes "compat_error list"
  | UnsatisfiableTopology TopologyGroup
  | IncompatibleTopology "compat_error list"
  | FilterError "'q InstanceTypeFilterError"
  | ReservedOfferingError bool
  | NodePoolIncompatibleError "'q sched_error"
  | NodePoolLimitError string
  | ExceededResources
  | ConflictingPorts
  | ExceededVolumes
  | CombinedError "'q sched_error list"
  | DRAError
  | DeadlineExceeded
  | OtherSchedError string

record 'q nodeclaim_env =
  neTopology :: topology_env
  nePick :: "string set \<Rightarrow> string"
  neIntn :: "int \<Rightarrow> int"
  neShowC :: "'q Offering \<Rightarrow> string"
  neShowO :: "'q Offering \<Rightarrow> string"
  neReservationID :: "'q Offering \<Rightarrow> string"
  neReservationIDLabel :: string
  neReservedCapacity :: bool

abbreviation neLabels :: "'q nodeclaim_env \<Rightarrow> label_env" where
  "neLabels NE \<equiv> teLabels (neTopology NE)"

abbreviation neAllow :: "'q nodeclaim_env \<Rightarrow> string list" where
  "neAllow NE \<equiv> WellKnownLabels (neLabels NE)"

text \<open>\<^verbatim>\<open>errors.As\<close> looks through wrapped errors and into combined ones.\<close>

primrec IsNodePoolIncompatibleError :: "'q sched_error \<Rightarrow> bool" where
  "IsNodePoolIncompatibleError (NodePoolIncompatibleError e) = True"
| "IsNodePoolIncompatibleError (UntoleratedTaints ts) = False"
| "IsNodePoolIncompatibleError (IncompatibleRequirements es) = False"
| "IsNodePoolIncompatibleError (IncompatibleVolumes es) = False"
| "IsNodePoolIncompatibleError (UnsatisfiableTopology tg) = False"
| "IsNodePoolIncompatibleError (IncompatibleTopology es) = False"
| "IsNodePoolIncompatibleError (FilterError fe) = False"
| "IsNodePoolIncompatibleError (ReservedOfferingError b) = False"
| "IsNodePoolIncompatibleError (NodePoolLimitError reason) = False"
| "IsNodePoolIncompatibleError ExceededResources = False"
| "IsNodePoolIncompatibleError ConflictingPorts = False"
| "IsNodePoolIncompatibleError ExceededVolumes = False"
| "IsNodePoolIncompatibleError (CombinedError es) = list_ex (\<lambda>b. b) (map IsNodePoolIncompatibleError es)"
| "IsNodePoolIncompatibleError DRAError = False"
| "IsNodePoolIncompatibleError DeadlineExceeded = False"
| "IsNodePoolIncompatibleError (OtherSchedError s) = False"

primrec IsReservedOfferingError :: "'q sched_error \<Rightarrow> bool" where
  "IsReservedOfferingError (NodePoolIncompatibleError e) = IsReservedOfferingError e"
| "IsReservedOfferingError (UntoleratedTaints ts) = False"
| "IsReservedOfferingError (IncompatibleRequirements es) = False"
| "IsReservedOfferingError (IncompatibleVolumes es) = False"
| "IsReservedOfferingError (UnsatisfiableTopology tg) = False"
| "IsReservedOfferingError (IncompatibleTopology es) = False"
| "IsReservedOfferingError (FilterError fe) = False"
| "IsReservedOfferingError (ReservedOfferingError b) = True"
| "IsReservedOfferingError (NodePoolLimitError reason) = False"
| "IsReservedOfferingError ExceededResources = False"
| "IsReservedOfferingError ConflictingPorts = False"
| "IsReservedOfferingError ExceededVolumes = False"
| "IsReservedOfferingError (CombinedError es) = list_ex (\<lambda>b. b) (map IsReservedOfferingError es)"
| "IsReservedOfferingError DRAError = False"
| "IsReservedOfferingError DeadlineExceeded = False"
| "IsReservedOfferingError (OtherSchedError s) = False"

text \<open>\<^verbatim>\<open>multierr.Errors\<close>: the parts of a combined error, or the error itself.\<close>

definition multierr_Errors :: "'q sched_error \<Rightarrow> 'q sched_error list" where
  "multierr_Errors e = (case e of CombinedError es \<Rightarrow> es | _ \<Rightarrow> [e])"

definition IsIncompatibleWithAllNodePools :: "'q sched_error option \<Rightarrow> bool" where
  "IsIncompatibleWithAllNodePools err =
     (case err of
        None \<Rightarrow> False
      | Some e \<Rightarrow> multierr_Errors e \<noteq> [] \<and> list_all IsNodePoolIncompatibleError (multierr_Errors e))"

section \<open>A new NodeClaim\<close>

text \<open>The hostname carries the number of the NodeClaim, with at least four digits.\<close>

definition placeholder :: "nat \<Rightarrow> string" where
  "placeholder n =
     (let digits = FormatInt (int n)
      in ''hostname-placeholder-'' @ replicate (4 - length digits) (CHR ''0'') @ digits)"

definition NewNodeClaim ::
  "'q nodeclaim_env \<Rightarrow> nat \<Rightarrow> 'q NodeClaimTemplate \<Rightarrow> 'q DaemonOverheadGroup list \<Rightarrow> 'q InstanceType list \<Rightarrow>
   ReservedOfferingMode \<Rightarrow> 'q InFlight option" where
  "NewNodeClaim NE nodeID nodeClaimTemplate groups instanceTypes mode =
     (let E = neLabels NE; hostname = placeholder nodeID in
      case NewRequirement E LabelHostname OpIn [hostname] of
        None \<Rightarrow> None
      | Some host \<Rightarrow>
          Some \<lparr>ifTemplate = nodeClaimTemplate
                  \<lparr>nctRequirements := Requirements_Add E
                     (Requirements_Add E (NewRequirements E []) (Requirements_Values (nctRequirements nodeClaimTemplate))) [host],
                   nctInstanceTypeOptions := instanceTypes,
                   nctSpec := (nctSpec nodeClaimTemplate)\<lparr>specRequests := []\<rparr>\<rparr>,
                ifPods = [], ifDaemonOverheadGroups = groups, ifHostname = hostname, ifReservedOfferings = [],
                ifReservedOfferingMode = mode, ifInstanceTypesBeforeLimits = None\<rparr>)"

section \<open>Instance types\<close>

definition compatible_type :: "label_env \<Rightarrow> 'q InstanceType \<Rightarrow> requirements \<Rightarrow> bool" where
  "compatible_type E it rs \<longleftrightarrow> Requirements_Intersects E (itRequirements it) rs = []"

fun fits_loop ::
  "label_env \<Rightarrow> 'q::linordered_ab_group_add ResourceList \<Rightarrow> requirements \<Rightarrow> 'q AllocatableOfferings list \<Rightarrow> bool \<Rightarrow> bool \<times> bool" where
  "fits_loop E requests rs [] hasOffering = (False, hasOffering)"
| "fits_loop E requests rs (g # gs) hasOffering =
     (if list_ex (offering_compatible E rs) (aoOfferings g)
      then if Fits requests (aoAllocatable g) then (True, True) else fits_loop E requests rs gs True
      else fits_loop E requests rs gs hasOffering)"

definition fits_type ::
  "'q::linordered_ab_group_add nodeclaim_env \<Rightarrow> 'q InstanceType \<Rightarrow> 'q ResourceList \<Rightarrow> requirements \<Rightarrow> (bool \<times> bool) option" where
  "fits_type NE it requests rs =
     map_option (\<lambda>gs. fits_loop (neLabels NE) requests rs gs False) (precompute (neShowC NE) (neShowO NE) it)"

definition trackDaemonOverhead ::
  "'q::linordered_ab_group_add ResourceList \<Rightarrow> 'q InstanceTypeFilterError \<Rightarrow> 'q InstanceTypeFilterError" where
  "trackDaemonOverhead dr e =
     (if feMaxDaemonRequests e = [] then e\<lparr>feMinDaemonRequests := dr, feMaxDaemonRequests := dr\<rparr>
      else e\<lparr>feMinDaemonRequests := MinResources [feMinDaemonRequests e, dr],
             feMaxDaemonRequests := MaxResources [feMaxDaemonRequests e, dr]\<rparr>)"

definition note_type :: "bool \<Rightarrow> bool \<Rightarrow> bool \<Rightarrow> 'q InstanceTypeFilterError \<Rightarrow> 'q InstanceTypeFilterError" where
  "note_type itCompat itFits itHasOffering e =
     e\<lparr>feRequirementsMet := feRequirementsMet e \<or> itCompat, feFits := feFits e \<or> itFits,
       feHasOffering := feHasOffering e \<or> itHasOffering,
       feRequirementsAndFits := feRequirementsAndFits e \<or> itCompat \<and> itFits \<and> \<not> itHasOffering,
       feRequirementsAndOffering := feRequirementsAndOffering e \<or> itCompat \<and> itHasOffering \<and> \<not> itFits,
       feFitsAndOffering := feFitsAndOffering e \<or> itFits \<and> itHasOffering \<and> \<not> itCompat\<rparr>"

fun filter_types ::
  "'q::linordered_ab_group_add nodeclaim_env \<Rightarrow> 'q InstanceType list \<Rightarrow> requirements \<Rightarrow> 'q ResourceList \<Rightarrow> 'q InstanceType list \<Rightarrow>
   'q InstanceType list \<times> 'q InstanceTypeFilterError \<Rightarrow> ('q InstanceType list \<times> 'q InstanceTypeFilterError) option" where
  "filter_types NE eligible rs requests [] s = Some s"
| "filter_types NE eligible rs requests (it # its) s =
     (if it \<notin> set eligible then filter_types NE eligible rs requests its s
      else
        (case fits_type NE it requests rs of
           None \<Rightarrow> None
         | Some (itFits, itHasOffering) \<Rightarrow>
             (let itCompat = compatible_type (neLabels NE) it rs in
              filter_types NE eligible rs requests its
                (if itCompat \<and> itFits \<and> itHasOffering then fst s @ [it] else fst s,
                 note_type itCompat itFits itHasOffering (snd s)))))"

fun filter_groups ::
  "'q::linordered_ab_group_add nodeclaim_env \<Rightarrow> 'q InstanceType list \<Rightarrow> requirements \<Rightarrow> Pod \<Rightarrow> 'q ResourceList \<Rightarrow>
   'q DaemonOverheadGroup list \<Rightarrow> 'q InstanceType list \<times> 'q InstanceTypeFilterError \<Rightarrow>
   ('q InstanceType list \<times> 'q InstanceTypeFilterError) option" where
  "filter_groups NE eligible rs pod requests [] s = Some s"
| "filter_groups NE eligible rs pod requests (g # gs) s =
     (if Conflicts (dgHostPortUsage g) pod (GetHostPorts pod) \<noteq> None then filter_groups NE eligible rs pod requests gs s
      else
        (let loaded = dgDaemonOverhead g \<noteq> [];
             needed = (if loaded then MergeInto (Some (MergeInto None requests)) (dgDaemonOverhead g) else requests);
             s = (if loaded then (fst s, trackDaemonOverhead (dgDaemonOverhead g) (snd s)) else s)
         in case filter_types NE eligible rs needed (dgInstanceTypes g) s of
              None \<Rightarrow> None
            | Some s \<Rightarrow> filter_groups NE eligible rs pod requests gs s))"

definition no_type_yet :: "requirements \<Rightarrow> 'q ResourceList \<Rightarrow> 'q InstanceTypeFilterError" where
  "no_type_yet rs podRequests =
     \<lparr>feRequirementsMet = False, feFits = False, feHasOffering = False, feRequirementsAndFits = False,
      feRequirementsAndOffering = False, feFitsAndOffering = False, feMinValuesIncompatible = [],
      feRequirements = rs, fePodRequests = podRequests, feMinDaemonRequests = [], feMaxDaemonRequests = []\<rparr>"

text \<open>The instance types left, the keys whose minimum cannot be met, and the error; None is a panic.\<close>

definition filterInstanceTypesByRequirements ::
  "'q::linordered_ab_group_add nodeclaim_env \<Rightarrow> 'q InstanceType list \<Rightarrow> requirements \<Rightarrow> Pod \<Rightarrow> 'q ResourceList \<Rightarrow>
   'q DaemonOverheadGroup list \<Rightarrow> 'q ResourceList \<Rightarrow> bool \<Rightarrow>
   ('q InstanceType list \<times> (string, int) gomap \<times> 'q InstanceTypeFilterError option) option" where
  "filterInstanceTypesByRequirements NE instanceTypes rs pod podRequests groups totalRequests relaxMinValues =
     (case filter_groups NE instanceTypes rs pod totalRequests groups ([], no_type_yet rs podRequests) of
        None \<Rightarrow> None
      | Some (remaining, err) \<Rightarrow>
          (let unsatisfiable = (if HasMinValues rs then snd (SatisfiesMinValues (neLabels NE) remaining rs) else []);
               failed = (unsatisfiable \<noteq> []);
               remaining = (if failed \<and> \<not> relaxMinValues then [] else remaining);
               err = err\<lparr>feMinValuesIncompatible := (if failed \<and> \<not> relaxMinValues then unsatisfiable else [])\<rparr>
           in Some (if remaining = [] then ([], unsatisfiable, Some err) else (remaining, unsatisfiable, None))))"

section \<open>Messages\<close>

text \<open>The renderings of resource lists and requirements belong to other packages: they are arguments.\<close>

fun list_names :: "nat \<Rightarrow> 'q InstanceType list \<Rightarrow> string" where
  "list_names i [] = []"
| "list_names i (it # its) =
     (if i > 4 then '' and '' @ FormatInt (int (length (it # its))) @ '' other(s)''
      else (if i > 0 then '', '' else []) @ itName it @ list_names (Suc i) its)"

definition InstanceTypeList :: "'q InstanceType list \<Rightarrow> string" where
  "InstanceTypeList its = list_names 0 its"

definition resourcesString ::
  "('q::linordered_ab_group_add ResourceList \<Rightarrow> string) \<Rightarrow> 'q InstanceTypeFilterError \<Rightarrow> string" where
  "resourcesString showRes e =
     (if feMinDaemonRequests e = [] then showRes (fePodRequests e)
      else
        (let minStr = showRes (Merge [feMinDaemonRequests e, fePodRequests e]);
             maxStr = showRes (Merge [feMaxDaemonRequests e, fePodRequests e])
         in if minStr = maxStr then minStr else ''min='' @ minStr @ '', max='' @ maxStr))"

text \<open>The sentence of a failure, and the remark on a CPU request of a million or more.\<close>

definition filter_failure :: "'q InstanceTypeFilterError \<Rightarrow> string" where
  "filter_failure e =
     (let r = feRequirementsMet e; f = feFits e; h = feHasOffering e in
      if \<not> r \<and> \<not> f \<and> \<not> h
      then ''no instance type met the scheduling requirements or had enough resources or had a required offering''
      else if \<not> r \<and> \<not> f then ''no instance type met the scheduling requirements or had enough resources''
      else if \<not> r \<and> \<not> h then ''no instance type met the scheduling requirements or had a required offering''
      else if \<not> f \<and> \<not> h then ''no instance type had enough resources or had a required offering''
      else if \<not> r then ''no instance type met all requirements''
      else if \<not> f then ''no instance type has enough resources''
      else if \<not> h then ''no instance type has the required offering''
      else if feRequirementsAndFits e
      then ''no instance type which met the scheduling requirements and had enough resources, had a required offering''
      else if feFitsAndOffering e
      then ''no instance type which had enough resources and the required offering met the scheduling requirements''
      else if feRequirementsAndOffering e
      then ''no instance type which met the scheduling requirements and the required offering had the required resources''
      else ''no instance type met the requirements/resources/offering tuple'')"

definition InstanceTypeFilterError_Error ::
  "('q::linordered_ab_group_add ResourceList \<Rightarrow> string) \<Rightarrow> (requirements \<Rightarrow> string) \<Rightarrow> ((string, int) gomap \<Rightarrow> string) \<Rightarrow> 'q \<Rightarrow>
   'q InstanceTypeFilterError \<Rightarrow> string" where
  "InstanceTypeFilterError_Error showRes showReqs showMin million e =
     (let strict = (feMinValuesIncompatible e \<noteq> []);
          cause = (if strict then showMin (feMinValuesIncompatible e) else filter_failure e)
      in cause @ '', requirements='' @ showReqs (feRequirements e) @ '', resources='' @ resourcesString showRes e @
         (if \<not> strict \<and> feRequirementsMet e \<and> \<not> feFits e \<and> feHasOffering e \<and> million \<le> qty (fePodRequests e) ''cpu''
          then '' (CPU request >= 1 Million, m vs M typo?)'' else []))"

section \<open>Adding a pod\<close>

text \<open>The minimum of the relaxed keys is lowered in the requirements that have the key.\<close>

definition relax_min_values :: "(string, int) gomap \<Rightarrow> requirements \<Rightarrow> requirements" where
  "relax_min_values keys rs =
     foldl (\<lambda>acc (key, mv). case map_of acc key of None \<Rightarrow> acc | Some r \<Rightarrow> mput key (r\<lparr>MinValues := Some mv\<rparr>) acc) rs keys"

text \<open>Whether a reserved offering is compatible, and those that can be reserved.\<close>

fun reservable ::
  "'q nodeclaim_env \<Rightarrow> ReservationManager \<Rightarrow> string \<Rightarrow> requirements \<Rightarrow> 'q Offering list \<Rightarrow> bool \<times> 'q Offering list \<Rightarrow>
   (bool \<times> 'q Offering list) option" where
  "reservable NE rm hostname rs [] s = Some s"
| "reservable NE rm hostname rs (o1 # ofs) s =
     (case CapacityType (neLabels NE) (nePick NE) (neIntn NE) o1 of
        None \<Rightarrow> None
      | Some ct \<Rightarrow>
          if ct \<noteq> CapacityTypeReserved \<or> \<not> ofAvailable o1 then reservable NE rm hostname rs ofs s
          else if \<not> offering_compatible (neLabels NE) rs o1 then reservable NE rm hostname rs ofs s
          else
            (case CanReserve (neReservationID NE) rm hostname o1 of
               None \<Rightarrow> None
             | Some can \<Rightarrow> reservable NE rm hostname rs ofs (True, if can then snd s @ [o1] else snd s)))"

definition offeringsToReserve ::
  "'q nodeclaim_env \<Rightarrow> ReservationManager \<Rightarrow> 'q InFlight \<Rightarrow> 'q InstanceType list \<Rightarrow> requirements \<Rightarrow>
   ('q sched_error, 'q Offering list) result" where
  "offeringsToReserve NE rm n instanceTypes rs =
     (if \<not> neReservedCapacity NE then Ok []
      else
        (case reservable NE rm (ifHostname n) rs (concat (map itOfferings instanceTypes)) (False, []) of
           None \<Rightarrow> Panic
         | Some (hasCompatibleOffering, ofs) \<Rightarrow>
             if ifReservedOfferingMode n = ReservedOfferingModeStrict \<and> hasCompatibleOffering \<and> ofs = []
             then Err (ReservedOfferingError True)
             else if ifReservedOfferingMode n = ReservedOfferingModeStrict \<and> ifReservedOfferings n \<noteq> [] \<and> ofs = []
             then Err (ReservedOfferingError False)
             else Ok ofs))"

definition incompatibleIgnoringLimits ::
  "'q::linordered_ab_group_add nodeclaim_env \<Rightarrow> 'q NodeClaimTemplate \<Rightarrow> Topology \<Rightarrow> 'q DaemonOverheadGroup list \<Rightarrow>
   'q InstanceType list \<Rightarrow> Pod \<Rightarrow> 'q PodData \<Rightarrow> bool \<Rightarrow> 'q sched_error option option" where
  "incompatibleIgnoringLimits NE nct t groups instanceTypes pod pd relaxMinValues =
     (let E = neLabels NE;
          untolerated = ToleratesPod (teTolerates (neTopology NE)) (specTaints (nctSpec nct)) pod;
          rs = NewRequirements E (Requirements_Values (nctRequirements nct));
          errs = Requirements_Compatible E (neAllow NE) rs (pdRequirements pd)
      in if untolerated \<noteq> [] then Some (Some (UntoleratedTaints untolerated))
         else if errs \<noteq> [] then Some (Some (IncompatibleRequirements errs))
         else if pdVolumeRequirements pd \<noteq> [] \<or> pdHasResourceClaimRequests pd \<or> Constrains t pod then Some None
         else
           map_option (\<lambda>(_, _, e). map_option FilterError e)
             (filterInstanceTypesByRequirements NE instanceTypes
                (Requirements_Add E rs (Requirements_Values (pdRequirements pd))) pod (pdRequests pd) groups (pdRequests pd)
                relaxMinValues))"

definition instanceTypeFilterFailureIsInvariant ::
  "'q::linordered_ab_group_add nodeclaim_env \<Rightarrow> Topology \<Rightarrow> 'q InFlight \<Rightarrow> Pod \<Rightarrow> 'q PodData \<Rightarrow> bool \<Rightarrow> bool option" where
  "instanceTypeFilterFailureIsInvariant NE t n pod pd relaxMinValues =
     (if pdVolumeRequirements pd \<noteq> [] \<or> pdHasResourceClaimRequests pd \<or> Constrains t pod then Some False
      else
        (case ifInstanceTypesBeforeLimits n of
           None \<Rightarrow> Some True
         | Some its \<Rightarrow>
             map_option (\<lambda>e. e \<noteq> None)
               (incompatibleIgnoringLimits NE (ifTemplate n) t (ifDaemonOverheadGroups n) its pod pd relaxMinValues)))"

type_synonym 'q placement = "requirements \<times> 'q InstanceType list \<times> 'q Offering list"

definition tryVolumeAlternative ::
  "'q::linordered_ab_group_add nodeclaim_env \<Rightarrow> Topology \<Rightarrow> ReservationManager \<Rightarrow> 'q InFlight \<Rightarrow> Pod \<Rightarrow> 'q PodData \<Rightarrow>
   requirements \<Rightarrow> requirements option \<Rightarrow> bool \<Rightarrow> ('q sched_error, 'q placement) result" where
  "tryVolumeAlternative NE t rm n pod pd base volReqs relaxMinValues =
     (let E = neLabels NE; allow = neAllow NE; taints = specTaints (nctSpec (ifTemplate n));
          rs = NewRequirements E (Requirements_Values base)
      in rbind
           (case volReqs of
              None \<Rightarrow> Ok rs
            | Some v \<Rightarrow>
                (let errs = Requirements_Compatible E allow rs v in
                 if errs \<noteq> [] then Err (IncompatibleVolumes errs) else Ok (Requirements_Add E rs (Requirements_Values v))))
           (\<lambda>rs.
              case AddRequirements (neTopology NE) allow t pod taints (pdStrictRequirements pd) rs of
                Panic \<Rightarrow> Panic
              | Err tg \<Rightarrow> Err (UnsatisfiableTopology tg)
              | Ok topologyRequirements \<Rightarrow>
                  (let errs = Requirements_Compatible E allow rs topologyRequirements in
                   if errs \<noteq> [] then Err (IncompatibleTopology errs)
                   else
                     (let rs = Requirements_Add E rs (Requirements_Values topologyRequirements);
                          requests = Merge [specRequests (nctSpec (ifTemplate n)), pdRequests pd]
                      in case filterInstanceTypesByRequirements NE (nctInstanceTypeOptions (ifTemplate n)) rs pod (pdRequests pd)
                                (ifDaemonOverheadGroups n) requests relaxMinValues of
                           None \<Rightarrow> Panic
                         | Some (remaining, unsatisfiable, err) \<Rightarrow>
                             (let rs = (if relaxMinValues then relax_min_values unsatisfiable rs else rs) in
                              case err of
                                Some e \<Rightarrow>
                                  (case instanceTypeFilterFailureIsInvariant NE t n pod pd relaxMinValues of
                                     None \<Rightarrow> Panic
                                   | Some invariant \<Rightarrow>
                                       (let e = FilterError (e\<lparr>feRequirements := rs\<rparr>) in
                                        Err (if invariant then NodePoolIncompatibleError e else e)))
                              | None \<Rightarrow>
                                  rbind (offeringsToReserve NE rm n remaining rs) (\<lambda>ofs. Ok (rs, remaining, ofs)))))))"

text \<open>The first volume alternative that works; otherwise the last error.\<close>

fun try_alternatives ::
  "(requirements option \<Rightarrow> ('q sched_error, 'q placement) result) \<Rightarrow> requirements option list \<Rightarrow> 'q sched_error \<Rightarrow> bool \<Rightarrow>
   ('q sched_error, 'q placement) result" where
  "try_alternatives f [] lastErr allIncompatible =
     Err (case lastErr of
            NodePoolIncompatibleError e \<Rightarrow> if \<not> allIncompatible then e else lastErr
          | _ \<Rightarrow> lastErr)"
| "try_alternatives f (v # vs) lastErr allIncompatible =
     (case f v of
        Ok p \<Rightarrow> Ok p
      | Panic \<Rightarrow> Panic
      | Err e \<Rightarrow> try_alternatives f vs e (allIncompatible \<and> IsNodePoolIncompatibleError e))"

definition volume_alternatives :: "'q PodData \<Rightarrow> requirements option list" where
  "volume_alternatives pd = (if pdVolumeRequirements pd = [] then [None] else map Some (pdVolumeRequirements pd))"

definition NodeClaim_CanAdd ::
  "'q::linordered_ab_group_add nodeclaim_env \<Rightarrow> Topology \<Rightarrow> ReservationManager \<Rightarrow> 'q InFlight \<Rightarrow> Pod \<Rightarrow> 'q PodData \<Rightarrow> bool \<Rightarrow>
   ('q sched_error, 'q placement) result" where
  "NodeClaim_CanAdd NE t rm n pod pd relaxMinValues =
     (let E = neLabels NE;
          untolerated = ToleratesPod (teTolerates (neTopology NE)) (specTaints (nctSpec (ifTemplate n))) pod;
          base = NewRequirements E (Requirements_Values (nctRequirements (ifTemplate n)));
          errs = Requirements_Compatible E (neAllow NE) base (pdRequirements pd)
      in if untolerated \<noteq> [] then Err (NodePoolIncompatibleError (UntoleratedTaints untolerated))
         else if errs \<noteq> [] then Err (NodePoolIncompatibleError (IncompatibleRequirements errs))
         else
           try_alternatives
             (\<lambda>v. tryVolumeAlternative NE t rm n pod pd (Requirements_Add E base (Requirements_Values (pdRequirements pd))) v
                    relaxMinValues)
             (volume_alternatives pd) (OtherSchedError []) True)"

definition releaseReservedOfferings ::
  "('q Offering \<Rightarrow> string) \<Rightarrow> string \<Rightarrow> 'q Offering list \<Rightarrow> 'q Offering list \<Rightarrow> ReservationManager \<Rightarrow> ReservationManager" where
  "releaseReservedOfferings rid hostname current updated rm =
     Release rid hostname (filter (\<lambda>o1. rid o1 \<notin> rid ` set updated) current) rm"

text \<open>None is the panic of a reservation beyond the capacity.\<close>

definition NodeClaim_Add ::
  "'q::linordered_ab_group_add nodeclaim_env \<Rightarrow> Pod \<Rightarrow> 'q PodData \<Rightarrow> 'q placement \<Rightarrow>
   'q InFlight \<times> Topology \<times> ReservationManager \<Rightarrow> ('q InFlight \<times> Topology \<times> ReservationManager) option" where
  "NodeClaim_Add NE pod pd p s =
     (case p of (rs, instanceTypes, offerings) \<Rightarrow>
      case s of (n, t, rm) \<Rightarrow>
        (let nct = ifTemplate n; taints = specTaints (nctSpec nct);
             t = Topology_Record (neTopology NE) (neAllow NE) (Topology_Register t LabelHostname (ifHostname n)) pod taints rs
         in case Reserve (neReservationID NE) (ifHostname n) offerings rm of
              None \<Rightarrow> None
            | Some rm \<Rightarrow>
                Some (n\<lparr>ifPods := ifPods n @ [pod],
                        ifTemplate := nct\<lparr>nctInstanceTypeOptions := instanceTypes, nctRequirements := rs,
                          nctSpec := (nctSpec nct)\<lparr>specRequests := Merge [specRequests (nctSpec nct), pdRequests pd]\<rparr>\<rparr>,
                        ifDaemonOverheadGroups := map (\<lambda>g. g\<lparr>dgHostPortUsage :=
                            HostPortUsage_Add (dgHostPortUsage g) pod (GetHostPorts pod)\<rparr>) (ifDaemonOverheadGroups n),
                        ifReservedOfferings := offerings\<rparr>,
                      t, releaseReservedOfferings (neReservationID NE) (ifHostname n) (ifReservedOfferings n) offerings rm)))"

section \<open>Finishing\<close>

definition min_daemon_overhead :: "'q::linordered_ab_group_add InstanceType list \<Rightarrow> 'q DaemonOverheadGroup list \<Rightarrow> 'q ResourceList" where
  "min_daemon_overhead remaining groups =
     foldl (\<lambda>mn g. if mn = [] then dgDaemonOverhead g else MinResources [mn, dgDaemonOverhead g]) []
       (filter (\<lambda>g. list_ex (\<lambda>it. it \<in> set remaining) (dgInstanceTypes g)) groups)"

definition addDaemonRequests :: "'q::linordered_ab_group_add InFlight \<Rightarrow> 'q InFlight" where
  "addDaemonRequests n =
     (let nct = ifTemplate n; mn = min_daemon_overhead (nctInstanceTypeOptions nct) (ifDaemonOverheadGroups n) in
      if mn = [] then n
      else n\<lparr>ifTemplate := nct\<lparr>nctSpec := (nctSpec nct)\<lparr>specRequests := Merge [specRequests (nctSpec nct), mn]\<rparr>\<rparr>\<rparr>)"

definition DRADriversAnnotationKey :: string where "DRADriversAnnotationKey = Group @ ''/requested-dra-drivers''"

definition FinalizeScheduling ::
  "'q::linordered_ab_group_add nodeclaim_env \<Rightarrow> string list \<Rightarrow> 'q InFlight \<Rightarrow> 'q InFlight option" where
  "FinalizeScheduling NE drivers n =
     (let E = neLabels NE; nct = ifTemplate n;
          rs = mdel LabelHostname (nctRequirements nct);
          annotations = (if drivers \<noteq> []
                         then lo_Assign (nctAnnotations nct) [(DRADriversAnnotationKey, strings_Join (CHR '','') (sort drivers))]
                         else nctAnnotations nct)
      in Option.bind
           (if ifReservedOfferings n \<noteq> []
            then
              Option.bind (NewRequirement E CapacityTypeLabelKey OpIn [CapacityTypeReserved]) (\<lambda>ct.
                Option.bind (NewRequirement E (neReservationIDLabel NE) OpIn (map (neReservationID NE) (ifReservedOfferings n))) (\<lambda>res.
                  Some (Requirements_Add E (mput CapacityTypeLabelKey ct rs) [res])))
            else Some rs)
           (\<lambda>rs. Some (addDaemonRequests (n\<lparr>ifTemplate := nct\<lparr>nctRequirements := rs, nctAnnotations := annotations\<rparr>\<rparr>))))"

text \<open>The instance types are cut also where the minimum values are then violated.\<close>

definition RemoveInstanceTypeOptionsByPriceAndMinValues ::
  "'q nodeclaim_env \<Rightarrow> 'q Offering extremum \<Rightarrow> requirements \<Rightarrow> rat \<Rightarrow> 'q InFlight \<Rightarrow> 'q InFlight \<times> (string, int) gomap" where
  "RemoveInstanceTypeOptionsByPriceAndMinValues NE maxBy rs maxPrice n =
     (let E = neLabels NE; nct = ifTemplate n;
          its = filter (\<lambda>it. WorstLaunchPrice E maxBy (Available (itOfferings it)) rs < maxPrice) (nctInstanceTypeOptions nct)
      in (n\<lparr>ifTemplate := nct\<lparr>nctInstanceTypeOptions := its\<rparr>\<rparr>, snd (SatisfiesMinValues E its rs)))"

end
