(* ===== verification/NodeClaimLaws.thy ===== *)
theory NodeClaimLaws
  imports NodeClaims TopologyLaws
begin

text \<open>
  What the NodeClaims of a scheduling run keep while pods are added to them: the instance types that
  remain can host all pods of the NodeClaim together with the daemons, and every pod tolerates its taints.
\<close>

section \<open>The filter of instance types\<close>

lemma Fits_upper:
  assumes "wf_map c" "Fits c t"
  shows "qty c k \<le> qty t k"
proof -
  have t: "0 \<le> qty t k"
    using assms(2)
    by (cases "map_of t k") (auto simp: Fits_def mget_def list_ex_iff not_less split: if_splits dest!: map_of_SomeD)
  show ?thesis
  proof (cases "map_of c k")
    case None
    with t show ?thesis by (simp add: mget_def)
  next
    case (Some v)
    then have "(k, v) \<in> set c" by (rule map_of_SomeD)
    then have "v \<le> qty t k" using assms(2) by (auto simp: Fits_def list_ex_iff not_less split: if_splits)
    with Some show ?thesis by (simp add: mget_def)
  qed
qed

text \<open>An offering compatible with the requirements, on resources that hold the requests.\<close>

definition can_host ::
  "'q::linordered_ab_group_add nodeclaim_env \<Rightarrow> requirements \<Rightarrow> 'q ResourceList \<Rightarrow> 'q InstanceType \<Rightarrow> bool" where
  "can_host NE rs requests it \<longleftrightarrow>
     compatible_type (neLabels NE) it rs \<and>
     (case precompute (neShowC NE) (neShowO NE) it of
        None \<Rightarrow> False
      | Some gs \<Rightarrow> list_ex (\<lambda>g. list_ex (offering_compatible (neLabels NE) rs) (aoOfferings g) \<and> Fits requests (aoAllocatable g)) gs)"

definition group_need :: "'q::linordered_ab_group_add DaemonOverheadGroup \<Rightarrow> 'q ResourceList \<Rightarrow> 'q ResourceList" where
  "group_need g requests =
     (if dgDaemonOverhead g \<noteq> [] then MergeInto (Some (MergeInto None requests)) (dgDaemonOverhead g) else requests)"

lemma fits_loop_True:
  "fst (fits_loop E requests rs gs h) \<longleftrightarrow>
     list_ex (\<lambda>g. list_ex (offering_compatible E rs) (aoOfferings g) \<and> Fits requests (aoAllocatable g)) gs"
  by (induction gs arbitrary: h) auto

lemma fits_loop_offering: "fst (fits_loop E requests rs gs h) \<Longrightarrow> snd (fits_loop E requests rs gs h)"
  by (induction gs arbitrary: h) (auto split: if_splits)

lemma fits_type_can_host:
  assumes "fits_type NE it requests rs = Some (f, h)"
  shows "compatible_type (neLabels NE) it rs \<and> f \<and> h \<longleftrightarrow> can_host NE rs requests it"
proof -
  obtain gs where gs: "precompute (neShowC NE) (neShowO NE) it = Some gs"
    and fh: "fits_loop (neLabels NE) requests rs gs False = (f, h)"
    using assms by (auto simp: fits_type_def)
  show ?thesis
    using fits_loop_True[of "neLabels NE" requests rs gs False] fits_loop_offering[of "neLabels NE" requests rs gs False]
    by (auto simp: can_host_def gs fh)
qed

lemma filter_types_exact:
  "filter_types NE eligible rs requests its s = Some s' \<Longrightarrow>
   fst s' = fst s @ filter (\<lambda>it. it \<in> set eligible \<and> can_host NE rs requests it) its"
proof (induction NE eligible rs requests its s rule: filter_types.induct)
  case (2 NE eligible rs requests it its s)
  show ?case
  proof (cases "it \<in> set eligible")
    case True
    with 2(3) obtain f h where fh: "fits_type NE it requests rs = Some (f, h)" by (auto split: option.splits)
    show ?thesis
      using 2(2)[OF _ fh refl refl] 2(3) True fits_type_can_host[OF fh] by (auto simp: fh Let_def split: if_splits)
  qed (use 2 in auto)
qed simp

lemma filter_groups_exact:
  "filter_groups NE eligible rs pod requests gs s = Some s' \<Longrightarrow>
   fst s' = fst s @ concat (map (\<lambda>g. filter (\<lambda>it. it \<in> set eligible \<and> can_host NE rs (group_need g requests) it) (dgInstanceTypes g))
     (filter (\<lambda>g. Conflicts (dgHostPortUsage g) pod (GetHostPorts pod) = None) gs))"
proof (induction gs arbitrary: s)
  case (Cons g gs)
  show ?case
  proof (cases "Conflicts (dgHostPortUsage g) pod (GetHostPorts pod) = None")
    case True
    define s1 where "s1 = (if dgDaemonOverhead g \<noteq> [] then (fst s, trackDaemonOverhead (dgDaemonOverhead g) (snd s)) else s)"
    have s1: "fst s1 = fst s" by (simp add: s1_def)
    from Cons.prems True obtain s2 where
      s2: "filter_types NE eligible rs (group_need g requests) (dgInstanceTypes g) s1 = Some s2"
      and rest: "filter_groups NE eligible rs pod requests gs s2 = Some s'"
      by (auto simp: Let_def s1_def group_need_def split: option.splits)
    show ?thesis using Cons.IH[OF rest] filter_types_exact[OF s2] True by (simp add: s1)
  next
    case False
    with Cons show ?thesis by auto
  qed
qed simp

lemma filterInstanceTypes_sound:
  assumes "filterInstanceTypesByRequirements NE its rs pod preq groups requests relax = Some (remaining, keys, None)"
    and "it \<in> set remaining"
  shows "it \<in> set its \<and> (\<exists>g \<in> set groups. it \<in> set (dgInstanceTypes g) \<and>
     Conflicts (dgHostPortUsage g) pod (GetHostPorts pod) = None \<and> can_host NE rs (group_need g requests) it)"
proof -
  obtain r e where re: "filter_groups NE its rs pod requests groups ([], no_type_yet rs preq) = Some (r, e)"
    and "remaining = r"
    using assms by (auto simp: filterInstanceTypesByRequirements_def Let_def split: option.splits if_splits)
  with filter_groups_exact[OF re] assms(2) show ?thesis by auto
qed

section \<open>A NodeClaim that is filled\<close>

text \<open>
  One pod joins a NodeClaim, with any topology and reservations the rest of the run may have left, and
  with any data of the pod that has its requests: the requirements may have been relaxed before.
\<close>

inductive joins ::
  "'q::linordered_ab_group_add nodeclaim_env \<Rightarrow> (Pod \<Rightarrow> 'q ResourceList) \<Rightarrow> 'q InFlight \<Rightarrow> 'q InFlight \<Rightarrow> bool"
  for NE req where
  join: "NodeClaim_CanAdd NE t rm n pod pd relax = Ok p \<Longrightarrow> pdRequests pd = req pod \<Longrightarrow>
         NodeClaim_Add NE pod pd p (n, t, rm) = Some (n', t', rm') \<Longrightarrow> joins NE req n n'"

lemma try_alternatives_Ok: "try_alternatives f vs e b = Ok p \<Longrightarrow> \<exists>v \<in> set vs. f v = Ok p"
  by (induction vs arbitrary: e b) (auto split: result.splits)

lemma rbind_Ok: "rbind r f = Ok y \<longleftrightarrow> (\<exists>x. r = Ok x \<and> f x = Ok y)"
  by (cases r) auto

lemma tryVolumeAlternative_steps:
  assumes "tryVolumeAlternative NE t rm n pod pd base v relax = Ok (rs, remaining, ofs)"
  obtains x tr keys where
    "AddRequirements (neTopology NE) (neAllow NE) t pod (specTaints (nctSpec (ifTemplate n))) (pdStrictRequirements pd) x = Ok tr"
    "Requirements_Compatible (neLabels NE) (neAllow NE) x tr = []"
    "filterInstanceTypesByRequirements NE (nctInstanceTypeOptions (ifTemplate n)) (Requirements_Add (neLabels NE) x (Requirements_Values tr))
       pod (pdRequests pd) (ifDaemonOverheadGroups n) (Merge [specRequests (nctSpec (ifTemplate n)), pdRequests pd]) relax
       = Some (remaining, keys, None)"
    "rs = (let q = Requirements_Add (neLabels NE) x (Requirements_Values tr) in if relax then relax_min_values keys q else q)"
    "offeringsToReserve NE rm n remaining rs = Ok ofs"
proof -
  let ?add = "AddRequirements (neTopology NE) (neAllow NE) t pod (specTaints (nctSpec (ifTemplate n))) (pdStrictRequirements pd)"
  let ?filter = "\<lambda>q. filterInstanceTypesByRequirements NE (nctInstanceTypeOptions (ifTemplate n)) q
       pod (pdRequests pd) (ifDaemonOverheadGroups n) (Merge [specRequests (nctSpec (ifTemplate n)), pdRequests pd]) relax"
  note run = assms[unfolded tryVolumeAlternative_def Let_def rbind_Ok]
  from run obtain x where x: "(case ?add x of Panic \<Rightarrow> Panic | Err tg \<Rightarrow> Err (UnsatisfiableTopology tg) | Ok tr \<Rightarrow>
       if Requirements_Compatible (neLabels NE) (neAllow NE) x tr \<noteq> [] then
         Err (IncompatibleTopology (Requirements_Compatible (neLabels NE) (neAllow NE) x tr))
       else case ?filter (Requirements_Add (neLabels NE) x (Requirements_Values tr)) of
         None \<Rightarrow> Panic
       | Some (remaining, keys, err) \<Rightarrow>
           (let q = Requirements_Add (neLabels NE) x (Requirements_Values tr); q = if relax then relax_min_values keys q else q in
            case err of
              Some e \<Rightarrow> (case instanceTypeFilterFailureIsInvariant NE t n pod pd relax of
                 None \<Rightarrow> Panic
               | Some invariant \<Rightarrow> Err (if invariant then NodePoolIncompatibleError (FilterError (e\<lparr>feRequirements := q\<rparr>))
                   else FilterError (e\<lparr>feRequirements := q\<rparr>)))
            | None \<Rightarrow> rbind (offeringsToReserve NE rm n remaining q) (\<lambda>ofs. Ok (q, remaining, ofs)))) = Ok (rs, remaining, ofs)"
    unfolding Let_def by blast
  from x obtain tr where tr: "?add x = Ok tr" by (cases "?add x") auto
  from x tr have c: "Requirements_Compatible (neLabels NE) (neAllow NE) x tr = []" by (auto split: if_splits)
  from x tr c obtain r keys err where f: "?filter (Requirements_Add (neLabels NE) x (Requirements_Values tr)) = Some (r, keys, err)"
    by (cases "?filter (Requirements_Add (neLabels NE) x (Requirements_Values tr))") auto
  from x tr c f have err: "err = None" by (cases err) (auto simp: Let_def split: option.splits)
  define q where "q = (if relax then relax_min_values keys (Requirements_Add (neLabels NE) x (Requirements_Values tr))
       else Requirements_Add (neLabels NE) x (Requirements_Values tr))"
  from x have "rbind (offeringsToReserve NE rm n r q) (\<lambda>ofs. Ok (q, r, ofs)) = Ok (rs, remaining, ofs)"
    by (simp add: tr c f err Let_def q_def)
  then have "offeringsToReserve NE rm n r q = Ok ofs" "q = rs" "r = remaining" by (auto simp: rbind_Ok)
  then show thesis using that[OF tr c, of keys] f err by (simp add: Let_def q_def)
qed

lemma CanAdd_Ok:
  assumes "NodeClaim_CanAdd NE t rm n pod pd relax = Ok (rs, remaining, ofs)"
  shows "ToleratesPod (teTolerates (neTopology NE)) (specTaints (nctSpec (ifTemplate n))) pod = []"
    and "\<exists>rs0 keys. filterInstanceTypesByRequirements NE (nctInstanceTypeOptions (ifTemplate n)) rs0 pod (pdRequests pd)
       (ifDaemonOverheadGroups n) (Merge [specRequests (nctSpec (ifTemplate n)), pdRequests pd]) relax = Some (remaining, keys, None) \<and>
     rs = (if relax then relax_min_values keys rs0 else rs0)"
proof -
  from assms obtain v where "ToleratesPod (teTolerates (neTopology NE)) (specTaints (nctSpec (ifTemplate n))) pod = []"
    and v: "tryVolumeAlternative NE t rm n pod pd (Requirements_Add (neLabels NE)
        (NewRequirements (neLabels NE) (Requirements_Values (nctRequirements (ifTemplate n)))) (Requirements_Values (pdRequirements pd)))
        v relax = Ok (rs, remaining, ofs)"
    by (auto simp: NodeClaim_CanAdd_def Let_def split: if_splits dest!: try_alternatives_Ok)
  then show "ToleratesPod (teTolerates (neTopology NE)) (specTaints (nctSpec (ifTemplate n))) pod = []" by simp
  show "\<exists>rs0 keys. filterInstanceTypesByRequirements NE (nctInstanceTypeOptions (ifTemplate n)) rs0 pod (pdRequests pd)
       (ifDaemonOverheadGroups n) (Merge [specRequests (nctSpec (ifTemplate n)), pdRequests pd]) relax = Some (remaining, keys, None) \<and>
     rs = (if relax then relax_min_values keys rs0 else rs0)"
    using v by (rule tryVolumeAlternative_steps) (unfold Let_def, blast)
qed

section \<open>Relaxed minimum values do not change what is compatible\<close>

definition same_but_min :: "requirements \<Rightarrow> requirements \<Rightarrow> bool" where
  "same_but_min rs qs \<longleftrightarrow> (\<forall>k. rel_option (\<lambda>a b. a\<lparr>MinValues := None\<rparr> = b\<lparr>MinValues := None\<rparr>) (map_of rs k) (map_of qs k))"

lemma same_but_min_refl [simp]: "same_but_min rs rs"
  by (simp add: same_but_min_def option.rel_refl)

lemma same_but_min_step:
  assumes "same_but_min rs qs" "map_of qs k = Some r"
  shows "same_but_min rs (mput k (r\<lparr>MinValues := m\<rparr>) qs)"
  unfolding same_but_min_def
proof
  fix j
  show "rel_option (\<lambda>a b. a\<lparr>MinValues := None\<rparr> = b\<lparr>MinValues := None\<rparr>) (map_of rs j) (map_of (mput k (r\<lparr>MinValues := m\<rparr>) qs) j)"
    using assms(1)[unfolded same_but_min_def, rule_format, of j] assms(2)
    by (cases "j = k") (auto simp: map_of_mput option_rel_Some2)
qed

lemma relax_same: "same_but_min rs (relax_min_values keys rs)"
proof -
  have "same_but_min rs qs \<Longrightarrow> same_but_min rs
     (foldl (\<lambda>acc (key, mv). case map_of acc key of None \<Rightarrow> acc | Some r \<Rightarrow> mput key (r\<lparr>MinValues := Some mv\<rparr>) acc) qs keys)" for qs
    by (induction keys arbitrary: qs) (auto simp: same_but_min_step split: option.splits)
  then show ?thesis by (simp add: relax_min_values_def)
qed

lemma same_requirement:
  assumes "a\<lparr>MinValues := None\<rparr> = b\<lparr>MinValues := None\<rparr>"
  shows "HasIntersection c a = HasIntersection c b" "HasIntersection a c = HasIntersection b c"
    "Requirement_Operator a = Requirement_Operator b"
proof -
  have "complement a = complement b" "rvalues a = rvalues b" "gte a = gte b" "lte a = lte b"
    using assms by (cases a; cases b; simp)+
  then show "HasIntersection c a = HasIntersection c b" "HasIntersection a c = HasIntersection b c"
    "Requirement_Operator a = Requirement_Operator b"
    by (simp_all add: HasIntersection_def Requirement_Operator_def Requirement_Len_def)
qed

lemma same_Get: "same_but_min rs qs \<Longrightarrow>
    (Requirements_Get E rs k)\<lparr>MinValues := None\<rparr> = (Requirements_Get E qs k)\<lparr>MinValues := None\<rparr>"
  unfolding same_but_min_def Requirements_Get_def
  by (drule spec[of _ k]) (auto split: option.splits)

lemma same_has: "same_but_min rs qs \<Longrightarrow> mhas rs k = mhas qs k"
  unfolding same_but_min_def by (drule spec[of _ k]) (cases "map_of rs k"; cases "map_of qs k"; simp)

lemma Intersects_empty:
  "Requirements_Intersects E r rs = [] \<longleftrightarrow>
     (\<forall>k. mhas r k \<and> mhas rs k \<longrightarrow> HasIntersection (Requirements_Get E r k) (Requirements_Get E rs k) \<or>
        (Requirement_Operator (Requirements_Get E rs k) \<in> {OpNotIn, OpDoesNotExist} \<and>
         Requirement_Operator (Requirements_Get E r k) \<in> {OpNotIn, OpDoesNotExist}))"
  unfolding Requirements_Intersects_def Let_def map_is_Nil_conv filter_empty_conv Ball_def intersectKeys_iff
  by (intro all_cong1 imp_cong refl) argo

lemma same_Intersects_right:
  assumes "same_but_min rs qs"
  shows "Requirements_Intersects E r rs = [] \<longleftrightarrow> Requirements_Intersects E r qs = []"
  unfolding Intersects_empty same_has[OF assms]
    same_requirement[OF same_Get[OF assms]] ..

lemma same_Intersects_left:
  assumes "same_but_min rs qs"
  shows "Requirements_Intersects E rs r = [] \<longleftrightarrow> Requirements_Intersects E qs r = []"
  unfolding Intersects_empty same_has[OF assms]
    same_requirement[OF same_Get[OF assms]] ..

lemma same_IsCompatible:
  assumes "same_but_min rs qs"
  shows "IsCompatible E allow rs r = IsCompatible E allow qs r"
proof -
  have "Requirements_Has rs k = Requirements_Has qs k" for k
    using same_has[OF assms, of k] by (simp add: Requirements_Has_def)
  then show ?thesis
    by (simp add: IsCompatible_def Requirements_Compatible_def same_Intersects_left[OF assms] split: option.split)
qed

lemma same_can_host: "same_but_min rs qs \<Longrightarrow> can_host NE rs requests it = can_host NE qs requests it"
  by (simp add: can_host_def compatible_type_def same_Intersects_right offering_compatible_def[abs_def] same_IsCompatible
      cong: option.case_cong)

section \<open>The invariant of a NodeClaim\<close>

definition claim_inv :: "'q::linordered_ab_group_add nodeclaim_env \<Rightarrow> (Pod \<Rightarrow> 'q ResourceList) \<Rightarrow> 'q InFlight \<Rightarrow> bool" where
  "claim_inv NE req n \<longleftrightarrow>
     (let nct = ifTemplate n; requests = specRequests (nctSpec nct) in
      (\<forall>g \<in> set (ifDaemonOverheadGroups n). wf_map (dgDaemonOverhead g)) \<and>
      wf_map requests \<and> (\<forall>k. qty requests k = (\<Sum>p\<leftarrow>ifPods n. qty (req p) k)) \<and>
      (\<forall>p \<in> set (ifPods n). ToleratesPod (teTolerates (neTopology NE)) (specTaints (nctSpec nct)) p = []) \<and>
      (ifPods n \<noteq> [] \<longrightarrow> (\<forall>it \<in> set (nctInstanceTypeOptions nct). \<exists>g \<in> set (ifDaemonOverheadGroups n).
         it \<in> set (dgInstanceTypes g) \<and> can_host NE (nctRequirements nct) (group_need g requests) it)))"

lemma NewNodeClaim_inv:
  "NewNodeClaim NE i nct groups its mode = Some n \<Longrightarrow> \<forall>g \<in> set groups. wf_map (dgDaemonOverhead g) \<Longrightarrow> claim_inv NE req n"
  by (auto simp: NewNodeClaim_def claim_inv_def Let_def mget_def split: option.splits)

lemma group_need_ports [simp]: "group_need (g\<lparr>dgHostPortUsage := u\<rparr>) requests = group_need g requests"
  by (simp add: group_need_def)

lemma joins_inv:
  assumes "joins NE req n n'" "claim_inv NE req n" "\<forall>p. wf_map (req p)"
  shows "claim_inv NE req n'"
  using assms(1)
proof cases
  case (join t rm pod pd relax p t' rm')
  obtain rs remaining ofs where p: "p = (rs, remaining, ofs)" by (cases p)
  let ?req = "Merge [specRequests (nctSpec (ifTemplate n)), pdRequests pd]"
  note can = CanAdd_Ok[OF join(1)[unfolded p]]
  have groups: "\<forall>g \<in> set (ifDaemonOverheadGroups n). wf_map (dgDaemonOverhead g)" using assms(2) by (simp add: claim_inv_def Let_def)
  have inv: "wf_map (specRequests (nctSpec (ifTemplate n)))"
    "\<And>k. qty (specRequests (nctSpec (ifTemplate n))) k = (\<Sum>p\<leftarrow>ifPods n. qty (req p) k)"
    "\<forall>p \<in> set (ifPods n). ToleratesPod (teTolerates (neTopology NE)) (specTaints (nctSpec (ifTemplate n))) p = []"
    using assms(2) by (auto simp: claim_inv_def Let_def)
  from can(2) obtain rs0 keys where f: "filterInstanceTypesByRequirements NE (nctInstanceTypeOptions (ifTemplate n)) rs0 pod
      (pdRequests pd) (ifDaemonOverheadGroups n) ?req relax = Some (remaining, keys, None)"
    and rs: "rs = (if relax then relax_min_values keys rs0 else rs0)" by blast
  have same: "same_but_min rs0 rs" by (simp add: rs relax_same)
  have room: "\<exists>g \<in> set (ifDaemonOverheadGroups n). it \<in> set (dgInstanceTypes g) \<and> can_host NE rs (group_need g ?req) it"
    if "it \<in> set remaining" for it
    using filterInstanceTypes_sound[OF f that] same_can_host[OF same] by blast
  have wf: "\<forall>l \<in> set [specRequests (nctSpec (ifTemplate n)), pdRequests pd]. wf_map l" using inv(1) assms(3) join(2) by simp
  have n': "ifPods n' = ifPods n @ [pod]" "specRequests (nctSpec (ifTemplate n')) = ?req" "nctRequirements (ifTemplate n') = rs"
    "specTaints (nctSpec (ifTemplate n')) = specTaints (nctSpec (ifTemplate n))" "nctInstanceTypeOptions (ifTemplate n') = remaining"
    "ifDaemonOverheadGroups n' = map (\<lambda>g. g\<lparr>dgHostPortUsage := HostPortUsage_Add (dgHostPortUsage g) pod (GetHostPorts pod)\<rparr>)
       (ifDaemonOverheadGroups n)"
    using join(3) by (auto simp: NodeClaim_Add_def p Let_def split: option.splits)
  show ?thesis
    unfolding claim_inv_def Let_def n' using wf_Merge[OF wf] qty_Merge[OF wf] inv(2,3) can(1) room join(2) groups by auto
qed

lemma filled_inv:
  assumes "(joins NE req)\<^sup>*\<^sup>* n n'" "claim_inv NE req n" "\<forall>p. wf_map (req p)"
  shows "claim_inv NE req n'"
  using assms(1) by (induction rule: rtranclp_induct) (use assms(2,3) in \<open>auto intro: joins_inv\<close>)

lemma group_need_qty:
  assumes "wf_map requests" "wf_map (dgDaemonOverhead g)"
  shows "qty (group_need g requests) k = qty requests k + qty (dgDaemonOverhead g) k" "wf_map (group_need g requests)"
proof -
  have none: "qty [] k = 0" by (simp add: mget_def)
  show "qty (group_need g requests) k = qty requests k + qty (dgDaemonOverhead g) k"
    using assms by (cases "dgDaemonOverhead g = []") (simp_all add: group_need_def MergeInto_def qty_add_list none)
  show "wf_map (group_need g requests)"
    using assms by (auto simp: group_need_def MergeInto_def intro!: wf_add_list)
qed

section \<open>Property\<close>

text \<open>
  C8. A NodeClaim never promises more than it can launch: however pods joined it, each pod tolerates
  its taints, and every instance type still listed belongs to a daemon group and has an available group
  of offerings, one of them compatible with the NodeClaim's requirements, whose allocatable resources
  hold the requests of all its pods together with the overhead of the daemons.
\<close>

theorem claim_can_launch:
  assumes "NewNodeClaim NE i nct groups its mode = Some n0" "(joins NE req)\<^sup>*\<^sup>* n0 n"
    and "\<forall>p. wf_map (req p)" "\<forall>g \<in> set groups. wf_map (dgDaemonOverhead g)"
    and "ifPods n \<noteq> []" "it \<in> set (nctInstanceTypeOptions (ifTemplate n))"
  shows "(\<forall>p \<in> set (ifPods n). ToleratesPod (teTolerates (neTopology NE)) (specTaints (nctSpec (ifTemplate n))) p = []) \<and>
    (\<exists>g \<in> set (ifDaemonOverheadGroups n). it \<in> set (dgInstanceTypes g) \<and>
       Requirements_Intersects (neLabels NE) (itRequirements it) (nctRequirements (ifTemplate n)) = [] \<and>
       (\<exists>gs ao. precompute (neShowC NE) (neShowO NE) it = Some gs \<and> ao \<in> set gs \<and>
          (\<exists>o1 \<in> set (aoOfferings ao). offering_compatible (neLabels NE) (nctRequirements (ifTemplate n)) o1) \<and>
          (\<forall>k. (\<Sum>p\<leftarrow>ifPods n. qty (req p) k) + qty (dgDaemonOverhead g) k \<le> qty (aoAllocatable ao) k)))"
proof -
  let ?req = "specRequests (nctSpec (ifTemplate n))"
  note inv = filled_inv[OF assms(2) NewNodeClaim_inv[OF assms(1,4)] assms(3), unfolded claim_inv_def Let_def]
  from inv assms(5,6) obtain g where g: "g \<in> set (ifDaemonOverheadGroups n)" "it \<in> set (dgInstanceTypes g)"
    and l: "can_host NE (nctRequirements (ifTemplate n)) (group_need g ?req) it" by blast
  have need: "wf_map (group_need g ?req)"
    "qty (group_need g ?req) k = (\<Sum>p\<leftarrow>ifPods n. qty (req p) k) + qty (dgDaemonOverhead g) k" for k
    using group_need_qty[of ?req g] inv g(1) by auto
  from l obtain gs ao where "precompute (neShowC NE) (neShowO NE) it = Some gs" "ao \<in> set gs"
    "\<exists>o1 \<in> set (aoOfferings ao). offering_compatible (neLabels NE) (nctRequirements (ifTemplate n)) o1"
    "Fits (group_need g ?req) (aoAllocatable ao)"
    by (auto simp: can_host_def list_ex_iff split: option.splits)
  moreover have "Requirements_Intersects (neLabels NE) (itRequirements it) (nctRequirements (ifTemplate n)) = []"
    using l by (simp add: can_host_def compatible_type_def)
  ultimately show ?thesis using inv g Fits_upper[OF need(1)] unfolding need(2) by blast
qed

text \<open>Two pods of one CPU each join a NodeClaim whose daemons take one more, on a type with four.\<close>

definition quad_type :: "int InstanceType" where
  "quad_type = small_type\<lparr>itName := ''quad'', itOfferings := [plain_offering 1], itCapacity := [(''cpu'', 4)]\<rparr>"

definition demo_claim_env :: "int nodeclaim_env" where
  "demo_claim_env = \<lparr>neTopology = small_env, nePick = (\<lambda>_. []), neIntn = (\<lambda>_. 0), neShowC = (\<lambda>_. []), neShowO = (\<lambda>_. []),
     neReservationID = (\<lambda>_. []), neReservationIDLabel = ''reservation-id'', neReservedCapacity = False\<rparr>"

definition cpu_request :: "Pod \<Rightarrow> int ResourceList" where "cpu_request p = [(''cpu'', 1)]"

definition one_cpu :: "Pod \<Rightarrow> int PodData" where
  "one_cpu p = \<lparr>pdRequests = cpu_request p, pdRequirements = [], pdStrictRequirements = [],
     pdHasResourceClaimRequests = False, pdVolumeRequirements = []\<rparr>"

definition demo_template :: "int NodeClaimTemplate" where
  "demo_template = \<lparr>nctLabels = [], nctAnnotations = [],
     nctSpec = \<lparr>specTaints = [], specStartupTaints = [], specRequirements = [], specRequests = [], specNodeClassRef = None,
       specTerminationGracePeriod = None, specExpireAfter = None\<rparr>,
     nctNodePoolName = ''p'', nctNodePoolUUID = ''u'', nctNodePoolWeight = 0, nctInstanceTypeOptions = [], nctRequirements = [],
     nctIsStaticNodeClaim = False, nctPackingPolicy = PackingPolicyBinpack\<rparr>"

definition demo_groups :: "int DaemonOverheadGroup list" where
  "demo_groups = [\<lparr>dgInstanceTypes = [quad_type], dgDaemonOverhead = [(''cpu'', 1)], dgHostPortUsage = \<lparr>reserved = []\<rparr>\<rparr>]"

definition quiet_topology :: Topology where
  "quiet_topology = spread_topology\<lparr>topologyGroups := []\<rparr>"

definition demo_join :: "Pod \<Rightarrow> int InFlight \<Rightarrow> int InFlight option" where
  "demo_join pod n =
     (case NodeClaim_CanAdd demo_claim_env quiet_topology \<lparr>reservations = [], capacity = []\<rparr> n pod (one_cpu pod) False of
        Ok p \<Rightarrow> map_option fst
          (NodeClaim_Add demo_claim_env pod (one_cpu pod) p (n, quiet_topology, \<lparr>reservations = [], capacity = []\<rparr>))
      | _ \<Rightarrow> None)"

lemma demo_join_joins: "demo_join pod n = Some n' \<Longrightarrow> joins demo_claim_env cpu_request n n'"
  by (auto simp: demo_join_def split: result.splits intro!: join) (simp add: one_cpu_def)

lemma demo_run:
  "case Option.bind (NewNodeClaim demo_claim_env 1 demo_template demo_groups [quad_type] ReservedOfferingModeFallback)
          (\<lambda>n. Option.bind (demo_join (bare_pod ''a'') n) (demo_join (bare_pod ''b''))) of
     None \<Rightarrow> False
   | Some n \<Rightarrow> map itName (nctInstanceTypeOptions (ifTemplate n)) = [''quad''] \<and> map podName (ifPods n) = [''a'', ''b''] \<and>
       map dgDaemonOverhead (ifDaemonOverheadGroups n) = [[(''cpu'', 1)]]"
  by code_simp

theorem claim_can_launch_witness:
  "\<exists>(n :: int InFlight) it (g :: int DaemonOverheadGroup) gs ao. map podName (ifPods n) = [''a'', ''b''] \<and> it \<in> set (nctInstanceTypeOptions (ifTemplate n)) \<and>
     g \<in> set (ifDaemonOverheadGroups n) \<and> precompute (neShowC demo_claim_env) (neShowO demo_claim_env) it = Some gs \<and> ao \<in> set gs \<and>
     (\<Sum>p\<leftarrow>ifPods n. qty (cpu_request p) ''cpu'') + qty (dgDaemonOverhead g) ''cpu'' \<le> qty (aoAllocatable ao) ''cpu''"
proof -
  obtain n0 n1 n where n: "NewNodeClaim demo_claim_env 1 demo_template demo_groups [quad_type] ReservedOfferingModeFallback = Some n0"
    "demo_join (bare_pod ''a'') n0 = Some n1" "demo_join (bare_pod ''b'') n1 = Some n"
    and res: "map itName (nctInstanceTypeOptions (ifTemplate n)) = [''quad'']" "map podName (ifPods n) = [''a'', ''b'']"
    "map dgDaemonOverhead (ifDaemonOverheadGroups n) = [[(''cpu'', 1)]]"
    using demo_run by (auto split: option.splits bind_splits)
  have reach: "(joins demo_claim_env cpu_request)\<^sup>*\<^sup>* n0 n"
    using n(2,3) by (meson demo_join_joins converse_rtranclp_into_rtranclp rtranclp.rtrancl_refl)
  have wf: "\<forall>p. wf_map (cpu_request p)" by (simp add: cpu_request_def)
  have wfg: "\<forall>g \<in> set demo_groups. wf_map (dgDaemonOverhead g)" by (simp add: demo_groups_def)
  have pods: "ifPods n \<noteq> []" using res(2) by auto
  obtain it where it: "it \<in> set (nctInstanceTypeOptions (ifTemplate n))" using res(1) by fastforce
  from claim_can_launch[OF n(1) reach wf wfg pods it, THEN conjunct2] obtain g gs ao where
    "g \<in> set (ifDaemonOverheadGroups n)" "precompute (neShowC demo_claim_env) (neShowO demo_claim_env) it = Some gs" "ao \<in> set gs"
    "(\<Sum>p\<leftarrow>ifPods n. qty (cpu_request p) ''cpu'') + qty (dgDaemonOverhead g) ''cpu'' \<le> qty (aoAllocatable ao) ''cpu''"
    by blast
  then show ?thesis using it res(2) by (intro exI[of _ n] exI[of _ it] exI[of _ g] exI[of _ gs] exI[of _ ao]) simp
qed

end
