(* ===== verification/ExistingNodes.thy ===== *)
theory ExistingNodes
  imports NodeClaimLaws StateNodes
begin

text \<open>
  Nodes of the cluster in a scheduling run (\<^verbatim>\<open>pkg/controllers/provisioning/scheduling/existingnode.go\<close>):
  what is left of a node after its pods and the daemons still to come, the test whether a pod can be
  added, and adding it. The instance type of a node serves dynamic resources only and is left out.
\<close>

section \<open>Model\<close>

record 'q ExistingNode =
  exStateNode :: "'q StateNode"
  exTaints :: "Taint list"
  exPods :: "Pod list"
  exRemaining :: "'q ResourceList"
  exRequirements :: requirements
  exUnderConsolidateAfter :: bool

definition clamp_zero :: "'q::linordered_ab_group_add ResourceList \<Rightarrow> 'q ResourceList" where
  "clamp_zero l = map (\<lambda>(k, v). (k, if v < 0 then 0 else v)) l"

definition existingNodeResources ::
  "'q::linordered_ab_group_add StateNode \<Rightarrow> 'q ResourceList \<Rightarrow> 'q ResourceList option" where
  "existingNodeResources n daemonResources =
     (case SubtractFrom (Some daemonResources) (DaemonSetRequests n) of
        None \<Rightarrow> None
      | Some ds \<Rightarrow> map_option (\<lambda>available. Subtract available (clamp_zero ds)) (StateNode_Available n))"

text \<open>The hostname of the node becomes a domain of the topology.\<close>

definition newExistingNodeWithResources ::
  "'q StateNode \<Rightarrow> Topology \<Rightarrow> Taint list \<Rightarrow> requirements \<Rightarrow> 'q ResourceList \<Rightarrow> bool \<Rightarrow> ('q ExistingNode \<times> Topology) option" where
  "newExistingNodeWithResources n t taints rs remaining isUnder =
     map_option (\<lambda>host.
       (\<lparr>exStateNode = n, exTaints = taints, exPods = [], exRemaining = remaining, exRequirements = rs,
         exUnderConsolidateAfter = isUnder\<rparr>,
        Topology_Register t LabelHostname host))
       (HostName n)"

definition NewExistingNode ::
  "'q::linordered_ab_group_add StateNode \<Rightarrow> Topology \<Rightarrow> Taint list \<Rightarrow> requirements \<Rightarrow> 'q ResourceList \<Rightarrow> bool \<Rightarrow>
   ('q ExistingNode \<times> Topology) option" where
  "NewExistingNode n t taints rs daemonResources isUnder =
     Option.bind (existingNodeResources n daemonResources)
       (\<lambda>remaining. newExistingNodeWithResources n t taints rs remaining isUnder)"

definition existing_alternative ::
  "topology_env \<Rightarrow> Topology \<Rightarrow> 'q ExistingNode \<Rightarrow> Pod \<Rightarrow> 'q PodData \<Rightarrow> requirements \<Rightarrow> requirements option \<Rightarrow>
   ('q sched_error, requirements) result" where
  "existing_alternative TE t n pod pd base volReqs =
     (let E = teLabels TE; rs = NewRequirements E (Requirements_Values base) in
      rbind
        (case volReqs of
           None \<Rightarrow> Ok rs
         | Some v \<Rightarrow>
             (let errs = Requirements_Compatible E [] rs v in
              if errs \<noteq> [] then Err (IncompatibleVolumes errs) else Ok (Requirements_Add E rs (Requirements_Values v))))
        (\<lambda>rs.
           case AddRequirements TE [] t pod (exTaints n) (pdStrictRequirements pd) rs of
             Panic \<Rightarrow> Panic
           | Err tg \<Rightarrow> Err (UnsatisfiableTopology tg)
           | Ok tr \<Rightarrow>
               (let errs = Requirements_Compatible E [] rs tr in
                if errs \<noteq> [] then Err (IncompatibleTopology errs)
                else Ok (Requirements_Add E rs (Requirements_Values tr)))))"

fun first_alternative ::
  "('a \<Rightarrow> ('q sched_error, 'b) result) \<Rightarrow> 'a list \<Rightarrow> 'q sched_error \<Rightarrow> ('q sched_error, 'b) result" where
  "first_alternative f [] lastErr = Err lastErr"
| "first_alternative f (v # vs) lastErr =
     (case f v of Ok r \<Rightarrow> Ok r | Panic \<Rightarrow> Panic | Err e \<Rightarrow> first_alternative f vs e)"

definition ExistingNode_CanAdd ::
  "topology_env \<Rightarrow> Topology \<Rightarrow> 'q::linordered_ab_group_add ExistingNode \<Rightarrow> Pod \<Rightarrow> 'q PodData \<Rightarrow> Volumes \<Rightarrow>
   ('q sched_error, requirements) result" where
  "ExistingNode_CanAdd TE t n pod pd vols =
     (let E = teLabels TE;
          untolerated = ToleratesPod (teTolerates TE) (exTaints n) pod;
          errs = Requirements_Compatible E [] (exRequirements n) (pdRequirements pd)
      in if untolerated \<noteq> [] then Err (UntoleratedTaints untolerated)
         else if ExceedsLimits (volumeUsage (exStateNode n)) vols \<noteq> None then Err ExceededVolumes
         else if Conflicts (hostPortUsage (exStateNode n)) pod (GetHostPorts pod) \<noteq> None then Err ConflictingPorts
         else if \<not> Fits (pdRequests pd) (exRemaining n) then Err ExceededResources
         else if errs \<noteq> [] then Err (IncompatibleRequirements errs)
         else
           first_alternative
             (existing_alternative TE t n pod pd
                (Requirements_Add E (NewRequirements E (Requirements_Values (exRequirements n)))
                   (Requirements_Values (pdRequirements pd))))
             (volume_alternatives pd) (OtherSchedError []))"

definition ExistingNode_Add ::
  "topology_env \<Rightarrow> Pod \<Rightarrow> 'q::linordered_ab_group_add PodData \<Rightarrow> requirements \<Rightarrow> Volumes \<Rightarrow> 'q ExistingNode \<times> Topology \<Rightarrow>
   'q ExistingNode \<times> Topology" where
  "ExistingNode_Add TE pod pd rs vols s =
     (case s of (n, t) \<Rightarrow>
        (let st = exStateNode n in
         (n\<lparr>exPods := exPods n @ [pod], exRemaining := sub_list (exRemaining n) (pdRequests pd), exRequirements := rs,
            exStateNode := st\<lparr>hostPortUsage := HostPortUsage_Add (hostPortUsage st) pod (GetHostPorts pod),
              volumeUsage := VolumeUsage_Add (volumeUsage st) pod vols\<rparr>\<rparr>,
          Topology_Record TE [] t pod (exTaints n) rs)))"

section \<open>Laws\<close>

text \<open>
  What an existing node keeps: what remains plus what was placed is what the run started with, nothing
  is overdrawn, host ports do not collide, the volumes respect the limits of the drivers, and every pod
  tolerates the taints.
\<close>

definition existing_inv ::
  "topology_env \<Rightarrow> (Pod \<Rightarrow> 'q::linordered_ab_group_add ResourceList) \<Rightarrow> 'q ResourceList \<Rightarrow> 'q ExistingNode \<Rightarrow> bool" where
  "existing_inv TE req start n \<longleftrightarrow>
     wf_map (exRemaining n) \<and>
     (\<forall>k. qty (exRemaining n) k + (\<Sum>p\<leftarrow>exPods n. qty (req p) k) = qty start k) \<and>
     (exPods n \<noteq> [] \<longrightarrow> (\<forall>k. 0 \<le> qty (exRemaining n) k)) \<and>
     ports_disjoint (hostPortUsage (exStateNode n)) \<and>
     wf_usage (volumeUsage (exStateNode n)) \<and> within_limits (volumeUsage (exStateNode n)) \<and>
     (\<forall>p \<in> set (exPods n). ToleratesPod (teTolerates TE) (exTaints n) p = [])"

lemma existing_start:
  assumes "wf_map (exRemaining n)" "exPods n = []" "ports_disjoint (hostPortUsage (exStateNode n))"
    "wf_usage (volumeUsage (exStateNode n))" "within_limits (volumeUsage (exStateNode n))"
  shows "existing_inv TE req (exRemaining n) n"
  using assms by (simp add: existing_inv_def)

lemma ExistingNode_CanAdd_Ok:
  assumes "ExistingNode_CanAdd TE t n pod pd vols = Ok rs"
  shows "ToleratesPod (teTolerates TE) (exTaints n) pod = []" "ExceedsLimits (volumeUsage (exStateNode n)) vols = None"
    "Conflicts (hostPortUsage (exStateNode n)) pod (GetHostPorts pod) = None" "Fits (pdRequests pd) (exRemaining n)"
    "Requirements_Compatible (teLabels TE) [] (exRequirements n) (pdRequirements pd) = []"
  using assms by (auto simp: ExistingNode_CanAdd_def Let_def simp del: not_None_eq split: if_splits)

lemma existing_add:
  assumes "existing_inv TE req start n" "ExistingNode_CanAdd TE t n pod pd vols = Ok rs"
    "ExistingNode_Add TE pod pd rs vols (n, t) = (n', t')" "pdRequests pd = req pod" "wf_map (req pod)" "wf_volumes vols"
  shows "existing_inv TE req start n'"
proof -
  note can = ExistingNode_CanAdd_Ok[OF assms(2)]
  have n': "exPods n' = exPods n @ [pod]" "exRemaining n' = sub_list (exRemaining n) (req pod)" "exTaints n' = exTaints n"
    "hostPortUsage (exStateNode n') = HostPortUsage_Add (hostPortUsage (exStateNode n)) pod (GetHostPorts pod)"
    "volumeUsage (exStateNode n') = VolumeUsage_Add (volumeUsage (exStateNode n)) pod vols"
    using assms(3,4) by (auto simp: ExistingNode_Add_def Let_def)
  have "qty (req pod) k \<le> qty (exRemaining n) k" for k using Fits_upper[OF assms(5)] can(4) assms(4) by simp
  then have left: "0 \<le> qty (sub_list (exRemaining n) (req pod)) k" for k by (simp add: qty_sub_list[OF assms(5)])
  have sum: "qty (sub_list (exRemaining n) (req pod)) k + ((\<Sum>p\<leftarrow>exPods n. qty (req p) k) + qty (req pod) k) = qty start k" for k
    using assms(1) by (simp add: qty_sub_list[OF assms(5)] existing_inv_def algebra_simps)
  show ?thesis
    using assms(1) can left sum wf_sub_list ports_disjoint_Add wf_usage_Add within_limits_Add assms(6)
    unfolding existing_inv_def n' by auto
qed

end
