(* ===== verification/Scheduler.thy ===== *)
theory Scheduler
  imports ExistingNodes Parallel Preferences SchedQueue
begin

text \<open>
  The scheduler (\<^verbatim>\<open>pkg/controllers/provisioning/scheduling/scheduler.go\<close>) and its packing policies
  (\<^verbatim>\<open>packing.go\<close>): the limits of NodePools, the searches over existing nodes, NodeClaims in flight and
  templates, the loop that relaxes a pod, and the loop over all pods.

  The searches are modelled by the verdict of the smallest index, which \<open>Parallel\<close> shows to be what any
  interleaving of the workers computes; the annotation a losing worker may write on its own template is
  left out. A NodeClaim shares the annotation map of its template, as in the code. Dynamic resources are
  off: the allocator is nil. None stands for a panic.
\<close>

section \<open>State\<close>

record 'q sched_env =
  scNE :: "'q nodeclaim_env"
  scState :: "'q state_env"
  scSortSlice :: "PreferredSchedulingTerm list \<Rightarrow> PreferredSchedulingTerm list"
  scMatchToleration :: "Toleration \<Rightarrow> Toleration \<Rightarrow> bool"
  scSortClaims :: "'q InFlight list \<Rightarrow> 'q InFlight list"
  scMinBy :: "'q Offering extremum"
  scNodeID :: "nat \<Rightarrow> nat \<Rightarrow> nat"
  scExpired :: "nat \<Rightarrow> bool"
  scAntiFirst :: bool
  scIgnoreDRA :: bool

record 'q Scheduler =
  sNewNodeClaims :: "'q InFlight list"
  sExistingNodes :: "'q ExistingNode list"
  sTemplates :: "('q NodeClaimTemplate \<times> 'q DaemonOverheadGroup list) list"
  sRemainingResources :: "(string, 'q ResourceList) gomap"
  sPodData :: "(string, 'q PodData) gomap"
  sVolumeReqsByPod :: "(string, requirements list) gomap"
  sToleratePreferNoSchedule :: bool
  sTopology :: Topology
  sReservations :: ReservationManager
  sMode :: ReservedOfferingMode
  sPreferencePolicy :: PreferencePolicy
  sBestEffort :: bool
  sDeletingNodeNames :: "string set"
  sPricePlacements :: bool
  sShadowPricePlacements :: bool
  sSearches :: nat
  sChecks :: nat

abbreviation scTE :: "'q sched_env \<Rightarrow> topology_env" where "scTE C \<equiv> neTopology (scNE C)"

section \<open>Limits of NodePools\<close>

definition subtractMax ::
  "'q::linordered_ab_group_add ResourceList \<Rightarrow> 'q InstanceType list \<Rightarrow> 'q ResourceList" where
  "subtractMax remaining its =
     (if its = [] then remaining
      else (let itResources = MaxResources (map itCapacity its) in map (\<lambda>(k, v). (k, v - mget 0 itResources k)) remaining))"

definition filterByRemainingResources ::
  "'q::linordered_ab_group_add InstanceType list \<Rightarrow> 'q ResourceList \<Rightarrow> 'q InstanceType list" where
  "filterByRemainingResources its remaining =
     filter (\<lambda>it. list_all (\<lambda>(name, quantity). \<not> mget 0 (itCapacity it) name > quantity) remaining) its"

definition updateRemainingResources ::
  "'q::linordered_ab_group_add state_env \<Rightarrow> 'q StateNode \<Rightarrow> (string, 'q ResourceList) gomap \<Rightarrow> (string, 'q ResourceList) gomap option" where
  "updateRemainingResources SE node m =
     Option.bind (StateNode_Labels node) (\<lambda>labels.
       (let pool = mget [] labels NodePoolLabelKey in
        case map_of m pool of
          None \<Rightarrow> Some m
        | Some remaining \<Rightarrow> map_option (\<lambda>c. mput pool (Subtract remaining c) m) (StateNode_Capacity SE node)))"

definition limitRejection ::
  "'q::linordered_ab_group_add sched_env \<Rightarrow> 'q Scheduler \<Rightarrow> 'q NodeClaimTemplate \<Rightarrow> 'q DaemonOverheadGroup list \<Rightarrow> Pod \<Rightarrow>
   'q PodData \<Rightarrow> string \<Rightarrow> 'q sched_error option" where
  "limitRejection C s nct groups pod pd reason =
     map_option (\<lambda>e. case e of Some err \<Rightarrow> NodePoolIncompatibleError err | None \<Rightarrow> NodePoolLimitError reason)
       (incompatibleIgnoringLimits (scNE C) nct (sTopology s) groups (nctInstanceTypeOptions nct) pod pd (sBestEffort s))"

section \<open>Packing\<close>

text \<open>The cheapest launch price; the flag is false where nothing can be priced.\<close>

fun launchable_offerings ::
  "'q nodeclaim_env \<Rightarrow> string set \<Rightarrow> 'q Offering list \<Rightarrow> 'q Offering list option" where
  "launchable_offerings NE ids [] = Some []"
| "launchable_offerings NE ids (o1 # ofs) =
     (case CapacityType (neLabels NE) (nePick NE) (neIntn NE) o1 of
        None \<Rightarrow> None
      | Some ct \<Rightarrow>
          map_option (\<lambda>rest. if ct \<noteq> CapacityTypeReserved \<or> neReservationID NE o1 \<in> ids then o1 # rest else rest)
            (launchable_offerings NE ids ofs))"

fun cheapest_type ::
  "'q sched_env \<Rightarrow> requirements \<Rightarrow> string set \<Rightarrow> 'q InstanceType list \<Rightarrow> rat \<Rightarrow> rat option" where
  "cheapest_type C rs ids [] price = Some price"
| "cheapest_type C rs ids (it # its) price =
     (case launchable_offerings (scNE C) ids (Available (itOfferings it)) of
        None \<Rightarrow> None
      | Some ofs \<Rightarrow>
          (let p = CheapestLaunchPrice (neLabels (scNE C)) (scMinBy C) ofs rs in
           cheapest_type C rs ids its (if p < price then p else price)))"

definition launchPrice ::
  "'q sched_env \<Rightarrow> 'q InstanceType list \<Rightarrow> requirements \<Rightarrow> 'q Offering list \<Rightarrow> (rat \<times> bool) option" where
  "launchPrice C its rs ofs =
     map_option (\<lambda>price. (price, price \<noteq> MaxFloat64))
       (cheapest_type C rs (neReservationID (scNE C) ` set ofs) its MaxFloat64)"

definition marginalLaunchPrice ::
  "'q sched_env \<Rightarrow> 'q InFlight \<Rightarrow> 'q placement \<Rightarrow> (rat \<times> bool) option" where
  "marginalLaunchPrice C n p =
     (case p of (rs, its, ofs) \<Rightarrow>
        Option.bind (launchPrice C (nctInstanceTypeOptions (ifTemplate n)) (nctRequirements (ifTemplate n)) (ifReservedOfferings n))
          (\<lambda>(before, okBefore).
             map_option (\<lambda>(after, okAfter). if \<not> okBefore \<or> \<not> okAfter then (0, True) else (max (after - before) 0, False))
               (launchPrice C its rs ofs)))"

definition priceTieTolerance :: rat where "priceTieTolerance = 1 / 1000000"

definition cheaperThan :: "rat \<Rightarrow> rat \<Rightarrow> bool" where
  "cheaperThan a b \<longleftrightarrow> b - a > priceTieTolerance * max \<bar>a\<bar> \<bar>b\<bar>"

definition marginalCostPrices :: "'q Scheduler \<Rightarrow> 'q InFlight \<Rightarrow> bool" where
  "marginalCostPrices s n \<longleftrightarrow>
     nctPackingPolicy (ifTemplate n) = PackingPolicyMarginalCost \<or>
     sShadowPricePlacements s \<and> nctPackingPolicy (ifTemplate n) = PackingPolicyMarginalCostShadow"

section \<open>Existing nodes and NodeClaims in flight\<close>

text \<open>The first element that accepts, with its index; the outer None is a panic on the way.\<close>

fun first_ok :: "('a \<Rightarrow> ('e, 'b) result) \<Rightarrow> nat \<Rightarrow> 'a list \<Rightarrow> (nat \<times> 'b) option option" where
  "first_ok f i [] = Some None"
| "first_ok f i (x # xs) =
     (case f x of Ok r \<Rightarrow> Some (Some (i, r)) | Panic \<Rightarrow> None | Err e \<Rightarrow> first_ok f (Suc i) xs)"

definition existing_verdict ::
  "'q::linordered_ab_group_add sched_env \<Rightarrow> 'q Scheduler \<Rightarrow> Pod \<Rightarrow> 'q PodData \<Rightarrow> Volumes \<Rightarrow> 'q ExistingNode \<Rightarrow>
   ('q sched_error, requirements) result" where
  "existing_verdict C s p pd vols n =
     (if exUnderConsolidateAfter n \<and> \<not> IsPending p \<and> podNodeName p \<notin> sDeletingNodeNames s
      then Err (OtherSchedError ''under consolidateAfter'')
      else ExistingNode_CanAdd (scTE C) (sTopology s) n p pd vols)"

text \<open>The inner None is a failure, which leaves the scheduler as it is.\<close>

definition addToExistingNode ::
  "'q::linordered_ab_group_add sched_env \<Rightarrow> 'q Scheduler \<Rightarrow> Pod \<Rightarrow> 'q PodData \<Rightarrow> 'q Scheduler option option" where
  "addToExistingNode C s p pd =
     (case GetVolumes (seKube (scState C)) p of
        Panic \<Rightarrow> None
      | Err e \<Rightarrow> Some None
      | Ok vols \<Rightarrow>
          map_option (map_option (\<lambda>(i, rs).
            (case ExistingNode_Add (scTE C) p pd rs vols (sExistingNodes s ! i, sTopology s) of
               (n, t) \<Rightarrow> s\<lparr>sExistingNodes := (sExistingNodes s)[i := n], sTopology := t\<rparr>)))
            (first_ok (existing_verdict C s p pd vols) 0 (sExistingNodes s)))"

definition commit_inflight ::
  "'q::linordered_ab_group_add sched_env \<Rightarrow> 'q Scheduler \<Rightarrow> Pod \<Rightarrow> 'q PodData \<Rightarrow> nat \<Rightarrow> 'q placement \<Rightarrow> 'q Scheduler option" where
  "commit_inflight C s p pd i pl =
     map_option (\<lambda>(n, t, rm). s\<lparr>sNewNodeClaims := (sNewNodeClaims s)[i := n], sTopology := t, sReservations := rm\<rparr>)
       (NodeClaim_Add (scNE C) p pd pl (sNewNodeClaims s ! i, sTopology s, sReservations s))"

definition addToInflightNode ::
  "'q::linordered_ab_group_add sched_env \<Rightarrow> 'q Scheduler \<Rightarrow> Pod \<Rightarrow> 'q PodData \<Rightarrow> 'q Scheduler option option" where
  "addToInflightNode C s p pd =
     Option.bind (first_ok (\<lambda>n. NodeClaim_CanAdd (scNE C) (sTopology s) (sReservations s) n p pd False) 0 (sNewNodeClaims s))
       (\<lambda>found. case found of
           None \<Rightarrow> Some None
         | Some (i, pl) \<Rightarrow> map_option Some (commit_inflight C s p pd i pl))"

section \<open>A new NodeClaim\<close>

definition try_template ::
  "'q::linordered_ab_group_add sched_env \<Rightarrow> 'q Scheduler \<Rightarrow> Pod \<Rightarrow> 'q PodData \<Rightarrow> nat \<Rightarrow>
   'q NodeClaimTemplate \<times> 'q DaemonOverheadGroup list \<Rightarrow> 'q InstanceType list \<Rightarrow>
   ('q sched_error, 'q InFlight \<times> 'q placement) result" where
  "try_template C s p pd i tmpl its =
     (case NewNodeClaim (scNE C) (scNodeID C (sSearches s) i) (fst tmpl) (snd tmpl) its (sMode s) of
        None \<Rightarrow> Panic
      | Some n \<Rightarrow>
          (let n = (if length its \<noteq> length (nctInstanceTypeOptions (fst tmpl))
                    then n\<lparr>ifInstanceTypesBeforeLimits := Some (nctInstanceTypeOptions (fst tmpl))\<rparr> else n)
           in rbind (NodeClaim_CanAdd (scNE C) (sTopology s) (sReservations s) n p pd (sBestEffort s)) (\<lambda>pl. Ok (n, pl))))"

definition template_verdict ::
  "'q::linordered_ab_group_add sched_env \<Rightarrow> 'q Scheduler \<Rightarrow> Pod \<Rightarrow> 'q PodData \<Rightarrow> nat \<Rightarrow>
   'q NodeClaimTemplate \<times> 'q DaemonOverheadGroup list \<Rightarrow> ('q sched_error, 'q InFlight \<times> 'q placement) result" where
  "template_verdict C s p pd i tmpl =
     (let nct = fst tmpl;
          reject = (\<lambda>reason. case limitRejection C s nct (snd tmpl) p pd reason of None \<Rightarrow> Panic | Some e \<Rightarrow> Err e)
      in case map_of (sRemainingResources s) (nctNodePoolName nct) of
           None \<Rightarrow> try_template C s p pd i tmpl (nctInstanceTypeOptions nct)
         | Some remaining \<Rightarrow>
             if map_of remaining ResourceNode = Some 0
             then reject ''node limits have been exhausted for nodepool''
             else
               (let its = filterByRemainingResources (nctInstanceTypeOptions nct) remaining in
                if its = [] then reject ''all available instance types exceed limits for nodepool''
                else try_template C s p pd i tmpl its))"

text \<open>The templates in order: the first that accepts, unless one with reserved offerings rejected the pod before.\<close>

fun template_loop ::
  "'q::linordered_ab_group_add sched_env \<Rightarrow> 'q Scheduler \<Rightarrow> Pod \<Rightarrow> 'q PodData \<Rightarrow> nat \<Rightarrow>
   ('q NodeClaimTemplate \<times> 'q DaemonOverheadGroup list) list \<Rightarrow> 'q sched_error list \<Rightarrow>
   ('q sched_error list, nat \<times> 'q InFlight \<times> 'q placement) result" where
  "template_loop C s p pd i [] errs = Err errs"
| "template_loop C s p pd i (tmpl # tmpls) errs =
     (case template_verdict C s p pd i tmpl of
        Panic \<Rightarrow> Panic
      | Ok r \<Rightarrow> Ok (i, r)
      | Err e \<Rightarrow>
          if IsReservedOfferingError e then Err (errs @ [e])
          else template_loop C s p pd (Suc i) tmpls (errs @ [e]))"

definition combine_errors :: "'q sched_error list \<Rightarrow> 'q sched_error" where
  "combine_errors errs = (case errs of [e] \<Rightarrow> e | _ \<Rightarrow> CombinedError errs)"

definition NodeClaimMinValuesRelaxedAnnotationKey :: string where
  "NodeClaimMinValuesRelaxedAnnotationKey = Group @ ''/nodeclaim-min-values-relaxed''"

definition min_values_relaxed :: "label_env \<Rightarrow> requirements \<Rightarrow> requirements \<Rightarrow> bool" where
  "min_values_relaxed E original updated =
     list_ex (\<lambda>(k, r). case (MinValues r, MinValues (Requirements_Get E updated k)) of
         (Some a, Some b) \<Rightarrow> b < a
       | _ \<Rightarrow> False) original"

definition annotate_template :: "string \<Rightarrow> string \<Rightarrow> 'q NodeClaimTemplate \<Rightarrow> 'q NodeClaimTemplate" where
  "annotate_template pool v nct =
     (if nctNodePoolName nct = pool
      then nct\<lparr>nctAnnotations := mput NodeClaimMinValuesRelaxedAnnotationKey v (nctAnnotations nct)\<rparr> else nct)"

text \<open>The template of a NodePool and all its NodeClaims hold one annotation map.\<close>

definition write_annotation :: "string \<Rightarrow> string \<Rightarrow> 'q Scheduler \<Rightarrow> 'q Scheduler" where
  "write_annotation pool v s =
     s\<lparr>sTemplates := map (\<lambda>(nct, groups). (annotate_template pool v nct, groups)) (sTemplates s),
       sNewNodeClaims := map (\<lambda>n. n\<lparr>ifTemplate := annotate_template pool v (ifTemplate n)\<rparr>) (sNewNodeClaims s)\<rparr>"

definition evaluateNewNodeClaim ::
  "'q::linordered_ab_group_add sched_env \<Rightarrow> 'q Scheduler \<Rightarrow> Pod \<Rightarrow> 'q PodData \<Rightarrow>
   ('q Scheduler \<times> ('q sched_error + 'q InFlight \<times> 'q placement)) option" where
  "evaluateNewNodeClaim C s p pd =
     (case template_loop C s p pd 0 (sTemplates s) [] of
        Panic \<Rightarrow> None
      | Err errs \<Rightarrow> Some (s\<lparr>sSearches := Suc (sSearches s)\<rparr>, Inl (combine_errors errs))
      | Ok (i, n, pl) \<Rightarrow>
          (let pool = nctNodePoolName (ifTemplate n);
               v = (if min_values_relaxed (neLabels (scNE C)) (nctRequirements (ifTemplate n)) (fst pl) then ''true'' else ''false'')
           in Some (write_annotation pool v (s\<lparr>sSearches := Suc (sSearches s)\<rparr>),
                    Inr (n\<lparr>ifTemplate := annotate_template pool v (ifTemplate n)\<rparr>, pl))))"

definition commitNewNodeClaim ::
  "'q::linordered_ab_group_add sched_env \<Rightarrow> 'q Scheduler \<Rightarrow> Pod \<Rightarrow> 'q PodData \<Rightarrow> 'q InFlight \<times> 'q placement \<Rightarrow> 'q Scheduler option" where
  "commitNewNodeClaim C s p pd fresh =
     map_option (\<lambda>(n, t, rm).
       (let pool = nctNodePoolName (ifTemplate n) in
        s\<lparr>sNewNodeClaims := sNewNodeClaims s @ [n], sTopology := t, sReservations := rm,
          sRemainingResources := mput pool
            (subtractMax (mget [] (sRemainingResources s) pool) (nctInstanceTypeOptions (ifTemplate n))) (sRemainingResources s)\<rparr>))
       (NodeClaim_Add (scNE C) p pd (snd fresh) (fst fresh, sTopology s, sReservations s))"

definition addToNewNodeClaim ::
  "'q::linordered_ab_group_add sched_env \<Rightarrow> 'q Scheduler \<Rightarrow> Pod \<Rightarrow> 'q PodData \<Rightarrow> ('q Scheduler \<times> 'q sched_error option) option" where
  "addToNewNodeClaim C s p pd =
     Option.bind (evaluateNewNodeClaim C s p pd) (\<lambda>(s, r).
       case r of
         Inl e \<Rightarrow> Some (s, Some e)
       | Inr fresh \<Rightarrow> map_option (\<lambda>s. (s, None)) (commitNewNodeClaim C s p pd fresh))"

section \<open>Placement by marginal cost\<close>

type_synonym 'q inflightPlacement = "nat \<times> 'q placement \<times> rat \<times> bool"

text \<open>The NodeClaims in flight that accept the pod, with the increase of the launch price.\<close>

fun inflightPlacements ::
  "'q::linordered_ab_group_add sched_env \<Rightarrow> 'q Scheduler \<Rightarrow> Pod \<Rightarrow> 'q PodData \<Rightarrow> nat \<Rightarrow> 'q InFlight list \<Rightarrow>
   'q inflightPlacement list option" where
  "inflightPlacements C s p pd i [] = Some []"
| "inflightPlacements C s p pd i (n # ns) =
     (case NodeClaim_CanAdd (scNE C) (sTopology s) (sReservations s) n p pd False of
        Panic \<Rightarrow> None
      | Err e \<Rightarrow> inflightPlacements C s p pd (Suc i) ns
      | Ok pl \<Rightarrow>
          Option.bind (if marginalCostPrices s n then marginalLaunchPrice C n pl else Some (0, False)) (\<lambda>(delta, unpriced).
            map_option ((#) (i, pl, delta, unpriced)) (inflightPlacements C s p pd (Suc i) ns)))"

definition cheaper_placement :: "'q inflightPlacement option \<Rightarrow> 'q inflightPlacement \<Rightarrow> 'q inflightPlacement option" where
  "cheaper_placement best c =
     (case best of
        None \<Rightarrow> Some c
      | Some b \<Rightarrow> if cheaperThan (fst (snd (snd c))) (fst (snd (snd b))) then Some c else Some b)"

definition cheapestInflightPlacement :: "'q inflightPlacement list \<Rightarrow> 'q inflightPlacement option" where
  "cheapestInflightPlacement cs = foldl cheaper_placement None cs"

definition errNoNodeClaimTemplates :: "'q sched_error" where
  "errNoNodeClaimTemplates = OtherSchedError ''nodepool requirements filtered out all available instance types''"

text \<open>Whether a new NodeClaim is cheaper than the increase; a price may be missing.\<close>

definition fresh_is_cheaper ::
  "'q sched_env \<Rightarrow> rat \<Rightarrow> 'q sched_error + 'q InFlight \<times> 'q placement \<Rightarrow> bool option" where
  "fresh_is_cheaper C delta r =
     (case r of
        Inl e \<Rightarrow> Some False
      | Inr (n, rs, its, ofs) \<Rightarrow> map_option (\<lambda>(price, ok). ok \<and> cheaperThan price delta) (launchPrice C its rs ofs))"

definition addByMarginalCost ::
  "'q::linordered_ab_group_add sched_env \<Rightarrow> 'q Scheduler \<Rightarrow> Pod \<Rightarrow> 'q PodData \<Rightarrow> ('q Scheduler \<times> 'q sched_error option) option" where
  "addByMarginalCost C s p pd =
     Option.bind (inflightPlacements C s p pd 0 (sNewNodeClaims s)) (\<lambda>cs.
       case cheapestInflightPlacement cs of
         None \<Rightarrow>
           if sTemplates s = [] then Some (s, Some errNoNodeClaimTemplates) else addToNewNodeClaim C s p pd
       | Some (i, pl, delta, unpriced) \<Rightarrow>
           if delta > 0
           then
             Option.bind (evaluateNewNodeClaim C s p pd) (\<lambda>(s, r).
               Option.bind (if sTemplates s = [] then None else fresh_is_cheaper C delta r) (\<lambda>cheaper.
                 map_option (\<lambda>s. (s, None))
                   (case r of
                      Inr fresh \<Rightarrow> if cheaper then commitNewNodeClaim C s p pd fresh else commit_inflight C s p pd i pl
                    | Inl e \<Rightarrow> commit_inflight C s p pd i pl)))
           else map_option (\<lambda>s. (s, None)) (commit_inflight C s p pd i pl))"

text \<open>The observing variant: only the outcome is counted, but evaluating a template writes its annotation.\<close>

datatype shadow_outcome = SameNew | WouldOpenNew | WouldJoinOtherInflight | SameInflight

definition shadowMarginalCost ::
  "'q::linordered_ab_group_add sched_env \<Rightarrow> 'q Scheduler \<Rightarrow> Pod \<Rightarrow> 'q PodData \<Rightarrow> ('q Scheduler \<times> shadow_outcome option) option" where
  "shadowMarginalCost C s p pd =
     (if sTemplates s = [] then Some (s, None)
      else
        Option.bind (inflightPlacements C s p pd 0 (sNewNodeClaims s)) (\<lambda>cs.
          case (cs, cheapestInflightPlacement cs) of
            (firstFit # _, Some (i, pl, delta, unpriced)) \<Rightarrow>
              (let same = (if i \<noteq> fst firstFit then WouldJoinOtherInflight else SameInflight) in
               if delta > 0
               then
                 Option.bind (evaluateNewNodeClaim C s p pd) (\<lambda>(s, r).
                   map_option (\<lambda>cheaper. (s, Some (if cheaper then WouldOpenNew else same))) (fresh_is_cheaper C delta r))
               else Some (s, Some same))
          | _ \<Rightarrow>
              Option.bind (evaluateNewNodeClaim C s p pd) (\<lambda>(s, r).
                case r of
                  Inl e \<Rightarrow> Some (s, Some SameNew)
                | Inr (n, rs, its, ofs) \<Rightarrow> map_option (\<lambda>_. (s, Some SameNew)) (launchPrice C its rs ofs))))"

section \<open>Adding a pod\<close>

definition fewer_pods :: "'q InFlight \<Rightarrow> 'q InFlight \<Rightarrow> bool" where
  "fewer_pods a b \<longleftrightarrow> length (ifPods a) < length (ifPods b)"

definition Scheduler_add ::
  "'q::linordered_ab_group_add sched_env \<Rightarrow> 'q Scheduler \<Rightarrow> Pod \<Rightarrow> ('q Scheduler \<times> 'q sched_error option) option" where
  "Scheduler_add C s p =
     (case map_of (sPodData s) (podUID p) of
        None \<Rightarrow> None
      | Some pd \<Rightarrow>
          if pdHasResourceClaimRequests pd \<and> scIgnoreDRA C then Some (s, Some DRAError)
          else
            Option.bind (addToExistingNode C s p pd) (\<lambda>r.
              case r of
                Some s' \<Rightarrow> Some (s', None)
              | None \<Rightarrow>
                  (let s = s\<lparr>sNewNodeClaims := scSortClaims C (sNewNodeClaims s)\<rparr> in
                   if sPricePlacements s then addByMarginalCost C s p pd
                   else
                     Option.bind (if sShadowPricePlacements s then map_option fst (shadowMarginalCost C s p pd) else Some s) (\<lambda>s.
                       Option.bind (addToInflightNode C s p pd) (\<lambda>r.
                         case r of
                           Some s' \<Rightarrow> Some (s', None)
                         | None \<Rightarrow>
                             if sTemplates s = [] then Some (s, Some errNoNodeClaimTemplates)
                             else addToNewNodeClaim C s p pd)))))"

definition IsDRAError :: "'q sched_error \<Rightarrow> bool" where 
  "IsDRAError e \<longleftrightarrow> (case e of DRAError \<Rightarrow> True | _ \<Rightarrow> False)"

text \<open>\<^verbatim>\<open>errors.Is(err, context.DeadlineExceeded)\<close>\<close>

definition IsDeadlineExceeded :: "'q sched_error \<Rightarrow> bool" where
  "IsDeadlineExceeded e \<longleftrightarrow> (case e of DeadlineExceeded \<Rightarrow> True | _ \<Rightarrow> False)"

lemma IsDeadlineExceeded_iff [simp]: "IsDeadlineExceeded e \<longleftrightarrow> e = DeadlineExceeded"
  by (simp add: IsDeadlineExceeded_def split: sched_error.split)

definition updateCachedPodData ::
  "'q::linordered_ab_group_add sched_env \<Rightarrow> Pod \<Rightarrow> 'q Scheduler \<Rightarrow> 'q Scheduler option" where
  "updateCachedPodData C p s =
     (let E = neLabels (scNE C); f = scSortSlice C in
      Option.bind (if sPreferencePolicy s = PreferencePolicyIgnore then NewStrictPodRequirements E f p else NewPodRequirements E f p)
        (\<lambda>rs. map_option (\<lambda>strict.
             s\<lparr>sPodData := mput (podUID p)
                 \<lparr>pdRequests = RequestsForPods (seRequests (scState C)) (seNewQuantity (scState C)) [p], pdRequirements = rs,
                  pdStrictRequirements = strict, pdHasResourceClaimRequests = HasDRARequirements p,
                  pdVolumeRequirements = mget [] (sVolumeReqsByPod s) (podUID p)\<rparr> (sPodData s)\<rparr>)
           (if HasPreferredNodeAffinity (Some p) then NewStrictPodRequirements E f p else Some rs)))"

text \<open>After a failure the topology follows the pod; an error of the update is only logged.\<close>

definition follow_pod :: "'q::linordered_ab_group_add sched_env \<Rightarrow> Pod \<Rightarrow> 'q Scheduler \<Rightarrow> 'q Scheduler option" where
  "follow_pod C p s =
     Option.bind (Topology_Update (scTE C) (scAntiFirst C) (sTopology s) p)
       (\<lambda>(t, err). updateCachedPodData C p (s\<lparr>sTopology := t\<rparr>))"

text \<open>
  The loop that relaxes a pod. Err is the end of the fuel: \<open>SchedulerLaws\<close> shows that the number of the
  pod's soft constraints is enough.
\<close>

fun try_loop ::
  "'q::linordered_ab_group_add sched_env \<Rightarrow> nat \<Rightarrow> 'q Scheduler \<Rightarrow> Pod \<Rightarrow> (unit, 'q Scheduler \<times> 'q sched_error option) result" where
  "try_loop C fuel s p =
     (if scExpired C (sChecks s) then Ok (s\<lparr>sChecks := Suc (sChecks s)\<rparr>, Some DeadlineExceeded)
      else
        (case Scheduler_add C (s\<lparr>sChecks := Suc (sChecks s)\<rparr>) p of
           None \<Rightarrow> Panic
         | Some (s, None) \<Rightarrow> Ok (s, None)
         | Some (s, Some e) \<Rightarrow>
             if IsReservedOfferingError e \<or> IsDRAError e then Ok (s, Some e)
             else
               (case Relax (scMatchToleration C) (sToleratePreferNoSchedule s) p of
                  None \<Rightarrow> Ok (s, Some e)
                | Some p' \<Rightarrow>
                    (case follow_pod C p' s of
                       None \<Rightarrow> Panic
                     | Some s \<Rightarrow> (case fuel of 0 \<Rightarrow> Err () | Suc fuel' \<Rightarrow> try_loop C fuel' s p')))))"

declare try_loop.simps [simp del]

definition trySchedule ::
  "'q::linordered_ab_group_add sched_env \<Rightarrow> 'q Scheduler \<Rightarrow> Pod \<Rightarrow> (unit, 'q Scheduler \<times> 'q sched_error option) result" where
  "trySchedule C s p = try_loop C (soft_constraints (scMatchToleration C) (sToleratePreferNoSchedule s) p) s p"

section \<open>The effective zone of a pod\<close>

text \<open>The union of the zones of the volume alternatives; the inner None where they do not constrain zones.\<close>

fun merge_zones :: "topology_env \<Rightarrow> requirements list \<Rightarrow> requirement option \<Rightarrow> requirement option option" where
  "merge_zones TE [] merged = Some merged"
| "merge_zones TE (vol # vols) merged =
     (let req = Requirements_Get (teLabels TE) vol LabelTopologyZone in
      if Requirement_Operator req \<noteq> OpIn then Some None
      else
        (case merged of
           None \<Rightarrow>
             (case NewRequirement (teLabels TE) LabelTopologyZone OpIn (teUnsorted TE (rvalues req)) of
                None \<Rightarrow> None
              | Some m \<Rightarrow> merge_zones TE vols (Some m))
         | Some m \<Rightarrow> merge_zones TE vols (Some (m\<lparr>rvalues := rvalues m \<union> rvalues req\<rparr>))))"

definition volumeZoneReq :: "topology_env \<Rightarrow> requirements list \<Rightarrow> requirement option option" where
  "volumeZoneReq TE vols =
     (case vols of
        [vol] \<Rightarrow>
          (let req = Requirements_Get (teLabels TE) vol LabelTopologyZone in
           Some (if Requirement_Operator req \<noteq> OpIn then None else Some req))
      | _ \<Rightarrow> merge_zones TE vols None)"

definition zone_summary :: "string set \<Rightarrow> string" where
  "zone_summary zones = (if zones = {} then ''none'' else if card zones = 1 then the_elem zones else ''flexible'')"

definition computeEffectiveZoneFromPod ::
  "'q::linordered_ab_group_add sched_env \<Rightarrow> 'q Scheduler \<Rightarrow> Pod \<Rightarrow> string option" where
  "computeEffectiveZoneFromPod C s p =
     Option.bind (map_of (sPodData s) (podUID p)) (\<lambda>pd.
       Option.bind (GetTopologyZoneConstraints (scTE C) (sTopology s) p (pdRequirements pd)) (\<lambda>(tsc, satisfiable).
         if \<not> satisfiable then Some ''none''
         else
           map_option (\<lambda>vol.
             (let zoneReq = Requirements_Get (neLabels (scNE C)) (pdStrictRequirements pd) LabelTopologyZone;
                  domains = (case tsc of None \<Rightarrow> {} | Some ds \<Rightarrow> ds);
                  ok = (\<lambda>zone. Requirement_Has zoneReq zone \<and> (case vol of None \<Rightarrow> True | Some v \<Rightarrow> Requirement_Has v zone) \<and>
                         (domains = {} \<or> zone \<in> domains))
              in if Requirement_Operator zoneReq = OpIn then zone_summary (Set.filter ok (rvalues zoneReq))
                 else
                   (case vol of
                      Some v \<Rightarrow> zone_summary (Set.filter ok (rvalues v))
                    | None \<Rightarrow> if domains \<noteq> {} then zone_summary (Set.filter ok domains) else ''flexible'')))
             (volumeZoneReq (scTE C) (pdVolumeRequirements pd))))"

section \<open>The loop over the pods\<close>

type_synonym 'q pod_errors = "(Pod, 'q sched_error) gomap"

function solve_loop ::
  "'q::linordered_ab_group_add sched_env \<Rightarrow> 'q Scheduler \<Rightarrow> 'q pod_errors \<Rightarrow> Queue \<Rightarrow>
   (unit, 'q Scheduler \<times> 'q pod_errors \<times> Queue) result" where
  "solve_loop C s errs q =
     (case Pop q of
        None \<Rightarrow> Ok (s, errs, q)
      | Some (pod, q') \<Rightarrow>
          (case trySchedule C s pod of
             Panic \<Rightarrow> Panic
           | Err u \<Rightarrow> Err u
           | Ok (s, None) \<Rightarrow> solve_loop C s (mdel pod errs) q'
           | Ok (s, Some e) \<Rightarrow>
               if IsDeadlineExceeded e then Ok (s, errs, q')
               else
                 (case follow_pod C pod s of
                    None \<Rightarrow> Panic
                  | Some s \<Rightarrow> solve_loop C s (mput pod e errs) (Push q' pod))))"
  by pat_completeness auto
termination
  by (relation "measures [\<lambda>(_, _, _, q). length (qpods q), \<lambda>(_, _, _, q). unmarked q]")
    (auto dest: Pop_Some simp: length_Push unmarked_Push)

declare solve_loop.simps [simp del]

record 'q Results =
  rNewNodeClaims :: "'q InFlight list"
  rExistingNodes :: "'q ExistingNode list"
  rPodErrors :: "'q pod_errors"

text \<open>The number of pending pods by effective zone is a metric, but computing it may panic.\<close>

fun update_pods :: "'q::linordered_ab_group_add sched_env \<Rightarrow> Pod list \<Rightarrow> 'q Scheduler \<Rightarrow> 'q Scheduler option" where
  "update_pods C [] s = Some s"
| "update_pods C (p # ps) s =
     Option.bind (updateCachedPodData C p s) (\<lambda>s.
       if IsPending p \<and> computeEffectiveZoneFromPod C s p = None then None else update_pods C ps s)"

text \<open>The order of the queue depends on the requests in the cache. The flag is the error of the context.\<close>

definition Solve ::
  "'q::linordered_ab_group_add sched_env \<Rightarrow> ((string, 'q PodData) gomap \<Rightarrow> Pod list \<Rightarrow> Pod list) \<Rightarrow> Pod list \<Rightarrow> 'q Scheduler \<Rightarrow>
   (unit, 'q Results \<times> bool) result" where
  "Solve C sortPods pods s =
     (case update_pods C pods s of
        None \<Rightarrow> Panic
      | Some s \<Rightarrow>
          rbind (solve_loop C s [] (NewQueue (sortPods (sPodData s)) pods)) (\<lambda>(s, errs, q).
            case those (map (FinalizeScheduling (scNE C) []) (sNewNodeClaims s)) of
              None \<Rightarrow> Panic
            | Some ns \<Rightarrow>
                Ok (\<lparr>rNewNodeClaims = ns, rExistingNodes = sExistingNodes s, rPodErrors = errs\<rparr>, scExpired C (sChecks s))))"

end
