(* ===== verification/SchedulerLaws.thy ===== *)
theory SchedulerLaws
  imports Scheduler
begin

text \<open>
  What a scheduling run guarantees: wherever a pod is placed there is room for it, every pod ends up
  placed once or with an error, the loops end, and the resource limits of NodePools are kept.
\<close>

section \<open>Limits\<close>

lemma MaxResources_Cons: "MaxResources ls = foldl max_into [] ls"
  by (simp add: MaxResources_def max_into_def[abs_def])

lemma MaxResources_lub:
  assumes "\<forall>l \<in> set ls. nonneg l"
  shows "nonneg (MaxResources ls)"
    and "l \<in> set ls \<Longrightarrow> qty l k \<le> qty (MaxResources ls) k"
    and "0 \<le> x \<Longrightarrow> (\<And>l. l \<in> set ls \<Longrightarrow> qty l k \<le> x) \<Longrightarrow> qty (MaxResources ls) k \<le> x"
proof -
  have up: "nonneg (max_into ov v) \<and> (\<forall>k. qty ov k \<le> qty (max_into ov v) k)" if "v \<in> set ls" "nonneg ov" for ov v
    using assms that max_into_nonneg(1,2)[of ov v] by simp
  show "nonneg (MaxResources ls)" unfolding MaxResources_Cons using foldl_upper[of ls max_into, OF up nonneg_Nil] by blast
  show "qty l k \<le> qty (MaxResources ls) k" if "l \<in> set ls"
    unfolding MaxResources_Cons using assms that max_into_nonneg(3)
    by (intro foldl_member_upper[of ls max_into, OF up nonneg_Nil that]) auto
  have "qty (foldl max_into acc ls) k \<le> x" if "nonneg acc" "qty acc k \<le> x" "0 \<le> x" "\<And>l. l \<in> set ls \<Longrightarrow> qty l k \<le> x" for acc
    using that assms
  proof (induction ls arbitrary: acc)
    case (Cons l ls)
    have l: "wf_map l" "qty l k \<le> x" using Cons.prems by (auto simp: nonneg_def)
    have "qty (max_into acc l) k \<le> x"
      using Cons.prems(2,3) l(2) by (auto simp: mget_def map_of_max_into[OF l(1)] max_def split: option.splits)
    then show ?case using Cons max_into_nonneg(1) by auto
  qed simp
  from this[of "[]"] show "qty (MaxResources ls) k \<le> x" if "0 \<le> x" "\<And>l. l \<in> set ls \<Longrightarrow> qty l k \<le> x"
    using that unfolding MaxResources_Cons by (simp add: mget_def)
qed

definition caps_ok :: "'q::linordered_ab_group_add InstanceType list \<Rightarrow> bool" where
  "caps_ok its \<longleftrightarrow> (\<forall>it \<in> set its. nonneg (itCapacity it))"

definition tmpl_ok :: "'q::linordered_ab_group_add InstanceType list \<times> 'q DaemonOverheadGroup list \<Rightarrow> bool" where
  "tmpl_ok t \<longleftrightarrow> caps_ok (fst t) \<and> (\<forall>g \<in> set (snd t). wf_map (dgDaemonOverhead g))"

abbreviation offers :: "'q NodeClaimTemplate \<times> 'q DaemonOverheadGroup list \<Rightarrow> 'q InstanceType list \<times> 'q DaemonOverheadGroup list" where
  "offers t \<equiv> (nctInstanceTypeOptions (fst t), snd t)"

definition claim_types :: "'q InFlight \<Rightarrow> 'q InstanceType list" where
  "claim_types n = nctInstanceTypeOptions (ifTemplate n)"

definition claim_pool :: "'q InFlight \<Rightarrow> string" where "claim_pool n = nctNodePoolName (ifTemplate n)"

text \<open>The most a NodeClaim may turn out to use of a resource.\<close>

definition peak :: "'q::linordered_ab_group_add InFlight \<Rightarrow> string \<Rightarrow> 'q" where
  "peak n k = qty (MaxResources (map itCapacity (claim_types n))) k"

definition pool_peak :: "'q::linordered_ab_group_add InFlight list \<Rightarrow> string \<Rightarrow> string \<Rightarrow> 'q" where
  "pool_peak ns pool k = (\<Sum>n\<leftarrow>filter (\<lambda>n. claim_pool n = pool) ns. peak n k)"

definition lim_ok ::
  "(string, 'q::linordered_ab_group_add ResourceList) gomap \<Rightarrow> 'q Scheduler \<Rightarrow> bool" where
  "lim_ok init s \<longleftrightarrow>
     (\<forall>tmpl \<in> set (sTemplates s). tmpl_ok (offers tmpl)) \<and>
     (\<forall>n \<in> set (sNewNodeClaims s). caps_ok (claim_types n)) \<and>
     (\<forall>pool r0 k. map_of init pool = Some r0 \<and> mhas r0 k \<longrightarrow>
        (\<exists>remaining. map_of (sRemainingResources s) pool = Some remaining \<and> mhas remaining k \<and>
           qty remaining k + pool_peak (sNewNodeClaims s) pool k \<le> qty r0 k \<and>
           ((\<exists>n \<in> set (sNewNodeClaims s). claim_pool n = pool) \<longrightarrow> 0 \<le> qty remaining k)))"

lemma peak_mono:
  assumes "caps_ok (claim_types n)" "set (claim_types m) \<subseteq> set (claim_types n)"
  shows "peak m k \<le> peak n k"
proof -
  have n: "\<forall>l \<in> set (map itCapacity (claim_types n)). nonneg l" and m: "\<forall>l \<in> set (map itCapacity (claim_types m)). nonneg l"
    using assms by (auto simp: caps_ok_def)
  have "0 \<le> peak n k" using MaxResources_lub(1)[OF n] by (simp add: peak_def nonneg_def)
  then show ?thesis
    unfolding peak_def using MaxResources_lub(2)[OF n] assms(2) by (intro MaxResources_lub(3)[OF m]) auto
qed

lemma pool_peak_update:
  assumes "i < length ns" "claim_pool m = claim_pool (ns ! i)" "\<And>k. peak m k \<le> peak (ns ! i) k"
  shows "pool_peak (ns[i := m]) pool k \<le> pool_peak ns pool k"
  using assms
proof (induction ns arbitrary: i)
  case (Cons n ns)
  then show ?case by (cases i) (auto simp: pool_peak_def add_mono)
qed simp

lemma lim_ok_update:
  assumes "lim_ok init s" "i < length (sNewNodeClaims s)" "claim_pool m = claim_pool (sNewNodeClaims s ! i)"
    "set (claim_types m) \<subseteq> set (claim_types (sNewNodeClaims s ! i))"
    "sTemplates s' = sTemplates s" "sRemainingResources s' = sRemainingResources s" "sNewNodeClaims s' = (sNewNodeClaims s)[i := m]"
  shows "lim_ok init s'"
proof -
  let ?n = "sNewNodeClaims s ! i"
  have n: "caps_ok (claim_types ?n)" using assms(1,2) by (simp add: lim_ok_def)
  have m: "caps_ok (claim_types m)" using n assms(4) by (auto simp: caps_ok_def)
  have le: "pool_peak (sNewNodeClaims s') pool k \<le> pool_peak (sNewNodeClaims s) pool k" for pool k
    unfolding assms(7) by (rule pool_peak_update[OF assms(2,3)]) (rule peak_mono[OF n assms(4)])
  have old: "(\<exists>n \<in> set (sNewNodeClaims s). claim_pool n = pool)" if "\<exists>n \<in> set (sNewNodeClaims s'). claim_pool n = pool" for pool
    using that assms(2,3) unfolding assms(7) by (auto dest!: set_update_subset_insert[THEN subsetD])
  show ?thesis
    unfolding lim_ok_def
  proof (intro conjI allI impI)
    show "\<forall>tmpl \<in> set (sTemplates s'). tmpl_ok (offers tmpl)" using assms(1,5) by (simp add: lim_ok_def)
    show "\<forall>n \<in> set (sNewNodeClaims s'). caps_ok (claim_types n)"
      using assms(1) m unfolding assms(7) by (auto simp: lim_ok_def dest!: set_update_subset_insert[THEN subsetD])
    fix pool r0 k
    assume "map_of init pool = Some r0 \<and> mhas r0 k"
    with assms(1) obtain remaining where r: "map_of (sRemainingResources s) pool = Some remaining" "mhas remaining k"
      "qty remaining k + pool_peak (sNewNodeClaims s) pool k \<le> qty r0 k"
      "(\<exists>n \<in> set (sNewNodeClaims s). claim_pool n = pool) \<longrightarrow> 0 \<le> qty remaining k"
      unfolding lim_ok_def by blast
    have "qty remaining k + pool_peak (sNewNodeClaims s') pool k \<le> qty r0 k"
      using r(3) le by (meson add_left_mono order_trans)
    then show "\<exists>remaining. map_of (sRemainingResources s') pool = Some remaining \<and> mhas remaining k \<and>
        qty remaining k + pool_peak (sNewNodeClaims s') pool k \<le> qty r0 k \<and>
        ((\<exists>n \<in> set (sNewNodeClaims s'). claim_pool n = pool) \<longrightarrow> 0 \<le> qty remaining k)"
      using r(1,2,4) old assms(6) by auto
  qed
qed

text \<open>A new NodeClaim is charged with its peak, for which there was room.\<close>

lemma lim_ok_new:
  assumes "lim_ok init s" "caps_ok (claim_types n)" "claim_types n \<noteq> []"
    "\<And>remaining it k. map_of (sRemainingResources s) (claim_pool n) = Some remaining \<Longrightarrow> it \<in> set (claim_types n) \<Longrightarrow> mhas remaining k \<Longrightarrow>
       qty (itCapacity it) k \<le> qty remaining k"
    "sTemplates s' = sTemplates s" "sNewNodeClaims s' = sNewNodeClaims s @ [n]"
    "sRemainingResources s' = mput (claim_pool n) (subtractMax (mget [] (sRemainingResources s) (claim_pool n)) (claim_types n))
       (sRemainingResources s)"
  shows "lim_ok init s'"
  unfolding lim_ok_def
proof (intro conjI allI impI)
  show "\<forall>tmpl \<in> set (sTemplates s'). tmpl_ok (offers tmpl)" using assms(1,5) by (simp add: lim_ok_def)
  show "\<forall>m \<in> set (sNewNodeClaims s'). caps_ok (claim_types m)" using assms(1,2,6) by (auto simp: lim_ok_def)
  fix pool r0 k
  assume "map_of init pool = Some r0 \<and> mhas r0 k"
  with assms(1) obtain remaining where r: "map_of (sRemainingResources s) pool = Some remaining" "mhas remaining k"
    "qty remaining k + pool_peak (sNewNodeClaims s) pool k \<le> qty r0 k"
    "(\<exists>n \<in> set (sNewNodeClaims s). claim_pool n = pool) \<longrightarrow> 0 \<le> qty remaining k"
    unfolding lim_ok_def by blast
  have caps: "\<forall>l \<in> set (map itCapacity (claim_types n)). nonneg l" using assms(2) by (simp add: caps_ok_def)
  show "\<exists>remaining. map_of (sRemainingResources s') pool = Some remaining \<and> mhas remaining k \<and>
      qty remaining k + pool_peak (sNewNodeClaims s') pool k \<le> qty r0 k \<and>
      ((\<exists>n \<in> set (sNewNodeClaims s'). claim_pool n = pool) \<longrightarrow> 0 \<le> qty remaining k)"
  proof (cases "pool = claim_pool n")
    case False
    then show ?thesis using r by (auto simp: assms(6,7) map_of_mput pool_peak_def)
  next
    case True
    let ?rem = "subtractMax remaining (claim_types n)"
    have rem: "map_of ?rem k = map_option (\<lambda>v. v - peak n k) (map_of remaining k)"
      using assms(3) by (simp add: subtractMax_def Let_def peak_def map_of_map_values)
    have room: "\<And>it. it \<in> set (claim_types n) \<Longrightarrow> qty (itCapacity it) k \<le> qty remaining k"
      using assms(4)[of remaining _ k] r(1,2) True by auto
    obtain it where it: "it \<in> set (claim_types n)" using assms(3) by (cases "claim_types n") auto
    have "0 \<le> qty (itCapacity it) k" using assms(2) it by (simp add: caps_ok_def nonneg_def)
    then have "0 \<le> qty remaining k" using room[OF it] by (rule order_trans)
    then have fits: "peak n k \<le> qty remaining k" unfolding peak_def using room by (intro MaxResources_lub(3)[OF caps]) auto
    have left: "qty ?rem k = qty remaining k - peak n k" "mhas ?rem k" using r(2) rem by (auto simp: mget_def)
    have "map_of (sRemainingResources s') pool = Some ?rem"
      using r(1) True by (simp add: assms(7) map_of_mput mget_def)
    moreover have "pool_peak (sNewNodeClaims s') pool k = pool_peak (sNewNodeClaims s) pool k + peak n k"
      by (simp add: assms(6) pool_peak_def True)
    then have "qty ?rem k + pool_peak (sNewNodeClaims s') pool k \<le> qty r0 k" using r(3) by (simp add: left(1) algebra_simps)
    moreover have "0 \<le> qty ?rem k" using fits by (simp add: left(1))
    ultimately show ?thesis using left(2) by blast
  qed
qed

lemma lim_ok_cong:
  assumes "lim_ok init s" "map offers (sTemplates s') = map offers (sTemplates s)"
    "sRemainingResources s' = sRemainingResources s"
    "mset (map (\<lambda>n. (claim_pool n, claim_types n)) (sNewNodeClaims s')) = mset (map (\<lambda>n. (claim_pool n, claim_types n)) (sNewNodeClaims s))"
  shows "lim_ok init s'"
proof -
  have pool: "pool_peak ns pool k = (\<Sum>x\<in>#filter_mset (\<lambda>x. fst x = pool) (mset (map (\<lambda>n. (claim_pool n, claim_types n)) ns)).
      qty (MaxResources (map itCapacity (snd x))) k)" for ns :: "'a InFlight list" and pool k
    by (induction ns) (auto simp: pool_peak_def peak_def)
  have claims: "(claim_pool n, claim_types n) \<in> (\<lambda>n. (claim_pool n, claim_types n)) ` set (sNewNodeClaims s)" if "n \<in> set (sNewNodeClaims s')" for n
    using mset_eq_setD[OF assms(4)] that by auto
  have tmpls: "offers t \<in> offers ` set (sTemplates s)" if "t \<in> set (sTemplates s')" for t
    using arg_cong[OF assms(2), of set] that by auto
  have peaks: "pool_peak (sNewNodeClaims s') = pool_peak (sNewNodeClaims s)" by (intro ext) (simp only: pool assms(4))
  have pools: "(\<exists>n \<in> set (sNewNodeClaims s'). claim_pool n = pool) = (\<exists>n \<in> set (sNewNodeClaims s). claim_pool n = pool)" for pool
    using arg_cong[OF mset_eq_setD[OF assms(4)], of "\<lambda>X. pool \<in> fst ` X"] by (auto simp: image_image)
  show ?thesis
    unfolding lim_ok_def assms(3) peaks pools
  proof (intro conjI)
    show "\<forall>tmpl \<in> set (sTemplates s'). tmpl_ok (offers tmpl)"
    proof
      fix t
      assume "t \<in> set (sTemplates s')"
      from tmpls[OF this] obtain u where "u \<in> set (sTemplates s)" "offers t = offers u" by blast
      then show "tmpl_ok (offers t)" using assms(1) unfolding lim_ok_def by metis
    qed
    show "\<forall>n \<in> set (sNewNodeClaims s'). caps_ok (claim_types n)"
      using assms(1) claims unfolding lim_ok_def by fastforce
  qed (use assms(1) in \<open>simp add: lim_ok_def\<close>)
qed

section \<open>The invariant of a run\<close>

type_synonym 'q run_start = "'q ResourceList list \<times> (string, 'q ResourceList) gomap"

definition sched_ok ::
  "'q::linordered_ab_group_add sched_env \<Rightarrow> (Pod \<Rightarrow> 'q ResourceList) \<Rightarrow> 'q run_start \<Rightarrow> 'q Scheduler \<Rightarrow> bool" where
  "sched_ok C req starts s \<longleftrightarrow>
     (\<forall>n \<in> set (sNewNodeClaims s). claim_inv (scNE C) req n \<and> ifPods n \<noteq> []) \<and>
     list_all2 (existing_inv (scTE C) req) (fst starts) (sExistingNodes s) \<and> lim_ok (snd starts) s"

definition placed :: "'q Scheduler \<Rightarrow> string multiset" where
  "placed s = mset (map podUID (concat (map ifPods (sNewNodeClaims s)))) +
     mset (map podUID (concat (map exPods (sExistingNodes s))))"

text \<open>A change of the state that keeps the invariant and places the pod or places nothing.\<close>

definition moves ::
  "'q::linordered_ab_group_add sched_env \<Rightarrow> (Pod \<Rightarrow> 'q ResourceList) \<Rightarrow> 'q run_start \<Rightarrow> string multiset \<Rightarrow>
   'q Scheduler \<Rightarrow> 'q Scheduler \<Rightarrow> bool" where
  "moves C req starts u s s' \<longleftrightarrow>
     (sched_ok C req starts s \<longrightarrow> sched_ok C req starts s') \<and> placed s' = placed s + u \<and>
     sPodData s' = sPodData s \<and> sToleratePreferNoSchedule s' = sToleratePreferNoSchedule s"

lemma moves_trans: "moves C req starts u s t \<Longrightarrow> moves C req starts v t r \<Longrightarrow> moves C req starts (u + v) s r"
  by (simp add: moves_def)

lemmas moves_after = moves_trans[where u = "{#}", simplified]

lemma mset_concat_update:
  assumes "i < length xs" "f y = f (xs ! i) @ [a]"
  shows "mset (map g (concat (map f (xs[i := y])))) = add_mset (g a) (mset (map g (concat (map f xs))))"
  using assms
proof (induction xs arbitrary: i)
  case (Cons x xs)
  then show ?case by (cases i) auto
qed simp

section \<open>Searches\<close>

lemma first_ok_found:
  "first_ok f i xs = Some (Some (j, r)) \<Longrightarrow> i \<le> j \<and> j < i + length xs \<and> f (xs ! (j - i)) = Ok r"
proof (induction xs arbitrary: i)
  case (Cons x xs)
  show ?case
  proof (cases "f x")
    case (Err e)
    then have "first_ok f (Suc i) xs = Some (Some (j, r))" using Cons.prems by simp
    from Cons.IH[OF this] have "Suc i \<le> j" "j < Suc i + length xs" "f (xs ! (j - Suc i)) = Ok r" by auto
    moreover from this have "j - i = Suc (j - Suc i)" by simp
    ultimately show ?thesis by simp
  qed (use Cons.prems in auto)
qed simp

text \<open>The search is the one the workers perform.\<close>

lemma first_ok_verdict:
  "first_ok f i xs = Some r \<Longrightarrow>
   r = (case find (\<lambda>j. case f (xs ! j) of Ok _ \<Rightarrow> True | _ \<Rightarrow> False) [0..<length xs] of
          None \<Rightarrow> None | Some j \<Rightarrow> (case f (xs ! j) of Ok y \<Rightarrow> Some (i + j, y) | _ \<Rightarrow> None))"
proof (induction xs arbitrary: i)
  case (Cons x xs)
  have upt: "[0..<length (x # xs)] = 0 # map Suc [0..<length xs]"
    by (simp add: upt_conv_Cons map_Suc_upt del: upt_Suc)
  have shift: "find P (map Suc js) = map_option Suc (find (P \<circ> Suc) js)" for P and js
    by (induction js) auto
  show ?case
  proof (cases "f x")
    case (Err e)
    then have "first_ok f (Suc i) xs = Some r" using Cons.prems by simp
    from Cons.IH[OF this] Err show ?thesis unfolding upt by (auto simp: shift comp_def split: option.split result.split)
  next
    case (Ok y)
    then show ?thesis using Cons.prems unfolding upt by simp
  qed (use Cons.prems in simp)
qed simp

section \<open>Placements\<close>

lemma existing_verdict_Ok: "existing_verdict C s p pd vols n = Ok rs \<Longrightarrow> ExistingNode_CanAdd (scTE C) (sTopology s) n p pd vols = Ok rs"
  by (auto simp: existing_verdict_def split: if_splits)

lemma addToExistingNode_moves:
  assumes "addToExistingNode C s p pd = Some (Some s')" "pdRequests pd = req p" "wf_map (req p)"
  shows "moves C req starts {#podUID p#} s s'"
proof -
  from assms(1) obtain vols i rs n t where vols: "GetVolumes (seKube (scState C)) p = Ok vols"
    and found: "first_ok (existing_verdict C s p pd vols) 0 (sExistingNodes s) = Some (Some (i, rs))"
    and add: "ExistingNode_Add (scTE C) p pd rs vols (sExistingNodes s ! i, sTopology s) = (n, t)"
    and s': "s' = s\<lparr>sExistingNodes := (sExistingNodes s)[i := n], sTopology := t\<rparr>"
    by (fastforce simp: addToExistingNode_def map_option_eq_Some case_prod_beta split: result.splits)
  from first_ok_found[OF found] have i: "i < length (sExistingNodes s)"
    and can: "ExistingNode_CanAdd (scTE C) (sTopology s) (sExistingNodes s ! i) p pd vols = Ok rs"
    by (auto intro: existing_verdict_Ok)
  have pods: "exPods n = exPods (sExistingNodes s ! i) @ [p]" using add by (auto simp: ExistingNode_Add_def Let_def)
  have "sched_ok C req starts s'" if ok: "sched_ok C req starts s"
  proof -
    have l2: "list_all2 (existing_inv (scTE C) req) (fst starts) (sExistingNodes s)" using ok by (simp add: sched_ok_def)
    then have "existing_inv (scTE C) req (fst starts ! i) n"
      using existing_add[where req = req, OF _ can add assms(2,3) wf_GetVolumes[OF vols]] i by (simp add: list_all2_conv_all_nth)
    then have "list_all2 (existing_inv (scTE C) req) ((fst starts)[i := fst starts ! i]) ((sExistingNodes s)[i := n])"
      using l2 by (intro list_all2_update_cong)
    moreover have "lim_ok (snd starts) s'" using ok by (simp add: sched_ok_def lim_ok_def s')
    ultimately show ?thesis using ok by (simp add: sched_ok_def s')
  qed
  then show ?thesis
    using mset_concat_update[of i "sExistingNodes s" exPods n p podUID, OF i pods] by (simp add: moves_def placed_def s')
qed

lemma NodeClaim_Add_pods: "NodeClaim_Add NE p pd pl (n, t, rm) = Some (n', t', rm') \<Longrightarrow> ifPods n' = ifPods n @ [p]"
  by (auto simp: NodeClaim_Add_def Let_def split: prod.splits option.splits)

lemma CanAdd_types:
  assumes "NodeClaim_CanAdd NE t rm n p pd relax = Ok pl" "NodeClaim_Add NE p pd pl (n, t', rm') = Some (n', t'', rm'')"
  shows "set (claim_types n') \<subseteq> set (claim_types n)" "claim_types n' \<noteq> []" "claim_pool n' = claim_pool n"
proof -
  obtain rs remaining ofs where pl: "pl = (rs, remaining, ofs)" by (cases pl)
  from CanAdd_Ok(2)[OF assms(1)[unfolded pl]] obtain rs0 keys where
    f: "filterInstanceTypesByRequirements NE (nctInstanceTypeOptions (ifTemplate n)) rs0 p (pdRequests pd)
       (ifDaemonOverheadGroups n) (Merge [specRequests (nctSpec (ifTemplate n)), pdRequests pd]) relax = Some (remaining, keys, None)"
    by blast
  have n': "claim_types n' = remaining" "claim_pool n' = claim_pool n"
    using assms(2) by (auto simp: NodeClaim_Add_def pl Let_def claim_types_def claim_pool_def split: option.splits)
  show "set (claim_types n') \<subseteq> set (claim_types n)" using filterInstanceTypes_sound[OF f] unfolding n' by (auto simp: claim_types_def)
  show "claim_types n' \<noteq> []"
    using f unfolding n' by (auto simp: filterInstanceTypesByRequirements_def Let_def split: option.splits if_splits)
  show "claim_pool n' = claim_pool n" by (rule n'(2))
qed

lemma commit_inflight_moves:
  assumes "commit_inflight C s p pd i pl = Some s'" "i < length (sNewNodeClaims s)"
    "NodeClaim_CanAdd (scNE C) (sTopology s) (sReservations s) (sNewNodeClaims s ! i) p pd relax = Ok pl"
    "pdRequests pd = req p" "\<forall>p. wf_map (req p)"
  shows "moves C req starts {#podUID p#} s s'"
proof -
  from assms(1) obtain n t rm where add: "NodeClaim_Add (scNE C) p pd pl (sNewNodeClaims s ! i, sTopology s, sReservations s) = Some (n, t, rm)"
    and s': "s' = s\<lparr>sNewNodeClaims := (sNewNodeClaims s)[i := n], sTopology := t, sReservations := rm\<rparr>"
    by (auto simp: commit_inflight_def)
  note pods = NodeClaim_Add_pods[OF add]
  have "sched_ok C req starts s'" if ok: "sched_ok C req starts s"
  proof -
    have "claim_inv (scNE C) req (sNewNodeClaims s ! i)" using ok assms(2) by (simp add: sched_ok_def)
    then have "claim_inv (scNE C) req n" using joins_inv join[where req = req, OF assms(3,4) add] assms(5) by blast
    moreover have "lim_ok (snd starts) s'"
      by (rule lim_ok_update[OF _ assms(2) CanAdd_types(3,1)[OF assms(3) add]]) (use ok in \<open>simp_all add: sched_ok_def s'\<close>)
    ultimately show ?thesis using ok pods by (auto simp: sched_ok_def s' dest: set_update_subset_insert[THEN subsetD])
  qed
  then show ?thesis
    using mset_concat_update[of i "sNewNodeClaims s" ifPods n p podUID, OF assms(2) pods] by (simp add: moves_def placed_def s')
qed

lemma addToInflightNode_moves:
  assumes "addToInflightNode C s p pd = Some (Some s')" "pdRequests pd = req p" "\<forall>p. wf_map (req p)"
  shows "moves C req starts {#podUID p#} s s'"
proof -
  from assms(1) obtain i pl where
    found: "first_ok (\<lambda>n. NodeClaim_CanAdd (scNE C) (sTopology s) (sReservations s) n p pd False) 0 (sNewNodeClaims s) = Some (Some (i, pl))"
    and commit: "commit_inflight C s p pd i pl = Some s'"
    by (auto simp: addToInflightNode_def split: bind_splits option.splits)
  show ?thesis using commit_inflight_moves[OF commit _ _ assms(2,3), of False starts] first_ok_found[OF found] by auto
qed

section \<open>New NodeClaims\<close>

lemma annotate_simps [simp]:
  "nctRequirements (annotate_template pool v nct) = nctRequirements nct"
  "nctSpec (annotate_template pool v nct) = nctSpec nct"
  "nctInstanceTypeOptions (annotate_template pool v nct) = nctInstanceTypeOptions nct"
  "nctNodePoolName (annotate_template pool v nct) = nctNodePoolName nct"
  by (simp_all add: annotate_template_def)

lemma claim_inv_annotated [simp]: "claim_inv NE req (n\<lparr>ifTemplate := annotate_template pool v (ifTemplate n)\<rparr>) = claim_inv NE req n"
  by (simp add: claim_inv_def Let_def)

lemma write_annotation_lim: "lim_ok init s \<Longrightarrow> lim_ok init (write_annotation pool v s)"
  by (rule lim_ok_cong) (auto simp: write_annotation_def claim_pool_def claim_types_def comp_def)

lemma write_annotation_moves: "moves C req starts {#} s (write_annotation pool v s)"
proof -
  have "sched_ok C req starts (write_annotation pool v s)" if "sched_ok C req starts s"
    using that write_annotation_lim[of "snd starts" s] by (auto simp: sched_ok_def write_annotation_def)
  then show ?thesis by (auto simp: moves_def placed_def write_annotation_def comp_def)
qed

lemma template_selectors:
  "ifTemplate (n\<lparr>ifTemplate := x\<rparr>) = x" "ifDaemonOverheadGroups (n\<lparr>ifTemplate := x\<rparr>) = ifDaemonOverheadGroups n"
  "ifHostname (n\<lparr>ifTemplate := x\<rparr>) = ifHostname n" "ifReservedOfferings (n\<lparr>ifTemplate := x\<rparr>) = ifReservedOfferings n"
  "ifReservedOfferingMode (n\<lparr>ifTemplate := x\<rparr>) = ifReservedOfferingMode n"
  "ifInstanceTypesBeforeLimits (n\<lparr>ifTemplate := x\<rparr>) = ifInstanceTypesBeforeLimits n" "ifPods (n\<lparr>ifTemplate := x\<rparr>) = ifPods n"
  by simp_all

lemma CanAdd_annotated:
  "NodeClaim_CanAdd NE t rm (n\<lparr>ifTemplate := annotate_template pool v (ifTemplate n)\<rparr>) p pd relax = NodeClaim_CanAdd NE t rm n p pd relax"
  unfolding NodeClaim_CanAdd_def tryVolumeAlternative_def instanceTypeFilterFailureIsInvariant_def incompatibleIgnoringLimits_def
    offeringsToReserve_def template_selectors annotate_simps ..

lemma template_loop_Ok:
  "template_loop C s p pd i tmpls errs = Ok (j, n, pl) \<Longrightarrow> \<exists>k tmpl. tmpl \<in> set tmpls \<and> template_verdict C s p pd k tmpl = Ok (n, pl)"
proof (induction tmpls arbitrary: i errs)
  case (Cons tmpl tmpls)
  show ?case
  proof (cases "template_verdict C s p pd i tmpl")
    case (Err e)
    then have "template_loop C s p pd (Suc i) tmpls (errs @ [e]) = Ok (j, n, pl)" using Cons.prems by (auto split: if_splits)
    from Cons.IH[OF this] show ?thesis by auto
  qed (use Cons.prems in \<open>auto simp del: split_paired_Ex\<close>)
qed simp

lemma try_template_Ok:
  assumes "try_template C s p pd i tmpl its = Ok (n, pl)"
  shows "NodeClaim_CanAdd (scNE C) (sTopology s) (sReservations s) n p pd (sBestEffort s) = Ok pl"
    "tmpl_ok (offers tmpl) \<Longrightarrow> claim_inv (scNE C) req n" "ifPods n = []" "nctInstanceTypeOptions (ifTemplate n) = its"
    "nctNodePoolName (ifTemplate n) = nctNodePoolName (fst tmpl)"
proof -
  from assms obtain n0 where n0: "NewNodeClaim (scNE C) (scNodeID C (sSearches s) i) (fst tmpl) (snd tmpl) its (sMode s) = Some n0"
    and n: "n = (if length its \<noteq> length (nctInstanceTypeOptions (fst tmpl))
        then n0\<lparr>ifInstanceTypesBeforeLimits := Some (nctInstanceTypeOptions (fst tmpl))\<rparr> else n0)"
    and can: "NodeClaim_CanAdd (scNE C) (sTopology s) (sReservations s) n p pd (sBestEffort s) = Ok pl"
    by (auto simp: try_template_def Let_def rbind_Ok split: option.splits)
  have "claim_inv (scNE C) req (n0\<lparr>ifInstanceTypesBeforeLimits := x\<rparr>) = claim_inv (scNE C) req n0" for x
    by (simp add: claim_inv_def Let_def)
  then show "claim_inv (scNE C) req n" if "tmpl_ok (offers tmpl)" using NewNodeClaim_inv[OF n0] that by (simp add: n tmpl_ok_def)
  show "NodeClaim_CanAdd (scNE C) (sTopology s) (sReservations s) n p pd (sBestEffort s) = Ok pl" by fact
  show "ifPods n = []" "nctInstanceTypeOptions (ifTemplate n) = its" "nctNodePoolName (ifTemplate n) = nctNodePoolName (fst tmpl)"
    using n0 by (auto simp: n NewNodeClaim_def Let_def split: option.splits)
qed

text \<open>The instance types a template tries respect what the limits of its NodePool leave.\<close>

lemma template_verdict_Ok:
  assumes "template_verdict C s p pd i tmpl = Ok (n, pl)"
  obtains its where "try_template C s p pd i tmpl its = Ok (n, pl)"
    "\<And>remaining. map_of (sRemainingResources s) (nctNodePoolName (fst tmpl)) = Some remaining \<Longrightarrow>
       its = filterByRemainingResources (nctInstanceTypeOptions (fst tmpl)) remaining"
    "set its \<subseteq> set (nctInstanceTypeOptions (fst tmpl))"
proof (cases "map_of (sRemainingResources s) (nctNodePoolName (fst tmpl))")
  case None
  then show ?thesis using assms that[of "nctInstanceTypeOptions (fst tmpl)"] by (simp add: template_verdict_def Let_def)
next
  case (Some remaining)
  then show ?thesis
    using assms that[of "filterByRemainingResources (nctInstanceTypeOptions (fst tmpl)) remaining"]
    by (auto simp: template_verdict_def Let_def filterByRemainingResources_def split: option.splits if_splits)
qed

lemma moves_searches: "moves C req starts u (s\<lparr>sSearches := c\<rparr>) s' = moves C req starts u s s'"
  by (simp add: moves_def sched_ok_def placed_def lim_ok_def)

lemma evaluate_moves:
  assumes "evaluateNewNodeClaim C s p pd = Some (s', r)"
  shows "moves C req starts {#} s s'" "sTopology s' = sTopology s" "sReservations s' = sReservations s"
    "sRemainingResources s' = sRemainingResources s"
proof -
  let ?s = "s\<lparr>sSearches := Suc (sSearches s)\<rparr>"
  from assms have s': "s' = ?s \<or> (\<exists>pool v. s' = write_annotation pool v ?s)"
    by (auto simp: evaluateNewNodeClaim_def Let_def split: result.splits)
  have "moves C req starts {#} ?s s'"
    using s' write_annotation_moves[of C req starts ?s] by (auto simp: moves_def)
  then show "moves C req starts {#} s s'" unfolding moves_searches .
  show "sTopology s' = sTopology s" "sReservations s' = sReservations s" "sRemainingResources s' = sRemainingResources s"
    using s' by (auto simp: write_annotation_def)
qed

lemma evaluate_fresh:
  assumes "evaluateNewNodeClaim C s p pd = Some (s', Inr (n, pl))"
  shows "NodeClaim_CanAdd (scNE C) (sTopology s) (sReservations s) n p pd (sBestEffort s) = Ok pl"
    "ifPods n = []"
    "\<exists>tmpl \<in> set (sTemplates s). set (claim_types n) \<subseteq> set (nctInstanceTypeOptions (fst tmpl)) \<and>
       (tmpl_ok (offers tmpl) \<longrightarrow> claim_inv (scNE C) req n)"
    "\<And>remaining. map_of (sRemainingResources s) (claim_pool n) = Some remaining \<Longrightarrow>
       \<exists>its. claim_types n = filterByRemainingResources its remaining"
proof -
  from assms obtain j n0 v where loop: "template_loop C s p pd 0 (sTemplates s) [] = Ok (j, n0, pl)"
    and n: "n = n0\<lparr>ifTemplate := annotate_template (nctNodePoolName (ifTemplate n0)) v (ifTemplate n0)\<rparr>"
    by (fastforce simp: evaluateNewNodeClaim_def Let_def split: result.splits)
  from template_loop_Ok[OF loop] obtain k tmpl where tmpl: "tmpl \<in> set (sTemplates s)"
    and v: "template_verdict C s p pd k tmpl = Ok (n0, pl)" by blast
  from v obtain its where t: "try_template C s p pd k tmpl its = Ok (n0, pl)"
    and its: "\<And>remaining. map_of (sRemainingResources s) (nctNodePoolName (fst tmpl)) = Some remaining \<Longrightarrow>
       its = filterByRemainingResources (nctInstanceTypeOptions (fst tmpl)) remaining"
      "set its \<subseteq> set (nctInstanceTypeOptions (fst tmpl))"
    by (rule template_verdict_Ok) blast
  note ok = try_template_Ok[OF t]
  show "NodeClaim_CanAdd (scNE C) (sTopology s) (sReservations s) n p pd (sBestEffort s) = Ok pl"
    unfolding n CanAdd_annotated by (rule ok(1))
  show "ifPods n = []" using ok(3) by (simp add: n)
  show "\<exists>tmpl \<in> set (sTemplates s). set (claim_types n) \<subseteq> set (nctInstanceTypeOptions (fst tmpl)) \<and>
      (tmpl_ok (offers tmpl) \<longrightarrow> claim_inv (scNE C) req n)"
    using tmpl its(2) ok(2,4) by (intro bexI[of _ tmpl]) (simp_all add: n claim_types_def)
  show "\<exists>its. claim_types n = filterByRemainingResources its remaining"
    if "map_of (sRemainingResources s) (claim_pool n) = Some remaining" for remaining
    using that ok(4,5) its(1) by (auto simp: n claim_types_def claim_pool_def)
qed

lemma filterByRemaining_room:
  "it \<in> set (filterByRemainingResources its remaining) \<Longrightarrow> mhas remaining k \<Longrightarrow> qty (itCapacity it) k \<le> qty remaining k"
  by (cases "map_of remaining k")
    (auto simp: filterByRemainingResources_def list_all_iff not_less mget_def[of _ remaining] dest: map_of_SomeD)

lemma commitNew_moves:
  assumes "commitNewNodeClaim C s p pd (n, pl) = Some s'"
    "NodeClaim_CanAdd (scNE C) (sTopology s) (sReservations s) n p pd relax = Ok pl" "ifPods n = []"
    "pdRequests pd = req p" "\<forall>p. wf_map (req p)"
    "lim_ok (snd starts) s \<Longrightarrow> caps_ok (claim_types n) \<and> claim_inv (scNE C) req n"
    "\<And>remaining. map_of (sRemainingResources s) (claim_pool n) = Some remaining \<Longrightarrow>
       \<exists>its. claim_types n = filterByRemainingResources its remaining"
  shows "moves C req starts {#podUID p#} s s'"
proof -
  from assms(1) obtain n' t rm where add: "NodeClaim_Add (scNE C) p pd pl (n, sTopology s, sReservations s) = Some (n', t, rm)"
    and s': "sNewNodeClaims s' = sNewNodeClaims s @ [n']" "sExistingNodes s' = sExistingNodes s" "sPodData s' = sPodData s"
      "sToleratePreferNoSchedule s' = sToleratePreferNoSchedule s" "sTemplates s' = sTemplates s"
      "sRemainingResources s' = mput (claim_pool n') (subtractMax (mget [] (sRemainingResources s) (claim_pool n')) (claim_types n'))
         (sRemainingResources s)"
    by (auto simp: commitNewNodeClaim_def Let_def claim_pool_def claim_types_def)
  note types = CanAdd_types[OF assms(2) add]
  have "lim_ok (snd starts) s'" if lim: "lim_ok (snd starts) s"
  proof (rule lim_ok_new[OF lim _ types(2) _ s'(5,1,6)])
    show "caps_ok (claim_types n')" using assms(6)[OF lim] types(1) by (auto simp: caps_ok_def)
    show "qty (itCapacity it) k \<le> qty remaining k"
      if "map_of (sRemainingResources s) (claim_pool n') = Some remaining" "it \<in> set (claim_types n')" "mhas remaining k" for remaining it k
      using assms(7)[of remaining] filterByRemaining_room[of it _ remaining k] that types(1,3) by auto
  qed
  moreover have "claim_inv (scNE C) req n'" if "lim_ok (snd starts) s"
    using joins_inv join[where req = req, OF assms(2,4) add] assms(5) assms(6)[OF that] by blast
  ultimately show ?thesis using NodeClaim_Add_pods[OF add] assms(3) by (auto simp: moves_def sched_ok_def placed_def s'(1-4))
qed

lemma commit_fresh_moves:
  assumes "evaluateNewNodeClaim C s p pd = Some (s1, Inr (n, pl))" "commitNewNodeClaim C s1 p pd (n, pl) = Some s'"
    "pdRequests pd = req p" "\<forall>p. wf_map (req p)"
  shows "moves C req starts {#podUID p#} s1 s'"
proof -
  note m = evaluate_moves(2-4)[OF assms(1)] and f = evaluate_fresh[OF assms(1)]
  have "map offers (sTemplates s1) = map offers (sTemplates s)"
    using assms(1) by (auto simp: evaluateNewNodeClaim_def Let_def write_annotation_def split: result.splits)
  from arg_cong[OF this, of set] have tmpls: "offers ` set (sTemplates s1) = offers ` set (sTemplates s)" by simp
  have "caps_ok (claim_types n) \<and> claim_inv (scNE C) req n" if lim: "lim_ok (snd starts) s1"
  proof -
    obtain tmpl where "tmpl \<in> set (sTemplates s)" and sub: "set (claim_types n) \<subseteq> set (nctInstanceTypeOptions (fst tmpl))"
      and inv: "tmpl_ok (offers tmpl) \<longrightarrow> claim_inv (scNE C) req n" using f(3)[of req] by blast
    then obtain u where "u \<in> set (sTemplates s1)" "offers tmpl = offers u" using tmpls by blast
    then have "tmpl_ok (offers tmpl)" using lim unfolding lim_ok_def by metis
    then show ?thesis using sub inv by (auto simp: tmpl_ok_def caps_ok_def)
  qed
  then show ?thesis
    using commitNew_moves[OF assms(2) f(1)[folded m(1,2)] f(2) assms(3,4), of starts] f(4) m(3) by auto
qed

lemma addToNewNodeClaim_moves:
  assumes "addToNewNodeClaim C s p pd = Some (s', err)" "pdRequests pd = req p" "\<forall>p. wf_map (req p)"
  shows "moves C req starts (if err = None then {#podUID p#} else {#}) s s'"
proof -
  from assms(1) obtain s1 r where ev: "evaluateNewNodeClaim C s p pd = Some (s1, r)"
    and rest: "(case r of Inl e \<Rightarrow> Some (s1, Some e) | Inr fresh \<Rightarrow> map_option (\<lambda>s. (s, None)) (commitNewNodeClaim C s1 p pd fresh)) = Some (s', err)"
    by (auto simp: addToNewNodeClaim_def split: bind_splits)
  note m = evaluate_moves(1)[OF ev, of req starts] evaluate_moves(2-4)[OF ev]
  show ?thesis
  proof (cases r)
    case (Inl e)
    with rest m(1) show ?thesis by auto
  next
    case (Inr fresh)
    obtain n pl where fresh: "fresh = (n, pl)" by (cases fresh)
    from rest Inr fresh have c: "commitNewNodeClaim C s1 p pd (n, pl) = Some s'" and e: "err = None" by auto
    show ?thesis
      using moves_after[OF m(1) commit_fresh_moves[OF ev[unfolded Inr fresh] c assms(2,3)]] e by simp
  qed
qed

section \<open>Marginal cost\<close>

lemma inflightPlacements_Ok:
  "inflightPlacements C s p pd i ns = Some cs \<Longrightarrow> (j, pl, d) \<in> set cs \<Longrightarrow>
   i \<le> j \<and> j < i + length ns \<and> NodeClaim_CanAdd (scNE C) (sTopology s) (sReservations s) (ns ! (j - i)) p pd False = Ok pl"
proof (induction ns arbitrary: i cs)
  case (Cons n ns)
  have later: ?case if "inflightPlacements C s p pd (Suc i) ns = Some cs'" "(j, pl, d) \<in> set cs'" for cs'
  proof -
    from Cons.IH[OF that] have "Suc i \<le> j" "j < Suc i + length ns"
      "NodeClaim_CanAdd (scNE C) (sTopology s) (sReservations s) (ns ! (j - Suc i)) p pd False = Ok pl" by auto
    moreover from this have "j - i = Suc (j - Suc i)" by simp
    ultimately show ?thesis by simp
  qed
  show ?case
  proof (cases "NodeClaim_CanAdd (scNE C) (sTopology s) (sReservations s) n p pd False")
    case (Ok pl')
    with Cons.prems(1) obtain d' cs' where cs: "cs = (i, pl', d') # cs'" and r: "inflightPlacements C s p pd (Suc i) ns = Some cs'"
      by (auto split: bind_splits if_splits)
    show ?thesis using Cons.prems(2) later[OF r] Ok by (auto simp: cs)
  qed (use Cons.prems later in auto)
qed simp

lemma cheapest_member:
  assumes "cheapestInflightPlacement cs = Some c"
  shows "c \<in> set cs"
proof -
  have "foldl cheaper_placement b xs = Some c \<Longrightarrow> c \<in> set xs \<or> b = Some c" for xs b
    by (induction xs arbitrary: b) (auto simp: cheaper_placement_def split: option.splits if_splits)
  from this[of None cs] assms show ?thesis by (simp add: cheapestInflightPlacement_def)
qed

lemma evaluate_claims:
  assumes "evaluateNewNodeClaim C s p pd = Some (s', r)"
  shows "length (sNewNodeClaims s') = length (sNewNodeClaims s)"
    "i < length (sNewNodeClaims s) \<Longrightarrow>
     NodeClaim_CanAdd NE t rm (sNewNodeClaims s' ! i) p' pd' relax = NodeClaim_CanAdd NE t rm (sNewNodeClaims s ! i) p' pd' relax"
  using assms by (auto simp: evaluateNewNodeClaim_def Let_def write_annotation_def CanAdd_annotated split: result.splits)

lemma addByMarginalCost_moves:
  assumes run: "addByMarginalCost C s p pd = Some (s', err)" and req: "pdRequests pd = req p" "\<forall>p. wf_map (req p)"
  shows "moves C req starts (if err = None then {#podUID p#} else {#}) s s'"
proof -
  obtain cs where cs: "inflightPlacements C s p pd 0 (sNewNodeClaims s) = Some cs"
    using run by (auto simp: addByMarginalCost_def split: bind_splits)
  show ?thesis
  proof (cases "cheapestInflightPlacement cs")
    case None
    then show ?thesis
      using run cs addToNewNodeClaim_moves[OF _ req, of C s s' err starts]
      by (auto simp: addByMarginalCost_def moves_def split: if_splits)
  next
    case (Some c)
    obtain i pl delta u where c: "c = (i, pl, delta, u)" by (cases c)
    note can = inflightPlacements_Ok[OF cs cheapest_member[OF Some[unfolded c]]]
    have inflight: "moves C req starts {#podUID p#} s t" if "commit_inflight C s p pd i pl = Some t" for t
      using commit_inflight_moves[OF that _ _ req, of False starts] can by auto
    show ?thesis
    proof (cases "delta > 0")
      case False
      then show ?thesis using run inflight by (auto simp: addByMarginalCost_def cs Some c)
    next
      case True
      with run obtain s1 r cheaper where ev: "evaluateNewNodeClaim C s p pd = Some (s1, r)" and err: "err = None"
        and rest: "(case r of Inr fresh \<Rightarrow> if cheaper then commitNewNodeClaim C s1 p pd fresh else commit_inflight C s1 p pd i pl
              | Inl e \<Rightarrow> commit_inflight C s1 p pd i pl) = Some s'"
        by (auto simp: addByMarginalCost_def cs Some c split: bind_splits)
      note m = evaluate_moves(1)[OF ev, of req starts] evaluate_moves(2-4)[OF ev]
      have can1: "i < length (sNewNodeClaims s1)"
        "NodeClaim_CanAdd (scNE C) (sTopology s1) (sReservations s1) (sNewNodeClaims s1 ! i) p pd False = Ok pl"
        using can evaluate_claims[OF ev] by (simp_all add: m(2,3))
      have stay: "moves C req starts {#podUID p#} s1 t" if "commit_inflight C s1 p pd i pl = Some t" for t
        using commit_inflight_moves[OF that can1 req] .
      have "moves C req starts {#podUID p#} s1 s'"
      proof (cases "\<exists>fresh. r = Inr fresh \<and> cheaper")
        case True
        then obtain n pl' where r: "r = Inr (n, pl')" "cheaper" by fastforce
        show ?thesis using commit_fresh_moves[OF ev[unfolded r] _ req] rest r by auto
      next
        case False
        then show ?thesis using rest stay by (auto split: sum.splits if_splits)
      qed
      then show ?thesis using moves_after[OF m(1)] err by simp
    qed
  qed
qed

lemma shadow_moves:
  assumes "shadowMarginalCost C s p pd = Some (s', r)"
  shows "moves C req starts {#} s s'"
proof -
  have "s' = s \<or> (\<exists>r. evaluateNewNodeClaim C s p pd = Some (s', r))"
    using assms
    by (auto simp: shadowMarginalCost_def Let_def split: if_splits bind_splits list.splits option.splits sum.splits prod.splits)
  then show ?thesis
  proof
    show ?thesis if "s' = s" using that by (simp add: moves_def)
    show ?thesis if "\<exists>r. evaluateNewNodeClaim C s p pd = Some (s', r)" using that evaluate_moves(1) by blast
  qed
qed

section \<open>One pod\<close>

text \<open>What the sort of the NodeClaims in flight is trusted with.\<close>

definition sorts_claims :: "'q sched_env \<Rightarrow> bool" where
  "sorts_claims C \<longleftrightarrow> sorts_by fewer_pods (scSortClaims C)"

lemma sort_moves:
  assumes "sorts_claims C"
  shows "moves C req starts {#} s (s\<lparr>sNewNodeClaims := scSortClaims C (sNewNodeClaims s)\<rparr>)"
proof -
  have m: "mset (scSortClaims C (sNewNodeClaims s)) = mset (sNewNodeClaims s)"
    using assms by (simp add: sorts_claims_def sorts_by_def)
  have "mset (map podUID (concat (map ifPods (scSortClaims C (sNewNodeClaims s))))) = mset (map podUID (concat (map ifPods (sNewNodeClaims s))))"
    using arg_cong[OF m, of "\<lambda>M. \<Sum>\<^sub># (image_mset (\<lambda>n. mset (map podUID (ifPods n))) M)"]
    by (simp add: mset_concat sum_mset_sum_list comp_def image_mset.compositionality map_concat flip: mset_map)
  moreover have "lim_ok init (s\<lparr>sNewNodeClaims := scSortClaims C (sNewNodeClaims s)\<rparr>)" if "lim_ok init s" for init
    using that by (rule lim_ok_cong) (simp_all add: m)
  ultimately show ?thesis using mset_eq_setD[OF m] by (simp add: moves_def sched_ok_def placed_def)
qed

lemma add_moves:
  assumes run: "Scheduler_add C s p = Some (s', err)" and sorts: "sorts_claims C"
    and data: "\<And>pd. map_of (sPodData s) (podUID p) = Some pd \<Longrightarrow> pdRequests pd = req p" and wf: "\<forall>p. wf_map (req p)"
  shows "moves C req starts (if err = None then {#podUID p#} else {#}) s s'"
proof -
  obtain pd where pd: "map_of (sPodData s) (podUID p) = Some pd" using run by (auto simp: Scheduler_add_def split: option.splits)
  note req = data[OF pd]
  show ?thesis
  proof (cases "pdHasResourceClaimRequests pd \<and> scIgnoreDRA C")
    case True
    then show ?thesis using run pd by (auto simp: Scheduler_add_def moves_def)
  next
    case False
    then obtain r where r: "addToExistingNode C s p pd = Some r"
      using run pd by (auto simp: Scheduler_add_def split: bind_splits)
    show ?thesis
    proof (cases r)
      case (Some t)
      then show ?thesis
        using run pd False r addToExistingNode_moves[OF r[unfolded Some], of req starts] req wf by (auto simp: Scheduler_add_def)
    next
      case None
      define s1 where "s1 = s\<lparr>sNewNodeClaims := scSortClaims C (sNewNodeClaims s)\<rparr>"
      have m1: "moves C req starts {#} s s1" unfolding s1_def by (rule sort_moves[OF sorts])
      have "moves C req starts (if err = None then {#podUID p#} else {#}) s1 s'"
      proof (cases "sPricePlacements s1")
        case True
        then have "addByMarginalCost C s1 p pd = Some (s', err)"
          using run pd False r None by (simp add: Scheduler_add_def Let_def s1_def)
        then show ?thesis using addByMarginalCost_moves req wf by blast
      next
        case priced: False
        then obtain s2 r2 where s2: "(if sShadowPricePlacements s1 then map_option fst (shadowMarginalCost C s1 p pd) else Some s1) = Some s2"
          and r2: "addToInflightNode C s2 p pd = Some r2"
          and rest: "(case r2 of Some s' \<Rightarrow> Some (s', None) | None \<Rightarrow>
              if sTemplates s2 = [] then Some (s2, Some errNoNodeClaimTemplates) else addToNewNodeClaim C s2 p pd) = Some (s', err)"
          using run pd False r None unfolding Scheduler_add_def Let_def s1_def[symmetric] by (auto split: bind_splits)
        have m2: "moves C req starts {#} s1 s2" using s2 shadow_moves[of C s1 p pd s2 _ req starts] by (auto simp: moves_def split: if_splits)
        have "moves C req starts (if err = None then {#podUID p#} else {#}) s2 s'"
        proof (cases r2)
          case (Some t)
          then show ?thesis using rest addToInflightNode_moves[OF r2[unfolded Some]] req wf by auto
        next
          case None
          then show ?thesis
            using rest addToNewNodeClaim_moves[of C s2 p pd s' err req starts] req wf by (auto simp: moves_def split: if_splits)
        qed
        then show ?thesis using moves_after[OF m2] by blast
      qed
      then show ?thesis using moves_after[OF m1] by blast
    qed
  qed
qed

section \<open>Relaxing a pod\<close>

abbreviation pod_requests :: "'q::linordered_ab_group_add sched_env \<Rightarrow> Pod \<Rightarrow> 'q ResourceList" where
  "pod_requests C p \<equiv> RequestsForPods (seRequests (scState C)) (seNewQuantity (scState C)) [p]"

definition data_ok :: "'q::linordered_ab_group_add sched_env \<Rightarrow> 'q Scheduler \<Rightarrow> Pod \<Rightarrow> bool" where
  "data_ok C s p \<longleftrightarrow> (\<forall>pd. map_of (sPodData s) (podUID p) = Some pd \<longrightarrow> pdRequests pd = pod_requests C p)"

definition tried ::
  "'q::linordered_ab_group_add sched_env \<Rightarrow> 'q run_start \<Rightarrow> string multiset \<Rightarrow> string \<Rightarrow> 'q Scheduler \<Rightarrow> 'q Scheduler \<Rightarrow> bool" where
  "tried C starts u uid s s' \<longleftrightarrow>
     (sched_ok C (pod_requests C) starts s \<longrightarrow> sched_ok C (pod_requests C) starts s') \<and> placed s' = placed s + u \<and>
     sToleratePreferNoSchedule s' = sToleratePreferNoSchedule s \<and>
     (\<forall>k. k \<noteq> uid \<longrightarrow> map_of (sPodData s') k = map_of (sPodData s) k)"

lemma tried_trans: "tried C starts u uid s t \<Longrightarrow> tried C starts v uid t r \<Longrightarrow> tried C starts (u + v) uid s r"
  by (simp add: tried_def)

lemma moves_tried: "moves C (pod_requests C) starts u s s' \<Longrightarrow> tried C starts u uid s s'"
  by (simp add: moves_def tried_def)

lemma follow_pod_tried:
  assumes "follow_pod C p s = Some s'"
  shows "tried C starts {#} (podUID p) s s'" "data_ok C s' p"
proof -
  from assms obtain t pd where s': "s' = s\<lparr>sTopology := t, sPodData := mput (podUID p) pd (sPodData s)\<rparr>"
    and pd: "pdRequests pd = pod_requests C p"
    by (auto simp: follow_pod_def updateCachedPodData_def Let_def split: bind_splits)
  show "tried C starts {#} (podUID p) s s'" by (simp add: tried_def sched_ok_def placed_def lim_ok_def map_of_mput s')
  show "data_ok C s' p" by (simp add: data_ok_def map_of_mput s' pd)
qed

text \<open>The parameters a run relies on.\<close>

definition sound_env :: "'q::linordered_ab_group_add sched_env \<Rightarrow> bool" where
  "sound_env C \<longleftrightarrow> sorts_claims C \<and> (\<forall>p. wf_map (seRequests (scState C) p)) \<and>
     scMatchToleration C prefer_no_schedule_toleration prefer_no_schedule_toleration"

lemma sound_requests: "sound_env C \<Longrightarrow> \<forall>p. wf_map (pod_requests C p)"
  by (auto simp: sound_env_def RequestsForPods_def intro!: wf_map_mput wf_Merge)

lemma moves_checks: "moves C req starts u (s\<lparr>sChecks := c\<rparr>) s' = moves C req starts u s s'"
  by (simp add: moves_def sched_ok_def placed_def lim_ok_def)

lemma add_tried:
  assumes "Scheduler_add C (s\<lparr>sChecks := c\<rparr>) p = Some (s', err)" "sound_env C" "data_ok C s p"
  shows "tried C starts (if err = None then {#podUID p#} else {#}) (podUID p) s s'"
proof -
  have "moves C (pod_requests C) starts (if err = None then {#podUID p#} else {#}) (s\<lparr>sChecks := c\<rparr>) s'"
  proof (rule add_moves[OF assms(1)])
    show "sorts_claims C" using assms(2) by (simp add: sound_env_def)
    show "pdRequests pd = pod_requests C p" if "map_of (sPodData (s\<lparr>sChecks := c\<rparr>)) (podUID p) = Some pd" for pd
      using that assms(3) by (simp add: data_ok_def)
    show "\<forall>p. wf_map (pod_requests C p)" by (rule sound_requests[OF assms(2)])
  qed
  then show ?thesis unfolding moves_checks by (rule moves_tried)
qed

text \<open>One round of the loop: it ends, or the relaxed pod is tried with less fuel.\<close>

definition round_ends :: "'q::linordered_ab_group_add sched_env \<Rightarrow> 'q Scheduler \<Rightarrow> Pod \<Rightarrow> bool" where
  "round_ends C s p \<longleftrightarrow>
     scExpired C (sChecks s) \<or>
     (case Scheduler_add C (s\<lparr>sChecks := Suc (sChecks s)\<rparr>) p of
        Some (t, Some e) \<Rightarrow> IsReservedOfferingError e \<or> IsDRAError e \<or>
          (case Relax (scMatchToleration C) (sToleratePreferNoSchedule t) p of None \<Rightarrow> True | Some p' \<Rightarrow> follow_pod C p' t = None)
      | _ \<Rightarrow> True)"

definition tried_result ::
  "'q::linordered_ab_group_add sched_env \<Rightarrow> 'q run_start \<Rightarrow> 'q Scheduler \<Rightarrow> string \<Rightarrow>
   (unit, 'q Scheduler \<times> 'q sched_error option) result \<Rightarrow> bool" where
  "tried_result C starts s uid r \<longleftrightarrow>
     (case r of
        Panic \<Rightarrow> True
      | Err _ \<Rightarrow> False
      | Ok (s', err) \<Rightarrow> tried C starts (if err = None then {#uid#} else {#}) uid s s')"

lemma try_round_ends:
  assumes "round_ends C s p" "sound_env C" "data_ok C s p"
  shows "tried_result C starts s (podUID p) (try_loop C fuel s p)"
proof (cases "scExpired C (sChecks s)")
  case True
  then show ?thesis by (simp add: try_loop.simps[of C fuel s p] tried_result_def tried_def sched_ok_def placed_def lim_ok_def)
next
  case live: False
  show ?thesis
  proof (cases "Scheduler_add C (s\<lparr>sChecks := Suc (sChecks s)\<rparr>) p")
    case None
    then show ?thesis using live by (simp add: try_loop.simps[of C fuel s p] tried_result_def)
  next
    case (Some r)
    obtain t err where r: "r = (t, err)" by (cases r)
    note t = add_tried[OF Some[unfolded r] assms(2,3), of starts]
    show ?thesis
    proof (cases err)
      case None
      then show ?thesis using live Some r t by (simp add: try_loop.simps[of C fuel s p] tried_result_def)
    next
      case e: (Some e)
      then show ?thesis
        using assms(1) live Some r t
        by (auto simp: try_loop.simps[of C fuel s p] tried_result_def round_ends_def split: option.splits)
    qed
  qed
qed

lemma try_round_continues:
  assumes "\<not> round_ends C s p" "sound_env C" "data_ok C s p"
  obtains p' s' where "\<And>fuel. try_loop C (Suc fuel) s p = try_loop C fuel s' p'" "tried C starts {#} (podUID p) s s'"
    "data_ok C s' p'" "podUID p' = podUID p" "sToleratePreferNoSchedule s' = sToleratePreferNoSchedule s"
    "soft_constraints (scMatchToleration C) (sToleratePreferNoSchedule s) p =
       Suc (soft_constraints (scMatchToleration C) (sToleratePreferNoSchedule s) p')"
proof -
  from assms(1) obtain t e p' s' where live: "\<not> scExpired C (sChecks s)"
    and add: "Scheduler_add C (s\<lparr>sChecks := Suc (sChecks s)\<rparr>) p = Some (t, Some e)"
    and e: "\<not> IsReservedOfferingError e" "\<not> IsDRAError e"
    and p': "Relax (scMatchToleration C) (sToleratePreferNoSchedule t) p = Some p'" and s': "follow_pod C p' t = Some s'"
    by (auto simp: round_ends_def split: option.splits prod.splits)
  note t = add_tried[OF add assms(2,3), of starts] and f = follow_pod_tried(1)[OF s', of starts] follow_pod_tried(2)[OF s']
  have tol: "sToleratePreferNoSchedule t = sToleratePreferNoSchedule s" "sToleratePreferNoSchedule s' = sToleratePreferNoSchedule s"
    using t f by (simp_all add: tried_def)
  have relaxed: "soft_constraints (scMatchToleration C) (sToleratePreferNoSchedule s) p =
       Suc (soft_constraints (scMatchToleration C) (sToleratePreferNoSchedule s) p')" "podUID p' = podUID p"
    using Relax_step[of "scMatchToleration C" "sToleratePreferNoSchedule t" p] assms(2) p' tol
    by (simp_all add: sound_env_def keeps_hard_def)
  show thesis
  proof (rule that[OF _ _ f(2) relaxed(2) tol(2) relaxed(1)])
    show "try_loop C (Suc fuel) s p = try_loop C fuel s' p'" for fuel
      using live add e p' s' by (simp add: try_loop.simps[of C "Suc fuel" s p])
    show "tried C starts {#} (podUID p) s s'" using tried_trans[OF t f(1)[unfolded relaxed(2)]] by simp
  qed
qed

lemma tried_result_after:
  assumes "tried C starts {#} uid s t" "tried_result C starts t uid r"
  shows "tried_result C starts s uid r"
proof (cases r)
  case (Ok x)
  then show ?thesis using assms(2) tried_trans[OF assms(1)] by (cases x) (auto simp: tried_result_def)
qed (use assms in \<open>simp_all add: tried_result_def\<close>)

lemma try_loop_tried:
  assumes "sound_env C"
  shows "soft_constraints (scMatchToleration C) (sToleratePreferNoSchedule s) p \<le> fuel \<Longrightarrow> data_ok C s p \<Longrightarrow>
    tried_result C starts s (podUID p) (try_loop C fuel s p)"
proof (induction fuel arbitrary: s p)
  case (0 s p)
  then show ?case
    by (cases "round_ends C s p") (auto intro: try_round_ends[OF _ assms] elim: try_round_continues[OF _ assms])
next
  case (Suc fuel s p)
  show ?case
  proof (cases "round_ends C s p")
    case True
    then show ?thesis using try_round_ends[OF _ assms] Suc.prems by blast
  next
    case False
    then obtain p' s' where r: "\<And>fuel. try_loop C (Suc fuel) s p = try_loop C fuel s' p'" "tried C starts {#} (podUID p) s s'"
      "data_ok C s' p'" "podUID p' = podUID p" "sToleratePreferNoSchedule s' = sToleratePreferNoSchedule s"
      "soft_constraints (scMatchToleration C) (sToleratePreferNoSchedule s) p =
         Suc (soft_constraints (scMatchToleration C) (sToleratePreferNoSchedule s) p')"
      using try_round_continues[OF _ assms Suc.prems(2)] by blast
    have "tried_result C starts s' (podUID p') (try_loop C fuel s' p')" using Suc.IH[OF _ r(3)] Suc.prems(1) r(5,6) by simp
    then show ?thesis using tried_result_after[OF r(2)] unfolding r(1,4) by blast
  qed
qed

lemma trySchedule_tried:
  "sound_env C \<Longrightarrow> data_ok C s p \<Longrightarrow> tried_result C starts s (podUID p) (trySchedule C s p)"
  unfolding trySchedule_def by (rule try_loop_tried) simp_all

section \<open>Only the context reports that the deadline passed\<close>

definition timely :: "'q sched_error \<Rightarrow> bool" where
  "timely e \<longleftrightarrow> e \<noteq> DeadlineExceeded \<and> e \<noteq> NodePoolIncompatibleError DeadlineExceeded"

lemma offeringsToReserve_timely: "offeringsToReserve NE rm n its rs = Err e \<Longrightarrow> timely e"
  by (auto simp: offeringsToReserve_def timely_def split: if_splits option.splits)

lemma rbind_Err: "rbind r f = Err e \<longleftrightarrow> r = Err e \<or> (\<exists>x. r = Ok x \<and> f x = Err e)"
  by (cases r) auto

lemma tryVolumeAlternative_timely: "tryVolumeAlternative NE t rm n pod pd base v relax = Err e \<Longrightarrow> timely e"
  unfolding tryVolumeAlternative_def Let_def rbind_Err
proof (elim disjE exE conjE)
  fix rs
  let ?add = "AddRequirements (neTopology NE) (neAllow NE) t pod (specTaints (nctSpec (ifTemplate n))) (pdStrictRequirements pd) rs"
  assume r: "(case ?add of Ok tr \<Rightarrow>
      if Requirements_Compatible (neLabels NE) (neAllow NE) rs tr \<noteq> []
      then Err (IncompatibleTopology (Requirements_Compatible (neLabels NE) (neAllow NE) rs tr))
      else (case filterInstanceTypesByRequirements NE (nctInstanceTypeOptions (ifTemplate n))
          (Requirements_Add (neLabels NE) rs (Requirements_Values tr)) pod (pdRequests pd) (ifDaemonOverheadGroups n)
          (Merge [specRequests (nctSpec (ifTemplate n)), pdRequests pd]) relax of
         None \<Rightarrow> Panic
       | Some (remaining, unsatisfiable, err) \<Rightarrow>
          (case err of
             None \<Rightarrow> rbind (offeringsToReserve NE rm n remaining
                 (if relax then relax_min_values unsatisfiable (Requirements_Add (neLabels NE) rs (Requirements_Values tr))
                  else Requirements_Add (neLabels NE) rs (Requirements_Values tr)))
               (\<lambda>ofs. Ok (if relax then relax_min_values unsatisfiable (Requirements_Add (neLabels NE) rs (Requirements_Values tr))
                  else Requirements_Add (neLabels NE) rs (Requirements_Values tr), remaining, ofs))
           | Some e \<Rightarrow>
               (case instanceTypeFilterFailureIsInvariant NE t n pod pd relax of
                  None \<Rightarrow> Panic
                | Some invariant \<Rightarrow>
                    Err (if invariant then NodePoolIncompatibleError (FilterError (e\<lparr>feRequirements :=
                         if relax then relax_min_values unsatisfiable (Requirements_Add (neLabels NE) rs (Requirements_Values tr))
                         else Requirements_Add (neLabels NE) rs (Requirements_Values tr)\<rparr>))
                       else FilterError (e\<lparr>feRequirements :=
                         if relax then relax_min_values unsatisfiable (Requirements_Add (neLabels NE) rs (Requirements_Values tr))
                         else Requirements_Add (neLabels NE) rs (Requirements_Values tr)\<rparr>)))))
    | Err tg \<Rightarrow> Err (UnsatisfiableTopology tg) | Panic \<Rightarrow> Panic) = Err e"
  show "timely e"
  proof (cases ?add)
    case (Ok tr)
    with r show ?thesis
      by (simp split: if_split_asm option.split_asm prod.split_asm)
        (auto simp: timely_def rbind_Err dest!: offeringsToReserve_timely)
  qed (use r in \<open>auto simp: timely_def\<close>)
qed (auto simp: timely_def split: option.splits if_splits)

lemma try_alternatives_timely:
  "(\<And>v e. f v = Err e \<Longrightarrow> timely e) \<Longrightarrow> timely l \<Longrightarrow> try_alternatives f vs l b = Err e \<Longrightarrow> e \<noteq> DeadlineExceeded"
proof (induction vs arbitrary: l b)
  case Nil
  then show ?case by (cases l) (auto simp: timely_def split: if_splits)
next
  case (Cons v vs)
  show ?case
  proof (cases "f v")
    case (Err e')
    then show ?thesis using Cons.IH[OF Cons.prems(1) Cons.prems(1)[OF Err]] Cons.prems(3) by simp
  qed (use Cons.prems in auto)
qed

lemma CanAdd_timely: "NodeClaim_CanAdd NE t rm n pod pd relax = Err e \<Longrightarrow> e \<noteq> DeadlineExceeded"
  unfolding NodeClaim_CanAdd_def Let_def
  by (auto split: if_splits simp: timely_def dest: try_alternatives_timely[rotated 2] intro: tryVolumeAlternative_timely)

lemma template_verdict_timely: "template_verdict C s p pd i tmpl = Err e \<Longrightarrow> e \<noteq> DeadlineExceeded"
  by (auto simp: template_verdict_def try_template_def limitRejection_def Let_def rbind_Err
      split: option.splits if_splits dest: CanAdd_timely)

lemma template_loop_timely:
  "template_loop C s p pd i tmpls errs = Err es \<Longrightarrow> DeadlineExceeded \<notin> set errs \<Longrightarrow> DeadlineExceeded \<notin> set es"
proof (induction tmpls arbitrary: i errs)
  case (Cons tmpl tmpls)
  show ?case
  proof (cases "template_verdict C s p pd i tmpl")
    case (Err e)
    then show ?thesis using Cons template_verdict_timely[OF Err] by (auto split: if_splits)
  qed (use Cons.prems in auto)
qed simp

lemma evaluate_timely: "evaluateNewNodeClaim C s p pd = Some (s', Inl e) \<Longrightarrow> e \<noteq> DeadlineExceeded"
  using template_loop_timely[of C s p pd 0 "sTemplates s" "[]"]
  by (auto simp: evaluateNewNodeClaim_def combine_errors_def Let_def split: result.splits list.splits)

lemma add_timely:
  assumes "Scheduler_add C s p = Some (s', Some e)"
  shows "e \<noteq> DeadlineExceeded"
proof -
  have new: "addToNewNodeClaim C t p pd = Some (t', Some e) \<Longrightarrow> e \<noteq> DeadlineExceeded" for t t' pd
    by (auto simp: addToNewNodeClaim_def split: bind_splits sum.splits dest: evaluate_timely)
  have "addByMarginalCost C t p pd = Some (t', Some e) \<Longrightarrow> e \<noteq> DeadlineExceeded" for t t' pd
    using new by (auto simp: addByMarginalCost_def errNoNodeClaimTemplates_def split: bind_splits option.splits if_splits)
  then show ?thesis
    using assms new
    by (auto simp: Scheduler_add_def Let_def errNoNodeClaimTemplates_def split: bind_splits option.splits if_splits)
qed

lemma try_loop_expired: "try_loop C fuel s p = Ok (s', Some DeadlineExceeded) \<Longrightarrow> \<exists>i. scExpired C i"
proof (induction fuel arbitrary: s p)
  case 0
  then show ?case by (subst (asm) try_loop.simps) (auto split: if_splits option.splits dest: add_timely)
next
  case (Suc fuel)
  from Suc.prems show ?case
    by (subst (asm) try_loop.simps) (auto split: if_splits option.splits dest: add_timely Suc.IH)
qed

end
