(* ===== verification/SolveLaws.thy ===== *)
theory SolveLaws
  imports SchedulerLaws ClusterLaws
begin

text \<open>
  What a run of the scheduler (\<^verbatim>\<open>Scheduler.Solve\<close>) promises: it ends, it places every pod at most once, it
  reports the pods it could not place, every place it gives has room, and it keeps the limits of NodePools.
\<close>

section \<open>The loop over all pods\<close>

definition cached :: "'q::linordered_ab_group_add sched_env \<Rightarrow> 'q Scheduler \<Rightarrow> Pod list \<Rightarrow> bool" where
  "cached C s ps \<longleftrightarrow> (\<forall>p \<in> set ps. data_ok C s p)"

definition solved ::
  "'q::linordered_ab_group_add sched_env \<Rightarrow> 'q run_start \<Rightarrow> 'q Scheduler \<Rightarrow> Pod list \<Rightarrow>
   (unit, 'q Scheduler \<times> 'q pod_errors \<times> Queue) result \<Rightarrow> bool" where
  "solved C starts s ps r \<longleftrightarrow>
     (case r of
        Panic \<Rightarrow> True
      | Err _ \<Rightarrow> False
      | Ok (s', errs, q) \<Rightarrow>
          (sched_ok C (pod_requests C) starts s \<longrightarrow> sched_ok C (pod_requests C) starts s') \<and>
          (\<exists>left. placed s' + mset (map podUID left) = placed s + mset (map podUID ps) \<and> set left \<subseteq> set ps \<and>
             dom (map_of errs) \<subseteq> set left \<and> ((\<forall>i. \<not> scExpired C i) \<longrightarrow> dom (map_of errs) = set left)))"

lemma tried_cached:
  assumes "tried C starts u (podUID p) s s'" "cached C s ps" "podUID p \<notin> podUID ` set ps"
  shows "cached C s' ps"
  using assms by (auto simp: tried_def cached_def data_ok_def image_iff)

lemma solved_placed:
  assumes t: "tried C starts {#podUID p#} (podUID p) s t" and r: "solved C starts t ps r"
  shows "solved C starts s (p # ps) r"
proof (cases r)
  case (Ok x)
  then obtain s' errs q where x: "r = Ok (s', errs, q)" by (cases x) auto
  then show ?thesis using t r unfolding solved_def tried_def by auto
qed (use r in \<open>simp_all add: solved_def\<close>)

lemma solved_requeued:
  assumes t: "tried C starts {#} (podUID p) s t" and r: "solved C starts t ps r" and ps: "mset ps = mset ps'"
  shows "solved C starts s ps' r"
proof (cases r)
  case (Ok x)
  then obtain s' errs q where x: "r = Ok (s', errs, q)" by (cases x) auto
  have "mset (map podUID ps) = mset (map podUID ps')" "set ps = set ps'" using ps by (simp, metis set_mset_mset)
  then show ?thesis using t r x unfolding solved_def tried_def by auto
qed (use r in \<open>simp_all add: solved_def\<close>)

lemma solve_stops:
  assumes "queue_inv q fresh stale" "Pop q = None" "dom (map_of errs) \<subseteq> set (qpods q)" "set stale \<subseteq> dom (map_of errs)"
  shows "solved C starts s (qpods q) (solve_loop C s errs q)"
  using Pop_None_stale[OF assms(1,2)] assms(2-4)
  by (auto simp: solve_loop.simps[of C s errs q] solved_def intro!: exI[of _ "qpods q"])

lemma solve_expires:
  assumes t: "trySchedule C s p = Ok (t, Some DeadlineExceeded)" "tried C starts {#} (podUID p) s t"
    and errs: "dom (map_of errs) \<subseteq> set (p # ps)"
  shows "solved C starts s (p # ps) (Ok (t, errs, q))"
proof -
  have "\<exists>i. scExpired C i" using t(1) unfolding trySchedule_def by (rule try_loop_expired)
  then show ?thesis using t(2) errs by (auto simp: solved_def tried_def intro!: exI[of _ "p # ps"])
qed

lemma queue_fresh:
  assumes inv: "queue_inv q fresh stale" and P: "Pop q = Some (p, q')"
  obtains f where "fresh = p # f" "q' = q\<lparr>qpods := f @ stale\<rparr>" "qpods q = p # f @ stale"
    "queue_inv q' (f @ stale) []" "queue_inv (Push q' p) f (stale @ [p])" "podUID p \<notin> podUID ` set (f @ stale)"
proof -
  obtain f where f: "fresh = p # f" "q' = q\<lparr>qpods := f @ stale\<rparr>" using queue_inv_cases[OF inv P] .
  have ps: "qpods q = p # f @ stale" "podUID p \<notin> podUID ` set (f @ stale)" using inv f(1) by (auto simp: queue_inv_def)
  show thesis
    by (rule that[OF f ps(1) _ _ ps(2)]) (use inv f in \<open>simp_all add: queue_inv_placed queue_inv_pushed\<close>)
qed

lemma dom_mdel: "dom (map_of (mdel k m)) = dom (map_of m) - {k}"
  by (auto simp: map_of_mdel split: if_splits)

lemma dom_mput: "dom (map_of (mput k v m)) = insert k (dom (map_of m))"
  by (auto simp: map_of_mput split: if_splits)

lemma solve_loop_solved:
  assumes C: "sound_env C"
  shows "queue_inv q fresh stale \<Longrightarrow> cached C s (qpods q) \<Longrightarrow> dom (map_of errs) \<subseteq> set (qpods q) \<Longrightarrow>
    set stale \<subseteq> dom (map_of errs) \<Longrightarrow> solved C starts s (qpods q) (solve_loop C s errs q)"
  using C
proof (induction C s errs q arbitrary: fresh stale rule: solve_loop.induct)
  case (1 C s errs q)
  note loop = solve_loop.simps[of C s errs q]
  show ?case
  proof (cases "Pop q")
    case None
    then show ?thesis using solve_stops 1 by blast
  next
    case (Some pq)
    then obtain p q' where P: "Pop q = Some (p, q')" by (cases pq) auto
    obtain f where f: "fresh = p # f" "q' = q\<lparr>qpods := f @ stale\<rparr>" "qpods q = p # f @ stale"
      "queue_inv q' (f @ stale) []" "queue_inv (Push q' p) f (stale @ [p])" "podUID p \<notin> podUID ` set (f @ stale)"
      using queue_fresh[OF "1.prems"(1) P] .
    have rest: "cached C s (f @ stale)" and p: "data_ok C s p" using "1.prems"(2) f(3) by (auto simp: cached_def)
    note t = trySchedule_tried[OF \<open>sound_env C\<close> p, of starts]
    show ?thesis
    proof (cases "trySchedule C s p")
      case (Ok x)
      then obtain t err where x: "trySchedule C s p = Ok (t, err)" by (cases x) auto
      have t: "tried C starts (if err = None then {#podUID p#} else {#}) (podUID p) s t" using t x by (simp add: tried_result_def)
      have rest: "cached C t (f @ stale)" by (rule tried_cached[OF t rest f(6)])
      show ?thesis
      proof (cases err)
        case None
        have "dom (map_of (mdel p errs)) \<subseteq> set (qpods q')"
          using "1.prems"(3) f(2,3) by (auto simp: dom_mdel)
        then have "solved C starts t (qpods q') (solve_loop C t (mdel p errs) q')"
          using rest f "1.prems"(5) by (intro "1.IH"(1)[OF P refl x[unfolded None] refl refl f(4)]) simp_all
        then show ?thesis using solved_placed[of C starts p s t "f @ stale"] t None x P f by (simp add: loop)
      next
        case e: (Some e)
        show ?thesis
        proof (cases "IsDeadlineExceeded e")
          case True
          then show ?thesis using solve_expires[of C s p t starts errs "f @ stale" q'] t e x P f "1.prems"(3) by (simp add: loop)
        next
          case False
          show ?thesis
          proof (cases "follow_pod C p t")
            case None
            then show ?thesis using False e x P by (simp add: loop solved_def)
          next
            case (Some u)
            note u = follow_pod_tried(1)[OF Some, of starts] follow_pod_tried(2)[OF Some]
            have ps: "qpods (Push q' p) = f @ stale @ [p]" by (simp add: f(2) Push_def Let_def)
            have "cached C u (qpods (Push q' p))"
              unfolding ps using tried_cached[OF u(1) rest f(6)] u(2) by (auto simp: cached_def)
            moreover have "dom (map_of (mput p e errs)) \<subseteq> set (qpods (Push q' p))" "set (stale @ [p]) \<subseteq> dom (map_of (mput p e errs))"
              unfolding ps dom_mput using "1.prems"(3,4) unfolding f(3) by auto
            ultimately have "solved C starts u (qpods (Push q' p)) (solve_loop C u (mput p e errs) (Push q' p))"
              by (rule "1.IH"(2)[OF P refl x[unfolded e] refl refl False Some f(5) _ _ _ \<open>sound_env C\<close>])
            moreover have "mset (f @ stale @ [p]) = mset (qpods q)" by (simp add: f(3))
            moreover have "tried C starts {#} (podUID p) s u" using tried_trans[OF t u(1)] e by simp
            ultimately have "solved C starts s (qpods q) (solve_loop C u (mput p e errs) (Push q' p))"
              using solved_requeued ps by metis
            then show ?thesis using False e x P Some by (simp add: loop)
          qed
        qed
      qed
    next
      case (Err u)
      then show ?thesis using t by (simp add: tried_result_def)
    next
      case Panic
      then show ?thesis using P by (simp add: loop solved_def)
    qed
  qed
qed

section \<open>A whole run\<close>

text \<open>What NewScheduler hands to a run: nothing placed yet, and existing nodes within their own bounds.\<close>

definition fresh_node :: "'q::linordered_ab_group_add ExistingNode \<Rightarrow> bool" where
  "fresh_node n \<longleftrightarrow> exPods n = [] \<and> wf_map (exRemaining n) \<and> ports_disjoint (hostPortUsage (exStateNode n)) \<and>
     wf_usage (volumeUsage (exStateNode n)) \<and> within_limits (volumeUsage (exStateNode n))"

definition fresh_run :: "'q::linordered_ab_group_add Scheduler \<Rightarrow> bool" where
  "fresh_run s \<longleftrightarrow> sNewNodeClaims s = [] \<and> (\<forall>n \<in> set (sExistingNodes s). fresh_node n) \<and>
     (\<forall>tmpl \<in> set (sTemplates s). tmpl_ok (offers tmpl))"

abbreviation start_of :: "'q Scheduler \<Rightarrow> 'q run_start" where
  "start_of s \<equiv> (map exRemaining (sExistingNodes s), sRemainingResources s)"

lemma fresh_run_ok:
  assumes "fresh_run s"
  shows "sched_ok C req (start_of s) s" "placed s = {#}"
proof -
  have "list_all2 (existing_inv (scTE C) req) (map exRemaining ns) ns" if "\<forall>n \<in> set ns. fresh_node n" for ns
    using that by (induction ns) (auto simp: fresh_node_def existing_start)
  then show "sched_ok C req (start_of s) s"
    using assms by (auto simp: fresh_run_def sched_ok_def lim_ok_def pool_peak_def)
  have "concat (map exPods (sExistingNodes s)) = []" using assms by (auto simp: fresh_run_def fresh_node_def)
  then show "placed s = {#}" using assms by (simp add: placed_def fresh_run_def)
qed

lemma update_pods_cached:
  assumes "update_pods C ps s = Some s'" "distinct (map podUID ps)"
  shows "cached C s' ps" "sNewNodeClaims s' = sNewNodeClaims s" "sExistingNodes s' = sExistingNodes s"
    "sTemplates s' = sTemplates s" "sRemainingResources s' = sRemainingResources s"
    "k \<notin> podUID ` set ps \<Longrightarrow> map_of (sPodData s') k = map_of (sPodData s) k"
proof -
  have "cached C s' ps \<and> sNewNodeClaims s' = sNewNodeClaims s \<and> sExistingNodes s' = sExistingNodes s \<and>
      sTemplates s' = sTemplates s \<and> sRemainingResources s' = sRemainingResources s \<and>
      (\<forall>k. k \<notin> podUID ` set ps \<longrightarrow> map_of (sPodData s') k = map_of (sPodData s) k)"
    using assms
  proof (induction ps arbitrary: s)
    case (Cons p ps)
    then obtain t where t: "updateCachedPodData C p s = Some t" and run: "update_pods C ps t = Some s'"
      by (auto split: bind_splits if_splits)
    obtain pd where "t = s\<lparr>sPodData := mput (podUID p) pd (sPodData s)\<rparr>" "pdRequests pd = pod_requests C p"
      using t by (auto simp: updateCachedPodData_def Let_def split: bind_splits)
    then show ?case using Cons.IH[OF run] Cons.prems(2) by (auto simp: cached_def data_ok_def map_of_mput)
  qed (simp add: cached_def)
  then show "cached C s' ps" "sNewNodeClaims s' = sNewNodeClaims s" "sExistingNodes s' = sExistingNodes s"
    "sTemplates s' = sTemplates s" "sRemainingResources s' = sRemainingResources s"
    "k \<notin> podUID ` set ps \<Longrightarrow> map_of (sPodData s') k = map_of (sPodData s) k" by auto
qed

text \<open>What finishing a NodeClaim keeps.\<close>

definition finishes :: "'q InFlight \<Rightarrow> 'q InFlight \<Rightarrow> bool" where
  "finishes n n' \<longleftrightarrow> ifPods n' = ifPods n \<and> claim_types n' = claim_types n \<and> claim_pool n' = claim_pool n \<and>
     ifDaemonOverheadGroups n' = ifDaemonOverheadGroups n \<and>
     specTaints (nctSpec (ifTemplate n')) = specTaints (nctSpec (ifTemplate n))"

lemma FinalizeScheduling_finishes: "FinalizeScheduling NE drivers n = Some n' \<Longrightarrow> finishes n n'"
  by (auto simp: FinalizeScheduling_def Let_def addDaemonRequests_def finishes_def claim_types_def claim_pool_def split: bind_splits)

lemma those_list_all2: "those (map f xs) = Some ys \<Longrightarrow> list_all2 (\<lambda>x y. f x = Some y) xs ys"
  by (induction xs arbitrary: ys) (auto split: option.splits)

lemma finishes_all:
  assumes "those (map (FinalizeScheduling NE drivers) ns) = Some ns'"
  shows "list_all2 finishes ns ns'"
  using those_list_all2[OF assms] by (rule list_all2_mono) (rule FinalizeScheduling_finishes)

lemma finishes_pods: "list_all2 finishes ns ns' \<Longrightarrow> map ifPods ns' = map ifPods ns"
  by (induction rule: list_all2_induct) (auto simp: finishes_def)

lemma finishes_peak: "list_all2 finishes ns ns' \<Longrightarrow> pool_peak ns' pool k = pool_peak ns pool k"
  by (induction rule: list_all2_induct) (auto simp: finishes_def pool_peak_def peak_def)

definition result_uids :: "'q Results \<Rightarrow> string multiset" where
  "result_uids r = mset (map podUID (concat (map ifPods (rNewNodeClaims r)))) +
     mset (map podUID (concat (map exPods (rExistingNodes r))))"

text \<open>The conditions of a run, and what its result rests on.\<close>

definition sound_run ::
  "'q::linordered_ab_group_add sched_env \<Rightarrow> ((string, 'q PodData) gomap \<Rightarrow> Pod list \<Rightarrow> Pod list) \<Rightarrow> Pod list \<Rightarrow> 'q Scheduler \<Rightarrow> bool" where
  "sound_run C sortPods pods s \<longleftrightarrow> sound_env C \<and> fresh_run s \<and> distinct (map podUID pods) \<and>
     (\<forall>d. mset (sortPods d pods) = mset pods)"

lemma Solve_run:
  assumes "sound_run C sortPods pods s"
  shows "Solve C sortPods pods s \<noteq> Err ()"
    and "Solve C sortPods pods s = Ok (r, late) \<Longrightarrow>
      \<exists>s' left. sched_ok C (pod_requests C) (start_of s) s' \<and> list_all2 finishes (sNewNodeClaims s') (rNewNodeClaims r) \<and>
        rExistingNodes r = sExistingNodes s' \<and> result_uids r + mset (map podUID left) = mset (map podUID pods) \<and>
        set left \<subseteq> set pods \<and> dom (map_of (rPodErrors r)) \<subseteq> set left \<and>
        ((\<forall>i. \<not> scExpired C i) \<longrightarrow> dom (map_of (rPodErrors r)) = set left)"
proof -
  have C: "sound_env C" "fresh_run s" "distinct (map podUID pods)" "\<And>d. mset (sortPods d pods) = mset pods"
    using assms by (auto simp: sound_run_def)
  have run: "solved C (start_of s) s1 pods (solve_loop C s1 [] (NewQueue (sortPods (sPodData s1)) pods))"
    "sched_ok C (pod_requests C) (start_of s) s1" "placed s1 = {#}" if "update_pods C pods s = Some s1" for s1
  proof -
    note u = update_pods_cached[OF that C(3)]
    let ?ps = "sortPods (sPodData s1) pods"
    have "set ?ps = set pods" by (metis C(4) set_mset_mset)
    then have "cached C s1 ?ps" using u(1) by (simp add: cached_def)
    moreover have "distinct (map podUID ?ps)" using C(3,4) by (metis mset_map mset_eq_imp_distinct_iff)
    ultimately have "solved C (start_of s) s1 ?ps (solve_loop C s1 [] (NewQueue (sortPods (sPodData s1)) pods))"
      using solve_loop_solved[OF C(1) queue_inv_New[of "sortPods (sPodData s1)" pods], where s = s1 and errs = "[]" and starts = "start_of s"]
      by (simp add: NewQueue_def)
    then show "solved C (start_of s) s1 pods (solve_loop C s1 [] (NewQueue (sortPods (sPodData s1)) pods))"
      by (rule solved_requeued[rotated]) (simp_all add: tried_def C(4))
    have "fresh_run s1" using C(2) u by (simp add: fresh_run_def)
    then show "sched_ok C (pod_requests C) (start_of s) s1" "placed s1 = {#}"
      using fresh_run_ok(1)[of s1 C "pod_requests C"] fresh_run_ok(2)[of s1] u by simp_all
  qed
  show "Solve C sortPods pods s \<noteq> Err ()"
    using run(1) by (auto simp: Solve_def solved_def rbind_Err split: option.splits)
  show "\<exists>s' left. sched_ok C (pod_requests C) (start_of s) s' \<and> list_all2 finishes (sNewNodeClaims s') (rNewNodeClaims r) \<and>
        rExistingNodes r = sExistingNodes s' \<and> result_uids r + mset (map podUID left) = mset (map podUID pods) \<and>
        set left \<subseteq> set pods \<and> dom (map_of (rPodErrors r)) \<subseteq> set left \<and>
        ((\<forall>i. \<not> scExpired C i) \<longrightarrow> dom (map_of (rPodErrors r)) = set left)"
    if "Solve C sortPods pods s = Ok (r, late)"
  proof -
    from that obtain s1 s' errs q ns where s1: "update_pods C pods s = Some s1"
      and loop: "solve_loop C s1 [] (NewQueue (sortPods (sPodData s1)) pods) = Ok (s', errs, q)"
      and ns: "those (map (FinalizeScheduling (scNE C) []) (sNewNodeClaims s')) = Some ns"
      and r: "r = \<lparr>rNewNodeClaims = ns, rExistingNodes = sExistingNodes s', rPodErrors = errs\<rparr>"
      by (auto simp: Solve_def rbind_Ok split: option.splits)
    have "result_uids r = placed s'" using finishes_pods[OF finishes_all[OF ns]] by (simp add: result_uids_def placed_def r)
    then show ?thesis using run[OF s1] finishes_all[OF ns] by (auto simp: loop solved_def r)
  qed
qed

section \<open>Room\<close>

definition has_room ::
  "'q::linordered_ab_group_add nodeclaim_env \<Rightarrow> (Pod \<Rightarrow> 'q ResourceList) \<Rightarrow> 'q InFlight \<Rightarrow> 'q InstanceType \<Rightarrow> bool" where
  "has_room NE req n it \<longleftrightarrow>
     (\<exists>g \<in> set (ifDaemonOverheadGroups n). it \<in> set (dgInstanceTypes g) \<and>
        (\<exists>gs ao. precompute (neShowC NE) (neShowO NE) it = Some gs \<and> ao \<in> set gs \<and>
           (\<forall>k. (\<Sum>p\<leftarrow>ifPods n. qty (req p) k) + qty (dgDaemonOverhead g) k \<le> qty (aoAllocatable ao) k)))"

lemma claim_inv_room:
  assumes "claim_inv NE req n" "ifPods n \<noteq> []" "it \<in> set (claim_types n)"
  shows "has_room NE req n it"
proof -
  let ?req = "specRequests (nctSpec (ifTemplate n))"
  note inv = assms(1)[unfolded claim_inv_def Let_def]
  from inv assms(2,3) obtain g where g: "g \<in> set (ifDaemonOverheadGroups n)" "it \<in> set (dgInstanceTypes g)"
    and l: "can_host NE (nctRequirements (ifTemplate n)) (group_need g ?req) it" unfolding claim_types_def by blast
  have need: "wf_map (group_need g ?req)"
    "qty (group_need g ?req) k = (\<Sum>p\<leftarrow>ifPods n. qty (req p) k) + qty (dgDaemonOverhead g) k" for k
    using group_need_qty[of ?req g] inv g(1) by auto
  from l obtain gs ao where "precompute (neShowC NE) (neShowO NE) it = Some gs" "ao \<in> set gs"
    "Fits (group_need g ?req) (aoAllocatable ao)"
    by (auto simp: can_host_def list_ex_iff split: option.splits)
  then show ?thesis using g Fits_upper[OF need(1)] unfolding need(2) has_room_def by blast
qed

lemma finishes_room: "finishes n n' \<Longrightarrow> has_room NE req n' it = has_room NE req n it"
  by (simp add: finishes_def has_room_def)

text \<open>What a run may do to an existing node.\<close>

definition not_overdrawn ::
  "topology_env \<Rightarrow> (Pod \<Rightarrow> 'q::linordered_ab_group_add ResourceList) \<Rightarrow> 'q ResourceList \<Rightarrow> 'q ExistingNode \<Rightarrow> bool" where
  "not_overdrawn TE req free n \<longleftrightarrow>
     (exPods n \<noteq> [] \<longrightarrow> (\<forall>k. (\<Sum>p\<leftarrow>exPods n. qty (req p) k) \<le> qty free k)) \<and>
     (\<forall>p \<in> set (exPods n). ToleratesPod (teTolerates TE) (exTaints n) p = []) \<and>
     ports_disjoint (hostPortUsage (exStateNode n)) \<and> within_limits (volumeUsage (exStateNode n))"

lemma existing_inv_not_overdrawn: "existing_inv TE req free n \<Longrightarrow> not_overdrawn TE req free n"
proof -
  assume inv: "existing_inv TE req free n"
  have "(\<Sum>p\<leftarrow>exPods n. qty (req p) k) \<le> qty free k" if "exPods n \<noteq> []" for k
  proof -
    have "qty (exRemaining n) k + (\<Sum>p\<leftarrow>exPods n. qty (req p) k) = qty free k" "0 \<le> qty (exRemaining n) k"
      using inv that by (auto simp: existing_inv_def)
    then show ?thesis by (metis add_increasing order_refl)
  qed
  then show ?thesis using inv by (simp add: existing_inv_def not_overdrawn_def)
qed

section \<open>A small cluster\<close>

text \<open>
  One node with two CPUs left and a NodePool of nodes with four CPUs, one of which goes to daemons. Every
  pod asks for two.
\<close>

definition pair_type :: "int InstanceType" where
  "pair_type = quad_type\<lparr>itCapacity := [(''cpu'', 4), (''pods'', 10)]\<rparr>"

definition demo_sched_env :: "(nat \<Rightarrow> bool) \<Rightarrow> int sched_env" where
  "demo_sched_env expired = \<lparr>scNE = demo_claim_env, scState = demo_state\<lparr>seRequests := (\<lambda>_. [(''cpu'', 2)])\<rparr>,
     scSortSlice = id, scMatchToleration = (=), scSortClaims = insertion_sort fewer_pods, scMinBy = first_best, scNodeID = (\<lambda>i j. i + j),
     scExpired = expired, scAntiFirst = False, scIgnoreDRA = False\<rparr>"

definition demo_existing :: "int ExistingNode" where
  "demo_existing = \<lparr>exStateNode = NewNode\<lparr>stNode := Some demo_node\<rparr>, exTaints = [], exPods = [],
     exRemaining = [(''cpu'', 2), (''pods'', 5)], exRequirements = [], exUnderConsolidateAfter = False\<rparr>"

definition demo_scheduler :: "int ResourceList \<Rightarrow> int Scheduler" where
  "demo_scheduler cap = \<lparr>sNewNodeClaims = [], sExistingNodes = [demo_existing],
     sTemplates = [(demo_template\<lparr>nctInstanceTypeOptions := [pair_type]\<rparr>,
       [\<lparr>dgInstanceTypes = [pair_type], dgDaemonOverhead = [(''cpu'', 1)], dgHostPortUsage = \<lparr>reserved = []\<rparr>\<rparr>])],
     sRemainingResources = [(''p'', cap)], sPodData = [], sVolumeReqsByPod = [], sToleratePreferNoSchedule = False,
     sTopology = quiet_topology, sReservations = \<lparr>reservations = [], capacity = []\<rparr>, sMode = ReservedOfferingModeFallback,
     sPreferencePolicy = PreferencePolicyRespect, sBestEffort = False, sDeletingNodeNames = {}, sPricePlacements = False,
     sShadowPricePlacements = False, sSearches = 0, sChecks = 0\<rparr>"

definition three_pods :: "Pod list" where
  "three_pods = map (\<lambda>u. (bare_pod u)\<lparr>podUID := u\<rparr>) [''a'', ''b'', ''c'']"

definition demo_solve :: "int ResourceList \<Rightarrow> (unit, int Results \<times> bool) result" where
  "demo_solve cap = Solve (demo_sched_env (\<lambda>_. False)) (\<lambda>_. id) three_pods (demo_scheduler cap)"

definition summary :: "(unit, 'q Results \<times> bool) result \<Rightarrow> (string list list \<times> string list list \<times> string list) option" where
  "summary r = (case r of
     Ok (r, _) \<Rightarrow> Some (map (map podUID \<circ> ifPods) (rNewNodeClaims r), map (map podUID \<circ> exPods) (rExistingNodes r),
       map (podUID \<circ> fst) (rPodErrors r))
   | _ \<Rightarrow> None)"

lemma demo_solve_run:
  "summary (demo_solve [(''cpu'', 5)]) = Some ([[''b'']], [[''a'']], [''c''])"
  by code_simp

lemma demo_solve_nodes:
  "case demo_solve [(ResourceNode, 1)] of Ok (r, _) \<Rightarrow> map claim_pool (rNewNodeClaims r) = [''p'', ''p''] | _ \<Rightarrow> False"
  by code_simp

lemma demo_solve_ends: "case demo_solve cap of Ok (r, late) \<Rightarrow> \<not> late | _ \<Rightarrow> True"
  by (auto simp: demo_solve_def Solve_def rbind_Ok demo_sched_env_def split: result.splits option.splits)

lemma demo_solve_claims:
  "case demo_solve [(''cpu'', 5)] of
     Ok (r, _) \<Rightarrow> map claim_pool (rNewNodeClaims r) = [''p''] \<and> map (map itName \<circ> claim_types) (rNewNodeClaims r) = [[''quad'']]
   | _ \<Rightarrow> False"
  by code_simp

lemma demo_requests: "pod_requests (demo_sched_env (\<lambda>_. False)) = (\<lambda>_. [(''cpu'', 2), (''pods'', 1)])"
  by (rule ext) code_simp

interpretation claim_order: key_order fewer_pods
  by unfold_locales (auto simp: fewer_pods_def)

lemma demo_sound: "sound_run (demo_sched_env (\<lambda>_. False)) (\<lambda>_. id) three_pods (demo_scheduler cap)"
proof -
  have "sorts_claims (demo_sched_env (\<lambda>_. False))"
    by (simp add: sorts_claims_def demo_sched_env_def claim_order.insertion_sort_sorts)
  moreover have "fresh_run (demo_scheduler cap)"
    by (simp add: fresh_run_def demo_scheduler_def demo_existing_def fresh_node_def NewNode_def tmpl_ok_def caps_ok_def pair_type_def
        ports_disjoint_def NewHostPortUsage_def wf_usage_def within_limits_def NewVolumeUsage_def wf_volumes_def used_def nonneg_def mget_def)
  ultimately show ?thesis
    by (simp add: sound_run_def sound_env_def demo_sched_env_def three_pods_def)
qed

section \<open>The guarantees of a run\<close>

text \<open>
  C5. A run of the scheduler ends by itself: the loop over the pods and the loop that relaxes one pod never
  run out of steps. Every pod is either placed on exactly one NodeClaim or node or left over, an
  error is reported only for pods left over, and when the deadline does not pass, for every one of them.
\<close>

theorem Solve_accounts_for_pods:
  assumes "sound_run C sortPods pods s"
  shows "case Solve C sortPods pods s of
      Panic \<Rightarrow> True
    | Err _ \<Rightarrow> False
    | Ok (r, late) \<Rightarrow> (\<exists>left. result_uids r + mset (map podUID left) = mset (map podUID pods) \<and> set left \<subseteq> set pods \<and>
        dom (map_of (rPodErrors r)) \<subseteq> set left \<and> ((\<forall>i. \<not> scExpired C i) \<longrightarrow> dom (map_of (rPodErrors r)) = set left))"
proof (cases "Solve C sortPods pods s")
  case (Ok x)
  obtain r late where x: "x = (r, late)" by (cases x)
  show ?thesis using Solve_run(2)[OF assms Ok[unfolded x]] unfolding Ok x by auto
next
  case (Err u)
  then show ?thesis using Solve_run(1)[OF assms] by simp
qed simp

theorem Solve_accounts_for_pods_witness:
  "\<exists>r left. demo_solve [(''cpu'', 5)] = Ok (r, False) \<and> result_uids r = {#''a'', ''b''#} \<and>
     mset (map podUID left) = {#''c''#} \<and> dom (map_of (rPodErrors r)) = set left"
proof -
  obtain r where r: "demo_solve [(''cpu'', 5)] = Ok (r, False)" "result_uids r = {#''a'', ''b''#}"
    using demo_solve_run demo_solve_ends[of "[(''cpu'', 5)]"]
    by (auto simp: summary_def result_uids_def map_concat comp_def split: result.splits)
  have "\<not> scExpired (demo_sched_env (\<lambda>_. False)) i" for i by (simp add: demo_sched_env_def)
  with Solve_accounts_for_pods[OF demo_sound, of "[(''cpu'', 5)]"] obtain left where
    left: "result_uids r + mset (map podUID left) = mset (map podUID three_pods)" "dom (map_of (rPodErrors r)) = set left"
    using r(1) by (auto simp: demo_solve_def)
  have "mset (map podUID left) = {#''c''#}" using left(1) r(2) by (simp add: three_pods_def add_mset_commute)
  then show ?thesis using r left(2) by (intro exI[of _ r] exI[of _ left] conjI)
qed

text \<open>
  C6. Every place a run gives has room. Each new NodeClaim holds pods that tolerate its taints, and each of
  its instance types has, in one and the same group of offerings, room for the requests of all its pods and the
  daemons of its group. No existing node is overdrawn: its pods fit into what was free at the start,
  tolerate its taints, use different host ports and keep the limits on volumes.
\<close>

theorem Solve_places_have_room:
  assumes "sound_run C sortPods pods s" "Solve C sortPods pods s = Ok (r, late)"
  shows "(\<forall>n \<in> set (rNewNodeClaims r). ifPods n \<noteq> [] \<and>
      (\<forall>p \<in> set (ifPods n). ToleratesPod (teTolerates (scTE C)) (specTaints (nctSpec (ifTemplate n))) p = []) \<and>
      (\<forall>it \<in> set (nctInstanceTypeOptions (ifTemplate n)). has_room (scNE C) (pod_requests C) n it)) \<and>
    list_all2 (not_overdrawn (scTE C) (pod_requests C)) (map exRemaining (sExistingNodes s)) (rExistingNodes r)"
proof
  from Solve_run(2)[OF assms] obtain s' where ok: "sched_ok C (pod_requests C) (start_of s) s'"
    and ns: "list_all2 finishes (sNewNodeClaims s') (rNewNodeClaims r)" and ex: "rExistingNodes r = sExistingNodes s'" by blast
  show "list_all2 (not_overdrawn (scTE C) (pod_requests C)) (map exRemaining (sExistingNodes s)) (rExistingNodes r)"
    unfolding ex using ok[unfolded sched_ok_def fst_conv, THEN conjunct2, THEN conjunct1]
    by (rule list_all2_mono) (rule existing_inv_not_overdrawn)
  show "\<forall>n \<in> set (rNewNodeClaims r). ifPods n \<noteq> [] \<and>
      (\<forall>p \<in> set (ifPods n). ToleratesPod (teTolerates (scTE C)) (specTaints (nctSpec (ifTemplate n))) p = []) \<and>
      (\<forall>it \<in> set (nctInstanceTypeOptions (ifTemplate n)). has_room (scNE C) (pod_requests C) n it)"
  proof
    fix n
    assume "n \<in> set (rNewNodeClaims r)"
    with ns obtain m where m: "m \<in> set (sNewNodeClaims s')" "finishes m n" by (metis in_set_conv_nth list_all2_conv_all_nth)
    have inv: "claim_inv (scNE C) (pod_requests C) m" "ifPods m \<noteq> []" using ok m(1) by (auto simp: sched_ok_def)
    have "has_room (scNE C) (pod_requests C) n it" if "it \<in> set (claim_types n)" for it
      using claim_inv_room[OF inv] finishes_room[OF m(2)] m(2) that by (auto simp: finishes_def)
    then show "ifPods n \<noteq> [] \<and>
        (\<forall>p \<in> set (ifPods n). ToleratesPod (teTolerates (scTE C)) (specTaints (nctSpec (ifTemplate n))) p = []) \<and>
        (\<forall>it \<in> set (nctInstanceTypeOptions (ifTemplate n)). has_room (scNE C) (pod_requests C) n it)"
      using inv m(2) by (auto simp: finishes_def claim_inv_def Let_def claim_types_def)
  qed
qed

theorem Solve_places_have_room_witness:
  "\<exists>(n :: int InFlight). map podUID (ifPods n) = [''b''] \<and>
     (\<forall>it \<in> set (nctInstanceTypeOptions (ifTemplate n)). has_room demo_claim_env (\<lambda>_. [(''cpu'', 2), (''pods'', 1)]) n it)"
proof -
  obtain r where r: "demo_solve [(''cpu'', 5)] = Ok (r, False)" "map (map podUID \<circ> ifPods) (rNewNodeClaims r) = [[''b'']]"
    using demo_solve_run demo_solve_ends[of "[(''cpu'', 5)]"] by (auto simp: summary_def split: result.splits)
  then obtain n where n: "n \<in> set (rNewNodeClaims r)" "map podUID (ifPods n) = [''b'']" by auto
  have "\<forall>it \<in> set (nctInstanceTypeOptions (ifTemplate n)). has_room (scNE (demo_sched_env (\<lambda>_. False)))
      (pod_requests (demo_sched_env (\<lambda>_. False))) n it"
    using Solve_places_have_room[OF demo_sound r(1)[unfolded demo_solve_def]] n(1) by blast
  then show ?thesis using n(2) demo_requests by (intro exI[of _ n]) (simp add: demo_sched_env_def)
qed

text \<open>
  C7. A run keeps the limits of every NodePool, whichever of its instance types each new NodeClaim turns out
  to use: the capacity they add of a limited resource is at most what the limit left at the start.
\<close>

theorem Solve_keeps_limits:
  assumes "sound_run C sortPods pods s" "Solve C sortPods pods s = Ok (r, late)"
    and "map_of (sRemainingResources s) pool = Some remaining" "mhas remaining k"
    and "\<exists>n \<in> set (rNewNodeClaims r). claim_pool n = pool"
    and "\<forall>n \<in> set (rNewNodeClaims r). launched n \<in> set (claim_types n)"
  shows "(\<Sum>n\<leftarrow>filter (\<lambda>n. claim_pool n = pool) (rNewNodeClaims r). qty (itCapacity (launched n)) k) \<le> qty remaining k"
proof -
  from Solve_run(2)[OF assms(1,2)] obtain s' where ok: "lim_ok (sRemainingResources s) s'"
    and ns: "list_all2 finishes (sNewNodeClaims s') (rNewNodeClaims r)" by (auto simp: sched_ok_def)
  have claim: "\<exists>m \<in> set (sNewNodeClaims s'). finishes m n" if "n \<in> set (rNewNodeClaims r)" for n
    using ns that by (metis in_set_conv_nth list_all2_conv_all_nth)
  have "qty (itCapacity (launched n)) k \<le> peak n k" if "n \<in> set (rNewNodeClaims r)" for n
  proof -
    from claim[OF that] obtain m where "m \<in> set (sNewNodeClaims s')" "finishes m n" by blast
    then have "caps_ok (claim_types n)" using ok by (auto simp: lim_ok_def finishes_def)
    then show ?thesis unfolding peak_def using assms(6) that by (intro MaxResources_lub(2)) (auto simp: caps_ok_def)
  qed
  then have "(\<Sum>n\<leftarrow>filter (\<lambda>n. claim_pool n = pool) (rNewNodeClaims r). qty (itCapacity (launched n)) k) \<le> pool_peak (rNewNodeClaims r) pool k"
    unfolding pool_peak_def by (intro sum_list_mono) auto
  also have "\<dots> = pool_peak (sNewNodeClaims s') pool k" by (rule finishes_peak[OF ns])
  also have "\<dots> \<le> qty remaining k"
  proof -
    have "\<exists>m \<in> set (sNewNodeClaims s'). claim_pool m = pool" using assms(5) claim by (fastforce simp: finishes_def)
    then obtain l where "qty l k + pool_peak (sNewNodeClaims s') pool k \<le> qty remaining k" "0 \<le> qty l k"
      using ok assms(3,4) unfolding lim_ok_def by blast
    then show ?thesis by (metis add_increasing order_refl order_trans)
  qed
  finally show ?thesis .
qed

theorem Solve_keeps_limits_witness:
  "\<exists>r. demo_solve [(''cpu'', 5)] = Ok (r, False) \<and> length (rNewNodeClaims r) = 1 \<and>
     (\<Sum>n\<leftarrow>filter (\<lambda>n. claim_pool n = ''p'') (rNewNodeClaims r). qty (itCapacity (hd (claim_types n))) ''cpu'') \<le> 5"
proof -
  obtain r where r: "demo_solve [(''cpu'', 5)] = Ok (r, False)" "length (rNewNodeClaims r) = 1"
    "map claim_pool (rNewNodeClaims r) = [''p'']" "map (map itName \<circ> claim_types) (rNewNodeClaims r) = [[''quad'']]"
    using demo_solve_claims demo_solve_ends[of "[(''cpu'', 5)]"] by (auto split: result.splits)
  have types: "\<forall>n \<in> set (rNewNodeClaims r). hd (claim_types n) \<in> set (claim_types n)" using r(4) by (auto intro!: list.set_sel(1))
  have "(\<Sum>n\<leftarrow>filter (\<lambda>n. claim_pool n = ''p'') (rNewNodeClaims r). qty (itCapacity (hd (claim_types n))) ''cpu'') \<le>
      qty [(''cpu'', 5)] ''cpu''"
    using r(2,3) by (intro Solve_keeps_limits[OF demo_sound r(1)[unfolded demo_solve_def] _ _ _ types])
      (auto simp: demo_scheduler_def length_Suc_conv)
  then show ?thesis using r(1,2) by (auto simp: mget_def)
qed


end
