(* ===== verification/Candidates.thy ===== *)
theory Candidates
  imports Scheduler
begin

text \<open>
  Candidates for disruption and the commands computed for them
  (\<^verbatim>\<open>pkg/controllers/disruption/types.go\<close>), and the scoring of moves by the balanced policy
  (\<^verbatim>\<open>balanced.go\<close>). Costs and prices are rationals; None stands for a panic.
\<close>

record 'q disrupt_env =
  deNE :: "'q nodeclaim_env"
  deState :: "'q state_env"
  deMaxBy :: "'q Offering extremum"
  deMinBy :: "'q Offering extremum"
  deSortByPrice :: "('q InstanceType \<times> rat) list \<Rightarrow> ('q InstanceType \<times> rat) list"
  deParseDuration :: "string \<Rightarrow> int option"

abbreviation deLabels :: "'q disrupt_env \<Rightarrow> label_env" where "deLabels D \<equiv> neLabels (deNE D)"

section \<open>Candidates\<close>

record 'q Candidate =
  cdNode :: "'q StateNode"
  cdInstanceType :: "'q InstanceType option"
  cdNodePool :: "'q NodePool"
  cdZone :: string
  cdCapacityType :: string
  cdDisruptionCost :: rat
  cdReschedulablePods :: "Pod list"
  cdPrice :: rat
  cdRescheduleDisruptionCost :: rat

abbreviation cdPool :: "'q Candidate \<Rightarrow> string" where "cdPool c \<equiv> npName (cdNodePool c)"

definition resolveNodePrice :: "'q disrupt_env \<Rightarrow> 'q StateNode \<Rightarrow> 'q InstanceType option \<Rightarrow> rat option" where
  "resolveNodePrice D node instanceType =
     (case instanceType of
        None \<Rightarrow> Some 0
      | Some it \<Rightarrow>
          Option.bind (StateNode_Labels node) (\<lambda>labels.
            map_option (\<lambda>(price, ok). if ok then price else 0)
              (OfferingPrice (deLabels D) (nePick (deNE D)) (neIntn (deNE D)) (itOfferings it)
                 (mget [] labels LabelTopologyZone) (mget [] labels CapacityTypeLabelKey))))"

definition PerNodeBaseDisruptionCost :: rat where "PerNodeBaseDisruptionCost = 1"

definition computeRescheduleDisruptionCost :: "(string \<Rightarrow> rat option) \<Rightarrow> Pod list \<Rightarrow> rat" where
  "computeRescheduleDisruptionCost parseFloat pods =
     foldl (\<lambda>cost p. cost + max 0 (EvictionCost parseFloat p)) PerNodeBaseDisruptionCost pods"

definition SavingsRatio :: "'q Candidate \<Rightarrow> rat" where
  "SavingsRatio c = cdPrice c / cdRescheduleDisruptionCost c"

definition OwnedByStaticNodePool :: "'q Candidate \<Rightarrow> bool" where
  "OwnedByStaticNodePool c \<longleftrightarrow> npReplicas (cdNodePool c) \<noteq> None"

definition Candidate_IsEmpty :: "'q Candidate \<Rightarrow> bool" where
  "Candidate_IsEmpty c \<longleftrightarrow> cdRescheduleDisruptionCost c \<le> PerNodeBaseDisruptionCost"

datatype candidate_error =
    AlreadyDisrupting
  | NotDisruptable disruptable_error
  | NodePoolNotFound string
  | PodsBlock pod_block
  | ListingPods kube_error

datatype disruption_class = GracefulDisruptionClass | EventualDisruptionClass

text \<open>\<open>listed\<close> is what listing the pods of the node gives, \<open>busy\<close> whether the queue holds the node.\<close>

definition NewCandidate ::
  "'q disrupt_env \<Rightarrow> int \<Rightarrow> (string \<Rightarrow> bool) \<Rightarrow> pdbItem list \<Rightarrow> (string, 'q NodePool) gomap \<Rightarrow>
   (string, (string, 'q InstanceType) gomap) gomap \<Rightarrow> disruption_class \<Rightarrow> (kube_error, Pod list) result \<Rightarrow> 'q StateNode \<Rightarrow>
   (candidate_error, 'q Candidate) result" where
  "NewCandidate D now busy pdbs nodePoolMap typesMap class listed node =
     (case (StateNode_ProviderID node, StateNode_Labels node) of
        (Some pid, Some labels) \<Rightarrow>
          if busy pid then Err AlreadyDisrupting
          else
            (case ValidateNodeDisruptable now node of
               Some e \<Rightarrow> Err (NotDisruptable e)
             | None \<Rightarrow>
                 (let pool = mget [] labels NodePoolLabelKey in
                  case (map_of nodePoolMap pool, map_of typesMap pool, stNodeClaim node) of
                    (Some np, Some types, Some nodeClaim) \<Rightarrow>
                      (let instanceType = map_of types (mget [] labels LabelInstanceTypeStable);
                           parseFloat = seParseFloat (deState D)
                       in case ValidatePodsDisruptable (teTolerates (neTopology (deNE D))) (deParseDuration D) now pdbs listed of
                            Panic \<Rightarrow> Panic
                          | Err e \<Rightarrow> Err (ListingPods e)
                          | Ok (pods, block) \<Rightarrow>
                              (case (block, specTerminationGracePeriod (ncSpec nodeClaim) \<noteq> None \<and> class = EventualDisruptionClass) of
                                 (Some b, False) \<Rightarrow> Err (PodsBlock b)
                               | _ \<Rightarrow>
                                   (case resolveNodePrice D node instanceType of
                                      None \<Rightarrow> Panic
                                    | Some price \<Rightarrow>
                                        (let reschedulable = filter IsReschedulable pods in
                                         Ok \<lparr>cdNode = node, cdInstanceType = instanceType, cdNodePool = np,
                                             cdZone = mget [] labels LabelTopologyZone,
                                             cdCapacityType = mget [] labels CapacityTypeLabelKey,
                                             cdDisruptionCost = ReschedulingCost parseFloat pods * LifetimeRemaining now nodeClaim,
                                             cdReschedulablePods = reschedulable, cdPrice = price,
                                             cdRescheduleDisruptionCost = computeRescheduleDisruptionCost parseFloat reschedulable\<rparr>))))
                  | _ \<Rightarrow> Err (NodePoolNotFound pool)))
      | _ \<Rightarrow> Panic)"

section \<open>Scores\<close>

record ScoreResult =
  SavingsFraction :: rat
  DisruptionFraction :: rat
  scoreK :: int

datatype score = Finite rat | Infinite

fun score_ge :: "score \<Rightarrow> score \<Rightarrow> bool" where
  "score_ge Infinite _ = True"
| "score_ge (Finite a) Infinite = False"
| "score_ge (Finite a) (Finite b) = (a \<ge> b)"

definition ScoreResult_Score :: "ScoreResult \<Rightarrow> score" where
  "ScoreResult_Score r =
     (if SavingsFraction r \<le> 0 then Finite 0
      else if DisruptionFraction r = 0 then Infinite
      else Finite (SavingsFraction r / DisruptionFraction r))"

definition ScoreResult_Threshold :: "ScoreResult \<Rightarrow> score" where
  "ScoreResult_Threshold r = (if scoreK r = 0 then Infinite else Finite (1 / of_int (scoreK r)))"

definition ScoreResult_Approved :: "ScoreResult \<Rightarrow> bool" where
  "ScoreResult_Approved r = score_ge (ScoreResult_Score r) (ScoreResult_Threshold r)"

section \<open>Commands\<close>

record 'q Command =
  cmdCandidates :: "'q Candidate list"
  cmdReplacements :: "'q InFlight list"
  cmdResults :: "'q Results"
  cmdPoolDisruptionCosts :: "(string, rat) gomap option"
  cmdNewCapacityPriceLimit :: rat

definition no_command :: "'q Command" where
  "no_command = \<lparr>cmdCandidates = [], cmdReplacements = [],
     cmdResults = \<lparr>rNewNodeClaims = [], rExistingNodes = [], rPodErrors = []\<rparr>, cmdPoolDisruptionCosts = None,
     cmdNewCapacityPriceLimit = 0\<rparr>"

datatype Decision = NoOpDecision | ReplaceDecision | DeleteDecision

definition Command_Decision :: "'q Command \<Rightarrow> Decision" where
  "Command_Decision c =
     (if cmdCandidates c \<noteq> [] \<and> cmdReplacements c \<noteq> [] then ReplaceDecision
      else if cmdCandidates c \<noteq> [] \<and> cmdReplacements c = [] then DeleteDecision
      else NoOpDecision)"

definition computePoolDisruptionCosts :: "'q Candidate list \<Rightarrow> (string, rat) gomap option" where
  "computePoolDisruptionCosts cs =
     (if cs = [] then None
      else Some (foldl (\<lambda>m c. mput (cdPool c) (mget 0 m (cdPool c) + cdRescheduleDisruptionCost c) m) [] cs))"

definition PoolDisruptionCost :: "'q Command \<Rightarrow> string \<Rightarrow> rat" where
  "PoolDisruptionCost c pool =
     (case cmdPoolDisruptionCosts c of
        Some costs \<Rightarrow> mget 0 costs pool
      | None \<Rightarrow> (\<Sum>cd\<leftarrow>filter (\<lambda>cd. cdPool cd = pool) (cmdCandidates c). cdRescheduleDisruptionCost cd))"

definition sumCandidatePrices :: "'q Candidate list \<Rightarrow> rat" where
  "sumCandidatePrices cs = (\<Sum>c\<leftarrow>cs. cdPrice c)"

definition SourceCost :: "'q Command \<Rightarrow> rat" where "SourceCost c = sumCandidatePrices (cmdCandidates c)"

definition destination_price :: "'q disrupt_env \<Rightarrow> 'q InFlight \<Rightarrow> rat" where
  "destination_price D n =
     (case nctInstanceTypeOptions (ifTemplate n) of
        [] \<Rightarrow> 0
      | it # _ \<Rightarrow>
          (let available = Available (itOfferings it) in
           if available = [] then 0 else ofPrice (Cheapest (deMinBy D) available)))"

definition EstimatedSavings :: "'q disrupt_env \<Rightarrow> 'q Command \<Rightarrow> rat" where
  "EstimatedSavings D c =
     (if cmdReplacements c = [] then SourceCost c
      else SourceCost c - (\<Sum>n\<leftarrow>rNewNodeClaims (cmdResults c). destination_price D n))"

section \<open>The balanced policy\<close>

record NodePoolTotals =
  TotalCost :: rat
  TotalDisruptionCost :: rat

text \<open>The cost the cluster state keeps for a NodePool is an argument; it may be missing.\<close>

definition computeNodePoolTotals ::
  "'q Candidate list \<Rightarrow> 'q StateNode list \<Rightarrow> ('q NodePool \<Rightarrow> rat) option \<Rightarrow> (string, NodePoolTotals) gomap option" where
  "computeNodePoolTotals cs nodes clusterCost =
     Option.bind (those (map (\<lambda>c. StateNode_Name (cdNode c)) cs)) (\<lambda>names.
       Option.bind (those (map (\<lambda>n. map_option (\<lambda>l. (l, n)) (StateNode_Labels n)) nodes)) (\<lambda>labelled.
         Option.bind (those (map (\<lambda>(l, n). map_option (\<lambda>name. (l, n, name)) (StateNode_Name n))
                              (filter (\<lambda>(l, n). mhas l NodePoolLabelKey) labelled))) (\<lambda>members.
           (let byName = map_of (rev (zip names cs));
                disruption = (\<lambda>pool. \<Sum>(l, n, name)\<leftarrow>filter (\<lambda>(l, n, name). mget [] l NodePoolLabelKey = pool) members.
                   case byName name of Some c \<Rightarrow> cdRescheduleDisruptionCost c | None \<Rightarrow> DisruptionCost n);
                fallback = (\<lambda>pool. \<Sum>c\<leftarrow>filter (\<lambda>c. cdPool c = pool) cs. cdPrice c);
                pools = foldl (\<lambda>m c. if mhas m (cdPool c) then m else mput (cdPool c) (cdNodePool c) m) [] cs
            in Some (map (\<lambda>(pool, np).
                 (pool, \<lparr>TotalCost = (case clusterCost of
                                        None \<Rightarrow> fallback pool
                                      | Some cost \<Rightarrow> if cost np > 0 then cost np else fallback pool),
                         TotalDisruptionCost = disruption pool\<rparr>)) pools)))))"

definition ScoreMove :: "rat \<Rightarrow> rat \<Rightarrow> NodePoolTotals \<Rightarrow> int \<Rightarrow> ScoreResult" where
  "ScoreMove savings disruptionCost totals k =
     (if TotalCost totals \<le> 0 \<or> TotalDisruptionCost totals \<le> 0
      then \<lparr>SavingsFraction = 0, DisruptionFraction = 0, scoreK = k\<rparr>
      else \<lparr>SavingsFraction = savings / TotalCost totals,
            DisruptionFraction = disruptionCost / TotalDisruptionCost totals, scoreK = k\<rparr>)"

definition ComputeMoveDisruptionCost :: "'q Candidate list \<Rightarrow> rat" where
  "ComputeMoveDisruptionCost cs = (\<Sum>c\<leftarrow>cs. cdRescheduleDisruptionCost c)"

definition BalancedK :: int where "BalancedK = 2"

definition zero_totals :: NodePoolTotals where "zero_totals = \<lparr>TotalCost = 0, TotalDisruptionCost = 0\<rparr>"

definition pool_score ::
  "'q disrupt_env \<Rightarrow> 'q Command \<Rightarrow> (string, NodePoolTotals) gomap \<Rightarrow> string \<Rightarrow> ScoreResult" where
  "pool_score D cmd totals pool =
     (let poolCost = sumCandidatePrices (filter (\<lambda>c. cdPool c = pool) (cmdCandidates cmd));
          savings = EstimatedSavings D cmd;
          several = length (remdups (map cdPool (cmdCandidates cmd))) > 1;
          poolSavings = (if SourceCost cmd > 0 \<and> several then savings * (poolCost / SourceCost cmd) else savings)
      in ScoreMove poolSavings (PoolDisruptionCost cmd pool) (mget zero_totals totals pool) BalancedK)"

definition EvaluateBalancedMove ::
  "'q disrupt_env \<Rightarrow> 'q Command \<Rightarrow> (string, NodePoolTotals) gomap \<Rightarrow> bool \<times> (string, ScoreResult) gomap option" where
  "EvaluateBalancedMove D cmd totals =
     (if cmdCandidates cmd = [] then (False, None)
      else
        (let pools = remdups (map cdPool (cmdCandidates cmd));
             scored = filter (\<lambda>pool. case find (\<lambda>c. cdPool c = pool) (cmdCandidates cmd) of
                                       Some c \<Rightarrow> IsBalanced (npConsolidationPolicy (cdNodePool c)) | None \<Rightarrow> False) pools;
             perPool = map (\<lambda>pool. (pool, pool_score D cmd totals pool)) scored
         in (list_all (\<lambda>(_, r). ScoreResult_Approved r) perPool, Some perPool)))"

definition CanPassThreshold :: "(string, NodePoolTotals) gomap \<Rightarrow> 'q Candidate \<Rightarrow> bool" where
  "CanPassThreshold totals c =
     (if \<not> IsBalanced (npConsolidationPolicy (cdNodePool c)) then True
      else
        (case map_of totals (cdPool c) of
           None \<Rightarrow> True
         | Some t \<Rightarrow>
             if TotalCost t \<le> 0 then True
             else ScoreResult_Approved (ScoreMove (cdPrice c) (cdRescheduleDisruptionCost c) t BalancedK)))"

text \<open>The evaluator of a pass: one that always approves, or the balanced one with the totals.\<close>

type_synonym evaluator = "(string, NodePoolTotals) gomap option"

definition ApproveCommand :: "'q disrupt_env \<Rightarrow> evaluator \<Rightarrow> 'q Command \<Rightarrow> bool \<times> (string, ScoreResult) gomap option" where
  "ApproveCommand D ev cmd = (case ev of None \<Rightarrow> (True, None) | Some totals \<Rightarrow> EvaluateBalancedMove D cmd totals)"

section \<open>A deletion has the best score\<close>

lemma foldl_plus_le: "(1::rat) \<le> a \<Longrightarrow> 1 \<le> foldl (\<lambda>cost p. cost + max 0 (f p)) a ps"
  by (induction ps arbitrary: a) (auto simp: add_increasing2)

lemma reschedule_cost_base: "PerNodeBaseDisruptionCost \<le> computeRescheduleDisruptionCost parseFloat pods"
  using foldl_plus_le[of 1 "EvictionCost parseFloat" pods]
  by (simp add: computeRescheduleDisruptionCost_def PerNodeBaseDisruptionCost_def)

lemma Approved_mono:
  assumes "ScoreResult_Approved (ScoreMove s d t k)" "s \<le> s'" "0 < k" "0 \<le> d"
  shows "ScoreResult_Approved (ScoreMove s' d t k)"
proof (cases "TotalCost t \<le> 0 \<or> TotalDisruptionCost t \<le> 0")
  case False
  have "s / TotalCost t \<le> s' / TotalCost t" using assms(2) False by (simp add: divide_right_mono)
  moreover from this have "s / TotalCost t / (d / TotalDisruptionCost t) \<le> s' / TotalCost t / (d / TotalDisruptionCost t)"
    using assms(2,4) False by (intro divide_right_mono) (auto simp: divide_right_mono)
  ultimately show ?thesis
    using assms(1,3) False
    by (auto simp: ScoreMove_def ScoreResult_Approved_def ScoreResult_Score_def ScoreResult_Threshold_def split: if_splits)
qed (use assms(1) in \<open>simp add: ScoreMove_def\<close>)

end
