(* ===== verification/Consolidation.thy ===== *)
theory Consolidation
  imports Candidates
begin

text \<open>
  Consolidation (\<^verbatim>\<open>pkg/controllers/disruption/consolidation.go\<close>, \<^verbatim>\<open>spottospot.go\<close>,
  \<^verbatim>\<open>splitconsolidation.go\<close>): pricing the replacements of candidates, narrowing them to spot capacity and
  computing a command. The scheduling simulation is an argument, so what is shown holds whatever it
  returns. Metrics and events are left out. None and Panic stand for a panic.
\<close>

section \<open>Options and state of a pass\<close>

record consol_options =
  ConsolidationReplaceMinSavings :: rat
  MaxConsolidationReplacements :: int
  ODToSpotConsolidation :: bool
  ODToSpotConsolidationShadow :: bool
  SpotToSpotMinInstanceTypes :: int
  SpotToSpotMinNodeAge :: int
  SpotToSpotMinSavings :: rat
  SpotToSpotConsolidation :: bool
  ConsolidationSplitFallback :: bool
  ConsolidationSplitShadow :: bool
  ConsolidationSplitMinSavings :: rat
  ConsolidationSplitShadowMaxReplacements :: int

record simulation_options =
  newCapacityPriceLimit :: rat
  soMinSavings :: rat
  soMaxReplacements :: int

text \<open>The attempts left for split simulations, where the pass has a budget, and the mark of an inconclusive result.\<close>

record pass_state =
  splitRemaining :: "int option"
  inconclusive :: bool

datatype sim_error = CandidateDeleting | SimDeadlineExceeded | SimError string

text \<open>The cloud provider's advisor on spot markets is absent or a function of the code outside.\<close>

record 'q consol_env =
  ceD :: "'q disrupt_env"
  ceOptions :: consol_options
  ceNow :: int
  ceAdvisor :: "(string \<Rightarrow> 'q InstanceType \<Rightarrow> 'q Offering \<Rightarrow> bool) option"
  ceSimulate :: "rat \<Rightarrow> 'q Candidate list \<Rightarrow> (sim_error, 'q Results) result"

abbreviation ceNE :: "'q consol_env \<Rightarrow> 'q nodeclaim_env" where "ceNE C \<equiv> deNE (ceD C)"
abbreviation ceLabels :: "'q consol_env \<Rightarrow> label_env" where "ceLabels C \<equiv> deLabels (ceD C)"
abbreviation ceMaxBy :: "'q consol_env \<Rightarrow> 'q Offering extremum" where "ceMaxBy C \<equiv> deMaxBy (ceD C)"

datatype skip_reason =
    CandidateSkipNoCompatibleReplacement
  | CandidateSkipReplacementFlexibility
  | CandidateSkipBelowMinSavings
  | CandidateSkipNoCheaperSingleReplacement
  | CandidateSkipNoCheaperReplacementSet
  | CandidateSkipSpotMarketExhausted
  | CandidateSkipSpotToSpotFlexibility
  | CandidateSkipSpotToSpotDisabled
  | CandidateSkipSpotToSpotMinNodeAge

section \<open>Budgets\<close>

record priceBudget =
  candidatePrice :: rat
  pbMinSavings :: rat

definition priceBudget_limit :: "priceBudget \<Rightarrow> rat" where
  "priceBudget_limit b = candidatePrice b * (1 - pbMinSavings b)"

definition priceBudget_split :: "priceBudget \<Rightarrow> nat \<Rightarrow> rat" where
  "priceBudget_split b n = priceBudget_limit b / of_nat n"

definition vetoedByMargin :: "priceBudget \<Rightarrow> rat \<Rightarrow> bool" where
  "vetoedByMargin b cheapestTotal \<longleftrightarrow> cheapestTotal \<ge> priceBudget_limit b \<and> cheapestTotal < candidatePrice b"

section \<open>NodeClaims as replacements\<close>

abbreviation claim_options :: "'q InFlight \<Rightarrow> 'q InstanceType list" where
  "claim_options n \<equiv> nctInstanceTypeOptions (ifTemplate n)"

abbreviation claim_reqs :: "'q InFlight \<Rightarrow> requirements" where "claim_reqs n \<equiv> nctRequirements (ifTemplate n)"

definition set_options :: "'q InstanceType list \<Rightarrow> 'q InFlight \<Rightarrow> 'q InFlight" where
  "set_options its n = n\<lparr>ifTemplate := (ifTemplate n)\<lparr>nctInstanceTypeOptions := its\<rparr>\<rparr>"

text \<open>Adding a requirement \<^verbatim>\<open>In\<close> to those of a NodeClaim; \<^verbatim>\<open>NewRequirement\<close> does not fail for \<^verbatim>\<open>In\<close>.\<close>

definition require_in :: "label_env \<Rightarrow> string \<Rightarrow> string list \<Rightarrow> 'q InFlight \<Rightarrow> 'q InFlight" where
  "require_in E key vals n =
     (case NewRequirement E key OpIn vals of
        None \<Rightarrow> n
      | Some r \<Rightarrow> n\<lparr>ifTemplate := (ifTemplate n)\<lparr>nctRequirements := Requirements_Add E (claim_reqs n) [r]\<rparr>\<rparr>)"

abbreviation require_spot :: "label_env \<Rightarrow> 'q InFlight \<Rightarrow> 'q InFlight" where
  "require_spot E \<equiv> require_in E CapacityTypeLabelKey [CapacityTypeSpot]"

definition order_options :: "'q consol_env \<Rightarrow> 'q InFlight \<Rightarrow> 'q InFlight" where
  "order_options C n = set_options (OrderByPrice (ceLabels C) (deSortByPrice (ceD C)) (claim_options n) (claim_reqs n)) n"

definition capacity_allows :: "'q consol_env \<Rightarrow> string \<Rightarrow> 'q InFlight \<Rightarrow> bool" where
  "capacity_allows C ct n \<longleftrightarrow> Requirement_Has (Requirements_Get (ceLabels C) (claim_reqs n) CapacityTypeLabelKey) ct"

definition worst_price :: "'q consol_env \<Rightarrow> requirements \<Rightarrow> 'q InstanceType \<Rightarrow> rat" where
  "worst_price C rs it = WorstLaunchPrice (ceLabels C) (ceMaxBy C) (Available (itOfferings it)) rs"

section \<open>The price of a set of replacements\<close>

definition cheapestLaunchPrice :: "'q consol_env \<Rightarrow> 'q InFlight \<Rightarrow> rat" where
  "cheapestLaunchPrice C n =
     foldl (\<lambda>cheapest it. (let p = worst_price C (claim_reqs n) it in if p < cheapest then p else cheapest)) MaxFloat64 (claim_options n)"

definition cheapestAggregateLaunchPrice :: "'q consol_env \<Rightarrow> 'q InFlight list \<Rightarrow> rat" where
  "cheapestAggregateLaunchPrice C ns = (\<Sum>n\<leftarrow>ns. cheapestLaunchPrice C n)"

text \<open>The loop stops at the first NodeClaim that fails its minimum values; the flag tells whether none did.\<close>

fun filter_claims :: "'q consol_env \<Rightarrow> ('q InFlight \<Rightarrow> rat) \<Rightarrow> 'q InFlight list \<Rightarrow> 'q InFlight list \<times> bool" where
  "filter_claims C maxPrice [] = ([], True)"
| "filter_claims C maxPrice (n # ns) =
     (case RemoveInstanceTypeOptionsByPriceAndMinValues (ceNE C) (ceMaxBy C) (claim_reqs n) (maxPrice n) n of
        (n', short) \<Rightarrow>
          if short \<noteq> [] then (n' # ns, False)
          else (case filter_claims C maxPrice ns of (ns', ok) \<Rightarrow> (n' # ns', ok)))"

definition filterReplacementsByAggregatePrice :: "'q consol_env \<Rightarrow> 'q InFlight list \<Rightarrow> rat \<Rightarrow> 'q InFlight list \<times> bool" where
  "filterReplacementsByAggregatePrice C ns price =
     (let cheapestTotal = cheapestAggregateLaunchPrice C ns in
      if cheapestTotal \<ge> price then (map (set_options []) ns, True)
      else
        (let surplusShare = (price - cheapestTotal) / of_nat (length ns) in
         filter_claims C (\<lambda>n. if length ns > 1 then cheapestLaunchPrice C n + surplusShare else price) ns))"

text \<open>The offering \<^verbatim>\<open>WorstLaunchPrice\<close> prices an instance type at, for the text of an event; reading its labels may panic.\<close>

definition worstLaunchOffering :: "'q consol_env \<Rightarrow> 'q InstanceType \<Rightarrow> requirements \<Rightarrow> 'q Offering option" where
  "worstLaunchOffering C it rs =
     (case launchable (ceLabels C) (Available (itOfferings it)) rs launch_order of
        [] \<Rightarrow> None
      | ofs \<Rightarrow> Some (MostExpensive (ceMaxBy C) ofs))"

definition cheapestWorstLaunchDetail ::
  "'q consol_env \<Rightarrow> 'q InFlight \<Rightarrow> (string \<times> rat \<times> string \<times> string) option option" where
  "cheapestWorstLaunchDetail C n =
     (case foldl (\<lambda>best it.
             (case worstLaunchOffering C it (claim_reqs n) of
                None \<Rightarrow> best
              | Some o1 \<Rightarrow>
                  (case best of
                     None \<Rightarrow> Some (o1, itName it)
                   | Some (b, name) \<Rightarrow> if ofPrice o1 < ofPrice b then Some (o1, itName it) else best))) None (claim_options n) of
        None \<Rightarrow> Some None
      | Some (o1, name) \<Rightarrow>
          (case (CapacityType (ceLabels C) (nePick (ceNE C)) (neIntn (ceNE C)) o1, Zone (ceLabels C) (nePick (ceNE C)) (neIntn (ceNE C)) o1) of
             (Some ct, Some zone) \<Rightarrow> Some (Some (name, ofPrice o1, ct, zone))
           | _ \<Rightarrow> None))"

text \<open>The replacements left, with the reason where they cannot be used.\<close>

definition filterReplacementsAndPublish ::
  "'q consol_env \<Rightarrow> 'q InFlight list \<Rightarrow> 'q Candidate list \<Rightarrow> priceBudget \<Rightarrow> ('q InFlight list \<times> skip_reason option) option" where
  "filterReplacementsAndPublish C ns cs budget =
     (if list_ex (\<lambda>n. claim_options n = []) ns then Some (ns, Some CandidateSkipNoCompatibleReplacement)
      else if length cs = 1 \<and> (ns = [] \<or> cheapestWorstLaunchDetail C (hd ns) = None) then None
      else
        (case filterReplacementsByAggregatePrice C ns (priceBudget_limit budget) of
           (ns', False) \<Rightarrow> Some (ns', Some CandidateSkipReplacementFlexibility)
         | (ns', True) \<Rightarrow>
             if list_ex (\<lambda>n. claim_options n = []) ns'
             then Some (ns',
               Some (if vetoedByMargin budget (cheapestAggregateLaunchPrice C ns) then CandidateSkipBelowMinSavings
                     else if length ns = 1 then CandidateSkipNoCheaperSingleReplacement
                     else CandidateSkipNoCheaperReplacementSet))
             else Some (ns', None)))"

definition priceEmptiedSkip :: "skip_reason \<Rightarrow> bool" where
  "priceEmptiedSkip r \<longleftrightarrow>
     r = CandidateSkipNoCheaperSingleReplacement \<or> r = CandidateSkipNoCheaperReplacementSet \<or> r = CandidateSkipBelowMinSavings"

section \<open>Narrowing to spot capacity\<close>

definition satisfiesMinValues :: "requirement \<Rightarrow> nat \<Rightarrow> bool" where
  "satisfiesMinValues r n = (case MinValues r of None \<Rightarrow> True | Some m \<Rightarrow> m \<le> int n)"

text \<open>The zones of the cheap offerings of the first instance type that has any; reading a zone may panic.\<close>

fun cheap_zones :: "'q consol_env \<Rightarrow> requirements \<Rightarrow> rat \<Rightarrow> 'q InstanceType list \<Rightarrow> string list option" where
  "cheap_zones C rs budget [] = Some []"
| "cheap_zones C rs budget (it # its) =
     (let ofs = Offerings_Compatible (ceLabels C) (Available (itOfferings it)) rs in
      case those (map (\<lambda>o1. map_option (\<lambda>z. (z, o1)) (Zone (ceLabels C) (nePick (ceNE C)) (neIntn (ceNE C)) o1)) ofs) of
        None \<Rightarrow> None
      | Some zs \<Rightarrow>
          (let cheap = remdups (map fst (filter (\<lambda>(z, o1). ofPrice o1 < budget) zs)) in
           if cheap \<noteq> [] then Some cheap else cheap_zones C rs budget its))"

text \<open>The NodeClaim narrowed; the flag is false where it cannot be.\<close>

definition narrowClaimToCheapSpotZones :: "'q consol_env \<Rightarrow> rat \<Rightarrow> 'q InFlight \<Rightarrow> ('q InFlight \<times> bool) option" where
  "narrowClaimToCheapSpotZones C claimBudget n =
     (let E = ceLabels C in
      if \<not> satisfiesMinValues (Requirements_Get E (claim_reqs n) CapacityTypeLabelKey) 1 then Some (n, False)
      else
        (let n = require_spot E n in
         case cheap_zones C (claim_reqs n) claimBudget
                (OrderByPrice E (deSortByPrice (ceD C)) (InstanceTypes_Compatible E (claim_options n) (claim_reqs n)) (claim_reqs n)) of
           None \<Rightarrow> None
         | Some zones \<Rightarrow>
             if zones = [] \<or> \<not> satisfiesMinValues (Requirements_Get E (claim_reqs n) LabelTopologyZone) (length zones)
             then Some (n, False)
             else
               (let n = require_in E LabelTopologyZone zones n in
                Some (order_options C (set_options
                  (filter (\<lambda>it. worst_price C (claim_reqs n) it < claimBudget)
                     (InstanceTypes_Compatible E (claim_options n) (claim_reqs n))) n), True))))"

fun narrow_claims :: "'q consol_env \<Rightarrow> rat \<Rightarrow> 'q InFlight list \<Rightarrow> ('q InFlight list \<times> bool) option" where
  "narrow_claims C claimBudget [] = Some ([], True)"
| "narrow_claims C claimBudget (n # ns) =
     Option.bind (narrowClaimToCheapSpotZones C claimBudget n) (\<lambda>(n', ok).
       if \<not> ok then Some (n' # ns, False)
       else map_option (\<lambda>(ns', ok). (n' # ns', ok)) (narrow_claims C claimBudget ns))"

definition truncateSpotInstanceTypeOptions :: "'q consol_env \<Rightarrow> int \<Rightarrow> 'q InFlight \<Rightarrow> 'q InFlight" where
  "truncateSpotInstanceTypeOptions C maxOptions n =
     (let minimum = (if HasMinValues (claim_reqs n) then int (fst (SatisfiesMinValues (ceLabels C) (claim_options n) (claim_reqs n)))
                     else maxOptions)
      in set_options (take (nat (max maxOptions minimum)) (claim_options n)) n)"

text \<open>
  The retry works on the options the NodeClaims had before the price filter, \<open>snapshots\<close>, and on the
  requirements they have now. The result is None where the retry fails.
\<close>

definition restore_options :: "'q InstanceType list list \<Rightarrow> 'q InFlight list \<Rightarrow> 'q InFlight list" where
  "restore_options snapshots ns = map2 set_options snapshots ns"

definition retry_narrowed ::
  "'q consol_env \<Rightarrow> 'q Candidate list \<Rightarrow> 'q InstanceType list list \<Rightarrow> priceBudget \<Rightarrow> 'q InFlight list \<Rightarrow> 'q InFlight list option option" where
  "retry_narrowed C cs snapshots budget ns =
     Option.bind (narrow_claims C (priceBudget_split budget (length ns)) (restore_options snapshots ns)) (\<lambda>(ns', ok).
       if \<not> ok then Some None
       else map_option (\<lambda>(ns'', skip). if skip = None then Some ns'' else None) (filterReplacementsAndPublish C ns' cs budget))"

definition retrySpotOnlyReplacements ::
  "'q consol_env \<Rightarrow> 'q Candidate list \<Rightarrow> 'q InstanceType list list \<Rightarrow> priceBudget \<Rightarrow> 'q InFlight list \<Rightarrow> 'q InFlight list option option" where
  "retrySpotOnlyReplacements C cs snapshots budget ns =
     map_option (map_option (map (truncateSpotInstanceTypeOptions C (SpotToSpotMinInstanceTypes (ceOptions C)))))
       (retry_narrowed C cs snapshots budget ns)"

definition filterSpotReplacementsWithZoneRetry ::
  "'q consol_env \<Rightarrow> 'q Candidate list \<Rightarrow> priceBudget \<Rightarrow> 'q InFlight list \<Rightarrow> (skip_reason + 'q InFlight list) option" where
  "filterSpotReplacementsWithZoneRetry C cs budget ns =
     Option.bind (filterReplacementsAndPublish C ns cs budget) (\<lambda>(ns', skip).
       case skip of
         None \<Rightarrow> Some (Inr ns')
       | Some reason \<Rightarrow>
           if \<not> priceEmptiedSkip reason then Some (Inl reason)
           else map_option (\<lambda>r. case r of None \<Rightarrow> Inl reason | Some ns'' \<Rightarrow> Inr ns'')
                  (retry_narrowed C cs (map claim_options ns) budget ns'))"

section \<open>Spot markets the cloud provider advises against\<close>

record spotReplacementMarket =
  mkAdmitted :: "string set"
  mkRejected :: "string set"
  mkPrice :: rat

text \<open>One offering: incompatible ones are passed over; the counter counts what the advisor rejects.\<close>

definition note_offering ::
  "'q consol_env \<Rightarrow> ('q Offering \<Rightarrow> bool) \<Rightarrow> requirements \<Rightarrow> bool \<Rightarrow> spotReplacementMarket \<times> nat \<Rightarrow> 'q Offering \<Rightarrow>
   (spotReplacementMarket \<times> nat) option" where
  "note_offering C advised rs fits mr o1 =
     (case mr of (m, rejected) \<Rightarrow>
        if \<not> offering_compatible (ceLabels C) rs o1 then Some (m, rejected)
        else
          map_option (\<lambda>zone.
            if \<not> advised o1 then (m\<lparr>mkRejected := insert zone (mkRejected m)\<rparr>, Suc rejected)
            else if \<not> fits then (m\<lparr>mkRejected := insert zone (mkRejected m)\<rparr>, rejected)
            else (m\<lparr>mkAdmitted := insert zone (mkAdmitted m), mkPrice := min (mkPrice m) (ofPrice o1)\<rparr>, rejected))
            (Zone (ceLabels C) (nePick (ceNE C)) (neIntn (ceNE C)) o1))"

fun note_offerings ::
  "'q consol_env \<Rightarrow> ('q Offering \<Rightarrow> bool) \<Rightarrow> requirements \<Rightarrow> (bool \<times> 'q Offering) list \<Rightarrow> spotReplacementMarket \<times> nat \<Rightarrow>
   (spotReplacementMarket \<times> nat) option" where
  "note_offerings C advised rs [] mr = Some mr"
| "note_offerings C advised rs ((fits, o1) # ofs) mr =
     Option.bind (note_offering C advised rs fits mr o1) (note_offerings C advised rs ofs)"

definition new_market :: spotReplacementMarket where
  "new_market = \<lparr>mkAdmitted = {}, mkRejected = {}, mkPrice = MaxFloat64\<rparr>"

text \<open>The available offerings of an instance type, each with whether the requests fit its group.\<close>

definition fitted_offerings ::
  "'q::linordered_ab_group_add consol_env \<Rightarrow> 'q ResourceList \<Rightarrow> 'q InstanceType \<Rightarrow> (bool \<times> 'q Offering) list option" where
  "fitted_offerings C requests it =
     map_option (\<lambda>gs. concat (map (\<lambda>g. map (Pair (Fits requests (aoAllocatable g))) (aoOfferings g)) gs))
       (precompute (neShowC (ceNE C)) (neShowO (ceNE C)) it)"

fun spotReplacementMarkets ::
  "'q::linordered_ab_group_add consol_env \<Rightarrow> (string \<Rightarrow> 'q InstanceType \<Rightarrow> 'q Offering \<Rightarrow> bool) \<Rightarrow> 'q InFlight \<Rightarrow>
   'q InstanceType list \<Rightarrow> nat \<Rightarrow> (('q InstanceType \<times> spotReplacementMarket) list \<times> nat) option" where
  "spotReplacementMarkets C advisor n [] rejected = Some ([], rejected)"
| "spotReplacementMarkets C advisor n (it # its) rejected =
     Option.bind (fitted_offerings C (specRequests (nctSpec (ifTemplate n))) it) (\<lambda>ofs.
       Option.bind (note_offerings C (advisor (nctNodePoolName (ifTemplate n)) it) (claim_reqs n) ofs (new_market, rejected))
         (\<lambda>(m, rejected). map_option (\<lambda>(ms, r). ((it, m) # ms, r)) (spotReplacementMarkets C advisor n its rejected)))"

definition launch_zones :: "spotReplacementMarket \<Rightarrow> string set" where
  "launch_zones m = mkAdmitted m - mkRejected m - {[]}"

definition launchableSpotReplacementMarkets ::
  "('q InstanceType \<times> spotReplacementMarket) list \<Rightarrow> 'q InstanceType list \<times> string set" where
  "launchableSpotReplacementMarkets ms =
     (let anchors = sort_key (\<lambda>(it, m). mkPrice m) (filter (\<lambda>(it, m). mkAdmitted m \<noteq> {}) ms) in
      case find (\<lambda>(it, m). launch_zones m \<noteq> {}) anchors of
        None \<Rightarrow> ([], {})
      | Some (_, a) \<Rightarrow>
          (let zones = launch_zones a in
           (map fst (filter (\<lambda>(it, m). mkAdmitted m \<inter> zones \<noteq> {} \<and> mkRejected m \<inter> zones = {} \<and> [] \<notin> mkRejected m) ms), zones)))"

definition restrict_claim ::
  "'q::linordered_ab_group_add consol_env \<Rightarrow> (string \<Rightarrow> 'q InstanceType \<Rightarrow> 'q Offering \<Rightarrow> bool) \<Rightarrow> 'q InFlight \<Rightarrow>
   (skip_reason + 'q InFlight) option" where
  "restrict_claim C advisor n =
     map_option (\<lambda>(ms, rejected).
       if rejected = 0 then Inr n
       else
         (case launchableSpotReplacementMarkets ms of
            (types, zones) \<Rightarrow>
              if types = [] then Inl CandidateSkipSpotMarketExhausted
              else if \<not> satisfiesMinValues (Requirements_Get (ceLabels C) (claim_reqs n) LabelTopologyZone) (card zones)
                then Inl CandidateSkipReplacementFlexibility
              else Inr (order_options C (set_options types (require_in (ceLabels C) LabelTopologyZone (sorted_list_of_set zones) n)))))
       (spotReplacementMarkets C advisor n (claim_options n) 0)"

fun restrict_claims ::
  "('q InFlight \<Rightarrow> (skip_reason + 'q InFlight) option) \<Rightarrow> 'q InFlight list \<Rightarrow> (skip_reason + 'q InFlight list) option" where
  "restrict_claims f [] = Some (Inr [])"
| "restrict_claims f (n # ns) =
     Option.bind (f n) (\<lambda>r.
       case r of
         Inl reason \<Rightarrow> Some (Inl reason)
       | Inr n' \<Rightarrow> map_option (\<lambda>r. case r of Inl reason \<Rightarrow> Inl reason | Inr ns' \<Rightarrow> Inr (n' # ns')) (restrict_claims f ns))"

definition restrictSpotReplacementsToLaunchableMarkets ::
  "'q::linordered_ab_group_add consol_env \<Rightarrow> 'q InFlight list \<Rightarrow> (skip_reason + 'q InFlight list) option" where
  "restrictSpotReplacementsToLaunchableMarkets C ns =
     (case ceAdvisor C of None \<Rightarrow> Some (Inr ns) | Some advisor \<Rightarrow> restrict_claims (restrict_claim C advisor) ns)"

definition narrowSpotReplacements ::
  "'q::linordered_ab_group_add consol_env \<Rightarrow> 'q Candidate list \<Rightarrow> priceBudget \<Rightarrow> 'q InFlight list \<Rightarrow> (skip_reason + 'q InFlight list) option" where
  "narrowSpotReplacements C cs budget ns =
     Option.bind (restrictSpotReplacementsToLaunchableMarkets C ns) (\<lambda>r.
       case r of Inl reason \<Rightarrow> Some (Inl reason) | Inr ns' \<Rightarrow> filterSpotReplacementsWithZoneRetry C cs budget ns')"

section \<open>Spot to spot\<close>

definition NodePoolSpotToSpotMinNodeAgeAnnotationKey :: string where
  "NodePoolSpotToSpotMinNodeAgeAnnotationKey = Group @ ''/spot-to-spot-min-node-age''"

definition NodePoolSpotToSpotMinSavingsAnnotationKey :: string where
  "NodePoolSpotToSpotMinSavingsAnnotationKey = Group @ ''/spot-to-spot-min-savings''"

text \<open>The flag tells whether the annotation is invalid.\<close>

definition SpotToSpotMinNodeAgeForNodePool :: "(string \<Rightarrow> int option) \<Rightarrow> 'q NodePool \<Rightarrow> int \<Rightarrow> int \<times> bool" where
  "SpotToSpotMinNodeAgeForNodePool parseDuration np def =
     (let v = mget [] (npAnnotations np) NodePoolSpotToSpotMinNodeAgeAnnotationKey in
      if v = [] then (def, False)
      else (case parseDuration v of None \<Rightarrow> (def, True) | Some age \<Rightarrow> if age < 0 then (def, True) else (age, False)))"

definition SpotToSpotMinSavingsForNodePool :: "(string \<Rightarrow> rat option) \<Rightarrow> 'q NodePool \<Rightarrow> rat \<Rightarrow> rat \<times> bool" where
  "SpotToSpotMinSavingsForNodePool parseFloat np def =
     (let v = mget [] (npAnnotations np) NodePoolSpotToSpotMinSavingsAnnotationKey in
      if v = [] then (def, False)
      else (case parseFloat v of None \<Rightarrow> (def, True) | Some x \<Rightarrow> if x < 0 \<or> x \<ge> 1 then (def, True) else (x, False)))"

fun stability_loop :: "'q consol_env \<Rightarrow> 'q Candidate list \<Rightarrow> rat \<Rightarrow> (skip_reason + rat) option" where
  "stability_loop C [] minSavings = Some (Inr minSavings)"
| "stability_loop C (c # cs) minSavings =
     (let D = ceD C; opts = ceOptions C; np = cdNodePool c;
          age = fst (SpotToSpotMinNodeAgeForNodePool (deParseDuration D) np (SpotToSpotMinNodeAge opts));
          savings = fst (SpotToSpotMinSavingsForNodePool (seParseFloat (deState D)) np (SpotToSpotMinSavings opts))
      in if age > 0
         then (case stNodeClaim (cdNode c) of
                 None \<Rightarrow> None
               | Some nc \<Rightarrow>
                   if time_Sub (ceNow C) (ncCreationTimestamp nc) < age then Some (Inl CandidateSkipSpotToSpotMinNodeAge)
                   else stability_loop C cs (max minSavings savings))
         else stability_loop C cs (max minSavings savings))"

definition spotToSpotStabilityFloor :: "'q consol_env \<Rightarrow> 'q Candidate list \<Rightarrow> pass_state \<Rightarrow> (pass_state \<times> (skip_reason + rat)) option" where
  "spotToSpotStabilityFloor C cs st =
     (if \<not> SpotToSpotConsolidation (ceOptions C) then Some (st, Inl CandidateSkipSpotToSpotDisabled)
      else
        map_option (\<lambda>r. case r of Inl reason \<Rightarrow> (st\<lparr>inconclusive := True\<rparr>, Inl reason) | Inr savings \<Rightarrow> (st, Inr savings))
          (stability_loop C cs 0))"

definition replace_command :: "'q Candidate list \<Rightarrow> 'q Results \<Rightarrow> 'q InFlight list \<Rightarrow> rat \<Rightarrow> 'q Command" where
  "replace_command cs results ns priceLimit =
     \<lparr>cmdCandidates = cs, cmdReplacements = ns, cmdResults = results\<lparr>rNewNodeClaims := ns\<rparr>,
      cmdPoolDisruptionCosts = computePoolDisruptionCosts cs, cmdNewCapacityPriceLimit = priceLimit\<rparr>"

definition computeSpotToSpotConsolidation ::
  "'q::linordered_ab_group_add consol_env \<Rightarrow> 'q Candidate list \<Rightarrow> 'q Results \<Rightarrow> priceBudget \<Rightarrow> simulation_options \<Rightarrow> pass_state \<Rightarrow>
   (pass_state \<times> (skip_reason + 'q Command)) option" where
  "computeSpotToSpotConsolidation C cs results budget so st =
     Option.bind (spotToSpotStabilityFloor C cs st) (\<lambda>(st, floor).
       case floor of
         Inl reason \<Rightarrow> Some (st, Inl reason)
       | Inr minSavings \<Rightarrow>
           (let budget = budget\<lparr>pbMinSavings := max (pbMinSavings budget) minSavings\<rparr>;
                ns = map (\<lambda>n.
                  (let n = require_spot (ceLabels C) n in
                   order_options C (set_options (InstanceTypes_Compatible (ceLabels C) (claim_options n) (claim_reqs n)) n)))
                  (rNewNodeClaims results);
                few = SpotToSpotMinInstanceTypes (ceOptions C)
            in map_option (\<lambda>r.
                 (st, case r of
                        Inl reason \<Rightarrow> Inl reason
                      | Inr ns' \<Rightarrow>
                          if length cs > 1 then Inr (replace_command cs results ns' 0)
                          else if list_ex (\<lambda>n. int (length (claim_options n)) < few) ns' then Inl CandidateSkipSpotToSpotFlexibility
                          else Inr (replace_command cs results (map (truncateSpotInstanceTypeOptions C few) ns') (newCapacityPriceLimit so))))
                 (narrowSpotReplacements C cs budget ns)))"

section \<open>Computing a command\<close>

definition AllNonPendingPodsScheduled :: "'q Results \<Rightarrow> bool" where
  "AllNonPendingPodsScheduled r \<longleftrightarrow> filter (\<lambda>(p, _). \<not> IsProvisionable p) (rPodErrors r) = []"

definition odToSpotRetryApplies :: "'q consol_env \<Rightarrow> 'q Candidate list \<Rightarrow> 'q InFlight list \<Rightarrow> bool \<times> bool" where
  "odToSpotRetryApplies C cs ns =
     (let opts = ceOptions C in
      if \<not> ODToSpotConsolidation opts \<and> \<not> ODToSpotConsolidationShadow opts then (False, False)
      else if list_ex (\<lambda>c. cdCapacityType c \<noteq> CapacityTypeOnDemand) cs then (False, False)
      else if list_ex (\<lambda>n. \<not> capacity_allows C CapacityTypeSpot n) ns then (False, False)
      else (True, \<not> ODToSpotConsolidation opts))"

text \<open>Where both may launch, the replacement is pinned to spot.\<close>

definition pin_spot :: "'q consol_env \<Rightarrow> 'q InFlight \<Rightarrow> 'q InFlight" where
  "pin_spot C n =
     (if capacity_allows C CapacityTypeSpot n \<and> capacity_allows C CapacityTypeOnDemand n then require_spot (ceLabels C) n else n)"

definition replacement_cap :: "consol_options \<Rightarrow> simulation_options \<Rightarrow> 'q Candidate list \<Rightarrow> int" where
  "replacement_cap opts so cs =
     (if length cs = 1
      then max 1 (if soMaxReplacements so > 0 then soMaxReplacements so else MaxConsolidationReplacements opts)
      else 1)"

type_synonym 'q split_attempt =
  "simulation_options \<Rightarrow> rat \<Rightarrow> 'q Candidate list \<Rightarrow> pass_state \<Rightarrow> (pass_state \<times> 'q Command option) option"

text \<open>A command of the split fallback, where it finds one.\<close>

definition or_split :: "(pass_state \<times> 'q Command option) option \<Rightarrow> (sim_error, pass_state \<times> 'q Command) result" where
  "or_split r =
     (case r of None \<Rightarrow> Panic | Some (st, Some cmd) \<Rightarrow> Ok (st, cmd) | Some (st, None) \<Rightarrow> Ok (st, no_command))"

text \<open>
  The simulation with a given fallback. A split simulation does not fall back again, since it
  carries a limit on the price of new capacity.
\<close>

definition compute_with ::
  "'q::linordered_ab_group_add consol_env \<Rightarrow> 'q split_attempt \<Rightarrow> simulation_options \<Rightarrow> 'q Candidate list \<Rightarrow> pass_state \<Rightarrow>
   (sim_error, pass_state \<times> 'q Command) result" where
  "compute_with C trySplit so cs st =
     (case ceSimulate C (newCapacityPriceLimit so) cs of
        Panic \<Rightarrow> Panic
      | Err e \<Rightarrow> (case e of CandidateDeleting \<Rightarrow> Ok (st\<lparr>inconclusive := True\<rparr>, no_command) | _ \<Rightarrow> Err e)
      | Ok results \<Rightarrow>
          if \<not> AllNonPendingPodsScheduled results then Ok (st, no_command)
          else if rNewNodeClaims results = [] then Ok (st, replace_command cs results [] 0)
          else if int (length (rNewNodeClaims results)) > replacement_cap (ceOptions C) so cs then Ok (st, no_command)
          else
            (let price = sumCandidatePrices cs;
                 budget = \<lparr>candidatePrice = price, pbMinSavings = soMinSavings so\<rparr>;
                 ns = map (order_options C) (rNewNodeClaims results)
             in if list_all (\<lambda>c. cdCapacityType c = CapacityTypeSpot) cs \<and> list_ex (capacity_allows C CapacityTypeSpot) ns
                then
                  (case computeSpotToSpotConsolidation C cs (results\<lparr>rNewNodeClaims := ns\<rparr>) budget so st of
                     None \<Rightarrow> Panic
                   | Some (st, Inr cmd) \<Rightarrow> Ok (st, cmd)
                   | Some (st, Inl reason) \<Rightarrow>
                       if reason \<noteq> CandidateSkipSpotToSpotMinNodeAge then or_split (trySplit so price cs st)
                       else Ok (st, no_command))
                else
                  (case filterReplacementsAndPublish C ns cs budget of
                     None \<Rightarrow> Panic
                   | Some (ns', None) \<Rightarrow> Ok (st, replace_command cs results (map (pin_spot C) ns') (newCapacityPriceLimit so))
                   | Some (ns', Some reason) \<Rightarrow>
                       (case odToSpotRetryApplies C cs ns of
                          (applies, shadow) \<Rightarrow>
                            (case (if applies then retrySpotOnlyReplacements C cs (map claim_options ns) budget ns' else Some None) of
                               None \<Rightarrow> Panic
                             | Some (Some ns'') \<Rightarrow>
                                 if \<not> shadow then Ok (st, replace_command cs results ns'' (newCapacityPriceLimit so))
                                 else or_split (trySplit so price cs st)
                             | Some None \<Rightarrow> or_split (trySplit so price cs st))))))"

definition no_split :: "'q split_attempt" where "no_split so price cs st = Some (st, None)"

definition split_live :: "consol_options \<Rightarrow> bool" where
  "split_live opts \<longleftrightarrow> ConsolidationSplitFallback opts \<and> MaxConsolidationReplacements opts \<ge> 2"

definition splitCandidate :: "consol_options \<Rightarrow> simulation_options \<Rightarrow> rat \<Rightarrow> 'q Candidate list \<Rightarrow> 'q Candidate option" where
  "splitCandidate opts so price cs =
     (if newCapacityPriceLimit so > 0 then None
      else
        (case cs of
           [c] \<Rightarrow>
             if \<not> split_live opts \<and> \<not> ConsolidationSplitShadow opts then None
             else if price \<le> 0 \<or> length (cdReschedulablePods c) < 2 then None
             else if cdCapacityType c = CapacityTypeSpot \<and> \<not> SpotToSpotConsolidation opts then None
             else Some c
         | _ \<Rightarrow> None))"

definition acquireSplitAttempt :: "bool \<Rightarrow> pass_state \<Rightarrow> pass_state \<times> bool" where
  "acquireSplitAttempt shadow st =
     (case splitRemaining st of
        None \<Rightarrow> (st, False)
      | Some r \<Rightarrow>
          if r > 0 then (st\<lparr>splitRemaining := Some (r - 1)\<rparr>, True)
          else (if shadow then st else st\<lparr>inconclusive := True\<rparr>, False))"

definition splitSimulation ::
  "'q::linordered_ab_group_add consol_env \<Rightarrow> 'q Candidate \<Rightarrow> rat \<Rightarrow> int \<Rightarrow> pass_state \<Rightarrow> (sim_error, pass_state \<times> 'q Command) result" where
  "splitSimulation C c price maxReplacements st =
     compute_with C no_split
       \<lparr>newCapacityPriceLimit = price,
        soMinSavings = max (ConsolidationSplitMinSavings (ceOptions C)) (ConsolidationReplaceMinSavings (ceOptions C)),
        soMaxReplacements = maxReplacements\<rparr> [c] st"

definition trySplitConsolidation :: "'q::linordered_ab_group_add consol_env \<Rightarrow> 'q split_attempt" where
  "trySplitConsolidation C so price cs st =
     (let opts = ceOptions C; live = split_live opts; shadow = (\<not> live \<and> ConsolidationSplitShadow opts) in
      case splitCandidate opts so price cs of
        None \<Rightarrow> Some (st, None)
      | Some c \<Rightarrow>
          (case acquireSplitAttempt shadow st of
             (st, False) \<Rightarrow> Some (st, None)
           | (st, True) \<Rightarrow>
               if shadow
               then (case splitSimulation C c price (ConsolidationSplitShadowMaxReplacements opts) st of
                       Panic \<Rightarrow> None
                     | Err e \<Rightarrow> Some (st, None)
                     | Ok (st, cmd) \<Rightarrow> Some (st, None))
               else (case splitSimulation C c price 0 st of
                       Panic \<Rightarrow> None
                     | Err e \<Rightarrow> Some (st\<lparr>inconclusive := True\<rparr>, None)
                     | Ok (st, cmd) \<Rightarrow> Some (st, if Command_Decision cmd \<noteq> ReplaceDecision then None else Some cmd))))"

definition computeConsolidationWithOptions ::
  "'q::linordered_ab_group_add consol_env \<Rightarrow> simulation_options \<Rightarrow> 'q Candidate list \<Rightarrow> pass_state \<Rightarrow>
   (sim_error, pass_state \<times> 'q Command) result" where
  "computeConsolidationWithOptions C = compute_with C (trySplitConsolidation C)"

definition computeConsolidation ::
  "'q::linordered_ab_group_add consol_env \<Rightarrow> 'q Candidate list \<Rightarrow> pass_state \<Rightarrow> (sim_error, pass_state \<times> 'q Command) result" where
  "computeConsolidation C =
     computeConsolidationWithOptions C
       \<lparr>newCapacityPriceLimit = 0, soMinSavings = ConsolidationReplaceMinSavings (ceOptions C), soMaxReplacements = 0\<rparr>"

end
