(* ===== verification/Matching.thy ===== *)
theory Matching
  imports Prelude
begin

text \<open>
  The matching of replacements with simulated NodeClaims
  (\<^verbatim>\<open>replacementsMatchSimulation\<close> in \<^verbatim>\<open>pkg/controllers/disruption/validation.go\<close>): augmenting paths over a
  table of which replacement may stand for which NodeClaim. It finds a matching of all
  replacements exactly when one exists.
\<close>

section \<open>The search\<close>

type_synonym match_state = "bool list \<times> nat option list"

text \<open>
  The closure \<^verbatim>\<open>augment\<close> with its loop over the columns; None stands for -1. Every nested call marks a
  column first, so the columns bound the depth. \<open>augment\<close> runs with one more step than there are
  columns, and \<open>match_all_exact\<close> shows that this is enough.
\<close>

fun augment_loop ::
  "(nat \<Rightarrow> nat \<Rightarrow> bool) \<Rightarrow> (nat \<Rightarrow> match_state \<Rightarrow> bool \<times> match_state) \<Rightarrow> nat \<Rightarrow> nat list \<Rightarrow> match_state \<Rightarrow> bool \<times> match_state" where
  "augment_loop canSatisfy rec i [] s = (False, s)"
| "augment_loop canSatisfy rec i (j # js) s =
     (case s of (visited, matchedTo) \<Rightarrow>
        if \<not> canSatisfy i j \<or> visited ! j then augment_loop canSatisfy rec i js s
        else
          (let visited = visited[j := True] in
           case matchedTo ! j of
             None \<Rightarrow> (True, (visited, matchedTo[j := Some i]))
           | Some k \<Rightarrow>
               (case rec k (visited, matchedTo) of
                  (True, (visited, matchedTo)) \<Rightarrow> (True, (visited, matchedTo[j := Some i]))
                | (False, s) \<Rightarrow> augment_loop canSatisfy rec i js s)))"

fun augment_in :: "(nat \<Rightarrow> nat \<Rightarrow> bool) \<Rightarrow> nat \<Rightarrow> nat \<Rightarrow> nat \<Rightarrow> match_state \<Rightarrow> bool \<times> match_state" where
  "augment_in canSatisfy m 0 i s = (False, s)"
| "augment_in canSatisfy m (Suc f) i s = augment_loop canSatisfy (augment_in canSatisfy m f) i [0..<m] s"

definition augment :: "(nat \<Rightarrow> nat \<Rightarrow> bool) \<Rightarrow> nat \<Rightarrow> nat \<Rightarrow> match_state \<Rightarrow> bool \<times> match_state" where
  "augment canSatisfy m = augment_in canSatisfy m (Suc m)"

fun match_rows :: "(nat \<Rightarrow> nat \<Rightarrow> bool) \<Rightarrow> nat \<Rightarrow> nat list \<Rightarrow> nat option list \<Rightarrow> bool" where
  "match_rows canSatisfy m [] matchedTo = True"
| "match_rows canSatisfy m (i # is) matchedTo =
     (case augment canSatisfy m i (replicate m False, matchedTo) of
        (False, _) \<Rightarrow> False
      | (True, (_, matchedTo)) \<Rightarrow> match_rows canSatisfy m is matchedTo)"

definition match_all :: "(nat \<Rightarrow> nat \<Rightarrow> bool) \<Rightarrow> nat \<Rightarrow> nat \<Rightarrow> bool" where
  "match_all canSatisfy n m = match_rows canSatisfy m [0..<n] (replicate m None)"

section \<open>What a search leaves behind\<close>

text \<open>
  Outside the columns \<open>Y\<close>, whose rows are being moved, the columns hold different rows, each of which
  may have its column.
\<close>

definition pairs :: "nat option list \<Rightarrow> nat set \<Rightarrow> (nat \<times> nat) set" where
  "pairs mt Y = {(j, k). j < length mt \<and> j \<notin> Y \<and> mt ! j = Some k}"

definition holds_rows :: "(nat \<Rightarrow> nat \<Rightarrow> bool) \<Rightarrow> nat option list \<Rightarrow> nat set \<Rightarrow> bool" where
  "holds_rows ok mt Y \<longleftrightarrow> (\<forall>(j, k) \<in> pairs mt Y. ok k j) \<and> inj_on snd (pairs mt Y)"

definition rows_of :: "nat option list \<Rightarrow> nat set \<Rightarrow> nat set" where
  "rows_of mt Y = snd ` pairs mt Y"

definition marked :: "bool list \<Rightarrow> nat set" where "marked vis = {j. j < length vis \<and> vis ! j}"

lemma marked_update: "j < length vis \<Longrightarrow> marked (vis[j := True]) = insert j (marked vis)"
  by (auto simp: marked_def nth_list_update)

lemma marked_lt: "marked vis \<subseteq> {..<length vis}"
  by (auto simp: marked_def)

text \<open>A search that succeeds moves rows along one path and gives the row a column.\<close>

definition augmented :: "(nat \<Rightarrow> nat \<Rightarrow> bool) \<Rightarrow> nat \<Rightarrow> match_state \<Rightarrow> match_state \<Rightarrow> bool" where
  "augmented ok i s s' \<longleftrightarrow>
     (case (s, s') of ((vis, mt), (vis', mt')) \<Rightarrow>
        length vis' = length vis \<and> length mt' = length mt \<and> marked vis \<subseteq> marked vis' \<and>
        (\<forall>j \<in> marked vis. mt' ! j = mt ! j) \<and>
        (\<forall>Y. Y \<subseteq> marked vis \<longrightarrow> holds_rows ok mt Y \<longrightarrow> i \<notin> rows_of mt Y \<longrightarrow>
           holds_rows ok mt' Y \<and> rows_of mt' Y = insert i (rows_of mt Y)))"

text \<open>A search that fails changes no column, and closes the set of columns it marked.\<close>

definition stuck_at :: "(nat \<Rightarrow> nat \<Rightarrow> bool) \<Rightarrow> nat \<Rightarrow> nat \<Rightarrow> match_state \<Rightarrow> match_state \<Rightarrow> bool" where
  "stuck_at ok m i s s' \<longleftrightarrow>
     (case (s, s') of ((vis, mt), (vis', mt')) \<Rightarrow>
        mt' = mt \<and> length vis' = length vis \<and> marked vis \<subseteq> marked vis' \<and>
        (\<forall>j < m. ok i j \<longrightarrow> j \<in> marked vis') \<and>
        (\<forall>j \<in> marked vis' - marked vis. \<exists>k. mt ! j = Some k \<and> (\<forall>j' < m. ok k j' \<longrightarrow> j' \<in> marked vis')))"

lemma pairs_update: "j < length mt \<Longrightarrow> j \<notin> Y \<Longrightarrow> pairs (mt[j := Some i]) Y = insert (j, i) (pairs mt (insert j Y))"
  by (auto simp: pairs_def nth_list_update split: if_splits)

lemma pairs_taken: "j < length mt \<Longrightarrow> j \<notin> Y \<Longrightarrow> mt ! j = Some k \<Longrightarrow> pairs mt Y = insert (j, k) (pairs mt (insert j Y))"
  by (auto simp: pairs_def)

lemma pairs_mono: "Y \<subseteq> Z \<Longrightarrow> pairs mt Z \<subseteq> pairs mt Y"
  by (auto simp: pairs_def)

lemma rows_of_update:
  assumes "j < length mt" "j \<notin> Y"
  shows "rows_of (mt[j := Some i]) Y = insert i (rows_of mt (insert j Y))"
  by (simp add: rows_of_def pairs_update[OF assms])

lemma holds_rows_update:
  assumes "holds_rows ok mt (insert j Y)" "ok i j" "i \<notin> rows_of mt (insert j Y)" "j < length mt" "j \<notin> Y"
  shows "holds_rows ok (mt[j := Some i]) Y"
proof -
  have "(j, i) \<notin> pairs mt (insert j Y)" by (simp add: pairs_def)
  then show ?thesis
    using assms(1-3) unfolding holds_rows_def rows_of_def pairs_update[OF assms(4,5)] inj_on_insert by simp
qed

lemma rows_of_taken:
  assumes "holds_rows ok mt Y" "j < length mt" "j \<notin> Y" "mt ! j = Some k"
  shows "k \<notin> rows_of mt (insert j Y)" "insert k (rows_of mt (insert j Y)) = rows_of mt Y"
proof -
  have "(j, k) \<notin> pairs mt (insert j Y)" by (simp add: pairs_def)
  then show "k \<notin> rows_of mt (insert j Y)" "insert k (rows_of mt (insert j Y)) = rows_of mt Y"
    using assms(1) unfolding holds_rows_def rows_of_def pairs_taken[OF assms(2-4)] inj_on_insert by simp_all
qed

lemma holds_rows_mono: "holds_rows ok mt Y \<Longrightarrow> Y \<subseteq> Z \<Longrightarrow> holds_rows ok mt Z"
  using pairs_mono[of Y Z mt] unfolding holds_rows_def by (blast intro: inj_on_subset)

text \<open>Taking a free column.\<close>

lemma augmented_free:
  assumes "j < length vis" "length mt = length vis" "\<not> vis ! j" "ok i j" "mt ! j = None"
  shows "augmented ok i (vis, mt) (vis[j := True], mt[j := Some i])"
proof -
  have j: "j \<notin> marked vis" "j < length mt" using assms by (auto simp: marked_def)
  have "holds_rows ok (mt[j := Some i]) Y \<and> rows_of (mt[j := Some i]) Y = insert i (rows_of mt Y)"
    if "Y \<subseteq> marked vis" "holds_rows ok mt Y" "i \<notin> rows_of mt Y" for Y
  proof -
    have "j \<notin> Y" using that(1) j by auto
    moreover have "rows_of mt (insert j Y) = rows_of mt Y" using assms(5) by (auto simp: rows_of_def pairs_def)
    ultimately show ?thesis
      using holds_rows_update[OF holds_rows_mono[OF that(2)] assms(4)] rows_of_update that(3) j(2) by (simp add: subset_insertI)
  qed
  then show ?thesis using assms j by (auto simp: augmented_def marked_update nth_list_update)
qed

text \<open>Taking the column of a row that moved elsewhere.\<close>

lemma augmented_taken:
  assumes "j < length vis" "length mt = length vis" "\<not> vis ! j" "ok i j" "mt ! j = Some k"
    and rec: "augmented ok k (vis[j := True], mt) (vis', mt')"
  shows "augmented ok i (vis, mt) (vis', mt'[j := Some i])"
proof -
  have j: "j \<notin> marked vis" "j < length mt" using assms by (auto simp: marked_def)
  have len: "length vis' = length vis" "length mt' = length mt" and mk: "insert j (marked vis) \<subseteq> marked vis'"
    and same: "\<forall>x \<in> insert j (marked vis). mt' ! x = mt ! x"
    and moved: "\<And>Y. Y \<subseteq> insert j (marked vis) \<Longrightarrow> holds_rows ok mt Y \<Longrightarrow> k \<notin> rows_of mt Y \<Longrightarrow>
       holds_rows ok mt' Y \<and> rows_of mt' Y = insert k (rows_of mt Y)"
    using rec assms(1) by (auto simp: augmented_def marked_update)
  have "holds_rows ok (mt'[j := Some i]) Y \<and> rows_of (mt'[j := Some i]) Y = insert i (rows_of mt Y)"
    if Y: "Y \<subseteq> marked vis" "holds_rows ok mt Y" "i \<notin> rows_of mt Y" for Y
  proof -
    have jY: "j \<notin> Y" using Y(1) j by auto
    note k = rows_of_taken[OF Y(2) j(2) jY assms(5)]
    have "holds_rows ok mt' (insert j Y) \<and> rows_of mt' (insert j Y) = rows_of mt Y"
      using moved[of "insert j Y"] holds_rows_mono[OF Y(2), of "insert j Y"] Y(1) k by auto
    then show ?thesis
      using holds_rows_update[of ok mt' j Y i] rows_of_update[of j mt' Y i] assms(4) Y(3) j(2) jY len by simp
  qed
  then show ?thesis using len mk same j by (auto simp: augmented_def nth_list_update)
qed

lemma augment_loop_sound:
  assumes rec: "\<And>k s s'. rec k s = (True, s') \<Longrightarrow> length (snd s) = m \<Longrightarrow> length (fst s) = m \<Longrightarrow> augmented ok k s s'"
    and fails: "\<And>k s s'. rec k s = (False, s') \<Longrightarrow> length (snd s) = m \<Longrightarrow> length (fst s) = m \<Longrightarrow>
       snd s' = snd s \<and> length (fst s') = m \<and> marked (fst s) \<subseteq> marked (fst s')"
  shows "augment_loop ok rec i js s = (True, s') \<Longrightarrow> length (snd s) = m \<Longrightarrow> length (fst s) = m \<Longrightarrow> set js \<subseteq> {..<m} \<Longrightarrow>
    augmented ok i s s'"
proof (induction js arbitrary: s)
  case (Cons j js)
  obtain vis mt where s: "s = (vis, mt)" by (cases s)
  have len: "length vis = m" "length mt = m" "j < m" using Cons.prems(2-4) s by auto
  show ?case
  proof (cases "\<not> ok i j \<or> vis ! j")
    case True
    then show ?thesis using Cons s by simp
  next
    case False
    show ?thesis
    proof (cases "mt ! j")
      case None
      then have "s' = (vis[j := True], mt[j := Some i])" using Cons.prems(1) False by (simp add: s)
      then show ?thesis using augmented_free[of j vis mt ok i] False None len by (simp add: s)
    next
      case (Some k)
      obtain b vis1 mt1 where r: "rec k (vis[j := True], mt) = (b, (vis1, mt1))" by (metis prod.collapse)
      show ?thesis
      proof (cases b)
        case True
        then have "s' = (vis1, mt1[j := Some i])" using Cons.prems(1) False Some r by (simp add: s)
        moreover have "augmented ok k (vis[j := True], mt) (vis1, mt1)" using rec[of k] r True len by simp
        ultimately show ?thesis using augmented_taken[of j vis mt ok i k] False Some len by (simp add: s)
      next
        case b: False
        have f: "mt1 = mt" "length vis1 = m" "marked (vis[j := True]) \<subseteq> marked vis1" using fails[of k "(vis[j := True], mt)" "(vis1, mt1)"] r b len by auto
        have rest: "augment_loop ok rec i js (vis1, mt) = (True, s')" using Cons.prems(1) False Some r b f(1) by (simp add: s)
        have "augmented ok i (vis1, mt) s'" using Cons.IH[OF rest] f(2) len Cons.prems(4) by simp
        moreover have "marked vis \<subseteq> marked vis1" using f(3) len by (auto simp: marked_update)
        ultimately show ?thesis using f(2) len unfolding s augmented_def by (cases s') (auto dest: subset_trans)
      qed
    qed
  qed
qed simp

definition frame :: "nat \<Rightarrow> match_state \<Rightarrow> match_state \<Rightarrow> bool" where
  "frame m s s' \<longleftrightarrow> snd s' = snd s \<and> length (fst s') = m \<and> marked (fst s) \<subseteq> marked (fst s')"

lemma augment_loop_frame:
  assumes "\<And>k s s'. rec k s = (False, s') \<Longrightarrow> length (fst s) = m \<Longrightarrow> frame m s s'"
  shows "augment_loop ok rec i js s = (False, s') \<Longrightarrow> length (fst s) = m \<Longrightarrow> set js \<subseteq> {..<m} \<Longrightarrow> frame m s s'"
proof (induction js arbitrary: s)
  case (Cons j js)
  obtain vis mt where s: "s = (vis, mt)" by (cases s)
  show ?case
  proof (cases "\<not> ok i j \<or> vis ! j")
    case True
    then show ?thesis using Cons s by simp
  next
    case False
    then obtain k s1 where k: "mt ! j = Some k" and r: "rec k (vis[j := True], mt) = (False, s1)"
        and rest: "augment_loop ok rec i js s1 = (False, s')"
      using Cons.prems(1) by (auto simp: s Let_def split: option.splits prod.splits bool.splits)
    have f: "frame m (vis[j := True], mt) s1" using assms[OF r] Cons.prems(2) by (simp add: s)
    have "frame m s1 s'" using Cons.IH[OF rest] f Cons.prems(3) by (simp add: frame_def)
    then show ?thesis using f Cons.prems(2,3) by (auto simp: frame_def s marked_update)
  qed
qed (simp add: frame_def)

lemma augment_in_frame: "augment_in ok m f i s = (False, s') \<Longrightarrow> length (fst s) = m \<Longrightarrow> frame m s s'"
proof (induction f arbitrary: i s s')
  case (Suc f)
  have "augment_loop ok (augment_in ok m f) i [0..<m] s = (False, s')" using Suc.prems(1) by simp
  then show ?case
  proof (rule augment_loop_frame[rotated, OF _ Suc.prems(2)])
    show "frame m s s'" if "augment_in ok m f k s = (False, s')" "length (fst s) = m" for k s s' by (rule Suc.IH[OF that])
  qed auto
qed (simp add: frame_def)

lemma augment_in_sound:
  "augment_in ok m f i s = (True, s') \<Longrightarrow> length (snd s) = m \<Longrightarrow> length (fst s) = m \<Longrightarrow> augmented ok i s s'"
proof (induction f arbitrary: i s s')
  case (Suc f)
  have run: "augment_loop ok (augment_in ok m f) i [0..<m] s = (True, s')" using Suc.prems(1) by simp
  show ?case
  proof (rule augment_loop_sound[OF _ _ run Suc.prems(2,3)])
    fix k s s' assume "augment_in ok m f k s = (False, s')" "length (fst s) = m"
    from augment_in_frame[OF this] show "snd s' = snd s \<and> length (fst s') = m \<and> marked (fst s) \<subseteq> marked (fst s')"
      by (simp add: frame_def)
  qed (erule (2) Suc.IH, auto)
qed simp

lemma stuck_loop:
  assumes rec: "\<And>k s s'. rec k s = (False, s') \<Longrightarrow> length (fst s) = m \<Longrightarrow> m < card (marked (fst s)) + f \<Longrightarrow> stuck_at ok m k s s'"
  shows "augment_loop ok rec i js s = (False, s') \<Longrightarrow> length (fst s) = m \<Longrightarrow> m \<le> card (marked (fst s)) + f \<Longrightarrow> set js \<subseteq> {..<m} \<Longrightarrow>
    snd s' = snd s \<and> length (fst s') = m \<and> marked (fst s) \<subseteq> marked (fst s') \<and> (\<forall>j \<in> set js. ok i j \<longrightarrow> j \<in> marked (fst s')) \<and>
    (\<forall>j \<in> marked (fst s') - marked (fst s). \<exists>k. snd s ! j = Some k \<and> (\<forall>j' < m. ok k j' \<longrightarrow> j' \<in> marked (fst s')))"
proof (induction js arbitrary: s)
  case (Cons j js)
  obtain vis mt where s: "s = (vis, mt)" by (cases s)
  have len: "length vis = m" "j < m" using Cons.prems(2,4) s by auto
  show ?case
  proof (cases "\<not> ok i j \<or> vis ! j")
    case True
    have "j \<in> marked vis" if "ok i j" using True that len by (simp add: marked_def)
    then show ?thesis using Cons.IH[of s] Cons.prems True by (auto simp: s)
  next
    case False
    then obtain k vis1 mt1 where k: "mt ! j = Some k" and r: "rec k (vis[j := True], mt) = (False, (vis1, mt1))"
        and rest: "augment_loop ok rec i js (vis1, mt1) = (False, s')"
      using Cons.prems(1) by (auto simp: s Let_def split: option.splits prod.splits bool.splits)
    have mk: "marked (vis[j := True]) = insert j (marked vis)" using len by (simp add: marked_update)
    have fin: "finite (marked v)" for v using finite_subset[OF marked_lt] by blast
    have "j \<notin> marked vis" using False len by (simp add: marked_def)
    then have card: "card (marked (vis[j := True])) = Suc (card (marked vis))" using fin by (simp add: mk)
    have st: "stuck_at ok m k (vis[j := True], mt) (vis1, mt1)"
      by (rule rec[OF r]) (use len card Cons.prems(3) s in auto)
    then have f: "mt1 = mt" "length vis1 = m" "insert j (marked vis) \<subseteq> marked vis1" "\<forall>j' < m. ok k j' \<longrightarrow> j' \<in> marked vis1"
        "\<forall>x \<in> marked vis1 - insert j (marked vis). \<exists>k. mt ! x = Some k \<and> (\<forall>j' < m. ok k j' \<longrightarrow> j' \<in> marked vis1)"
      using len by (auto simp: stuck_at_def mk)
    have "card (marked vis) \<le> card (marked vis1)" using f(3) fin by (intro card_mono) auto
    then have ih: "snd s' = mt1 \<and> length (fst s') = m \<and> marked vis1 \<subseteq> marked (fst s') \<and> (\<forall>j \<in> set js. ok i j \<longrightarrow> j \<in> marked (fst s')) \<and>
        (\<forall>j \<in> marked (fst s') - marked vis1. \<exists>k. mt1 ! j = Some k \<and> (\<forall>j' < m. ok k j' \<longrightarrow> j' \<in> marked (fst s')))"
      using Cons.IH[OF rest, unfolded fst_conv snd_conv, OF f(2)] Cons.prems(3,4) unfolding s fst_conv by simp
    have "\<exists>k. mt ! x = Some k \<and> (\<forall>j' < m. ok k j' \<longrightarrow> j' \<in> marked (fst s'))" if "x \<in> marked (fst s') - marked vis" for x
    proof (cases "x \<in> marked vis1")
      case False
      then show ?thesis using ih that f(1) by auto
    next
      case True
      have sub: "marked vis1 \<subseteq> marked (fst s')" using ih by blast
      show ?thesis
      proof (cases "x = j")
        case True
        then show ?thesis using k f(4) sub by blast
      next
        case False
        then have "x \<in> marked vis1 - insert j (marked vis)" using that \<open>x \<in> marked vis1\<close> by blast
        then obtain k' where "mt ! x = Some k'" "\<forall>j' < m. ok k' j' \<longrightarrow> j' \<in> marked vis1" using f(5) by blast
        then show ?thesis using sub by blast
      qed
    qed
    then show ?thesis using ih f(1,3) by (auto simp: s)
  qed
qed simp

lemma augment_in_stuck:
  "augment_in ok m f i s = (False, s') \<Longrightarrow> length (fst s) = m \<Longrightarrow> m < card (marked (fst s)) + f \<Longrightarrow> stuck_at ok m i s s'"
proof (induction f arbitrary: i s s')
  case 0
  have "card (marked (fst s)) \<le> m" using card_mono[OF _ marked_lt[of "fst s"]] 0 by simp
  then show ?case using 0 by simp
next
  case (Suc f)
  have run: "augment_loop ok (augment_in ok m f) i [0..<m] s = (False, s')" using Suc.prems(1) by simp
  have "snd s' = snd s \<and> length (fst s') = m \<and> marked (fst s) \<subseteq> marked (fst s') \<and> (\<forall>j \<in> set [0..<m]. ok i j \<longrightarrow> j \<in> marked (fst s')) \<and>
    (\<forall>j \<in> marked (fst s') - marked (fst s). \<exists>k. snd s ! j = Some k \<and> (\<forall>j' < m. ok k j' \<longrightarrow> j' \<in> marked (fst s')))"
    by (rule stuck_loop[where f = f, OF _ run Suc.prems(2)]) (erule (2) Suc.IH, use Suc.prems(3) in auto)
  then show ?case using Suc.prems(2) by (cases s; cases s') (auto simp: stuck_at_def)
qed

section \<open>Exactness\<close>

text \<open>A matching of the first \<open>n\<close> rows with different ones of \<open>m\<close> columns.\<close>

definition matching :: "(nat \<Rightarrow> nat \<Rightarrow> bool) \<Rightarrow> nat \<Rightarrow> nat \<Rightarrow> (nat \<Rightarrow> nat) \<Rightarrow> bool" where
  "matching ok n m f \<longleftrightarrow> inj_on f {..<n} \<and> (\<forall>i < n. f i < m \<and> ok i (f i))"

lemma held_matching:
  assumes "holds_rows ok mt {}" "rows_of mt {} = {..<n}"
  shows "\<exists>f. matching ok n (length mt) f"
proof -
  have "\<exists>j. (j, i) \<in> pairs mt {}" if "i < n" for i
  proof -
    have "i \<in> snd ` pairs mt {}" using assms(2) that by (simp add: rows_of_def)
    then show ?thesis by auto
  qed
  then obtain f where f: "\<And>i. i < n \<Longrightarrow> (f i, i) \<in> pairs mt {}" by metis
  have at: "f i < length mt" "mt ! f i = Some i" if "i < n" for i using f[OF that] by (simp_all add: pairs_def)
  have "inj_on f {..<n}" by (rule inj_onI) (metis at(2) lessThan_iff option.inject)
  moreover have "ok i (f i)" if "i < n" for i using f[OF that] assms(1) by (auto simp: holds_rows_def)
  ultimately show ?thesis using at(1) by (auto simp: matching_def)
qed

lemma stuck_no_matching:
  assumes len: "length mt = m" and held: "holds_rows ok mt {}" "rows_of mt {} = {..<i}" and i: "i < n"
    and st: "stuck_at ok m i (replicate m False, mt) (vis, mt')"
  shows "\<not> matching ok n m f"
proof
  assume f: "matching ok n m f"
  have none: "marked (replicate m False) = {}" by (auto simp: marked_def)
  have closed: "\<forall>j < m. ok i j \<longrightarrow> j \<in> marked vis"
      "\<forall>j \<in> marked vis. \<exists>k. mt ! j = Some k \<and> (\<forall>j' < m. ok k j' \<longrightarrow> j' \<in> marked vis)"
    and lv: "length vis = m"
    using st by (auto simp: stuck_at_def none)
  define R where "R = insert i (snd ` {p \<in> pairs mt {}. fst p \<in> marked vis})"
  have sub: "{p \<in> pairs mt {}. fst p \<in> marked vis} = (\<lambda>j. (j, the (mt ! j))) ` marked vis"
    using closed(2) lv len by (force simp: pairs_def marked_def)
  have fin: "finite (marked vis)" using finite_subset[OF marked_lt] by blast
  have "card (snd ` {p \<in> pairs mt {}. fst p \<in> marked vis}) = card {p \<in> pairs mt {}. fst p \<in> marked vis}"
    using held(1) by (intro card_image) (auto simp: holds_rows_def intro: inj_on_subset)
  also have "\<dots> = card (marked vis)" unfolding sub by (intro card_image) (simp add: inj_on_def)
  finally have card: "card (snd ` {p \<in> pairs mt {}. fst p \<in> marked vis}) = card (marked vis)" .
  have below: "snd ` {p \<in> pairs mt {}. fst p \<in> marked vis} \<subseteq> {..<i}" using held(2) by (auto simp: rows_of_def)
  then have "i \<notin> snd ` {p \<in> pairs mt {}. fst p \<in> marked vis}" by blast
  then have cardR: "card R = Suc (card (marked vis))" unfolding R_def sub using fin card sub by simp
  have R: "R \<subseteq> {..<n}" using below i by (auto simp: R_def)
  have into: "f ` R \<subseteq> marked vis"
  proof
    fix j assume "j \<in> f ` R"
    then obtain k where k: "k \<in> R" "j = f k" by blast
    have "\<forall>j' < m. ok k j' \<longrightarrow> j' \<in> marked vis" using k(1) closed unfolding R_def sub by auto
    then show "j \<in> marked vis" using f k R by (auto simp: matching_def)
  qed
  have "card R = card (f ` R)" using f R by (intro card_image[symmetric]) (auto simp: matching_def intro: inj_on_subset)
  also have "\<dots> \<le> card (marked vis)" using into fin by (rule card_mono[rotated])
  finally show False using cardR by simp
qed

lemma match_rows_exact:
  assumes "length mt = m" "holds_rows ok mt {}" "rows_of mt {} = {..<i}" "i \<le> n"
  shows "match_rows ok m [i..<n] mt \<longleftrightarrow> (\<exists>f. matching ok n m f)"
  using assms
proof (induction "n - i" arbitrary: i mt)
  case 0
  then show ?case using held_matching by fastforce
next
  case (Suc d)
  then have i: "i < n" "[i..<n] = i # [Suc i..<n]" by (auto simp: upt_conv_Cons)
  obtain b vis mt' where a: "augment ok m i (replicate m False, mt) = (b, (vis, mt'))" by (metis prod.collapse)
  have none: "marked (replicate m False) = {}" by (auto simp: marked_def)
  show ?case
  proof (cases b)
    case True
    have "augmented ok i (replicate m False, mt) (vis, mt')"
      using augment_in_sound[of ok m "Suc m" i "(replicate m False, mt)" "(vis, mt')"] a True Suc.prems(1) by (simp add: augment_def)
    then have "length mt' = m" "holds_rows ok mt' {}" "rows_of mt' {} = {..<Suc i}"
      using Suc.prems(1-3) by (auto simp: augmented_def none lessThan_Suc)
    then have "match_rows ok m [Suc i..<n] mt' \<longleftrightarrow> (\<exists>f. matching ok n m f)"
      by (intro Suc.hyps(1)) (use Suc.hyps(2) i(1) in auto)
    then show ?thesis using a True by (simp add: i(2))
  next
    case False
    have "stuck_at ok m i (replicate m False, mt) (vis, mt')"
      using augment_in_stuck[of ok m "Suc m" i "(replicate m False, mt)" "(vis, mt')"] a False by (simp add: augment_def)
    then show ?thesis using stuck_no_matching[OF Suc.prems(1-3) i(1)] a False by (auto simp: i(2))
  qed
qed

text \<open>All replacements are matched exactly when they can be matched one to one.\<close>

lemma match_all_exact: "match_all ok n m \<longleftrightarrow> (\<exists>f. matching ok n m f)"
  unfolding match_all_def
  by (rule match_rows_exact) (auto simp: holds_rows_def rows_of_def pairs_def inj_on_def)

end
