(* ===== verification/Disruption.thy ===== *)
theory Disruption
  imports Consolidation Cluster Matching
begin

text \<open>
  What every disruption method shares (\<^verbatim>\<open>pkg/controllers/disruption/helpers.go\<close>), the validation of a
  command before it runs (\<^verbatim>\<open>validation.go\<close>) and the removal of empty nodes (\<^verbatim>\<open>emptiness.go\<close>). The state of
  the cluster and of the API server that one call reads is an argument, since validation waits and
  then reads it again. Metrics and events are left out.
\<close>

section \<open>Candidates\<close>

record 'q world =
  wNow :: int
  wCluster :: "'q Cluster"
  wPools :: "(kube_error, 'q NodePool list) result"
  wTypes :: "'q NodePool \<Rightarrow> 'q InstanceType list option"
  wPdbs :: "(kube_error, pdbItem list) result"
  wPods :: "'q StateNode \<Rightarrow> (kube_error, Pod list) result"
  wBusy :: "string \<Rightarrow> bool"
  wBudgets :: budget_env

definition DeepCopyNodes :: "'q Cluster \<Rightarrow> 'q StateNode list" where
  "DeepCopyNodes c = map snd (clNodes c)"

text \<open>A NodePool whose instance types cannot be read, or that has none, gets no entry in the second map.\<close>

definition BuildNodePoolMap ::
  "'q world \<Rightarrow> (kube_error, (string, 'q NodePool) gomap \<times> (string, (string, 'q InstanceType) gomap) gomap) result" where
  "BuildNodePoolMap w =
     rbind (wPools w) (\<lambda>pools.
       Ok (foldl (\<lambda>m np. mput (npName np) np m) [] pools,
           foldl (\<lambda>m np. case wTypes w np of
                           None \<Rightarrow> m
                         | Some [] \<Rightarrow> m
                         | Some its \<Rightarrow> mput (npName np) (foldl (\<lambda>t it. mput (itName it) it t) [] its) m) [] pools))"

text \<open>A node that is no candidate is left out; a panic is one of the whole call.\<close>

fun keep_candidates :: "(candidate_error, 'q Candidate) result list \<Rightarrow> (kube_error, 'q Candidate list) result" where
  "keep_candidates [] = Ok []"
| "keep_candidates (Panic # rs) = Panic"
| "keep_candidates (Err e # rs) = keep_candidates rs"
| "keep_candidates (Ok c # rs) = rbind (keep_candidates rs) (\<lambda>cs. Ok (c # cs))"

definition GetCandidatesWithTotals ::
  "'q disrupt_env \<Rightarrow> 'q world \<Rightarrow> ('q Candidate \<Rightarrow> bool) \<Rightarrow> disruption_class \<Rightarrow> ('q NodePool \<Rightarrow> rat) option \<Rightarrow>
   (kube_error, 'q Candidate list \<times> (string, NodePoolTotals) gomap) result" where
  "GetCandidatesWithTotals D w shouldDisrupt class clusterCost =
     rbind (BuildNodePoolMap w) (\<lambda>(nodePoolMap, typesMap).
       rbind (wPdbs w) (\<lambda>pdbs.
         rbind (keep_candidates (map (\<lambda>n. NewCandidate D (wNow w) (wBusy w) pdbs nodePoolMap typesMap class (wPods w n) n)
                                   (DeepCopyNodes (wCluster w)))) (\<lambda>cs.
           case computeNodePoolTotals cs (DeepCopyNodes (wCluster w)) clusterCost of
             None \<Rightarrow> Panic
           | Some totals \<Rightarrow> Ok (filter shouldDisrupt cs, totals))))"

definition GetCandidates ::
  "'q disrupt_env \<Rightarrow> 'q world \<Rightarrow> ('q Candidate \<Rightarrow> bool) \<Rightarrow> disruption_class \<Rightarrow> (kube_error, 'q Candidate list) result" where
  "GetCandidates D w shouldDisrupt class =
     rbind (GetCandidatesWithTotals D w shouldDisrupt class None) (\<lambda>(cs, _). Ok cs)"

text \<open>The names of candidates; None is a panic, which a candidate, having both objects, never causes.\<close>

definition candidate_name :: "'q Candidate \<Rightarrow> string" where
  "candidate_name c = (case StateNode_Name (cdNode c) of None \<Rightarrow> [] | Some n \<Rightarrow> n)"

definition candidate_id :: "'q Candidate \<Rightarrow> string" where
  "candidate_id c = (case StateNode_ProviderID (cdNode c) of None \<Rightarrow> [] | Some n \<Rightarrow> n)"

definition mapCandidates :: "'q Candidate list \<Rightarrow> 'q Candidate list \<Rightarrow> 'q Candidate list" where
  "mapCandidates proposed current = filter (\<lambda>c. candidate_name c \<in> candidate_name ` set proposed) current"

definition instanceTypesAreSubset :: "'q InstanceType list \<Rightarrow> 'q InstanceType list \<Rightarrow> bool" where
  "instanceTypesAreSubset lhs rhs \<longleftrightarrow>
     card (itName ` set rhs \<inter> itName ` set lhs) = card (itName ` set lhs)"

definition replacementsAttributableToDisruption :: "'q InFlight list \<Rightarrow> string set \<Rightarrow> bool \<Rightarrow> 'q InFlight list" where
  "replacementsAttributableToDisruption ns disruptedPodUIDs podsWithheld =
     (if ns = [] \<or> podsWithheld then ns
      else filter (\<lambda>n. list_ex (\<lambda>p. podUID p \<in> disruptedPodUIDs) (ifPods n)) ns)"

definition candidatePodsWithheld :: "'q Candidate list \<Rightarrow> Pod list \<Rightarrow> bool" where
  "candidatePodsWithheld cs candidatePods \<longleftrightarrow> candidatePods = [] \<and> list_ex (\<lambda>c. cdReschedulablePods c \<noteq> []) cs"

section \<open>Disruption budgets\<close>

definition NodeReady :: string where "NodeReady = ''Ready''"

text \<open>The status of a condition of a node, empty where it has none.\<close>

definition GetCondition :: "'q CoreNode \<Rightarrow> string \<Rightarrow> string" where
  "GetCondition n match = (case find (\<lambda>(t, _). t = match) (cnConditions n) of None \<Rightarrow> [] | Some (_, status) \<Rightarrow> status)"

definition counts_for_budget :: "'q StateNode \<Rightarrow> bool" where
  "counts_for_budget n \<longleftrightarrow>
     Managed n \<and> Initialized n \<and> (case stNodeClaim n of None \<Rightarrow> False | Some nc \<Rightarrow> \<not> cond_true nc ConditionTypeInstanceTerminating)"

definition consumes_budget :: "'q StateNode \<Rightarrow> bool" where
  "consumes_budget n \<longleftrightarrow>
     (case stNode n of None \<Rightarrow> False | Some nd \<Rightarrow> GetCondition nd NodeReady \<noteq> ''True'') \<or> MarkedForDeletion n"

definition node_pool_of :: "'q StateNode \<Rightarrow> string" where
  "node_pool_of n = mget [] (case StateNode_Labels n of Some l \<Rightarrow> l | None \<Rightarrow> []) NodePoolLabelKey"

definition increment :: "string \<Rightarrow> (string, int) gomap \<Rightarrow> (string, int) gomap" where
  "increment k m = mput k (mget 0 m k + 1) m"

definition tally_node :: "(string, int) gomap \<times> (string, int) gomap \<Rightarrow> 'q StateNode \<Rightarrow> (string, int) gomap \<times> (string, int) gomap" where
  "tally_node s n =
     (case s of (numNodes, disrupting) \<Rightarrow>
        if \<not> counts_for_budget n then (numNodes, disrupting)
        else (increment (node_pool_of n) numNodes,
              if consumes_budget n then increment (node_pool_of n) disrupting else disrupting))"

definition BuildDisruptionBudgetMapping :: "'q world \<Rightarrow> DisruptionReason \<Rightarrow> (kube_error, (string, int) gomap) result" where
  "BuildDisruptionBudgetMapping w reason =
     (case foldl tally_node ([], []) (DeepCopyNodes (wCluster w)) of
        (numNodes, disrupting) \<Rightarrow>
          rbind (wPools w) (\<lambda>pools.
            Ok (foldl (\<lambda>m np.
                  mput (npName np)
                    (max (MustGetAllowedDisruptions (wBudgets w) (wNow w) np (mget 0 numNodes (npName np)) reason
                            - mget 0 disrupting (npName np)) 0) m) [] pools)))"

text \<open>
  The loop of several methods: in order, a candidate whose NodePool has nothing left is passed
  over, every other one is taken and charged. The flag tells whether one was passed over.
\<close>

fun spend_budget :: "(string, int) gomap \<Rightarrow> 'q Candidate list \<Rightarrow> 'q Candidate list \<times> (string, int) gomap \<times> bool" where
  "spend_budget m [] = ([], m, False)"
| "spend_budget m (c # cs) =
     (if mget 0 m (cdPool c) = 0
      then (case spend_budget m cs of (taken, m', _) \<Rightarrow> (taken, m', True))
      else (case spend_budget (mput (cdPool c) (mget 0 m (cdPool c) - 1) m) cs of (taken, m', constrained) \<Rightarrow> (c # taken, m', constrained)))"

section \<open>Validation of candidates\<close>

datatype failure_reason = BudgetFailure | SchedulingFailure | ChurnFailure | OtherFailure

text \<open>A validation error drops the command; any other error ends the pass.\<close>

datatype validate_error = ValidationError failure_reason | KubeFailure kube_error | SimulationFailure sim_error

definition lift_kube :: "(kube_error, 'a) result \<Rightarrow> (validate_error, 'a) result" where
  "lift_kube r = (case r of Ok a \<Rightarrow> Ok a | Err e \<Rightarrow> Err (KubeFailure e) | Panic \<Rightarrow> Panic)"

definition Emptiness_validateCandidates ::
  "'q disrupt_env \<Rightarrow> 'q world \<Rightarrow> ('q Candidate \<Rightarrow> bool) \<Rightarrow> 'q Candidate list \<Rightarrow> (validate_error, 'q Candidate list) result" where
  "Emptiness_validateCandidates D w flt cs =
     rbind (lift_kube (GetCandidates D w flt GracefulDisruptionClass)) (\<lambda>current.
       (let validated = mapCandidates cs current in
        if validated = [] then Err (ValidationError ChurnFailure)
        else
          rbind (lift_kube (BuildDisruptionBudgetMapping w DisruptionReasonEmpty)) (\<lambda>m.
            (let valid = fst (spend_budget m (filter (\<lambda>c. \<not> IsNodeNominated (wNow w) (candidate_id c) (wCluster w)) validated)) in
             if valid \<noteq> [] then Ok valid else Err (ValidationError BudgetFailure)))))"

fun budget_allows_all :: "('q Candidate \<Rightarrow> bool) \<Rightarrow> (string, int) gomap \<Rightarrow> 'q Candidate list \<Rightarrow> bool" where
  "budget_allows_all nominated m [] = True"
| "budget_allows_all nominated m (c # cs) =
     (if nominated c then False
      else if mget 0 m (cdPool c) = 0 then False
      else budget_allows_all nominated (mput (cdPool c) (mget 0 m (cdPool c) - 1) m) cs)"

definition Consolidation_validateCandidates ::
  "'q disrupt_env \<Rightarrow> 'q world \<Rightarrow> ('q Candidate \<Rightarrow> bool) \<Rightarrow> 'q Candidate list \<Rightarrow> (validate_error, 'q Candidate list) result" where
  "Consolidation_validateCandidates D w flt cs =
     rbind (lift_kube (GetCandidates D w flt GracefulDisruptionClass)) (\<lambda>current.
       (let validated = mapCandidates cs current in
        if length validated \<noteq> length cs then Err (ValidationError ChurnFailure)
        else
          rbind (lift_kube (BuildDisruptionBudgetMapping w DisruptionReasonUnderutilized)) (\<lambda>m.
            if budget_allows_all (\<lambda>c. IsNodeNominated (wNow w) (candidate_id c) (wCluster w)) m validated
            then Ok validated else Err (ValidationError BudgetFailure))))"

section \<open>Validation of a command\<close>

definition taintsAreEqual :: "(Taint \<Rightarrow> Taint \<Rightarrow> bool) \<Rightarrow> Taint list \<Rightarrow> Taint list \<Rightarrow> bool" where
  "taintsAreEqual matchTaint lhs rhs \<longleftrightarrow>
     length lhs = length rhs \<and>
     list_all (\<lambda>t. list_ex (\<lambda>other. matchTaint t other \<and> taintValue t = taintValue other) rhs) lhs"

definition replacementMatchesSimulatedNodeClaim :: "'q consol_env \<Rightarrow> 'q InFlight \<Rightarrow> 'q InFlight \<Rightarrow> bool" where
  "replacementMatchesSimulatedNodeClaim C r n =
     (let a = ifTemplate r; b = ifTemplate n in
      if nctNodePoolName a \<noteq> nctNodePoolName b \<or> nctNodePoolUUID a \<noteq> nctNodePoolUUID b then False
      else if mget [] (nctAnnotations a) NodePoolHashAnnotationKey \<noteq> mget [] (nctAnnotations b) NodePoolHashAnnotationKey \<or>
          mget [] (nctAnnotations a) NodePoolHashVersionAnnotationKey \<noteq> mget [] (nctAnnotations b) NodePoolHashVersionAnnotationKey then False
      else if \<not> taintsAreEqual (seMatchTaint (deState (ceD C))) (specTaints (nctSpec a)) (specTaints (nctSpec b)) then False
      else if list_ex (\<lambda>(key, _). key \<noteq> neReservationIDLabel (ceNE C) \<and>
          \<not> SubsetOf (Requirements_Get (ceLabels C) (nctRequirements a) key) (Requirements_Get (ceLabels C) (nctRequirements b) key))
          (nctRequirements b) then False
      else instanceTypesAreSubset (nctInstanceTypeOptions a) (nctInstanceTypeOptions b))"

definition replacementsMatchSimulation :: "'q consol_env \<Rightarrow> 'q InFlight list \<Rightarrow> 'q InFlight list \<Rightarrow> bool" where
  "replacementsMatchSimulation C replacements ns =
     match_all (\<lambda>i j. replacementMatchesSimulatedNodeClaim C (replacements ! i) (ns ! j)) (length replacements) (length ns)"

definition validateCommand :: "'q consol_env \<Rightarrow> 'q Command \<Rightarrow> 'q Candidate list \<Rightarrow> (validate_error, unit) result" where
  "validateCommand C cmd cs =
     (if cs = [] then Err (ValidationError OtherFailure)
      else
        (case ceSimulate C (cmdNewCapacityPriceLimit cmd) cs of
           Panic \<Rightarrow> Panic
         | Err e \<Rightarrow> Err (SimulationFailure e)
         | Ok results \<Rightarrow>
             if \<not> AllNonPendingPodsScheduled results then Err (ValidationError SchedulingFailure)
             else if rNewNodeClaims results = []
               then (if cmdReplacements cmd = [] then Ok () else Err (ValidationError SchedulingFailure))
             else if length (rNewNodeClaims results) \<noteq> length (cmdReplacements cmd) then Err (ValidationError SchedulingFailure)
             else if \<not> replacementsMatchSimulation C (cmdReplacements cmd) (rNewNodeClaims results)
               then Err (ValidationError SchedulingFailure)
             else Ok ()))"

text \<open>
  The first validation reads the state \<open>w\<close>, the last one the state \<open>w'\<close>; the simulation in between is
  that of the environment.
\<close>

definition Consolidation_isValid ::
  "'q consol_env \<Rightarrow> 'q world \<Rightarrow> 'q world \<Rightarrow> ('q Candidate \<Rightarrow> bool) \<Rightarrow> 'q Command \<Rightarrow> (validate_error, unit) result" where
  "Consolidation_isValid C w w' flt cmd =
     rbind (Consolidation_validateCandidates (ceD C) w flt (cmdCandidates cmd)) (\<lambda>validated.
       rbind (validateCommand C cmd validated) (\<lambda>_.
         rbind (Consolidation_validateCandidates (ceD C) w' flt validated) (\<lambda>_. Ok ())))"

definition Consolidation_Validate ::
  "'q consol_env \<Rightarrow> 'q world \<Rightarrow> 'q world \<Rightarrow> ('q Candidate \<Rightarrow> bool) \<Rightarrow> 'q Command \<Rightarrow> (validate_error, 'q Command) result" where
  "Consolidation_Validate C w w' flt cmd = rbind (Consolidation_isValid C w w' flt cmd) (\<lambda>_. Ok cmd)"

definition Emptiness_Validate ::
  "'q disrupt_env \<Rightarrow> 'q world \<Rightarrow> ('q Candidate \<Rightarrow> bool) \<Rightarrow> 'q Command \<Rightarrow> (validate_error, 'q Command) result" where
  "Emptiness_Validate D w flt cmd =
     rbind (Emptiness_validateCandidates D w flt (cmdCandidates cmd)) (\<lambda>cs. Ok (cmd\<lparr>cmdCandidates := cs\<rparr>))"

section \<open>Which nodes a method considers\<close>

definition ConditionTypeConsolidatable :: string where "ConditionTypeConsolidatable = ''Consolidatable''"

definition claim_consolidatable :: "'q Candidate \<Rightarrow> bool" where
  "claim_consolidatable c = (case stNodeClaim (cdNode c) of None \<Rightarrow> False | Some nc \<Rightarrow> cond_true nc ConditionTypeConsolidatable)"

definition Consolidation_ShouldDisrupt :: "'q Candidate \<Rightarrow> bool" where
  "Consolidation_ShouldDisrupt c =
     (let labels = (case StateNode_Labels (cdNode c) of Some l \<Rightarrow> l | None \<Rightarrow> []) in
      if OwnedByStaticNodePool c then False
      else if cdInstanceType c = None then False
      else if \<not> mhas labels CapacityTypeLabelKey then False
      else if \<not> mhas labels LabelTopologyZone then False
      else if npConsolidateAfter (cdNodePool c) = None then False
      else if Candidate_IsEmpty c then False
      else if npConsolidationPolicy (cdNodePool c) = ConsolidationPolicyWhenEmpty then False
      else claim_consolidatable c)"

definition Emptiness_ShouldDisrupt :: "'q Cluster \<Rightarrow> 'q Candidate \<Rightarrow> bool" where
  "Emptiness_ShouldDisrupt cluster c =
     (if OwnedByStaticNodePool c then False
      else if npConsolidateAfter (cdNodePool c) = None then False
      else if HasBufferPods (candidate_id c) cluster then False
      else Candidate_IsEmpty c \<and> claim_consolidatable c)"

section \<open>Emptiness\<close>

text \<open>The commands, and whether the cluster is marked as consolidated. \<open>sortCandidates\<close> orders by the savings ratio.\<close>

definition Emptiness_ComputeCommands ::
  "'q disrupt_env \<Rightarrow> 'q world \<Rightarrow> ('q Candidate list \<Rightarrow> 'q Candidate list) \<Rightarrow> bool \<Rightarrow> (string, int) gomap \<Rightarrow> 'q Candidate list \<Rightarrow>
   (validate_error, 'q Command list \<times> bool) result" where
  "Emptiness_ComputeCommands D w sortCandidates isConsolidated budgets cs =
     (if isConsolidated then Ok ([], False)
      else
        (case spend_budget budgets (filter Candidate_IsEmpty (sortCandidates cs)) of
           (emptyNodes, _, constrainedByBudgets) \<Rightarrow>
             if emptyNodes = [] then Ok ([], \<not> constrainedByBudgets)
             else
               (case Emptiness_Validate D w (Emptiness_ShouldDisrupt (wCluster w))
                       (no_command\<lparr>cmdCandidates := emptyNodes, cmdPoolDisruptionCosts := computePoolDisruptionCosts emptyNodes\<rparr>) of
                  Panic \<Rightarrow> Panic
                | Err (ValidationError _) \<Rightarrow> Ok ([], False)
                | Err e \<Rightarrow> Err e
                | Ok cmd \<Rightarrow> Ok ([cmd], False))))"

end
