(* ===== verification/MultiNode.thy ===== *)
theory MultiNode
  imports Disruption
begin

text \<open>
  Consolidation of several nodes into one (\<^verbatim>\<open>pkg/controllers/disruption/multinodeconsolidation.go\<close>): the
  candidates that the budgets allow, a binary search for the number of them to consolidate at
  once, and the filter that keeps a replacement from being one of the nodes it replaces. None and
  Panic stand for a panic.
\<close>

section \<open>Replacements of a type that is removed\<close>

text \<open>The cheapest price of a removed node for each instance type; a type without a compatible offering has none.\<close>

definition note_price :: "'q consol_env \<Rightarrow> (string, rat) gomap \<Rightarrow> 'q Candidate \<Rightarrow> (string, rat) gomap option" where
  "note_price C prices c =
     (case (cdInstanceType c, StateNode_Labels (cdNode c)) of
        (Some it, Some labels) \<Rightarrow>
          map_option (\<lambda>rs.
            (let compatibleOfferings = Offerings_Compatible (ceLabels C) (itOfferings it) rs in
             if compatibleOfferings = [] then prices
             else
               (let p = ofPrice (Cheapest (deMinBy (ceD C)) compatibleOfferings) in
                if p < mget MaxFloat64 prices (itName it) then mput (itName it) p prices else prices)))
            (NewLabelRequirements (ceLabels C) labels)
      | _ \<Rightarrow> None)"

fun existing_prices :: "'q consol_env \<Rightarrow> (string, rat) gomap \<Rightarrow> 'q Candidate list \<Rightarrow> (string, rat) gomap option" where
  "existing_prices C prices [] = Some prices"
| "existing_prices C prices (c # cs) = Option.bind (note_price C prices c) (\<lambda>prices. existing_prices C prices cs)"

definition existing_types :: "'q Candidate list \<Rightarrow> string set" where
  "existing_types cs = set (List.map_filter (map_option itName \<circ> cdInstanceType) cs)"

definition same_type_limit :: "(string, rat) gomap \<Rightarrow> string set \<Rightarrow> 'q InstanceType list \<Rightarrow> rat" where
  "same_type_limit prices existing its =
     foldl (\<lambda>maxPrice it. if itName it \<in> existing \<and> mget 0 prices (itName it) < maxPrice then mget 0 prices (itName it) else maxPrice) MaxFloat64 its"

text \<open>The replacement, and whether its minimum values still hold.\<close>

definition filterOutSameInstanceType :: "'q consol_env \<Rightarrow> 'q InFlight \<Rightarrow> 'q Candidate list \<Rightarrow> ('q InFlight \<times> bool) option" where
  "filterOutSameInstanceType C n cs =
     map_option (\<lambda>prices.
       case RemoveInstanceTypeOptionsByPriceAndMinValues (ceNE C) (ceMaxBy C) (claim_reqs n)
              (same_type_limit prices (existing_types cs) (claim_options n)) n of
         (n', short) \<Rightarrow> (n', short = []))
       (existing_prices C [] cs)"

section \<open>The search\<close>

text \<open>The replacement of a command and the NodeClaim of its results are the same object.\<close>

definition set_replacement :: "'q InFlight \<Rightarrow> 'q Command \<Rightarrow> 'q Command" where
  "set_replacement n cmd =
     cmd\<lparr>cmdReplacements := (cmdReplacements cmd)[0 := n],
         cmdResults := (cmdResults cmd)\<lparr>rNewNodeClaims := (rNewNodeClaims (cmdResults cmd))[0 := n]\<rparr>\<rparr>"

text \<open>Whether the command for a batch makes sense and is approved.\<close>

definition judge :: "'q consol_env \<Rightarrow> evaluator \<Rightarrow> 'q Candidate list \<Rightarrow> 'q Command \<Rightarrow> ('q Command \<times> bool) option" where
  "judge C ev batch cmd =
     map_option (\<lambda>(cmd, valid). (cmd, valid \<and> fst (ApproveCommand (ceD C) ev cmd)))
       (case Command_Decision cmd of
          NoOpDecision \<Rightarrow> Some (cmd, False)
        | DeleteDecision \<Rightarrow> Some (cmd, True)
        | ReplaceDecision \<Rightarrow>
            map_option (\<lambda>(n, ok). (set_replacement n cmd, ok \<and> claim_options n \<noteq> []))
              (filterOutSameInstanceType C (hd (cmdReplacements cmd)) batch))"

function first_n_loop ::
  "'q::linordered_ab_group_add consol_env \<Rightarrow> evaluator \<Rightarrow> 'q Candidate list \<Rightarrow> nat \<Rightarrow> nat \<Rightarrow> pass_state \<Rightarrow> 'q Command \<Rightarrow>
   (sim_error, pass_state \<times> 'q Command \<times> bool) result" where
  "first_n_loop C ev cs mn mx st lastSavedCommand =
     (if mn > mx then Ok (st, lastSavedCommand, False)
      else
        (let mid = (mn + mx) div 2; batch = take (mid + 1) cs in
         case computeConsolidation C batch st of
           Panic \<Rightarrow> Panic
         | Err SimDeadlineExceeded \<Rightarrow> Ok (st, lastSavedCommand, True)
         | Err e \<Rightarrow> Err e
         | Ok (st, cmd) \<Rightarrow>
             (case judge C ev batch cmd of
                None \<Rightarrow> Panic
              | Some (cmd, True) \<Rightarrow> first_n_loop C ev cs (mid + 1) mx st cmd
              | Some (_, False) \<Rightarrow> if mid = 0 then Ok (st, lastSavedCommand, False) else first_n_loop C ev cs mn (mid - 1) st lastSavedCommand)))"
  by pat_completeness auto
termination
  by (relation "measure (\<lambda>(C, ev, cs, mn, mx, st, l). Suc mx - mn)") auto

text \<open>
  The search starts with two nodes, so the middle is never zero. The result is the command found
  last, the command of nothing where there is none, and whether the time ran out.
\<close>

definition firstNConsolidationOption ::
  "'q::linordered_ab_group_add consol_env \<Rightarrow> evaluator \<Rightarrow> 'q Candidate list \<Rightarrow> nat \<Rightarrow> pass_state \<Rightarrow>
   (sim_error, pass_state \<times> 'q Command \<times> bool) result" where
  "firstNConsolidationOption C ev cs mx st =
     (if length cs < 2 then Ok (st, no_command, False)
      else first_n_loop C ev cs 1 (if length cs \<le> mx then length cs - 1 else mx) st no_command)"

definition MaxParallel :: nat where "MaxParallel = 100"

datatype method_error = SimulationError sim_error | ValidateError validate_error

text \<open>The commands, and whether the cluster is marked as consolidated.\<close>

definition MultiNode_ComputeCommands ::
  "'q::linordered_ab_group_add consol_env \<Rightarrow> evaluator \<Rightarrow> ('q Candidate list \<Rightarrow> 'q Candidate list) \<Rightarrow>
   ('q Command \<Rightarrow> (validate_error, 'q Command) result) \<Rightarrow> bool \<Rightarrow> (string, int) gomap \<Rightarrow> 'q Candidate list \<Rightarrow> pass_state \<Rightarrow>
   (method_error, 'q Command list \<times> bool) result" where
  "MultiNode_ComputeCommands C ev sortCandidates validate isConsolidated budgets cs st =
     (if isConsolidated then Ok ([], False)
      else
        (case spend_budget budgets (sortCandidates cs) of
           (disruptable, _, constrainedByBudgets) \<Rightarrow>
             (case firstNConsolidationOption C ev disruptable (min (length disruptable) MaxParallel) st of
                Panic \<Rightarrow> Panic
              | Err e \<Rightarrow> Err (SimulationError e)
              | Ok (st, cmd, timedOut) \<Rightarrow>
                  if Command_Decision cmd = NoOpDecision then Ok ([], \<not> constrainedByBudgets \<and> \<not> timedOut)
                  else
                    (case validate cmd of
                       Panic \<Rightarrow> Panic
                     | Err (ValidationError _) \<Rightarrow> Ok ([], False)
                     | Err e \<Rightarrow> Err (ValidateError e)
                     | Ok cmd \<Rightarrow> Ok ([cmd], False)))))"

end
