(* ===== verification/ConsolidationLaws.thy ===== *)
theory ConsolidationLaws
  imports Consolidation NodeClaimLaws ClusterLaws
begin

text \<open>
  What consolidation promises: a replacement costs less than what it replaces, whichever of its
  offerings the cloud provider launches; there are no more replacements than allowed; a spot market
  that the cloud provider advises against is not launched into.
\<close>

section \<open>Offerings sold under one capacity type\<close>

text \<open>
  What the code relies on from the registered labels and from an offering: the labels of the capacity
  type and of the zone are not renamed, values are not rewritten, and an offering has well-known
  labels only and names one value of a label.
\<close>

definition plain_labels :: "label_env \<Rightarrow> bool" where
  "plain_labels E \<longleftrightarrow>
     wf_label_env E \<and> NormalizedLabelValues E = [] \<and> normalize_key E CapacityTypeLabelKey = CapacityTypeLabelKey \<and>
     normalize_key E LabelTopologyZone = LabelTopologyZone"

definition sold_under :: "label_env \<Rightarrow> string \<Rightarrow> string \<Rightarrow> 'q Offering \<Rightarrow> bool" where
  "sold_under E key v o1 \<longleftrightarrow>
     wf_requirements E (ofRequirements o1) \<and> list_all (\<lambda>(k, _). k \<in> set (WellKnownLabels E)) (ofRequirements o1) \<and>
     map_of (ofRequirements o1) key = NewRequirement E key OpIn [v]"

abbreviation sold_as :: "label_env \<Rightarrow> string \<Rightarrow> 'q Offering \<Rightarrow> bool" where
  "sold_as E \<equiv> sold_under E CapacityTypeLabelKey"

lemma plain_In:
  assumes "plain_labels E"
  obtains r where "NewRequirement E k OpIn vs = Some r" "wf_requirement r" "Key r = normalize_key E k" "addable E [r]"
    and "\<And>v. Requirement_Has r v \<longleftrightarrow> v \<in> set vs" "\<not> absent_ok r \<or> vs = []"
proof -
  let ?r = "\<lparr>Key = normalize_key E k, complement = False, rvalues = set vs, gte = None, lte = None, MinValues = None\<rparr>"
  have r: "NewRequirement E k OpIn vs = Some ?r"
    using assms by (simp add: plain_labels_def NewRequirement_def NewRequirement_In)
  have "wf_requirement ?r" using r wf_NewRequirementWithFlexibility by (fastforce simp: NewRequirement_def)
  moreover from this have "addable E [?r]" using assms by (auto simp: addable_def plain_labels_def)
  moreover have "\<not> absent_ok ?r \<or> vs = []" by (auto simp: absent_ok_def Requirement_Operator_def Requirement_Len_def card_gt_0_iff)
  ultimately show thesis using that[OF r] by (simp add: Requirement_Has_def)
qed

lemma sold_has:
  assumes "plain_labels E" "sold_under E key v o1" "wf_requirements E rs" "offering_compatible E rs o1"
  shows "Requirement_Has (Requirements_Get E rs key) v"
proof -
  obtain r where r: "NewRequirement E key OpIn [v] = Some r" "\<And>x. Requirement_Has r x \<longleftrightarrow> x = v" "\<not> absent_ok r"
    by (rule plain_In[OF assms(1), of key "[v]"]) auto
  with assms have "case map_of rs key of
      Some e \<Rightarrow> (\<exists>x. Requirement_Has e x \<and> Requirement_Has r x) \<or> absent_ok e \<and> absent_ok r
    | None \<Rightarrow> key \<in> set (WellKnownLabels E) \<or> absent_ok r"
    by (auto simp: sold_under_def offering_compatible_def IsCompatible_def Compatible_Nil)
  with r(2,3) show ?thesis by (auto simp: Requirements_Get_def split: option.splits)
qed

lemma sold_compatible:
  assumes "plain_labels E" "sold_as E ct o1"
  shows "offering_compatible E (capacity_type_requirement E ct') o1 \<longleftrightarrow> ct = ct'"
proof -
  obtain r where r: "NewRequirement E CapacityTypeLabelKey OpIn [ct] = Some r" "\<And>v. Requirement_Has r v \<longleftrightarrow> v = ct" "\<not> absent_ok r"
    by (rule plain_In[OF assms(1), of CapacityTypeLabelKey "[ct]"]) auto
  obtain r' where r': "NewRequirement E CapacityTypeLabelKey OpIn [ct'] = Some r'" "\<And>v. Requirement_Has r' v \<longleftrightarrow> v = ct'"
      "wf_requirement r'" "Key r' = CapacityTypeLabelKey" "addable E [r']" "\<not> absent_ok r'"
    using assms(1) by (auto intro: plain_In[OF assms(1), of CapacityTypeLabelKey "[ct']"] simp: plain_labels_def)
  have req: "capacity_type_requirement E ct' = [(CapacityTypeLabelKey, r')]"
    using r'(4) by (simp add: capacity_type_requirement_def r'(1) NewRequirements_def Requirements_Add_def Requirements_Add1_def)
  have wf: "wf_requirements E [(CapacityTypeLabelKey, r')]"
    using assms(1) r'(3,4) by (auto simp: wf_requirements_def plain_labels_def)
  have known: "k \<in> set (WellKnownLabels E)" if "map_of (ofRequirements o1) k = Some q" for k q
    using assms(2) map_of_SomeD[OF that] by (auto simp: sold_under_def list_all_iff)
  show ?thesis
    using assms(2) r r' known
    by (auto simp: sold_under_def offering_compatible_def IsCompatible_def Compatible_Nil req wf split: option.splits if_splits)
qed

text \<open>The capacity types that a launch would take before \<open>ct\<close>.\<close>

definition preferred :: "string \<Rightarrow> string list" where
  "preferred ct = takeWhile (\<lambda>c. c \<noteq> ct) launch_order"

lemma launchable_member:
  assumes "plain_labels E" "o1 \<in> set ofs" "wf_requirements E rs" "offering_compatible E rs o1"
    and "sold_as E ct o1" "ct \<in> set cts" "\<forall>o2 \<in> set ofs. \<exists>c. sold_as E c o2"
    and "\<forall>c \<in> set (takeWhile (\<lambda>c. c \<noteq> ct) cts). \<not> Requirement_Has (Requirements_Get E rs CapacityTypeLabelKey) c"
  shows "o1 \<in> set (launchable E ofs rs cts)"
  using assms(6,8)
proof (induction cts)
  case (Cons c cts)
  show ?case
  proof (cases "c = ct")
    case True
    then have "o1 \<in> set (Offerings_Compatible E (Offerings_Compatible E ofs rs) (capacity_type_requirement E c))"
      using assms(2,4) sold_compatible[OF assms(1,5)] by (simp add: Offerings_Compatible_def)
    then show ?thesis by (auto simp: Let_def)
  next
    case False
    have "Offerings_Compatible E (Offerings_Compatible E ofs rs) (capacity_type_requirement E c) = []"
      using False Cons.prems(2) assms(7) sold_compatible[OF assms(1)] sold_has[OF assms(1) _ assms(3)]
      by (fastforce simp: Offerings_Compatible_def filter_empty_conv)
    then show ?thesis using Cons False by simp
  qed
qed simp

section \<open>What a replacement can cost\<close>

definition sound_claim :: "'q consol_env \<Rightarrow> 'q InFlight \<Rightarrow> bool" where
  "sound_claim C n \<longleftrightarrow>
     wf_requirements (ceLabels C) (claim_reqs n) \<and>
     (\<forall>it \<in> set (claim_options n). \<forall>o1 \<in> set (itOfferings it). \<exists>ct \<in> set launch_order. sold_as (ceLabels C) ct o1)"

text \<open>A NodeClaim that may use reserved capacity may use nothing else, as one for which the scheduler reserved an offering.\<close>

definition settled :: "'q consol_env \<Rightarrow> 'q InFlight \<Rightarrow> bool" where
  "settled C n \<longleftrightarrow>
     (capacity_allows C CapacityTypeReserved n \<longrightarrow>
        \<not> capacity_allows C CapacityTypeSpot n \<and> \<not> capacity_allows C CapacityTypeOnDemand n)"

definition spot_only :: "'q consol_env \<Rightarrow> 'q InFlight \<Rightarrow> bool" where
  "spot_only C n \<longleftrightarrow> \<not> capacity_allows C CapacityTypeReserved n \<and> \<not> capacity_allows C CapacityTypeOnDemand n"

definition can_launch :: "'q consol_env \<Rightarrow> 'q InFlight \<Rightarrow> 'q Offering \<Rightarrow> bool" where
  "can_launch C n o1 \<longleftrightarrow>
     list_ex (\<lambda>it. o1 \<in> set (itOfferings it)) (claim_options n) \<and> ofAvailable o1 \<and> offering_compatible (ceLabels C) (claim_reqs n) o1"

lemma worst_price_bound:
  assumes "plain_labels (ceLabels C)" "extremal (ceMaxBy C)" "sound_claim C n" "it \<in> set (claim_options n)"
    and "o1 \<in> set (itOfferings it)" "ofAvailable o1" "offering_compatible (ceLabels C) (claim_reqs n) o1"
    and "sold_as (ceLabels C) ct o1" "ct \<in> set launch_order" "\<forall>c \<in> set (preferred ct). \<not> capacity_allows C c n"
  shows "ofPrice o1 \<le> worst_price C (claim_reqs n) it"
proof -
  let ?ofs = "launchable (ceLabels C) (Available (itOfferings it)) (claim_reqs n) launch_order"
  have "\<forall>o2 \<in> set (Available (itOfferings it)). \<exists>c. sold_as (ceLabels C) c o2"
    using assms(3,4) by (fastforce simp: sound_claim_def Available_def)
  then have "o1 \<in> set ?ofs"
    using assms(3,5-10)
    by (intro launchable_member[OF assms(1)]) (auto simp: Available_def preferred_def capacity_allows_def sound_claim_def)
  then show ?thesis
    using extremal_price(2)[OF assms(2), of ?ofs] by (auto simp: worst_price_def WorstLaunchPrice_def launch_price_eq)
qed

lemma launch_order_cases:
  assumes "ct \<in> set launch_order"
  obtains "ct = CapacityTypeReserved" "preferred ct = []"
  | "ct = CapacityTypeSpot" "preferred ct = [CapacityTypeReserved]"
  | "ct = CapacityTypeOnDemand" "preferred ct = [CapacityTypeReserved, CapacityTypeSpot]"
  using assms by (auto simp: launch_order_def preferred_def CapacityTypeReserved_def CapacityTypeSpot_def CapacityTypeOnDemand_def)

section \<open>The operations on a replacement\<close>

lemma set_options_simps [simp]:
  "claim_options (set_options its n) = its" "claim_reqs (set_options its n) = claim_reqs n"
  by (simp_all add: set_options_def)

lemma capacity_allows_cong: "claim_reqs n = claim_reqs n' \<Longrightarrow> capacity_allows C ct n = capacity_allows C ct n'"
  by (simp add: capacity_allows_def)

lemma capacity_cong:
  assumes "claim_reqs n' = claim_reqs n"
  shows "settled C n' = settled C n" "spot_only C n' = spot_only C n"
  by (simp_all add: settled_def spot_only_def capacity_allows_cong[OF assms])

lemma sound_claim_mono:
  "sound_claim C n \<Longrightarrow> claim_reqs n' = claim_reqs n \<Longrightarrow> set (claim_options n') \<subseteq> set (claim_options n) \<Longrightarrow> sound_claim C n'"
  by (auto simp: sound_claim_def)

lemma order_options_same:
  assumes "sorts_by cheaper (deSortByPrice (ceD C))"
  shows "set (claim_options (order_options C n)) = set (claim_options n)" "claim_reqs (order_options C n) = claim_reqs n"
  using arg_cong[OF OrderByPrice_spec(1)[OF assms], of set_mset] by (simp_all add: order_options_def)

lemma require_in_laws:
  assumes "plain_labels (ceLabels C)"
  shows "claim_options (require_in (ceLabels C) k vs n) = claim_options n"
    and "sound_claim C n \<Longrightarrow> sound_claim C (require_in (ceLabels C) k vs n)"
    and "capacity_allows C ct (require_in (ceLabels C) k vs n) \<longleftrightarrow>
           capacity_allows C ct n \<and> (normalize_key (ceLabels C) k = CapacityTypeLabelKey \<longrightarrow> ct \<in> set vs)"
proof -
  obtain r where r: "NewRequirement (ceLabels C) k OpIn vs = Some r" "Key r = normalize_key (ceLabels C) k"
      "addable (ceLabels C) [r]" "\<And>v. Requirement_Has r v \<longleftrightarrow> v \<in> set vs"
    by (rule plain_In[OF assms, of k vs]) auto
  show "claim_options (require_in (ceLabels C) k vs n) = claim_options n" by (simp add: require_in_def r(1))
  show "sound_claim C (require_in (ceLabels C) k vs n)" if "sound_claim C n"
    using that wf_Add[OF _ r(3)] by (auto simp: require_in_def r(1) sound_claim_def)
  show "capacity_allows C ct (require_in (ceLabels C) k vs n) \<longleftrightarrow>
           capacity_allows C ct n \<and> (normalize_key (ceLabels C) k = CapacityTypeLabelKey \<longrightarrow> ct \<in> set vs)"
    by (auto simp: require_in_def r(1,2,4) capacity_allows_def Has_Get_Add[OF r(3)])
qed

lemma require_spot_only:
  assumes "plain_labels (ceLabels C)"
  shows "spot_only C (require_spot (ceLabels C) n)" "spot_only C n \<Longrightarrow> spot_only C (require_in (ceLabels C) k vs n)"
proof -
  have "normalize_key (ceLabels C) CapacityTypeLabelKey = CapacityTypeLabelKey" using assms by (simp add: plain_labels_def)
  then show "spot_only C (require_spot (ceLabels C) n)"
    by (auto simp: spot_only_def require_in_laws(3)[OF assms]
        CapacityTypeReserved_def CapacityTypeSpot_def CapacityTypeOnDemand_def)
  show "spot_only C n \<Longrightarrow> spot_only C (require_in (ceLabels C) k vs n)"
    by (auto simp: spot_only_def require_in_laws(3)[OF assms])
qed

text \<open>An offering that fits with a label restricted fits without.\<close>

lemma compatible_unrequired:
  assumes plain: "plain_labels E" and key: "normalize_key E key = key" and sold: "sold_under E key v o1"
    and wf: "wf_requirements E (claim_reqs n)" and compat: "offering_compatible E (claim_reqs (require_in E key vs n)) o1"
  shows "offering_compatible E (claim_reqs n) o1" "v \<in> set vs"
proof -
  obtain r where r: "NewRequirement E key OpIn vs = Some r" "Key r = key" "addable E [r]" "\<And>x. Requirement_Has r x \<longleftrightarrow> x \<in> set vs"
    using key by (auto intro: plain_In[OF plain, of key vs])
  have reqs: "claim_reqs (require_in E key vs n) = Requirements_Add E (claim_reqs n) [r]" by (simp add: require_in_def r(1))
  have wf': "wf_requirements E (claim_reqs (require_in E key vs n))" unfolding reqs by (rule wf_Add[OF wf r(3)])
  have wfo: "wf_requirements E (ofRequirements o1)" using sold by (simp add: sold_under_def)
  have other: "map_of (claim_reqs (require_in E key vs n)) k = map_of (claim_reqs n) k" if "k \<noteq> key" for k
    using that r(2) key by (auto simp: reqs Requirements_Add_def Key_Add1 map_of_mput)
  have known: "k \<in> set (WellKnownLabels E)" if "map_of (ofRequirements o1) k = Some q" for k q
    using sold map_of_SomeD[OF that] by (auto simp: sold_under_def list_all_iff)
  obtain q where q: "map_of (ofRequirements o1) key = Some q" "\<And>x. Requirement_Has q x \<longleftrightarrow> x = v"
    using sold by (auto intro: plain_In[OF plain, of key "[v]"] simp: sold_under_def)
  have has: "Requirement_Has (Requirements_Get E (claim_reqs n) key) v \<and> v \<in> set vs"
    using sold_has[OF plain sold wf' compat] unfolding reqs by (simp add: Has_Get_Add[OF r(3)] r(2,4))
  then show "v \<in> set vs" by simp
  have at: "\<exists>x. Requirement_Has e x \<and> Requirement_Has q x" if "map_of (claim_reqs n) key = Some e" for e
    using that q(2) has by (simp add: Requirements_Get_def)
  have "case map_of (claim_reqs n) k of
      Some e \<Rightarrow> (\<exists>x. Requirement_Has e x \<and> Requirement_Has q' x) \<or> absent_ok e \<and> absent_ok q'
    | None \<Rightarrow> k \<in> set (WellKnownLabels E) \<or> absent_ok q'" if k: "map_of (ofRequirements o1) k = Some q'" for k q'
  proof (cases "k = key")
    case True
    then show ?thesis using k q(1) at known[OF k] by (auto split: option.splits)
  next
    case False
    from compat[unfolded offering_compatible_def IsCompatible_def Compatible_Nil[OF wf' wfo], rule_format, OF k]
    show ?thesis unfolding other[OF False] .
  qed
  then show "offering_compatible E (claim_reqs n) o1"
    using wf wfo by (auto simp: offering_compatible_def IsCompatible_def Compatible_Nil)
qed

text \<open>Pinning to spot after the price filter keeps the bound.\<close>

lemma pinned_price_bound:
  assumes plain: "plain_labels (ceLabels C)" and mx: "extremal (ceMaxBy C)" and sound: "sound_claim C n" and settled: "settled C n"
    and it: "it \<in> set (claim_options n)" "o1 \<in> set (itOfferings it)" "ofAvailable o1"
    and compat: "offering_compatible (ceLabels C) (claim_reqs (pin_spot C n)) o1"
  shows "ofPrice o1 \<le> worst_price C (claim_reqs n) it"
proof -
  obtain ct where ct: "ct \<in> set launch_order" "sold_as (ceLabels C) ct o1" using sound it by (auto simp: sound_claim_def)
  have wf: "wf_requirements (ceLabels C) (claim_reqs n)" using sound by (simp add: sound_claim_def)
  have compat': "offering_compatible (ceLabels C) (claim_reqs n) o1"
    using compat compatible_unrequired(1)[OF plain _ ct(2) wf, of "[CapacityTypeSpot]"] plain
    by (auto simp: pin_spot_def plain_labels_def split: if_splits)
  have "sound_claim C (pin_spot C n)" using sound require_in_laws(2)[OF plain] by (simp add: pin_spot_def)
  then have pinned: "capacity_allows C ct (pin_spot C n)"
    using sold_has[OF plain ct(2) _ compat] by (simp add: capacity_allows_def sound_claim_def)
  have allowed: "capacity_allows C ct n" using sold_has[OF plain ct(2) wf compat'] by (simp add: capacity_allows_def)
  have spot: "\<not> capacity_allows C CapacityTypeOnDemand (require_spot (ceLabels C) n)"
    using require_spot_only(1)[OF plain] by (simp add: spot_only_def)
  have "\<forall>c \<in> set (preferred ct). \<not> capacity_allows C c n"
    using ct(1)
  proof (cases rule: launch_order_cases)
    case 3
    then have "\<not> capacity_allows C CapacityTypeSpot n"
      using pinned allowed spot by (auto simp: pin_spot_def split: if_splits)
    then show ?thesis using 3 allowed settled by (auto simp: settled_def)
  qed (use allowed settled in \<open>auto simp: settled_def\<close>)
  then show ?thesis by (rule worst_price_bound[OF plain mx sound it compat' ct(2,1)])
qed

section \<open>The price filter\<close>

text \<open>Each replacement has a share of the limit that every instance type left to it stays below.\<close>

definition priced :: "'q consol_env \<Rightarrow> rat \<Rightarrow> 'q InFlight list \<Rightarrow> bool" where
  "priced C limit ns \<longleftrightarrow>
     (\<exists>ms. list_all2 (\<lambda>m n. \<forall>it \<in> set (claim_options n). worst_price C (claim_reqs n) it < m) ms ns \<and> sum_list ms \<le> limit)"

definition narrowed :: "'q InFlight \<Rightarrow> 'q InFlight \<Rightarrow> bool" where
  "narrowed n n' \<longleftrightarrow> claim_reqs n' = claim_reqs n \<and> set (claim_options n') \<subseteq> set (claim_options n)"

lemma narrowed_refl [simp]: "narrowed n n"
  by (simp add: narrowed_def)

lemma filter_claims_narrowed: "filter_claims C maxPrice ns = (ns', ok) \<Longrightarrow> list_all2 narrowed ns ns'"
  by (induction ns arbitrary: ns' ok)
    (auto simp: narrowed_def RemoveInstanceTypeOptionsByPriceAndMinValues_def Let_def list_all2_same
      split: prod.splits if_splits)

lemma filter_claims_priced:
  "filter_claims C maxPrice ns = (ns', True) \<Longrightarrow>
     list_all2 (\<lambda>m n. \<forall>it \<in> set (claim_options n). worst_price C (claim_reqs n) it < m) (map maxPrice ns) ns'"
  by (induction ns arbitrary: ns')
    (auto simp: RemoveInstanceTypeOptionsByPriceAndMinValues_def worst_price_def Let_def split: prod.splits if_splits)

lemma aggregate_shares:
  assumes "ns \<noteq> []"
  shows "(\<Sum>n\<leftarrow>ns. if length ns > 1 then cheapestLaunchPrice C n + (price - cheapestAggregateLaunchPrice C ns) / of_nat (length ns)
                else price) = price"
proof (cases "length ns > 1")
  case True
  then show ?thesis using assms by (simp add: sum_list_addf sum_list_triv cheapestAggregateLaunchPrice_def)
next
  case False
  then obtain n where "ns = [n]" using assms by (cases ns; cases "tl ns") auto
  then show ?thesis by simp
qed

lemma filter_aggregate:
  assumes "filterReplacementsByAggregatePrice C ns price = (ns', ok)"
  shows "list_all2 narrowed ns ns'"
    and "ok \<Longrightarrow> ns \<noteq> [] \<Longrightarrow> \<forall>n \<in> set ns'. claim_options n \<noteq> [] \<Longrightarrow> priced C price ns'"
proof -
  let ?share = "\<lambda>n. if length ns > 1 then cheapestLaunchPrice C n + (price - cheapestAggregateLaunchPrice C ns) / of_nat (length ns) else price"
  have empty: "list_all2 narrowed ns (map (set_options []) ns)" by (simp add: list_all2_conv_all_nth narrowed_def)
  have res: "(ns', ok) = (map (set_options []) ns, True) \<or> filter_claims C ?share ns = (ns', ok)"
    using assms by (auto simp: filterReplacementsByAggregatePrice_def Let_def split: if_splits)
  then show "list_all2 narrowed ns ns'" using empty filter_claims_narrowed by auto
  assume "ok" "ns \<noteq> []" "\<forall>n \<in> set ns'. claim_options n \<noteq> []"
  then have "filter_claims C ?share ns = (ns', True)" using res by (cases ns) auto
  from filter_claims_priced[OF this] show "priced C price ns'"
    unfolding priced_def using aggregate_shares[OF \<open>ns \<noteq> []\<close>, of C price] by (intro exI[of _ "map ?share ns"]) auto
qed

lemma filter_publish:
  assumes "filterReplacementsAndPublish C ns cs budget = Some (ns', skip)"
  shows "list_all2 narrowed ns ns'" "skip = None \<Longrightarrow> ns \<noteq> [] \<Longrightarrow> priced C (priceBudget_limit budget) ns'"
proof -
  obtain ns1 ok where f: "filterReplacementsByAggregatePrice C ns (priceBudget_limit budget) = (ns1, ok)" by fastforce
  have "(ns', skip) = (ns, Some CandidateSkipNoCompatibleReplacement) \<or> ns' = ns1 \<and> (skip = None \<longrightarrow> ok \<and> (\<forall>n \<in> set ns1. claim_options n \<noteq> []))"
    using assms f by (auto simp: filterReplacementsAndPublish_def list_ex_iff split: if_splits bool.splits)
  then show "list_all2 narrowed ns ns'" "skip = None \<Longrightarrow> ns \<noteq> [] \<Longrightarrow> priced C (priceBudget_limit budget) ns'"
    using filter_aggregate[OF f] by (auto simp: list_all2_same)
qed

text \<open>What the simulation gives for a replacement, and what is known once it is pinned to spot.\<close>

definition good_claim :: "'q consol_env \<Rightarrow> 'q InFlight \<Rightarrow> bool" where
  "good_claim C n \<longleftrightarrow> sound_claim C n \<and> settled C n"

definition spot_claim :: "'q consol_env \<Rightarrow> 'q InFlight \<Rightarrow> bool" where
  "spot_claim C n \<longleftrightarrow> sound_claim C n \<and> spot_only C n"

lemma spot_good: "spot_claim C n \<Longrightarrow> good_claim C n"
  by (auto simp: spot_claim_def good_claim_def spot_only_def settled_def)

lemma spot_pinned: "spot_claim C n \<Longrightarrow> pin_spot C n = n"
  by (simp add: spot_claim_def spot_only_def pin_spot_def)

lemma narrowed_claim:
  assumes "narrowed n n'"
  shows "sound_claim C n \<Longrightarrow> sound_claim C n'" "good_claim C n \<Longrightarrow> good_claim C n'" "spot_claim C n \<Longrightarrow> spot_claim C n'"
proof -
  have same: "claim_reqs n' = claim_reqs n" and sub: "set (claim_options n') \<subseteq> set (claim_options n)"
    using assms by (simp_all add: narrowed_def)
  show sound: "sound_claim C n \<Longrightarrow> sound_claim C n'" by (rule sound_claim_mono[OF _ same sub])
  show "good_claim C n \<Longrightarrow> good_claim C n'" "spot_claim C n \<Longrightarrow> spot_claim C n'"
    using sound by (simp_all add: good_claim_def spot_claim_def capacity_cong[OF same])
qed

lemma narrowed_all:
  assumes "list_all2 narrowed ns ns'" "\<And>n n'. narrowed n n' \<Longrightarrow> P n \<Longrightarrow> P n'" "\<forall>n \<in> set ns. P n"
  shows "\<forall>n \<in> set ns'. P n"
  using assms(1,3) by (induction rule: list_all2_induct) (use assms(2) in auto)

lemma narrowed_claims:
  assumes "list_all2 narrowed ns ns'"
  shows "\<forall>n \<in> set ns. sound_claim C n \<Longrightarrow> \<forall>n \<in> set ns'. sound_claim C n"
    and "\<forall>n \<in> set ns. good_claim C n \<Longrightarrow> \<forall>n \<in> set ns'. good_claim C n"
    and "\<forall>n \<in> set ns. spot_claim C n \<Longrightarrow> \<forall>n \<in> set ns'. spot_claim C n"
  by (rule narrowed_all[OF assms, of "sound_claim C", OF narrowed_claim(1)], assumption+,
      rule narrowed_all[OF assms, of "good_claim C", OF narrowed_claim(2)], assumption+,
      rule narrowed_all[OF assms, of "spot_claim C", OF narrowed_claim(3)], assumption+)

lemma order_options_narrowed: "sorts_by cheaper (deSortByPrice (ceD C)) \<Longrightarrow> narrowed n (order_options C n)"
  by (simp add: narrowed_def order_options_same)

lemma truncate_narrowed: "narrowed n (truncateSpotInstanceTypeOptions C k n)"
  by (simp add: narrowed_def truncateSpotInstanceTypeOptions_def Let_def set_take_subset)

lemma set_options_narrowed: "set its \<subseteq> set (claim_options n) \<Longrightarrow> narrowed n (set_options its n)"
  by (simp add: narrowed_def)

section \<open>What a set of replacements can cost\<close>

text \<open>Whatever is launched for the replacements, one offering each, costs less than the limit.\<close>

definition saves :: "'q consol_env \<Rightarrow> rat \<Rightarrow> 'q InFlight list \<Rightarrow> bool" where
  "saves C limit ns \<longleftrightarrow> (\<forall>os. list_all2 (can_launch C) ns os \<longrightarrow> sum_list (map ofPrice os) < limit)"

lemma saves_narrowed:
  assumes "saves C limit ns" "list_all2 narrowed ns ns'"
  shows "saves C limit ns'"
  unfolding saves_def
proof (intro allI impI)
  fix os assume "list_all2 (can_launch C) ns' os"
  with assms(2) have "list_all2 (can_launch C) ns os"
    by (rule list_all2_trans[rotated]) (auto simp: narrowed_def can_launch_def list_ex_iff)
  with assms(1) show "sum_list (map ofPrice os) < limit" by (simp add: saves_def)
qed

lemma saves_mono: "saves C limit ns \<Longrightarrow> limit \<le> limit' \<Longrightarrow> saves C limit' ns"
  by (force simp: saves_def)

lemma sum_list_less:
  "list_all2 (\<lambda>(x :: rat) y. x < y) xs ys \<Longrightarrow> xs \<noteq> [] \<Longrightarrow> sum_list xs < sum_list ys"
proof (induction rule: list_all2_induct)
  case (Cons x xs y ys)
  then show ?case by (cases "xs = []") (auto intro: add_strict_mono)
qed simp

lemma pinned_launch_below:
  assumes plain: "plain_labels (ceLabels C)" and mx: "extremal (ceMaxBy C)" and good: "good_claim C n"
    and launch: "can_launch C (pin_spot C n) o1" and below: "\<forall>it \<in> set (claim_options n). worst_price C (claim_reqs n) it < m"
  shows "ofPrice o1 < m"
proof -
  have "claim_options (pin_spot C n) = claim_options n" by (simp add: pin_spot_def require_in_laws(1)[OF plain])
  with launch obtain it where it: "it \<in> set (claim_options n)" "o1 \<in> set (itOfferings it)" "ofAvailable o1"
      "offering_compatible (ceLabels C) (claim_reqs (pin_spot C n)) o1"
    by (auto simp: can_launch_def list_ex_iff)
  have "ofPrice o1 \<le> worst_price C (claim_reqs n) it"
    by (rule pinned_price_bound[OF plain mx _ _ it]) (use good in \<open>simp_all add: good_claim_def\<close>)
  also have "\<dots> < m" using below it(1) by blast
  finally show ?thesis .
qed

lemma priced_saves:
  assumes plain: "plain_labels (ceLabels C)" and mx: "extremal (ceMaxBy C)" and good: "\<forall>n \<in> set ns. good_claim C n"
    and priced: "priced C limit ns" and ne: "ns \<noteq> []"
  shows "saves C limit (map (pin_spot C) ns)"
  unfolding saves_def
proof (intro allI impI)
  fix os assume os: "list_all2 (can_launch C) (map (pin_spot C) ns) os"
  obtain ms where ms: "list_all2 (\<lambda>m n. \<forall>it \<in> set (claim_options n). worst_price C (claim_reqs n) it < m) ms ns" "sum_list ms \<le> limit"
    using priced by (auto simp: priced_def)
  have "list_all2 (\<lambda>x y. x < y) (map ofPrice os) ms"
  proof (rule list_all2_all_nthI)
    show len: "length (map ofPrice os) = length ms" using os ms(1) by (auto simp: list_all2_conv_all_nth)
    fix i assume i: "i < length (map ofPrice os)"
    then have "ofPrice (os ! i) < ms ! i"
      by (intro pinned_launch_below[OF plain mx, of "ns ! i"]) (use os ms(1) good i len in \<open>auto simp: list_all2_conv_all_nth\<close>)
    then show "map ofPrice os ! i < ms ! i" using i by simp
  qed
  moreover have "map ofPrice os \<noteq> []" using os ne by auto
  ultimately show "sum_list (map ofPrice os) < limit" using sum_list_less ms(2) by fastforce
qed

lemma spot_saves:
  assumes "plain_labels (ceLabels C)" "extremal (ceMaxBy C)" "\<forall>n \<in> set ns. spot_claim C n" "priced C limit ns" "ns \<noteq> []"
  shows "saves C limit ns"
proof -
  have "map (pin_spot C) ns = ns" using assms(3) by (simp add: map_idI spot_pinned)
  then show ?thesis using priced_saves[OF assms(1,2) _ assms(4,5)] assms(3) spot_good by auto
qed

section \<open>Narrowing to spot\<close>

lemma Compatible_subset: "set (InstanceTypes_Compatible E its rs) \<subseteq> set its"
  by (auto simp: InstanceTypes_Compatible_def)

lemma require_spot_claim:
  assumes "plain_labels (ceLabels C)"
  shows "sound_claim C n \<Longrightarrow> spot_claim C (require_spot (ceLabels C) n)"
    and "spot_claim C n \<Longrightarrow> spot_claim C (require_in (ceLabels C) k vs n)"
  using require_spot_only[OF assms] require_in_laws(2)[OF assms] by (simp_all add: spot_claim_def)

lemma narrow_claim_spot:
  assumes plain: "plain_labels (ceLabels C)" and sorts: "sorts_by cheaper (deSortByPrice (ceD C))" and sound: "sound_claim C n"
    and res: "narrowClaimToCheapSpotZones C b n = Some (n', True)"
  shows "spot_claim C n'"
proof -
  let ?E = "ceLabels C"
  let ?n = "require_spot ?E n"
  from res obtain zones where n': "n' = order_options C (set_options
      (filter (\<lambda>it. worst_price C (claim_reqs (require_in ?E LabelTopologyZone zones ?n)) it < b)
        (InstanceTypes_Compatible ?E (claim_options (require_in ?E LabelTopologyZone zones ?n))
          (claim_reqs (require_in ?E LabelTopologyZone zones ?n))))
      (require_in ?E LabelTopologyZone zones ?n))"
    by (auto simp: narrowClaimToCheapSpotZones_def Let_def split: if_splits option.splits)
  have "spot_claim C (require_in ?E LabelTopologyZone zones ?n)"
    by (intro require_spot_claim[OF plain] sound)
  then show ?thesis
    unfolding n' using Compatible_subset
    by (intro narrowed_claim(3)[OF order_options_narrowed[OF sorts]] narrowed_claim(3)[OF set_options_narrowed]) fastforce+
qed

lemma narrow_claims_spot:
  assumes plain: "plain_labels (ceLabels C)" and sorts: "sorts_by cheaper (deSortByPrice (ceD C))"
  shows "\<forall>n \<in> set ns. sound_claim C n \<Longrightarrow> narrow_claims C b ns = Some (ns', True) \<Longrightarrow>
     length ns' = length ns \<and> (\<forall>n \<in> set ns'. spot_claim C n)"
proof (induction ns arbitrary: ns')
  case (Cons n ns)
  from Cons.prems(2) obtain n1 ns1 where "narrowClaimToCheapSpotZones C b n = Some (n1, True)" "narrow_claims C b ns = Some (ns1, True)"
      "ns' = n1 # ns1"
    by (auto simp: bind_eq_Some_conv split: if_splits)
  then show ?case using Cons.IH[of ns1] Cons.prems(1) narrow_claim_spot[OF plain sorts] by auto
qed simp

lemma restore_sound:
  assumes "list_all2 narrowed ns ns'" "\<forall>n \<in> set ns. sound_claim C n"
  shows "\<forall>n \<in> set (restore_options (map claim_options ns) ns'). sound_claim C n"
    and "length (restore_options (map claim_options ns) ns') = length ns"
proof -
  have "list_all2 narrowed ns (restore_options (map claim_options ns) ns')"
    using assms(1) unfolding restore_options_def
    by (auto simp: list_all2_conv_all_nth narrowed_def)
  from narrowed_claims(1)[OF this assms(2)] list_all2_lengthD[OF this]
  show "\<forall>n \<in> set (restore_options (map claim_options ns) ns'). sound_claim C n"
    and "length (restore_options (map claim_options ns) ns') = length ns" by simp_all
qed

lemma retry_saves:
  assumes plain: "plain_labels (ceLabels C)" and sorts: "sorts_by cheaper (deSortByPrice (ceD C))" and mx: "extremal (ceMaxBy C)"
    and sound: "\<forall>n \<in> set ns. sound_claim C n" and ne: "ns \<noteq> []" and ns': "list_all2 narrowed ns ns'"
    and res: "retry_narrowed C cs (map claim_options ns) budget ns' = Some (Some ns'')"
  shows "saves C (priceBudget_limit budget) ns''" "length ns'' = length ns" "\<forall>n \<in> set ns''. spot_claim C n"
proof -
  let ?r = "restore_options (map claim_options ns) ns'"
  from res obtain ns1 where n: "narrow_claims C (priceBudget_split budget (length ns')) ?r = Some (ns1, True)"
      and f: "filterReplacementsAndPublish C ns1 cs budget = Some (ns'', None)"
    by (auto simp: retry_narrowed_def bind_eq_Some_conv split: if_splits)
  note spot = narrow_claims_spot[OF plain sorts restore_sound(1)[OF ns' sound] n]
  have len: "length ns1 = length ns" using spot restore_sound(2)[OF ns' sound] by simp
  then have "ns1 \<noteq> []" using ne by auto
  moreover from this have "ns'' \<noteq> []" using filter_publish(1)[OF f] by auto
  moreover show spot': "\<forall>n \<in> set ns''. spot_claim C n"
    using narrowed_claims(3)[OF filter_publish(1)[OF f]] spot by blast
  ultimately show "saves C (priceBudget_limit budget) ns''" using spot_saves[OF plain mx] filter_publish(2)[OF f] by blast
  show "length ns'' = length ns" using list_all2_lengthD[OF filter_publish(1)[OF f]] len by simp
qed

lemma markets_types: "spotReplacementMarkets C advisor n its r = Some (ms, r') \<Longrightarrow> map fst ms = its"
  by (induction its arbitrary: r ms r') (auto simp: bind_eq_Some_conv)

lemma launchable_types: "launchableSpotReplacementMarkets ms = (types, zones) \<Longrightarrow> set types \<subseteq> set (map fst ms)"
  by (cases "find (\<lambda>(it, m). launch_zones m \<noteq> {}) (sort_key (\<lambda>(it, m). mkPrice m) (filter (\<lambda>(it, m). mkAdmitted m \<noteq> {}) ms))")
    (force simp: launchableSpotReplacementMarkets_def Let_def)+

lemma restrict_claim_spot:
  assumes "plain_labels (ceLabels C)" "sorts_by cheaper (deSortByPrice (ceD C))" "restrict_claim C advisor n = Some (Inr n')" "spot_claim C n"
  shows "spot_claim C n'"
proof -
  from assms(3) obtain ms r where ms: "spotReplacementMarkets C advisor n (claim_options n) 0 = Some (ms, r)"
    and n': "n' = n \<or> (\<exists>types zones. launchableSpotReplacementMarkets ms = (types, zones) \<and>
        n' = order_options C (set_options types (require_in (ceLabels C) LabelTopologyZone (sorted_list_of_set zones) n)))"
    by (auto simp: restrict_claim_def map_option_case split: option.splits prod.splits if_splits)
  from n' show ?thesis
  proof (elim disjE exE conjE)
    fix types zones
    assume l: "launchableSpotReplacementMarkets ms = (types, zones)"
      and n': "n' = order_options C (set_options types (require_in (ceLabels C) LabelTopologyZone (sorted_list_of_set zones) n))"
    have "set types \<subseteq> set (claim_options n)" using launchable_types[OF l] markets_types[OF ms] by simp
    then show ?thesis
      unfolding n'
      by (intro narrowed_claim(3)[OF order_options_narrowed[OF assms(2)]] narrowed_claim(3)[OF set_options_narrowed])
        (simp_all add: require_in_laws(1)[OF assms(1)] require_spot_claim(2)[OF assms(1,4)])
  qed (use assms(4) in simp)
qed

lemma restrict_claims_spot:
  assumes "\<And>n n'. f n = Some (Inr n') \<Longrightarrow> spot_claim C n \<Longrightarrow> spot_claim C n'"
  shows "restrict_claims f ns = Some (Inr ns') \<Longrightarrow> \<forall>n \<in> set ns. spot_claim C n \<Longrightarrow>
     length ns' = length ns \<and> (\<forall>n \<in> set ns'. spot_claim C n)"
proof (induction ns arbitrary: ns')
  case (Cons n ns)
  from Cons.prems(1) obtain n1 ns1 where "f n = Some (Inr n1)" "restrict_claims f ns = Some (Inr ns1)" "ns' = n1 # ns1"
    by (auto simp: map_option_case split: bind_splits option.splits sum.splits)
  then show ?case using Cons assms by auto
qed simp

lemma narrowSpot_saves:
  assumes plain: "plain_labels (ceLabels C)" and sorts: "sorts_by cheaper (deSortByPrice (ceD C))" and mx: "extremal (ceMaxBy C)"
    and spot: "\<forall>n \<in> set ns. spot_claim C n" and ne: "ns \<noteq> []"
    and res: "narrowSpotReplacements C cs budget ns = Some (Inr ns')"
  shows "saves C (priceBudget_limit budget) ns'" "length ns' = length ns" "\<forall>n \<in> set ns'. spot_claim C n"
proof -
  from res obtain ns1 where r: "restrictSpotReplacementsToLaunchableMarkets C ns = Some (Inr ns1)"
      and f: "filterSpotReplacementsWithZoneRetry C cs budget ns1 = Some (Inr ns')"
    by (auto simp: narrowSpotReplacements_def split: bind_splits sum.splits)
  have ns1: "length ns1 = length ns" "\<forall>n \<in> set ns1. spot_claim C n"
    using r spot restrict_claims_spot[of "restrict_claim C _" C ns ns1, OF restrict_claim_spot[OF plain sorts]]
    by (auto simp: restrictSpotReplacementsToLaunchableMarkets_def split: option.splits)
  then have ne1: "ns1 \<noteq> []" and sound: "\<forall>n \<in> set ns1. sound_claim C n" using ne by (auto simp: spot_claim_def)
  from f obtain ns2 skip where p: "filterReplacementsAndPublish C ns1 cs budget = Some (ns2, skip)"
      and alt: "skip = None \<and> ns' = ns2 \<or> retry_narrowed C cs (map claim_options ns1) budget ns2 = Some (Some ns')"
    by (auto simp: filterSpotReplacementsWithZoneRetry_def map_option_case split: bind_splits option.splits if_splits)
  note nar = filter_publish(1)[OF p]
  have "saves C (priceBudget_limit budget) ns2" if "skip = None"
    using spot_saves[OF plain mx narrowed_claims(3)[OF nar ns1(2)] filter_publish(2)[OF p that ne1]] nar ne1 by auto
  then show "saves C (priceBudget_limit budget) ns'" "length ns' = length ns"
    using alt retry_saves(1,2)[OF plain sorts mx sound ne1 nar] list_all2_lengthD[OF nar] ns1(1) by auto
  show "\<forall>n \<in> set ns'. spot_claim C n"
    using alt retry_saves(3)[OF plain sorts mx sound ne1 nar] narrowed_claims(3)[OF nar ns1(2)] by blast
qed

text \<open>A replacement whose worst launch price is that of its requirements as they stand.\<close>

definition priceable :: "'q consol_env \<Rightarrow> 'q InFlight \<Rightarrow> bool" where
  "priceable C n \<longleftrightarrow> good_claim C n \<and> \<not> (capacity_allows C CapacityTypeSpot n \<and> capacity_allows C CapacityTypeOnDemand n)"

lemma spot_priceable: "spot_claim C n \<Longrightarrow> priceable C n"
  using spot_good[of C n] by (auto simp: priceable_def spot_claim_def spot_only_def)

lemma pinned_priceable:
  assumes "plain_labels (ceLabels C)" "good_claim C n"
  shows "priceable C (pin_spot C n)"
proof (cases "capacity_allows C CapacityTypeSpot n \<and> capacity_allows C CapacityTypeOnDemand n")
  case True
  then show ?thesis
    using require_spot_claim(1)[OF assms(1)] assms(2) by (auto simp: pin_spot_def good_claim_def intro: spot_priceable)
next
  case False
  then have "pin_spot C n = n" by (auto simp: pin_spot_def)
  then show ?thesis using False assms(2) by (simp add: priceable_def)
qed

lemma narrowed_priceable:
  assumes "narrowed n n'" "priceable C n"
  shows "priceable C n'"
proof -
  have "claim_reqs n' = claim_reqs n" using assms(1) by (simp add: narrowed_def)
  then show ?thesis using assms(2) narrowed_claim(2)[OF assms(1)] by (simp add: priceable_def capacity_allows_def)
qed

lemma priceable_bound:
  assumes "plain_labels (ceLabels C)" "extremal (ceMaxBy C)" "priceable C n" "it \<in> set (claim_options n)"
    and "o1 \<in> set (itOfferings it)" "ofAvailable o1" "offering_compatible (ceLabels C) (claim_reqs n) o1"
  shows "ofPrice o1 \<le> worst_price C (claim_reqs n) it"
proof -
  have "pin_spot C n = n" using assms(3) by (auto simp: priceable_def pin_spot_def)
  then show ?thesis
    using pinned_price_bound[OF assms(1,2) _ _ assms(4-6)] assms(3,7) by (simp add: priceable_def good_claim_def)
qed

section \<open>Commands\<close>

text \<open>
  A command that does something is for the candidates it was asked for, and all their pods have a
  place. One that replaces has few enough and cheap enough replacements.
\<close>

definition cheap_command :: "'q consol_env \<Rightarrow> 'q Candidate list \<Rightarrow> rat \<Rightarrow> int \<Rightarrow> 'q Command \<Rightarrow> bool" where
  "cheap_command C cs limit cap cmd \<longleftrightarrow>
     (Command_Decision cmd \<noteq> NoOpDecision \<longrightarrow> cmdCandidates cmd = cs \<and> AllNonPendingPodsScheduled (cmdResults cmd)) \<and>
     (Command_Decision cmd = ReplaceDecision \<longrightarrow>
        int (length (cmdReplacements cmd)) \<le> cap \<and> saves C limit (cmdReplacements cmd) \<and> (\<forall>n \<in> set (cmdReplacements cmd). priceable C n))"

lemma cheap_no_command [simp]: "cheap_command C cs limit cap no_command"
  by (simp add: cheap_command_def Command_Decision_def no_command_def)

lemma cheap_delete: "AllNonPendingPodsScheduled results \<Longrightarrow> cheap_command C cs limit cap (replace_command cs results [] l)"
  by (simp add: cheap_command_def Command_Decision_def replace_command_def AllNonPendingPodsScheduled_def)

lemma cheap_replace:
  "AllNonPendingPodsScheduled results \<Longrightarrow> int (length ns) \<le> cap \<Longrightarrow> saves C limit ns \<Longrightarrow> \<forall>n \<in> set ns. priceable C n \<Longrightarrow>
   cheap_command C cs limit cap (replace_command cs results ns l)"
  by (simp add: cheap_command_def replace_command_def AllNonPendingPodsScheduled_def)

lemma cheap_mono: "cheap_command C cs limit cap cmd \<Longrightarrow> limit \<le> limit' \<Longrightarrow> cap \<le> cap' \<Longrightarrow> cheap_command C cs limit' cap' cmd"
  by (auto simp: cheap_command_def intro: saves_mono)

lemma limit_mono:
  "0 \<le> candidatePrice b \<Longrightarrow> m \<le> m' \<Longrightarrow> priceBudget_limit (b\<lparr>pbMinSavings := m'\<rparr>) \<le> priceBudget_limit (b\<lparr>pbMinSavings := m\<rparr>)"
  by (simp add: priceBudget_limit_def mult_left_mono)

lemma spot_to_spot_cheap:
  assumes plain: "plain_labels (ceLabels C)" and sorts: "sorts_by cheaper (deSortByPrice (ceD C))" and mx: "extremal (ceMaxBy C)"
    and sound: "\<forall>n \<in> set (rNewNodeClaims results). sound_claim C n" and ne: "rNewNodeClaims results \<noteq> []"
    and all: "AllNonPendingPodsScheduled results" and price: "0 \<le> candidatePrice budget"
    and res: "computeSpotToSpotConsolidation C cs results budget so st = Some (st', Inr cmd)"
  shows "cheap_command C cs (priceBudget_limit budget) (int (length (rNewNodeClaims results))) cmd"
proof -
  let ?E = "ceLabels C"
  let ?pin = "\<lambda>n. (let n = require_spot ?E n in
      order_options C (set_options (InstanceTypes_Compatible ?E (claim_options n) (claim_reqs n)) n))"
  let ?ns = "map ?pin (rNewNodeClaims results)"
  from res obtain m ns' where f: "narrowSpotReplacements C cs (budget\<lparr>pbMinSavings := max (pbMinSavings budget) m\<rparr>) ?ns = Some (Inr ns')"
      and cmd: "cmd = replace_command cs results ns' 0 \<or>
        cmd = replace_command cs results (map (truncateSpotInstanceTypeOptions C (SpotToSpotMinInstanceTypes (ceOptions C))) ns') (newCapacityPriceLimit so)"
    by (auto simp: computeSpotToSpotConsolidation_def map_option_case Let_def split: bind_splits option.splits sum.splits if_splits)
  have "spot_claim C (?pin n)" if "sound_claim C n" for n
    unfolding Let_def
    by (intro narrowed_claim(3)[OF order_options_narrowed[OF sorts]] narrowed_claim(3)[OF set_options_narrowed]
        Compatible_subset require_spot_claim(1)[OF plain] that)
  then have spot: "\<forall>n \<in> set ?ns. spot_claim C n" using sound by auto
  note saves = narrowSpot_saves[OF plain sorts mx spot _ f]
  have "priceBudget_limit (budget\<lparr>pbMinSavings := max (pbMinSavings budget) m\<rparr>) \<le> priceBudget_limit budget"
    using limit_mono[OF price, of "pbMinSavings budget" "max (pbMinSavings budget) m"] by simp
  then have cheap: "saves C (priceBudget_limit budget) ns'" using saves(1) ne saves_mono by blast
  moreover have nar: "list_all2 narrowed ns' (map (truncateSpotInstanceTypeOptions C k) ns')" for k
    by (simp add: list_all2_conv_all_nth truncate_narrowed)
  ultimately have "saves C (priceBudget_limit budget) (map (truncateSpotInstanceTypeOptions C k) ns')" for k
    by (rule saves_narrowed)
  moreover have spot': "\<forall>n \<in> set ns'. spot_claim C n" using saves(3) ne by simp
  then have "\<forall>n \<in> set ns'. priceable C n" "\<forall>n \<in> set (map (truncateSpotInstanceTypeOptions C k) ns'). priceable C n" for k
    using narrowed_claims(3)[OF nar] spot_priceable by blast+
  ultimately show ?thesis using cmd cheap saves(2) ne all by (auto intro!: cheap_replace)
qed

text \<open>What is relied on from the environment, and from the simulation of a set of candidates.\<close>

definition pricing_env :: "'q consol_env \<Rightarrow> bool" where
  "pricing_env C \<longleftrightarrow> plain_labels (ceLabels C) \<and> sorts_by cheaper (deSortByPrice (ceD C)) \<and> extremal (ceMaxBy C)"

definition simulates_well :: "'q consol_env \<Rightarrow> 'q Candidate list \<Rightarrow> bool" where
  "simulates_well C cs \<longleftrightarrow>
     (\<forall>limit results. ceSimulate C limit cs = Ok results \<longrightarrow> (\<forall>n \<in> set (rNewNodeClaims results). good_claim C n))"

lemma odspot_cheap:
  assumes env: "pricing_env C" and good: "\<forall>n \<in> set ns. good_claim C n" and ne: "ns \<noteq> []"
    and f: "filterReplacementsAndPublish C ns cs budget = Some (ns', skip)"
  shows "skip = None \<Longrightarrow> saves C (priceBudget_limit budget) (map (pin_spot C) ns')"
    and "\<forall>n \<in> set (map (pin_spot C) ns'). priceable C n"
    and "retrySpotOnlyReplacements C cs (map claim_options ns) budget ns' = Some (Some ns'') \<Longrightarrow>
       saves C (priceBudget_limit budget) ns'' \<and> length ns'' = length ns \<and> (\<forall>n \<in> set ns''. priceable C n)"
proof -
  have plain: "plain_labels (ceLabels C)" and sorts: "sorts_by cheaper (deSortByPrice (ceD C))" and mx: "extremal (ceMaxBy C)"
    using env by (simp_all add: pricing_env_def)
  note nar = filter_publish(1)[OF f]
  have ne': "ns' \<noteq> []" using nar ne by auto
  show "saves C (priceBudget_limit budget) (map (pin_spot C) ns')" if "skip = None"
    by (rule priced_saves[OF plain mx narrowed_claims(2)[OF nar good] filter_publish(2)[OF f that ne] ne'])
  show "\<forall>n \<in> set (map (pin_spot C) ns'). priceable C n"
    using narrowed_claims(2)[OF nar good] pinned_priceable[OF plain] by simp
  assume "retrySpotOnlyReplacements C cs (map claim_options ns) budget ns' = Some (Some ns'')"
  then obtain ns1 where r: "retry_narrowed C cs (map claim_options ns) budget ns' = Some (Some ns1)"
      and ns'': "ns'' = map (truncateSpotInstanceTypeOptions C (SpotToSpotMinInstanceTypes (ceOptions C))) ns1"
    by (auto simp: retrySpotOnlyReplacements_def)
  have "\<forall>n \<in> set ns. sound_claim C n" using good by (simp add: good_claim_def)
  note s = retry_saves[OF plain sorts mx this ne nar r]
  have nar1: "list_all2 narrowed ns1 ns''" unfolding ns'' by (simp add: list_all2_conv_all_nth truncate_narrowed)
  have "\<forall>n \<in> set ns''. priceable C n" using narrowed_claims(3)[OF nar1 s(3)] spot_priceable by blast
  then show "saves C (priceBudget_limit budget) ns'' \<and> length ns'' = length ns \<and> (\<forall>n \<in> set ns''. priceable C n)"
    using saves_narrowed[OF s(1) nar1] s(2) list_all2_lengthD[OF nar1] by simp
qed

lemma or_split_cases:
  "or_split r = Ok (st', cmd) \<Longrightarrow> cmd = no_command \<or> r = Some (st', Some cmd)"
  by (auto simp: or_split_def split: option.splits)

text \<open>The ways to a command, once the simulation has given an acceptable number of replacements.\<close>

lemma compute_with_ways:
  assumes res: "compute_with C trySplit so cs st = Ok (st', cmd)" and sim: "ceSimulate C (newCapacityPriceLimit so) cs = Ok results"
    and ok: "AllNonPendingPodsScheduled results" "rNewNodeClaims results \<noteq> []"
      "int (length (rNewNodeClaims results)) \<le> replacement_cap (ceOptions C) so cs"
    and ns: "ns = map (order_options C) (rNewNodeClaims results)"
    and budget: "budget = \<lparr>candidatePrice = sumCandidatePrices cs, pbMinSavings = soMinSavings so\<rparr>"
  obtains "cmd = no_command"
  | s where "or_split (trySplit so (sumCandidatePrices cs) cs s) = Ok (st', cmd)"
  | "computeSpotToSpotConsolidation C cs (results\<lparr>rNewNodeClaims := ns\<rparr>) budget so st = Some (st', Inr cmd)"
  | ns' l where "filterReplacementsAndPublish C ns cs budget = Some (ns', None)" "cmd = replace_command cs results (map (pin_spot C) ns') l"
  | ns' reason ns'' l where "filterReplacementsAndPublish C ns cs budget = Some (ns', Some reason)"
      "retrySpotOnlyReplacements C cs (map claim_options ns) budget ns' = Some (Some ns'')" "cmd = replace_command cs results ns'' l"
proof (cases "list_all (\<lambda>c. cdCapacityType c = CapacityTypeSpot) cs \<and> list_ex (capacity_allows C CapacityTypeSpot) ns")
  case True
  then show thesis
    using res ok that(1-3) unfolding compute_with_def sim Let_def ns budget
    by (auto split: option.splits sum.splits prod.splits if_splits)
next
  case False
  obtain applies shadow where a: "odToSpotRetryApplies C cs ns = (applies, shadow)" by fastforce
  from False res ok
  have r: "(case filterReplacementsAndPublish C ns cs budget of
       None \<Rightarrow> Panic
     | Some (ns', None) \<Rightarrow> Ok (st, replace_command cs results (map (pin_spot C) ns') (newCapacityPriceLimit so))
     | Some (ns', Some reason) \<Rightarrow>
         (case odToSpotRetryApplies C cs ns of
            (applies, shadow) \<Rightarrow>
              (case (if applies then retrySpotOnlyReplacements C cs (map claim_options ns) budget ns' else Some None) of
                 None \<Rightarrow> Panic
               | Some (Some ns'') \<Rightarrow>
                   if \<not> shadow then Ok (st, replace_command cs results ns'' (newCapacityPriceLimit so))
                   else or_split (trySplit so (sumCandidatePrices cs) cs st)
               | Some None \<Rightarrow> or_split (trySplit so (sumCandidatePrices cs) cs st)))) = Ok (st', cmd)"
    unfolding compute_with_def sim Let_def ns budget by auto
  show thesis
  proof (cases "filterReplacementsAndPublish C ns cs budget")
    case (Some p)
    obtain ns' skip where p: "p = (ns', skip)" by fastforce
    show thesis
    proof (cases skip)
      case None
      then show thesis using r that(4) Some p by auto
    next
      case (Some reason)
      with r \<open>filterReplacementsAndPublish C ns cs budget = Some p\<close> p a that(2) that(5)[of ns' reason] show thesis
        by (auto split: option.splits if_splits)
    qed
  qed (use r in simp)
qed

lemma compute_with_cheap:
  assumes env: "pricing_env C" and sim: "simulates_well C cs" and price: "0 \<le> sumCandidatePrices cs"
    and split: "\<And>st st' cmd. trySplit so (sumCandidatePrices cs) cs st = Some (st', Some cmd) \<Longrightarrow>
      cheap_command C cs (sumCandidatePrices cs * (1 - soMinSavings so)) (replacement_cap (ceOptions C) so cs) cmd"
    and res: "compute_with C trySplit so cs st = Ok (st', cmd)"
  shows "cheap_command C cs (sumCandidatePrices cs * (1 - soMinSavings so)) (replacement_cap (ceOptions C) so cs) cmd"
    (is "?cheap cmd")
proof (cases "ceSimulate C (newCapacityPriceLimit so) cs")
  case (Ok results)
  let ?budget = "\<lparr>candidatePrice = sumCandidatePrices cs, pbMinSavings = soMinSavings so\<rparr>"
  let ?ns = "map (order_options C) (rNewNodeClaims results)"
  have limit: "priceBudget_limit ?budget = sumCandidatePrices cs * (1 - soMinSavings so)" by (simp add: priceBudget_limit_def)
  have plain: "plain_labels (ceLabels C)" and sorts: "sorts_by cheaper (deSortByPrice (ceD C))" and mx: "extremal (ceMaxBy C)"
    using env by (simp_all add: pricing_env_def)
  have good: "\<forall>n \<in> set ?ns. good_claim C n"
    using sim Ok narrowed_claim(2)[OF order_options_narrowed[OF sorts]] by (auto simp: simulates_well_def)
  have orsplit: "?cheap c" if "or_split (trySplit so (sumCandidatePrices cs) cs s) = Ok (s', c)" for s s' c
    using or_split_cases[OF that] split by auto
  show ?thesis
  proof (cases "AllNonPendingPodsScheduled results \<and> rNewNodeClaims results \<noteq> [] \<and>
      int (length (rNewNodeClaims results)) \<le> replacement_cap (ceOptions C) so cs")
    case False
    then show ?thesis using res by (auto simp: compute_with_def Ok intro: cheap_delete split: if_splits)
  next
    case True
    then have all: "AllNonPendingPodsScheduled results" and ne: "?ns \<noteq> []"
      and cap: "int (length ?ns) \<le> replacement_cap (ceOptions C) so cs" by auto
    have spot: "?cheap c" if "computeSpotToSpotConsolidation C cs (results\<lparr>rNewNodeClaims := ?ns\<rparr>) ?budget so s = Some (s', Inr c)" for s s' c
    proof -
      have "cheap_command C cs (priceBudget_limit ?budget) (int (length (rNewNodeClaims (results\<lparr>rNewNodeClaims := ?ns\<rparr>)))) c"
        by (rule spot_to_spot_cheap[OF plain sorts mx _ _ _ _ that])
          (use good ne all price in \<open>auto simp: good_claim_def AllNonPendingPodsScheduled_def\<close>)
      then show ?thesis unfolding limit by (rule cheap_mono) (use cap in simp_all)
    qed
    have od: "?cheap (replace_command cs results n2 l)"
      if "saves C (priceBudget_limit ?budget) n2" "length n2 = length ?ns" "\<forall>n \<in> set n2. priceable C n" for n2 l
      using that cap all by (intro cheap_replace) (simp_all add: limit)
    have len: "length (map (pin_spot C) n2) = length ?ns" if "filterReplacementsAndPublish C ?ns cs ?budget = Some (n2, sk)" for n2 sk
      using list_all2_lengthD[OF filter_publish(1)[OF that]] by simp
    show ?thesis
    proof (rule compute_with_ways[OF res Ok _ _ _ refl refl])
      fix n2 l assume f: "filterReplacementsAndPublish C ?ns cs ?budget = Some (n2, None)"
        and cmd: "cmd = replace_command cs results (map (pin_spot C) n2) l"
      show ?thesis unfolding cmd by (rule od[OF odspot_cheap(1)[OF env good ne f refl] len[OF f] odspot_cheap(2)[OF env good ne f]])
    next
      fix n2 reason n3 l assume f: "filterReplacementsAndPublish C ?ns cs ?budget = Some (n2, Some reason)"
        and r: "retrySpotOnlyReplacements C cs (map claim_options ?ns) ?budget n2 = Some (Some n3)"
        and cmd: "cmd = replace_command cs results n3 l"
      from odspot_cheap(3)[OF env good ne f r] show ?thesis unfolding cmd using od by blast
    qed (use True spot orsplit in \<open>auto\<close>)
  qed
qed (use res in \<open>auto simp: compute_with_def split: sim_error.splits\<close>)

lemma split_cheap:
  assumes env: "pricing_env C" and sim: "simulates_well C cs" and price: "0 \<le> sumCandidatePrices cs"
    and so: "soMaxReplacements so = 0" "soMinSavings so \<le> ConsolidationReplaceMinSavings (ceOptions C)"
    and res: "trySplitConsolidation C so (sumCandidatePrices cs) cs st = Some (st', Some cmd)"
  shows "cheap_command C cs (sumCandidatePrices cs * (1 - soMinSavings so)) (replacement_cap (ceOptions C) so cs) cmd"
proof -
  let ?so = "\<lparr>newCapacityPriceLimit = sumCandidatePrices cs,
      soMinSavings = max (ConsolidationSplitMinSavings (ceOptions C)) (ConsolidationReplaceMinSavings (ceOptions C)),
      soMaxReplacements = 0\<rparr>"
  from res obtain c st1 where c: "splitCandidate (ceOptions C) so (sumCandidatePrices cs) cs = Some c"
      and s: "splitSimulation C c (sumCandidatePrices cs) 0 st1 = Ok (st', cmd)"
    by (auto simp: trySplitConsolidation_def Let_def split: option.splits prod.splits bool.splits if_splits result.splits)
  from c have cs: "cs = [c]" by (auto simp: splitCandidate_def split: if_splits list.splits)
  have "compute_with C no_split ?so cs st1 = Ok (st', cmd)" using s unfolding splitSimulation_def cs .
  from compute_with_cheap[OF env sim price _ this]
  have "cheap_command C cs (sumCandidatePrices cs * (1 - soMinSavings ?so)) (replacement_cap (ceOptions C) ?so cs) cmd"
    by (simp add: no_split_def)
  then show ?thesis
    by (rule cheap_mono) (use price so in \<open>auto simp: replacement_cap_def intro!: mult_left_mono\<close>)
qed

lemma computeConsolidation_cheap:
  assumes "pricing_env C" "simulates_well C cs" "0 \<le> sumCandidatePrices cs" "computeConsolidation C cs st = Ok (st', cmd)"
  shows "cheap_command C cs (sumCandidatePrices cs * (1 - ConsolidationReplaceMinSavings (ceOptions C)))
     (if length cs = 1 then max 1 (MaxConsolidationReplacements (ceOptions C)) else 1) cmd"
proof -
  let ?so = "\<lparr>newCapacityPriceLimit = 0, soMinSavings = ConsolidationReplaceMinSavings (ceOptions C), soMaxReplacements = 0\<rparr>"
  have res: "compute_with C (trySplitConsolidation C) ?so cs st = Ok (st', cmd)"
    using assms(4) by (simp add: computeConsolidation_def computeConsolidationWithOptions_def)
  have "cheap_command C cs (sumCandidatePrices cs * (1 - soMinSavings ?so)) (replacement_cap (ceOptions C) ?so cs) cmd"
    by (rule compute_with_cheap[OF assms(1-3) split_cheap[OF assms(1-3)] res]) simp_all
  then show ?thesis by (rule cheap_mono) (auto simp: replacement_cap_def)
qed


section \<open>A node and its replacement\<close>

definition of_type :: "string list \<Rightarrow> requirements" where
  "of_type cts = [(CapacityTypeLabelKey, \<lparr>Key = CapacityTypeLabelKey, complement = False, rvalues = set cts, gte = None, lte = None, MinValues = None\<rparr>)]"

definition sold :: "string \<Rightarrow> rat \<Rightarrow> int Offering" where
  "sold ct p = (plain_offering p)\<lparr>ofRequirements := of_type [ct]\<rparr>"

definition demo_replacement :: "string list \<Rightarrow> int Offering list \<Rightarrow> int InFlight" where
  "demo_replacement cts ofs =
     \<lparr>ifTemplate = demo_template\<lparr>nctInstanceTypeOptions := [small_type\<lparr>itOfferings := ofs\<rparr>], nctRequirements := of_type cts\<rparr>,
      ifPods = [], ifDaemonOverheadGroups = [], ifHostname = ''h'', ifReservedOfferings = [],
      ifReservedOfferingMode = ReservedOfferingModeFallback, ifInstanceTypesBeforeLimits = None\<rparr>"

definition demo_disrupt :: "int disrupt_env" where
  "demo_disrupt = \<lparr>deNE = demo_claim_env, deState = demo_state, deMaxBy = first_best, deMinBy = first_best,
     deSortByPrice = insertion_sort cheaper, deParseDuration = (\<lambda>_. None)\<rparr>"

definition demo_options :: consol_options where
  "demo_options = \<lparr>ConsolidationReplaceMinSavings = 1 / 10, MaxConsolidationReplacements = 2, ODToSpotConsolidation = False,
     ODToSpotConsolidationShadow = False, SpotToSpotMinInstanceTypes = 15, SpotToSpotMinNodeAge = 0, SpotToSpotMinSavings = 0,
     SpotToSpotConsolidation = False, ConsolidationSplitFallback = False, ConsolidationSplitShadow = False,
     ConsolidationSplitMinSavings = 0, ConsolidationSplitShadowMaxReplacements = 2\<rparr>"

definition demo_consol :: "string list \<Rightarrow> int Offering list \<Rightarrow> int consol_env" where
  "demo_consol cts ofs = \<lparr>ceD = demo_disrupt, ceOptions = demo_options, ceNow = 0, ceAdvisor = None,
     ceSimulate = (\<lambda>_ _. Ok \<lparr>rNewNodeClaims = [demo_replacement cts ofs], rExistingNodes = [], rPodErrors = []\<rparr>)\<rparr>"

definition demo_nodepool :: "int NodePool" where
  "demo_nodepool = \<lparr>npName = ''p'', npUID = ''u'', npAnnotations = [], npTemplateLabels = [], npTemplateAnnotations = [],
     npTemplateSpec = \<lparr>specTaints = [], specStartupTaints = [], specRequirements = [], specRequests = [], specNodeClassRef = None,
       specTerminationGracePeriod = None, specExpireAfter = None\<rparr>, npConsolidateAfter = None,
     npConsolidationPolicy = ConsolidationPolicyBalanced, npBudgets = [], npLimits = None, npWeight = None, npReplicas = None\<rparr>"

definition demo_candidate :: "rat \<Rightarrow> int Candidate" where
  "demo_candidate price = \<lparr>cdNode = NewNode\<lparr>stNodeClaim := Some (demo_claim ''c'' ''i-1'' 2)\<rparr>, cdInstanceType = None, cdNodePool = demo_nodepool, cdZone = ''z'',
     cdCapacityType = CapacityTypeOnDemand, cdDisruptionCost = 1, cdReschedulablePods = [], cdPrice = price,
     cdRescheduleDisruptionCost = 1\<rparr>"

definition fresh_pass :: pass_state where "fresh_pass = \<lparr>splitRemaining = None, inconclusive = False\<rparr>"

definition spot_or_demand :: "int Offering list" where
  "spot_or_demand = [sold CapacityTypeSpot 3, sold CapacityTypeOnDemand 12]"

lemma MaxFloat64_int [code]: "MaxFloat64 = of_int ((2 ^ 53 - 1) * push_bit 971 1)"
  by (simp add: MaxFloat64_def push_bit_eq_mult)

lemma core_plain: "plain_labels core_labels"
  by (simp add: plain_labels_def wf_core_labels) (simp add: core_labels_def normalize_key_def label_key_defs CapacityTypeLabelKey_def)

lemma of_type_wf: "wf_requirements core_labels (of_type cts)"
  using core_plain by (auto simp: of_type_def wf_requirements_def wf_requirement_def plain_labels_def)

lemma sold_as_sold: "sold_as core_labels ct (sold ct p)"
  using of_type_wf[of "[ct]"]
  by (simp add: sold_under_def sold_def) (simp add: of_type_def NewRequirement_def NewRequirement_In core_labels_def normalize_key_def label_key_defs)

lemma demo_pricing: "pricing_env (demo_consol cts ofs)"
  by (simp add: pricing_env_def demo_consol_def demo_disrupt_def demo_claim_env_def small_env_def core_plain
      by_price.insertion_sort_sorts first_best_extremal)

lemma demo_simulates: "simulates_well (demo_consol [CapacityTypeSpot, CapacityTypeOnDemand] spot_or_demand) cs"
proof -
  have "\<not> capacity_allows (demo_consol cts ofs) CapacityTypeReserved (demo_replacement [CapacityTypeSpot, CapacityTypeOnDemand] ofs')" for cts ofs ofs'
    by (simp add: capacity_allows_def demo_replacement_def of_type_def Requirements_Get_def Requirement_Has_def
        CapacityTypeReserved_def CapacityTypeSpot_def CapacityTypeOnDemand_def)
  then show ?thesis
    by (auto simp: simulates_well_def good_claim_def settled_def sound_claim_def demo_consol_def demo_disrupt_def demo_claim_env_def
        small_env_def demo_replacement_def of_type_wf spot_or_demand_def launch_order_def sold_as_sold)
qed

lemma demo_consolidates:
  "case computeConsolidation (demo_consol [CapacityTypeSpot, CapacityTypeOnDemand] spot_or_demand) [demo_candidate 10] fresh_pass of
     Ok (_, cmd) \<Rightarrow> Command_Decision cmd = ReplaceDecision
   | _ \<Rightarrow> False"
  by code_simp



section \<open>Markets the cloud provider advises against\<close>

lemma precompute_offerings:
  assumes "faithful_text showC showO (itOfferings it)" "itOverhead it \<noteq> None" "precompute showC showO it = Some gs"
  shows "set (concat (map aoOfferings gs)) = set (Available (itOfferings it))"
proof (cases "list_ex has_override (itOfferings it)")
  case True
  then have "mset (concat (map aoOfferings gs)) = mset (Available (itOfferings it))"
    using groupOfferings_spec[OF assms(1,2)] assms(3) by (auto simp: precompute_def)
  then show ?thesis by (metis set_mset_mset)
qed (use assms(3) in \<open>auto simp: precompute_def\<close>)

lemma note_offerings_rejects:
  "note_offerings C adv rs ofs (m, r) = Some (m', r') \<Longrightarrow>
     mkRejected m \<subseteq> mkRejected m' \<and> r \<le> r' \<and>
     (\<forall>(fits, o1) \<in> set ofs. offering_compatible (ceLabels C) rs o1 \<and> \<not> adv o1 \<longrightarrow>
        r < r' \<and> (\<exists>z. Zone (ceLabels C) (nePick (ceNE C)) (neIntn (ceNE C)) o1 = Some z \<and> z \<in> mkRejected m'))"
proof (induction ofs arbitrary: m r)
  case (Cons p ofs)
  obtain fits o1 where p: "p = (fits, o1)" by (cases p)
  from Cons.prems obtain m1 r1 where n: "note_offering C adv rs fits (m, r) o1 = Some (m1, r1)"
      and rest: "note_offerings C adv rs ofs (m1, r1) = Some (m', r')"
    by (auto simp: p bind_eq_Some_conv)
  have step: "mkRejected m \<subseteq> mkRejected m1" "r \<le> r1"
    "offering_compatible (ceLabels C) rs o1 \<and> \<not> adv o1 \<longrightarrow>
       r < r1 \<and> (\<exists>z. Zone (ceLabels C) (nePick (ceNE C)) (neIntn (ceNE C)) o1 = Some z \<and> z \<in> mkRejected m1)"
    using n by (auto simp: note_offering_def split: if_splits)
  show ?case using Cons.IH[OF rest] step unfolding p by (auto; fastforce)
qed simp

lemma markets_reject:
  "spotReplacementMarkets C advisor n its r = Some (ms, r') \<Longrightarrow>
     r \<le> r' \<and> (\<forall>(it, m) \<in> set ms. \<exists>ofs. fitted_offerings C (specRequests (nctSpec (ifTemplate n))) it = Some ofs \<and>
       (\<forall>(fits, o1) \<in> set ofs. offering_compatible (ceLabels C) (claim_reqs n) o1 \<and> \<not> advisor (nctNodePoolName (ifTemplate n)) it o1 \<longrightarrow>
          r < r' \<and> (\<exists>z. Zone (ceLabels C) (nePick (ceNE C)) (neIntn (ceNE C)) o1 = Some z \<and> z \<in> mkRejected m)))"
proof (induction its arbitrary: r ms)
  case (Cons it its)
  from Cons.prems obtain ofs m r1 ms1 where f: "fitted_offerings C (specRequests (nctSpec (ifTemplate n))) it = Some ofs"
      and n: "note_offerings C (advisor (nctNodePoolName (ifTemplate n)) it) (claim_reqs n) ofs (new_market, r) = Some (m, r1)"
      and rest: "spotReplacementMarkets C advisor n its r1 = Some (ms1, r')" and ms: "ms = (it, m) # ms1"
    by (auto simp: bind_eq_Some_conv)
  note a = note_offerings_rejects[OF n] and b = Cons.IH[OF rest]
  have "\<forall>(fits, o1) \<in> set ofs. offering_compatible (ceLabels C) (claim_reqs n) o1 \<and> \<not> advisor (nctNodePoolName (ifTemplate n)) it o1 \<longrightarrow>
      r < r' \<and> (\<exists>z. Zone (ceLabels C) (nePick (ceNE C)) (neIntn (ceNE C)) o1 = Some z \<and> z \<in> mkRejected m)"
    using a b by fastforce
  then show ?case using f a b unfolding ms by (auto; fastforce)
qed simp

lemma sold_zone:
  assumes "plain_labels E" "sold_under E LabelTopologyZone z o1" "\<forall>z. pick {z} = z"
  shows "Zone E pick intn o1 = Some z"
proof -
  have r: "NewRequirement E LabelTopologyZone OpIn [z] =
      Some \<lparr>Key = LabelTopologyZone, complement = False, rvalues = {z}, gte = None, lte = None, MinValues = None\<rparr>"
    using assms(1) by (simp add: plain_labels_def NewRequirement_def NewRequirement_In)
  show ?thesis
    using assms(2,3)
    by (simp add: Zone_def Requirements_Get_def sold_under_def r Requirement_Any_def Requirement_Operator_def Requirement_Len_def)
qed

lemma launchable_not_rejected:
  assumes "launchableSpotReplacementMarkets ms = (types, zones)" "it \<in> set types"
  obtains m where "(it, m) \<in> set ms" "mkRejected m \<inter> zones = {}"
  using assms
  by (cases "find (\<lambda>(it, m). launch_zones m \<noteq> {}) (sort_key (\<lambda>(it, m). mkPrice m) (filter (\<lambda>(it, m). mkAdmitted m \<noteq> {}) ms))")
    (force simp: launchableSpotReplacementMarkets_def Let_def)+

text \<open>The offerings of a NodeClaim, as the cloud provider describes them: one zone each.\<close>

definition zoned_claim :: "'q consol_env \<Rightarrow> 'q InFlight \<Rightarrow> bool" where
  "zoned_claim C n \<longleftrightarrow>
     wf_requirements (ceLabels C) (claim_reqs n) \<and>
     (\<forall>it \<in> set (claim_options n). itOverhead it \<noteq> None \<and> faithful_text (neShowC (ceNE C)) (neShowO (ceNE C)) (itOfferings it) \<and>
        (\<forall>o1 \<in> set (itOfferings it). \<exists>z. sold_under (ceLabels C) LabelTopologyZone z o1))"

definition launches_advised :: "'q consol_env \<Rightarrow> (string \<Rightarrow> 'q InstanceType \<Rightarrow> 'q Offering \<Rightarrow> bool) \<Rightarrow> 'q InFlight \<Rightarrow> 'q InFlight \<Rightarrow> bool" where
  "launches_advised C advisor n n' \<longleftrightarrow>
     (\<forall>it \<in> set (claim_options n'). \<forall>o1 \<in> set (Available (itOfferings it)).
        offering_compatible (ceLabels C) (claim_reqs n') o1 \<longrightarrow> advisor (nctNodePoolName (ifTemplate n)) it o1)"

lemma restrict_claim_advised:
  assumes plain: "plain_labels (ceLabels C)" and sorts: "sorts_by cheaper (deSortByPrice (ceD C))" and pick: "\<forall>z. nePick (ceNE C) {z} = z"
    and zoned: "zoned_claim C n" and res: "restrict_claim C advisor n = Some (Inr n')"
  shows "launches_advised C advisor n n'"
  unfolding launches_advised_def
proof (intro ballI impI)
  let ?E = "ceLabels C"
  fix it o1 assume it: "it \<in> set (claim_options n')" and o1: "o1 \<in> set (Available (itOfferings it))"
    and compat: "offering_compatible ?E (claim_reqs n') o1"
  from res obtain ms r where ms: "spotReplacementMarkets C advisor n (claim_options n) 0 = Some (ms, r)"
    and n': "r = 0 \<and> n' = n \<or> (\<exists>types zones. launchableSpotReplacementMarkets ms = (types, zones) \<and>
        n' = order_options C (set_options types (require_in ?E LabelTopologyZone (sorted_list_of_set zones) n)))"
    by (auto simp: restrict_claim_def map_option_case split: option.splits prod.splits if_splits)
  have offered: "\<exists>fits. (fits, o1) \<in> set ofs"
    if "it \<in> set (claim_options n)" "fitted_offerings C (specRequests (nctSpec (ifTemplate n))) it = Some ofs" for ofs
  proof -
    from that(2) obtain gs where gs: "precompute (neShowC (ceNE C)) (neShowO (ceNE C)) it = Some gs"
        "ofs = concat (map (\<lambda>g. map (Pair (Fits (specRequests (nctSpec (ifTemplate n))) (aoAllocatable g))) (aoOfferings g)) gs)"
      by (auto simp: fitted_offerings_def)
    have "o1 \<in> set (concat (map aoOfferings gs))"
      using precompute_offerings[OF _ _ gs(1)] zoned that(1) o1 by (auto simp: zoned_claim_def)
    then show ?thesis unfolding gs(2) by auto
  qed
  from n' show "advisor (nctNodePoolName (ifTemplate n)) it o1"
  proof (elim disjE exE conjE)
    assume same: "r = 0" "n' = n"
    obtain m where "(it, m) \<in> set ms" using markets_types[OF ms] it same(2) by (metis fst_conv imageE list.set_map prod.collapse)
    with markets_reject[OF ms] offered it same compat show ?thesis by fastforce
  next
    fix types zones assume l: "launchableSpotReplacementMarkets ms = (types, zones)"
      and n': "n' = order_options C (set_options types (require_in ?E LabelTopologyZone (sorted_list_of_set zones) n))"
    have types: "it \<in> set types" using it by (simp add: n' order_options_same[OF sorts])
    then have opt: "it \<in> set (claim_options n)" using launchable_types[OF l] markets_types[OF ms] by auto
    obtain m where m: "(it, m) \<in> set ms" "mkRejected m \<inter> zones = {}" by (rule launchable_not_rejected[OF l types])
    obtain z where z: "sold_under ?E LabelTopologyZone z o1" using zoned opt o1 by (auto simp: zoned_claim_def Available_def)
    have key: "normalize_key ?E LabelTopologyZone = LabelTopologyZone" using plain by (simp add: plain_labels_def)
    have "offering_compatible ?E (claim_reqs (require_in ?E LabelTopologyZone (sorted_list_of_set zones) n)) o1"
      using compat by (simp add: n' order_options_same[OF sorts])
    note c = compatible_unrequired[OF plain key z _ this]
    have "z \<in> zones" "offering_compatible ?E (claim_reqs n) o1"
      using c zoned by (auto simp: zoned_claim_def) (cases "finite zones"; simp)
    with markets_reject[OF ms] offered[OF opt] m sold_zone[OF plain z pick] show ?thesis by fastforce
  qed
qed

lemma restrict_claims_all2:
  "restrict_claims f ns = Some (Inr ns') \<Longrightarrow> list_all2 (\<lambda>n n'. f n = Some (Inr n')) ns ns'"
proof (induction ns arbitrary: ns')
  case (Cons n ns)
  then show ?case by (auto simp: map_option_case split: bind_splits option.splits sum.splits)
qed simp


definition in_zone :: "string \<Rightarrow> rat \<Rightarrow> int Offering" where
  "in_zone z p = (plain_offering p)\<lparr>ofRequirements := [(LabelTopologyZone,
     \<lparr>Key = LabelTopologyZone, complement = False, rvalues = {z}, gte = None, lte = None, MinValues = None\<rparr>)]\<rparr>"

definition not_two :: "string \<Rightarrow> int InstanceType \<Rightarrow> int Offering \<Rightarrow> bool" where
  "not_two pool it o1 \<longleftrightarrow> ofPrice o1 \<noteq> 2"

definition demo_market :: "int consol_env" where
  "demo_market = (demo_consol [] [])\<lparr>ceD := demo_disrupt\<lparr>deNE := demo_claim_env\<lparr>nePick := (\<lambda>s. hd (sorted_list_of_set s)), neShowC := (\<lambda>_. ''x'')\<rparr>\<rparr>,
     ceAdvisor := Some not_two\<rparr>"

definition zonal_replacement :: "int InFlight" where
  "zonal_replacement = demo_replacement [CapacityTypeSpot] [in_zone ''a'' 1, in_zone ''b'' 2]"

lemma zonal_restricts:
  "case restrictSpotReplacementsToLaunchableMarkets demo_market [zonal_replacement] of
     Some (Inr ns) \<Rightarrow> map (map itName \<circ> claim_options) ns = [[''small'']]
   | _ \<Rightarrow> False"
  by code_simp

lemma zonal_zoned: "zoned_claim demo_market zonal_replacement"
proof -
  have "wf_requirements core_labels (ofRequirements (in_zone z p))" for z p
    using core_plain by (auto simp: in_zone_def wf_requirements_def wf_requirement_def plain_labels_def)
  then have "sold_under core_labels LabelTopologyZone z (in_zone z p)" for z p
    by (simp add: sold_under_def)
      (simp add: in_zone_def NewRequirement_def NewRequirement_In core_labels_def normalize_key_def label_key_defs)
  then have "\<exists>z. sold_under core_labels LabelTopologyZone z (in_zone z' p)" for z' p by blast
  then show ?thesis
    by (auto simp: zoned_claim_def demo_market_def demo_consol_def demo_disrupt_def demo_claim_env_def small_env_def zonal_replacement_def
        demo_replacement_def of_type_wf faithful_text_def small_type_def) (simp_all add: in_zone_def plain_offering_def)
qed



section \<open>The balanced policy\<close>

text \<open>
  C39. A candidate of a balanced NodePool that fails the threshold for deleting it alone fails it for every
  move that replaces it alone: the price of the replacement only lowers the savings.
\<close>

theorem CanPassThreshold_sound:
  assumes "\<not> CanPassThreshold totals c" "cmdCandidates cmd = [c]"
    and "cmdPoolDisruptionCosts cmd = computePoolDisruptionCosts [c]" "0 \<le> cdRescheduleDisruptionCost c"
    and "\<forall>n \<in> set (rNewNodeClaims (cmdResults cmd)). 0 \<le> destination_price D n"
  shows "\<not> fst (ApproveCommand D (Some totals) cmd)"
proof -
  from assms(1) obtain t where t: "map_of totals (cdPool c) = Some t" and bal: "IsBalanced (npConsolidationPolicy (cdNodePool c))"
    and fails: "\<not> ScoreResult_Approved (ScoreMove (cdPrice c) (cdRescheduleDisruptionCost c) t BalancedK)"
    by (auto simp: CanPassThreshold_def split: if_splits option.splits)
  have "0 \<le> (\<Sum>n\<leftarrow>rNewNodeClaims (cmdResults cmd). destination_price D n)" using assms(5) by (intro sum_list_nonneg) auto
  then have savings: "EstimatedSavings D cmd \<le> cdPrice c"
    by (simp add: EstimatedSavings_def SourceCost_def sumCandidatePrices_def assms(2))
  have "\<not> ScoreResult_Approved (ScoreMove (EstimatedSavings D cmd) (cdRescheduleDisruptionCost c) t BalancedK)"
    using Approved_mono[OF _ savings] fails assms(4) by (auto simp: BalancedK_def)
  moreover have "pool_score D cmd totals (cdPool c) = ScoreMove (EstimatedSavings D cmd) (cdRescheduleDisruptionCost c) t BalancedK"
    by (simp add: pool_score_def assms(2,3) PoolDisruptionCost_def computePoolDisruptionCosts_def mget_def t map_of_mput)
  ultimately show ?thesis by (simp add: ApproveCommand_def EvaluateBalancedMove_def assms(2) bal)
qed

definition small_totals :: "(string, NodePoolTotals) gomap" where
  "small_totals = [(''p'', \<lparr>TotalCost = 100, TotalDisruptionCost = 2\<rparr>)]"

definition demo_move :: "int Command" where
  "demo_move = replace_command [demo_candidate 10] \<lparr>rNewNodeClaims = [], rExistingNodes = [], rPodErrors = []\<rparr>
     [demo_replacement [CapacityTypeSpot] [sold CapacityTypeSpot 3]] 0"

theorem CanPassThreshold_sound_witness:
  "\<not> CanPassThreshold small_totals (demo_candidate 10) \<and> \<not> fst (ApproveCommand demo_disrupt (Some small_totals) demo_move)"
proof -
  have "\<not> CanPassThreshold small_totals (demo_candidate 10)" by code_simp
  moreover from this have "\<not> fst (ApproveCommand demo_disrupt (Some small_totals) demo_move)"
    by (rule CanPassThreshold_sound)
      (simp_all add: demo_move_def replace_command_def demo_candidate_def destination_price_def demo_replacement_def Available_def
        sold_def plain_offering_def demo_disrupt_def Cheapest_def first_best_def)
  ultimately show ?thesis by simp
qed

end
