(* ===== verification/DisruptionLaws.thy ===== *)
theory DisruptionLaws
  imports Disruption ConsolidationLaws
begin

text \<open>
  What validation promises: the disruption budgets of every NodePool are kept, counting the nodes
  that are already disrupted, and the replacements of a command match what a fresh simulation asks
  for, one to one.
\<close>

section \<open>Spending a budget\<close>

definition in_pool :: "string \<Rightarrow> 'q Candidate list \<Rightarrow> nat" where
  "in_pool p cs = length (filter (\<lambda>c. cdPool c = p) cs)"

lemma in_pool_simps [simp]:
  "in_pool p [] = 0" "in_pool p (c # cs) = (if cdPool c = p then Suc (in_pool p cs) else in_pool p cs)"
  by (simp_all add: in_pool_def)

lemma spend_budget_charges:
  "0 \<le> mget 0 m p \<Longrightarrow> int (in_pool p (fst (spend_budget m cs))) \<le> mget 0 m p"
proof (induction cs arbitrary: m)
  case (Cons c cs)
  show ?case
  proof (cases "mget 0 m (cdPool c) = 0")
    case True
    then show ?thesis using Cons.IH[OF Cons.prems] by (auto split: prod.splits)
  next
    case False
    let ?m = "mput (cdPool c) (mget 0 m (cdPool c) - 1) m"
    have "0 \<le> mget 0 ?m p" using Cons.prems False by (auto simp: mget_mput)
    from Cons.IH[OF this] False show ?thesis by (cases "spend_budget ?m cs") (auto simp: mget_mput split: if_splits)
  qed
qed simp

lemma spend_subset: "set (fst (spend_budget m cs)) \<subseteq> set cs"
proof (induction cs arbitrary: m)
  case (Cons c cs)
  show ?case
    using Cons.IH[of m] Cons.IH[of "mput (cdPool c) (mget 0 m (cdPool c) - 1) m"]
    by (cases "spend_budget m cs"; cases "spend_budget (mput (cdPool c) (mget 0 m (cdPool c) - 1) m) cs") auto
qed simp

lemma budget_allows_all_spends:
  "budget_allows_all nominated m cs \<Longrightarrow> fst (spend_budget m cs) = cs \<and> (\<forall>c \<in> set cs. \<not> nominated c)"
proof (induction cs arbitrary: m)
  case (Cons c cs)
  then have "budget_allows_all nominated (mput (cdPool c) (mget 0 m (cdPool c) - 1) m) cs" "mget 0 m (cdPool c) \<noteq> 0" "\<not> nominated c"
    by (auto split: if_splits)
  with Cons.IH[OF this(1)] show ?case
    by (cases "spend_budget (mput (cdPool c) (mget 0 m (cdPool c) - 1) m) cs") auto
qed simp

section \<open>The budget of a NodePool\<close>

definition pool_nodes :: "'q world \<Rightarrow> string \<Rightarrow> 'q StateNode list" where
  "pool_nodes w p = filter (\<lambda>n. counts_for_budget n \<and> node_pool_of n = p) (DeepCopyNodes (wCluster w))"

definition disrupting_nodes :: "'q world \<Rightarrow> string \<Rightarrow> nat" where
  "disrupting_nodes w p = length (filter consumes_budget (pool_nodes w p))"

definition allowed_nodes :: "'q world \<Rightarrow> 'q NodePool \<Rightarrow> DisruptionReason \<Rightarrow> int" where
  "allowed_nodes w np reason =
     MustGetAllowedDisruptions (wBudgets w) (wNow w) np (int (length (pool_nodes w (npName np)))) reason"

lemma tally_nodes:
  "foldl tally_node (a, b) ns = (a', b') \<Longrightarrow>
     mget 0 a' p = mget 0 a p + int (length (filter (\<lambda>n. counts_for_budget n \<and> node_pool_of n = p) ns)) \<and>
     mget 0 b' p = mget 0 b p + int (length (filter consumes_budget (filter (\<lambda>n. counts_for_budget n \<and> node_pool_of n = p) ns)))"
proof (induction ns arbitrary: a b)
  case (Cons n ns)
  obtain a1 b1 where s: "tally_node (a, b) n = (a1, b1)" by fastforce
  with Cons.prems have "foldl tally_node (a1, b1) ns = (a', b')" by simp
  from Cons.IH[OF this] s show ?case by (auto simp: tally_node_def increment_def mget_mput split: if_splits)
qed simp

lemma mget_fold_mput:
  "mget 0 (foldl (\<lambda>m x. mput (k x) (v x) m) m0 xs) p =
     (case find (\<lambda>x. k x = p) (rev xs) of Some x \<Rightarrow> v x | None \<Rightarrow> mget 0 m0 p)"
  by (induction xs rule: rev_induct) (auto simp: mget_mput split: option.splits)

lemma budget_mapping:
  assumes "BuildDisruptionBudgetMapping w reason = Ok m"
  shows "0 \<le> mget 0 m p"
    and "wPools w = Ok pools \<Longrightarrow> distinct (map npName pools) \<Longrightarrow> np \<in> set pools \<Longrightarrow>
      mget 0 m (npName np) = max (allowed_nodes w np reason - int (disrupting_nodes w (npName np))) 0"
proof -
  obtain num dis where f: "foldl tally_node ([], []) (DeepCopyNodes (wCluster w)) = (num, dis)" by fastforce
  have num: "mget 0 num q = int (length (pool_nodes w q))" and dis: "mget 0 dis q = int (disrupting_nodes w q)" for q
    using tally_nodes[OF f, of q] by (simp_all add: pool_nodes_def disrupting_nodes_def mget_def)
  from assms obtain ps where ps: "wPools w = Ok ps"
      and m: "m = foldl (\<lambda>m np. mput (npName np) (max (allowed_nodes w np reason - int (disrupting_nodes w (npName np))) 0) m) [] ps"
    by (auto simp: BuildDisruptionBudgetMapping_def f num dis allowed_nodes_def rbind_Ok)
  note val = mget_fold_mput[of npName "\<lambda>np. max (allowed_nodes w np reason - int (disrupting_nodes w (npName np))) 0" "[]" ps, folded m]
  show "0 \<le> mget 0 m p" unfolding val by (auto simp: mget_def split: option.splits)
  assume pools: "wPools w = Ok pools" "distinct (map npName pools)" "np \<in> set pools"
  have "find (\<lambda>x. npName x = npName np) (rev ps) = Some np"
  proof -
    have "find (\<lambda>x. npName x = npName np) (rev ps) \<noteq> None" using pools ps by (auto simp: find_None_iff)
    then obtain x where x: "find (\<lambda>x. npName x = npName np) (rev ps) = Some x" by blast
    then have "x \<in> set (rev ps)" "npName x = npName np" by (auto simp: find_Some_iff simp del: set_rev)
    then have "x \<in> set ps" "npName x = npName np" by simp_all
    then show ?thesis using x pools ps by (auto simp: distinct_map inj_on_def)
  qed
  then show "mget 0 m (npName np) = max (allowed_nodes w np reason - int (disrupting_nodes w (npName np))) 0" unfolding val by simp
qed

section \<open>Validated candidates\<close>

lemma lift_kube_Ok [simp]: "lift_kube r = Ok a \<longleftrightarrow> r = Ok a"
  by (auto simp: lift_kube_def split: result.splits)

definition within_budget :: "'q world \<Rightarrow> DisruptionReason \<Rightarrow> 'q Candidate list \<Rightarrow> bool" where
  "within_budget w reason cs \<longleftrightarrow>
     (\<forall>pools np. wPools w = Ok pools \<longrightarrow> distinct (map npName pools) \<longrightarrow> np \<in> set pools \<longrightarrow>
        int (in_pool (npName np) cs) + int (disrupting_nodes w (npName np))
          \<le> max (allowed_nodes w np reason) (int (disrupting_nodes w (npName np))))"

lemma spent_within_budget:
  assumes "BuildDisruptionBudgetMapping w reason = Ok m"
  shows "within_budget w reason (fst (spend_budget m cs))"
  unfolding within_budget_def
proof (intro allI impI)
  fix pools np assume p: "wPools w = Ok pools" "distinct (map npName pools)" "np \<in> set pools"
  have "int (in_pool (npName np) (fst (spend_budget m cs))) \<le> max (allowed_nodes w np reason - int (disrupting_nodes w (npName np))) 0"
    using spend_budget_charges[of m "npName np" cs] budget_mapping(1)[OF assms, of "npName np"] budget_mapping(2)[OF assms p] by simp
  then show "int (in_pool (npName np) (fst (spend_budget m cs))) + int (disrupting_nodes w (npName np))
      \<le> max (allowed_nodes w np reason) (int (disrupting_nodes w (npName np)))" by linarith
qed

lemma candidates_validated:
  assumes "Consolidation_validateCandidates D w flt cs = Ok validated"
  shows "within_budget w DisruptionReasonUnderutilized validated" "length validated = length cs"
    and "candidate_name ` set validated \<subseteq> candidate_name ` set cs"
    and "\<forall>c \<in> set validated. \<not> IsNodeNominated (wNow w) (candidate_id c) (wCluster w)"
    and "\<exists>current. GetCandidates D w flt GracefulDisruptionClass = Ok current \<and> set validated \<subseteq> set current"
proof -
  from assms obtain current m where c: "GetCandidates D w flt GracefulDisruptionClass = Ok current"
      and v: "validated = mapCandidates cs current" "length validated = length cs"
      and m: "BuildDisruptionBudgetMapping w DisruptionReasonUnderutilized = Ok m"
      and b: "budget_allows_all (\<lambda>c. IsNodeNominated (wNow w) (candidate_id c) (wCluster w)) m validated"
    by (auto simp: Consolidation_validateCandidates_def rbind_Ok Let_def split: if_splits)
  note spend = budget_allows_all_spends[OF b]
  show "within_budget w DisruptionReasonUnderutilized validated" using spent_within_budget[OF m, of validated] spend by simp
  show "length validated = length cs" by (rule v(2))
  show "candidate_name ` set validated \<subseteq> candidate_name ` set cs" by (auto simp: v(1) mapCandidates_def)
  show "\<forall>c \<in> set validated. \<not> IsNodeNominated (wNow w) (candidate_id c) (wCluster w)" using spend by simp
  show "\<exists>current. GetCandidates D w flt GracefulDisruptionClass = Ok current \<and> set validated \<subseteq> set current"
    using c v(1) by (auto simp: mapCandidates_def)
qed

lemma GetCandidates_filtered:
  "GetCandidates D w flt class = Ok cs \<Longrightarrow> \<forall>c \<in> set cs. flt c"
  by (auto simp: GetCandidates_def GetCandidatesWithTotals_def rbind_Ok split: option.splits prod.splits)

text \<open>
  C4. Emptiness keeps the disruption budgets. The nodes it removes are candidates found again at validation
  under names it proposed as empty nodes; each is still one to remove and none is nominated for a pod. For every NodePool they and
  the nodes already disrupted are no more than the budget for empty nodes allows, or than are
  disrupted anyway.
\<close>

theorem emptiness_within_budget:
  assumes "Emptiness_ComputeCommands D w sortCandidates isConsolidated budgets cs = Ok (cmds, mark)" "cmd \<in> set cmds"
  shows "cmdReplacements cmd = [] \<and> cmdCandidates cmd \<noteq> [] \<and> within_budget w DisruptionReasonEmpty (cmdCandidates cmd) \<and>
     (\<forall>c \<in> set (cmdCandidates cmd). Emptiness_ShouldDisrupt (wCluster w) c \<and> \<not> IsNodeNominated (wNow w) (candidate_id c) (wCluster w) \<and>
        (\<exists>c0 \<in> set (sortCandidates cs). Candidate_IsEmpty c0 \<and> candidate_name c0 = candidate_name c))"
proof -
  obtain proposed m k where sp: "spend_budget budgets (filter Candidate_IsEmpty (sortCandidates cs)) = (proposed, m, k)" by (metis prod.collapse)
  let ?cmd = "no_command\<lparr>cmdCandidates := proposed, cmdPoolDisruptionCosts := computePoolDisruptionCosts proposed\<rparr>"
  from assms have v: "Emptiness_Validate D w (Emptiness_ShouldDisrupt (wCluster w)) ?cmd = Ok cmd"
    by (auto simp: Emptiness_ComputeCommands_def sp split: if_splits result.splits validate_error.splits)
  then obtain current bm valid where c: "GetCandidates D w (Emptiness_ShouldDisrupt (wCluster w)) GracefulDisruptionClass = Ok current"
      and m: "BuildDisruptionBudgetMapping w DisruptionReasonEmpty = Ok bm"
      and valid: "valid = fst (spend_budget bm (filter (\<lambda>c. \<not> IsNodeNominated (wNow w) (candidate_id c) (wCluster w)) (mapCandidates proposed current)))"
        "valid \<noteq> []" "cmd = ?cmd\<lparr>cmdCandidates := valid\<rparr>"
    by (auto simp: Emptiness_Validate_def Emptiness_validateCandidates_def rbind_Ok Let_def split: if_splits)
  let ?quiet = "filter (\<lambda>c. \<not> IsNodeNominated (wNow w) (candidate_id c) (wCluster w)) (mapCandidates proposed current)"
  have sub: "set valid \<subseteq> set ?quiet" unfolding valid(1) by (rule spend_subset)
  have orig: "set proposed \<subseteq> set (filter Candidate_IsEmpty (sortCandidates cs))"
    using spend_subset[of budgets "filter Candidate_IsEmpty (sortCandidates cs)"] by (simp add: sp)
  have "Emptiness_ShouldDisrupt (wCluster w) c \<and> \<not> IsNodeNominated (wNow w) (candidate_id c) (wCluster w) \<and>
      (\<exists>c0 \<in> set (sortCandidates cs). Candidate_IsEmpty c0 \<and> candidate_name c0 = candidate_name c)" if "c \<in> set valid" for c
  proof -
    have "c \<in> set ?quiet" using sub that by blast
    then have "c \<in> set current" "\<not> IsNodeNominated (wNow w) (candidate_id c) (wCluster w)" "candidate_name c \<in> candidate_name ` set proposed"
      by (auto simp: mapCandidates_def)
    moreover from this(3) obtain c0 where "c0 \<in> set proposed" "candidate_name c = candidate_name c0" by (rule imageE)
    moreover from this(1) orig have "c0 \<in> set (sortCandidates cs)" "Candidate_IsEmpty c0" by auto
    ultimately show ?thesis using GetCandidates_filtered[OF c] by (intro conjI bexI[of _ c0]) simp_all
  qed
  moreover have "within_budget w DisruptionReasonEmpty valid" unfolding valid(1) by (rule spent_within_budget[OF m])
  ultimately show ?thesis using valid(2) unfolding valid(3) by (simp add: no_command_def)
qed

section \<open>Validated replacements\<close>

text \<open>
  C13. The check of the replacements against a fresh simulation is exact: it passes if and only if the
  replacements can be assigned to different simulated NodeClaims so that each may stand for its own.
\<close>

theorem replacementsMatchSimulation_exact:
  "replacementsMatchSimulation C rs ns \<longleftrightarrow>
     (\<exists>f. inj_on f {..<length rs} \<and>
        (\<forall>i < length rs. f i < length ns \<and> replacementMatchesSimulatedNodeClaim C (rs ! i) (ns ! f i)))"
  by (simp add: replacementsMatchSimulation_def match_all_exact matching_def)

text \<open>What a replacement may launch is what the simulated NodeClaim may launch.\<close>

definition stands_for :: "'q consol_env \<Rightarrow> 'q InFlight \<Rightarrow> 'q InFlight \<Rightarrow> bool" where
  "stands_for C r n \<longleftrightarrow>
     nctNodePoolName (ifTemplate r) = nctNodePoolName (ifTemplate n) \<and> nctNodePoolUUID (ifTemplate r) = nctNodePoolUUID (ifTemplate n) \<and>
     itName ` set (claim_options r) \<subseteq> itName ` set (claim_options n) \<and>
     (\<forall>key v. key \<noteq> neReservationIDLabel (ceNE C) \<longrightarrow> Requirement_Has (Requirements_Get (ceLabels C) (claim_reqs r) key) v \<longrightarrow>
        Requirement_Has (Requirements_Get (ceLabels C) (claim_reqs n) key) v)"

lemma match_stands_for:
  assumes "replacementMatchesSimulatedNodeClaim C r n"
    and "wf_requirements (ceLabels C) (claim_reqs r)" "wf_requirements (ceLabels C) (claim_reqs n)"
  shows "stands_for C r n"
proof -
  have pool: "nctNodePoolName (ifTemplate r) = nctNodePoolName (ifTemplate n)" "nctNodePoolUUID (ifTemplate r) = nctNodePoolUUID (ifTemplate n)"
    and sub: "\<forall>(key, _) \<in> set (claim_reqs n). key \<noteq> neReservationIDLabel (ceNE C) \<longrightarrow>
        SubsetOf (Requirements_Get (ceLabels C) (claim_reqs r) key) (Requirements_Get (ceLabels C) (claim_reqs n) key)"
    and types: "instanceTypesAreSubset (claim_options r) (claim_options n)"
    using assms(1) by (auto simp: replacementMatchesSimulatedNodeClaim_def Let_def list_ex_iff split: if_splits)
  have "itName ` set (claim_options n) \<inter> itName ` set (claim_options r) = itName ` set (claim_options r)"
    using types by (intro card_seteq) (auto simp: instanceTypesAreSubset_def)
  then have types': "itName ` set (claim_options r) \<subseteq> itName ` set (claim_options n)" by blast
  have "Requirement_Has (Requirements_Get (ceLabels C) (claim_reqs n) key) v"
    if k: "key \<noteq> neReservationIDLabel (ceNE C)" and v: "Requirement_Has (Requirements_Get (ceLabels C) (claim_reqs r) key) v" for key v
  proof (cases "map_of (claim_reqs n) key")
    case None
    then show ?thesis by (simp add: Requirements_Get_def)
  next
    case (Some q)
    then have "SubsetOf (Requirements_Get (ceLabels C) (claim_reqs r) key) (Requirements_Get (ceLabels C) (claim_reqs n) key)"
      using sub k map_of_SomeD[OF Some] by auto
    with SubsetOf_sound wf_Get[OF assms(2)] wf_Get[OF assms(3)] v show ?thesis by blast
  qed
  then show ?thesis using pool types' by (simp add: stands_for_def)
qed

lemma Validate_cases:
  assumes "Consolidation_Validate C w w' flt cmd = Ok cmd'"
  obtains cs where "Consolidation_validateCandidates (ceD C) w flt (cmdCandidates cmd) = Ok cs" "validateCommand C cmd cs = Ok ()" "cmd' = cmd"
proof (cases "Consolidation_validateCandidates (ceD C) w flt (cmdCandidates cmd)")
  case (Ok cs)
  have "validateCommand C cmd cs = Ok () \<and> cmd' = cmd"
    using assms unfolding Consolidation_Validate_def Consolidation_isValid_def Ok
    by (cases "validateCommand C cmd cs"; cases "Consolidation_validateCandidates (ceD C) w' flt cs") simp_all
  with Ok that show thesis by blast
qed (use assms in \<open>simp_all add: Consolidation_Validate_def Consolidation_isValid_def\<close>)


section \<open>One empty node\<close>

definition empty_node :: "int StateNode" where
  "empty_node = NewNode\<lparr>
     stNode := Some (demo_node\<lparr>cnLabels := cnLabels demo_node @ [(CapacityTypeLabelKey, CapacityTypeSpot), (LabelTopologyZone, ''z'')]\<rparr>),
     stNodeClaim := Some ((demo_claim ''c1'' ''i-1'' 4)\<lparr>ncConditions :=
       [(ConditionTypeConsolidatable, \<lparr>condStatus = ''True'', condReason = [], condTransition = 0\<rparr>)]\<rparr>)\<rparr>"

definition one_at_a_time :: "int NodePool" where
  "one_at_a_time = demo_nodepool\<lparr>npConsolidateAfter := Some 0,
     npBudgets := [\<lparr>bReasons = None, bNodes = ''1'', bSchedule = None, bDuration = None\<rparr>]\<rparr>"

definition whole_numbers :: budget_env where
  "whole_numbers = \<lparr>cronNext = (\<lambda>_. None), scaled = (\<lambda>v total. case v of int_or_string.IntVal n \<Rightarrow> Some n | int_or_string.StrVal _ \<Rightarrow> None)\<rparr>"

definition demo_world :: "int world" where
  "demo_world = \<lparr>wNow = 1, wCluster = NewCluster\<lparr>clNodes := [(''i-1'', empty_node)]\<rparr>, wPools = Ok [one_at_a_time],
     wTypes = (\<lambda>_. Some [small_type\<lparr>itName := ''m'', itOfferings := []\<rparr>]), wPdbs = Ok [], wPods = (\<lambda>_. Ok []), wBusy = (\<lambda>_. False),
     wBudgets = whole_numbers\<rparr>"

definition empty_candidate :: "int Candidate" where
  "empty_candidate = (demo_candidate 0)\<lparr>cdNode := empty_node\<rparr>"

lemma demo_emptiness:
  "case Emptiness_ComputeCommands demo_disrupt demo_world id False [(''p'', 1)] [empty_candidate] of
     Ok (cmds, mark) \<Rightarrow> map (map candidate_name \<circ> cmdCandidates) cmds = [[''n1'']]
   | _ \<Rightarrow> False"
  by code_simp

lemma demo_budget: "disrupting_nodes demo_world ''p'' = 0" "allowed_nodes demo_world one_at_a_time DisruptionReasonEmpty = 1"
  by code_simp+

theorem emptiness_within_budget_witness:
  "\<exists>cmds mark cmd. Emptiness_ComputeCommands demo_disrupt demo_world id False [(''p'', 1)] [empty_candidate] = Ok (cmds, mark) \<and> cmd \<in> set cmds \<and>
     in_pool ''p'' (cmdCandidates cmd) \<le> 1"
proof -
  obtain cmds mark where r: "Emptiness_ComputeCommands demo_disrupt demo_world id False [(''p'', 1)] [empty_candidate] = Ok (cmds, mark)"
      "map (map candidate_name \<circ> cmdCandidates) cmds = [[''n1'']]"
    using demo_emptiness by (auto split: result.splits)
  then obtain cmd where cmd: "cmd \<in> set cmds" by fastforce
  have within: "within_budget demo_world DisruptionReasonEmpty (cmdCandidates cmd)" using emptiness_within_budget[OF r(1) cmd] by simp
  have "wPools demo_world = Ok [one_at_a_time]" "npName one_at_a_time = ''p''"
    by (simp_all add: demo_world_def one_at_a_time_def demo_nodepool_def)
  then have "int (in_pool ''p'' (cmdCandidates cmd)) + int (disrupting_nodes demo_world ''p'')
      \<le> max (allowed_nodes demo_world one_at_a_time DisruptionReasonEmpty) (int (disrupting_nodes demo_world ''p''))"
    using within[unfolded within_budget_def, rule_format, of "[one_at_a_time]" one_at_a_time] by simp
  then show ?thesis using r(1) cmd by (auto simp: demo_budget)
qed

definition demo_replace :: "int Command" where
  "demo_replace = replace_command [empty_candidate] \<lparr>rNewNodeClaims = [], rExistingNodes = [], rPodErrors = []\<rparr>
     [demo_replacement [CapacityTypeSpot] [sold CapacityTypeSpot 3]] 0"

lemma demo_validates:
  "case Consolidation_Validate (demo_consol launch_order [sold CapacityTypeSpot 3]) demo_world demo_world (\<lambda>_. True) demo_replace of
     Ok cmd \<Rightarrow> True
   | _ \<Rightarrow> False"
  by code_simp


definition offers :: "string list \<Rightarrow> int InFlight" where
  "offers names = (demo_replacement [CapacityTypeSpot] [])\<lparr>ifTemplate :=
     (ifTemplate (demo_replacement [CapacityTypeSpot] []))\<lparr>nctInstanceTypeOptions := map (\<lambda>n. small_type\<lparr>itName := n\<rparr>) names\<rparr>\<rparr>"

text \<open>The first replacement takes the first NodeClaim and has to leave it to the second one.\<close>

lemma demo_matches:
  "replacementsMatchSimulation (demo_consol launch_order []) [offers [''a''], offers [''b'']] [offers [''a'', ''b''], offers [''a'']]"
  by code_simp

lemma all_less_two: "(\<forall>i < Suc (Suc 0). P i) \<longleftrightarrow> P 0 \<and> P (Suc 0)"
  by (simp add: less_Suc_eq all_conj_distrib conj_commute)

theorem replacementsMatchSimulation_exact_witness:
  "\<exists>f. inj_on f {..<2} \<and>
     replacementMatchesSimulatedNodeClaim (demo_consol launch_order []) (offers [''a'']) ([offers [''a'', ''b''], offers [''a'']] ! f 0) \<and>
     replacementMatchesSimulatedNodeClaim (demo_consol launch_order []) (offers [''b'']) ([offers [''a'', ''b''], offers [''a'']] ! f (1::nat))"
proof -
  obtain f where "inj_on f {..<2}" "\<forall>i < 2. replacementMatchesSimulatedNodeClaim (demo_consol launch_order [])
      ([offers [''a''], offers [''b'']] ! i) ([offers [''a'', ''b''], offers [''a'']] ! f i)"
    using demo_matches[unfolded replacementsMatchSimulation_exact] by (auto simp: numeral_2_eq_2)
  then show ?thesis by (intro exI[of _ f]) (simp add: numeral_2_eq_2 all_less_two)
qed

end
