(* ===== verification/MultiNodeLaws.thy ===== *)
theory MultiNodeLaws
  imports MultiNode DisruptionLaws
begin

text \<open>
  What multi-node consolidation promises: the batch it consolidates is as large as its search can
  tell, keeps the budgets, and is replaced by at most one node that is cheaper than the batch and
  than every node of a type it could itself be.
\<close>

section \<open>The search\<close>

text \<open>One attempt at a batch of \<open>k\<close> candidates from some state of the pass.\<close>

definition batch_accepted :: "'q::linordered_ab_group_add consol_env \<Rightarrow> evaluator \<Rightarrow> 'q Candidate list \<Rightarrow> nat \<Rightarrow> 'q Command \<Rightarrow> bool" where
  "batch_accepted C ev cs k cmd \<longleftrightarrow>
     (\<exists>st st' cmd0. computeConsolidation C (take k cs) st = Ok (st', cmd0) \<and> judge C ev (take k cs) cmd0 = Some (cmd, True))"

definition batch_rejected :: "'q::linordered_ab_group_add consol_env \<Rightarrow> evaluator \<Rightarrow> 'q Candidate list \<Rightarrow> nat \<Rightarrow> bool" where
  "batch_rejected C ev cs k \<longleftrightarrow>
     (\<exists>st st' cmd0 cmd. computeConsolidation C (take k cs) st = Ok (st', cmd0) \<and> judge C ev (take k cs) cmd0 = Some (cmd, False))"

text \<open>Below \<open>mn\<close> the last batch was accepted, above \<open>mx\<close> the next one was rejected or is out of reach.\<close>

definition batch_search ::
  "'q::linordered_ab_group_add consol_env \<Rightarrow> evaluator \<Rightarrow> 'q Candidate list \<Rightarrow> nat \<Rightarrow> nat \<Rightarrow> nat \<Rightarrow> 'q Command \<Rightarrow> bool" where
  "batch_search C ev cs bound mn mx cmd \<longleftrightarrow>
     1 \<le> mn \<and> mn \<le> Suc mx \<and> mx \<le> bound \<and>
     (if mn = 1 then cmd = no_command else batch_accepted C ev cs mn cmd) \<and>
     (mx = bound \<or> batch_rejected C ev cs (mx + 2))"

lemma first_n_loop_ends:
  assumes "batch_search C ev cs bound mn mx kept" "first_n_loop C ev cs mn mx st kept = Ok (st', cmd, timedOut)"
  shows "\<exists>k. 1 \<le> k \<and> k \<le> Suc bound \<and> (if k = 1 then cmd = no_command else batch_accepted C ev cs k cmd) \<and>
     (timedOut \<or> k = Suc bound \<or> batch_rejected C ev cs (Suc k))"
  using assms
proof (induction C ev cs mn mx st kept rule: first_n_loop.induct)
  case (1 C ev cs mn mx st kept)
  let ?mid = "(mn + mx) div 2"
  show ?case
  proof (cases "mn > mx")
    case True
    then have "cmd = kept" "timedOut = False" "mn = Suc mx" using "1.prems" by (auto simp: batch_search_def)
    then show ?thesis using "1.prems"(1) by (intro exI[of _ mn]) (auto simp: batch_search_def)
  next
    case False
    have mid: "mn \<le> ?mid" "?mid \<le> mx" "1 \<le> ?mid" using False "1.prems"(1) by (auto simp: batch_search_def)
    show ?thesis
    proof (cases "computeConsolidation C (take (?mid + 1) cs) st")
      case (Err e)
      then have "e = SimDeadlineExceeded" "cmd = kept" "timedOut"
        using "1.prems"(2) False by (auto simp: Let_def split: sim_error.splits)
      then show ?thesis using "1.prems"(1) by (intro exI[of _ mn]) (auto simp: batch_search_def)
    next
      case (Ok r)
      obtain st1 cmd0 where r: "r = (st1, cmd0)" by fastforce
      show ?thesis
      proof (cases "judge C ev (take (?mid + 1) cs) cmd0")
        case (Some p)
        obtain cmd1 ok where p: "p = (cmd1, ok)" by fastforce
        show ?thesis
        proof (cases ok)
          case True
          have acc: "batch_accepted C ev cs (?mid + 1) cmd1" using Ok r Some p True by (auto simp: batch_accepted_def)
          have "batch_search C ev cs bound (?mid + 1) mx cmd1" using "1.prems"(1) mid acc by (simp add: batch_search_def)
          moreover have "first_n_loop C ev cs (?mid + 1) mx st1 cmd1 = Ok (st', cmd, timedOut)"
            using "1.prems"(2) False Ok r Some p True by (simp add: Let_def)
          ultimately show ?thesis using "1.IH"(1)[OF False refl refl Ok r[symmetric] Some p[symmetric]] True by blast
        next
          case no: False
          have rej: "batch_rejected C ev cs (?mid + 1)" using Ok r Some p no by (auto simp: batch_rejected_def)
          then have "batch_rejected C ev cs (?mid - 1 + 2)" using mid(3) by (simp add: eval_nat_numeral)
          then have "batch_search C ev cs bound mn (?mid - 1) kept" using "1.prems"(1) mid by (auto simp: batch_search_def)
          moreover have "first_n_loop C ev cs mn (?mid - 1) st1 kept = Ok (st', cmd, timedOut)"
            using "1.prems"(2) False Ok r Some p no mid(3) by (simp add: Let_def)
          ultimately show ?thesis using "1.IH"(2)[OF False refl refl Ok r[symmetric] Some p[symmetric]] no mid(3) by simp
        qed
      qed (use "1.prems"(2) False Ok r in \<open>simp add: Let_def\<close>)
    qed (use "1.prems"(2) False in \<open>simp add: Let_def\<close>)
  qed
qed

lemma firstN_ends:
  assumes "firstNConsolidationOption C ev cs mx st = Ok (st', cmd, timedOut)" "2 \<le> length cs" "1 \<le> mx" "bound = (if length cs \<le> mx then length cs - 1 else mx)"
  shows "\<exists>k. 1 \<le> k \<and> k \<le> Suc bound \<and> (if k = 1 then cmd = no_command else batch_accepted C ev cs k cmd) \<and>
     (timedOut \<or> k = Suc bound \<or> batch_rejected C ev cs (Suc k))"
proof (rule first_n_loop_ends)
  show "first_n_loop C ev cs 1 bound st no_command = Ok (st', cmd, timedOut)"
    using assms by (simp add: firstNConsolidationOption_def)
  show "batch_search C ev cs bound 1 bound no_command" using assms(2-4) by (auto simp: batch_search_def)
qed

text \<open>
  C14. The search for a batch ends at a boundary: unless it runs out of time, it returns a command for a
  batch that it accepted (or none where it rejected a batch of two), and the batch with one more
  candidate was rejected or is larger than a batch may be. The batch has at least two nodes.
\<close>

theorem firstN_boundary:
  assumes "firstNConsolidationOption C ev cs mx st = Ok (st', cmd, False)" "2 \<le> length cs" "1 \<le> mx"
  shows "(cmd = no_command \<and> batch_rejected C ev cs 2) \<or>
     (\<exists>k. 2 \<le> k \<and> k \<le> length cs \<and> k \<le> Suc mx \<and> batch_accepted C ev cs k cmd \<and>
        (k = length cs \<or> k = Suc mx \<or> batch_rejected C ev cs (Suc k)))"
proof -
  define bound where "bound = (if length cs \<le> mx then length cs - 1 else mx)"
  obtain k where k: "1 \<le> k" "k \<le> Suc bound" "if k = 1 then cmd = no_command else batch_accepted C ev cs k cmd"
      "k = Suc bound \<or> batch_rejected C ev cs (Suc k)"
    using firstN_ends[OF assms bound_def] by auto
  show ?thesis
  proof (cases "k = 1")
    case True
    then have "k \<noteq> Suc bound" using assms(2,3) by (auto simp: bound_def)
    then show ?thesis using True k by (simp add: numeral_2_eq_2)
  next
    case False
    then show ?thesis using k assms(2,3) by (intro disjI2 exI[of _ k]) (auto simp: bound_def split: if_splits)
  qed
qed

section \<open>Replacements of a type that is removed\<close>

lemma note_price_least:
  assumes "note_price C prices c = Some prices'" "extremal (deMinBy (ceD C))" "cdInstanceType c = Some it" "StateNode_Labels (cdNode c) = Some labels"
    and "NewLabelRequirements (ceLabels C) labels = Some rs" "o1 \<in> set (Offerings_Compatible (ceLabels C) (itOfferings it) rs)"
    and "ofPrice o1 < MaxFloat64"
  shows "\<exists>p. map_of prices' (itName it) = Some p \<and> p \<le> ofPrice o1"
proof -
  let ?ofs = "Offerings_Compatible (ceLabels C) (itOfferings it) rs"
  let ?p = "ofPrice (Cheapest (deMinBy (ceD C)) ?ofs)"
  have ne: "?ofs \<noteq> []" using assms(6) by auto
  have le: "?p \<le> ofPrice o1" using extremal_price(1)[OF assms(2) ne] assms(6) by blast
  have res: "prices' = (if ?p < mget MaxFloat64 prices (itName it) then mput (itName it) ?p prices else prices)"
    using assms(1,3-5) ne by (auto simp: note_price_def Let_def split: if_splits)
  show ?thesis
  proof (cases "?p < mget MaxFloat64 prices (itName it)")
    case True
    then show ?thesis using le by (simp add: res map_of_mput)
  next
    case False
    then have "mget MaxFloat64 prices (itName it) \<le> ?p" by simp
    moreover from this have "map_of prices (itName it) \<noteq> None" using le assms(7) by (auto simp: mget_def split: option.splits)
    ultimately show ?thesis using False le by (auto simp: res mget_def)
  qed
qed

lemma note_price_mono:
  assumes "note_price C prices c = Some prices'" "map_of prices k = Some p"
  shows "\<exists>p'. map_of prices' k = Some p' \<and> p' \<le> p"
  using assms by (auto simp: note_price_def Let_def map_of_mput mget_def split: option.splits if_splits)

lemma existing_prices_mono:
  "existing_prices C prices cs = Some prices' \<Longrightarrow> map_of prices k = Some p \<Longrightarrow> \<exists>p'. map_of prices' k = Some p' \<and> p' \<le> p"
proof (induction cs arbitrary: prices p)
  case (Cons c cs)
  from Cons.prems(1) obtain p1 where n: "note_price C prices c = Some p1" "existing_prices C p1 cs = Some prices'"
    by (auto simp: bind_eq_Some_conv)
  from note_price_mono[OF n(1) Cons.prems(2)] obtain q where "map_of p1 k = Some q" "q \<le> p" by blast
  with Cons.IH[OF n(2)] show ?case using order_trans by blast
qed simp

lemma existing_prices_least:
  assumes "extremal (deMinBy (ceD C))"
  shows "existing_prices C prices cs = Some prices' \<Longrightarrow> c \<in> set cs \<Longrightarrow> cdInstanceType c = Some it \<Longrightarrow> StateNode_Labels (cdNode c) = Some labels \<Longrightarrow>
    NewLabelRequirements (ceLabels C) labels = Some rs \<Longrightarrow> o1 \<in> set (Offerings_Compatible (ceLabels C) (itOfferings it) rs) \<Longrightarrow>
    ofPrice o1 < MaxFloat64 \<Longrightarrow> \<exists>p. map_of prices' (itName it) = Some p \<and> p \<le> ofPrice o1"
proof (induction cs arbitrary: prices)
  case (Cons d cs)
  from Cons.prems(1) obtain p1 where n: "note_price C prices d = Some p1" "existing_prices C p1 cs = Some prices'"
    by (auto simp: bind_eq_Some_conv)
  show ?case
  proof (cases "c = d")
    case True
    from note_price_least[OF n(1)[folded True] assms Cons.prems(3-7)] obtain p where "map_of p1 (itName it) = Some p" "p \<le> ofPrice o1" by blast
    with existing_prices_mono[OF n(2)] show ?thesis using order_trans by blast
  next
    case False
    then show ?thesis using Cons.IH[OF n(2)] Cons.prems by simp
  qed
qed simp

definition lower_limit :: "(string, rat) gomap \<Rightarrow> string set \<Rightarrow> rat \<Rightarrow> 'q InstanceType \<Rightarrow> rat" where
  "lower_limit prices existing maxPrice it =
     (if itName it \<in> existing \<and> mget 0 prices (itName it) < maxPrice then mget 0 prices (itName it) else maxPrice)"

lemma lower_limits_le: "foldl (lower_limit prices existing) m its \<le> m"
proof (induction its arbitrary: m)
  case (Cons it its)
  have "lower_limit prices existing m it \<le> m" by (simp add: lower_limit_def)
  with Cons[of "lower_limit prices existing m it"] show ?case by simp
qed simp

lemma same_type_limit_le:
  assumes "it \<in> set its" "itName it \<in> existing" "map_of prices (itName it) = Some p"
  shows "same_type_limit prices existing its \<le> p"
proof -
  obtain xs ys where its: "its = xs @ it # ys" using assms(1) by (auto dest: split_list)
  have "same_type_limit prices existing its = foldl (lower_limit prices existing) MaxFloat64 its"
    by (simp add: same_type_limit_def lower_limit_def[abs_def])
  also have "\<dots> \<le> lower_limit prices existing (foldl (lower_limit prices existing) MaxFloat64 xs) it"
    using lower_limits_le by (simp add: its)
  also have "\<dots> \<le> p" using assms(2,3) by (auto simp: lower_limit_def mget_def)
  finally show ?thesis .
qed

lemma filterOut_cheaper:
  assumes "filterOutSameInstanceType C n cs = Some (n', ok)" "extremal (deMinBy (ceD C))"
  shows "narrowed n n'"
    and "it \<in> set (claim_options n') \<Longrightarrow> c \<in> set cs \<Longrightarrow> cdInstanceType c = Some t \<Longrightarrow> itName t \<in> itName ` set (claim_options n) \<Longrightarrow>
      StateNode_Labels (cdNode c) = Some labels \<Longrightarrow> NewLabelRequirements (ceLabels C) labels = Some rs \<Longrightarrow>
      o1 \<in> set (Offerings_Compatible (ceLabels C) (itOfferings t) rs) \<Longrightarrow> ofPrice o1 < MaxFloat64 \<Longrightarrow>
      worst_price C (claim_reqs n) it < ofPrice o1"
proof -
  from assms(1) obtain prices where prices: "existing_prices C [] cs = Some prices"
      and n': "claim_reqs n' = claim_reqs n" "claim_options n' =
        filter (\<lambda>it. worst_price C (claim_reqs n) it < same_type_limit prices (existing_types cs) (claim_options n)) (claim_options n)"
    by (auto simp: filterOutSameInstanceType_def RemoveInstanceTypeOptionsByPriceAndMinValues_def worst_price_def Let_def)
  show "narrowed n n'" by (auto simp: narrowed_def n')
  assume it: "it \<in> set (claim_options n')" and c: "c \<in> set cs" "cdInstanceType c = Some t" "itName t \<in> itName ` set (claim_options n)"
    and o: "StateNode_Labels (cdNode c) = Some labels" "NewLabelRequirements (ceLabels C) labels = Some rs"
      "o1 \<in> set (Offerings_Compatible (ceLabels C) (itOfferings t) rs)" "ofPrice o1 < MaxFloat64"
  obtain p where p: "map_of prices (itName t) = Some p" "p \<le> ofPrice o1"
    using existing_prices_least[OF assms(2) prices c(1,2) o] by blast
  obtain t' where t': "t' \<in> set (claim_options n)" "itName t' = itName t" using c(3) by force
  have "itName t' \<in> existing_types cs" using c(1,2) t'(2) by (force simp: existing_types_def List.map_filter_def)
  then have "same_type_limit prices (existing_types cs) (claim_options n) \<le> p" using same_type_limit_le[OF t'(1)] p(1) t'(2) by simp
  then show "worst_price C (claim_reqs n) it < ofPrice o1" using it p(2) by (auto simp: n')
qed

section \<open>The command\<close>

text \<open>
  A launch is cheaper than every removed node of a type that the replacement may be: than any
  offering of that type that fits the labels of the node.
\<close>

definition cheaper_than_removed :: "'q consol_env \<Rightarrow> 'q Candidate list \<Rightarrow> 'q InFlight \<Rightarrow> 'q Offering \<Rightarrow> bool" where
  "cheaper_than_removed C cs n o1 \<longleftrightarrow>
     (\<forall>c \<in> set cs. \<forall>t labels rs. cdInstanceType c = Some t \<longrightarrow> itName t \<in> itName ` set (claim_options n) \<longrightarrow>
        StateNode_Labels (cdNode c) = Some labels \<longrightarrow> NewLabelRequirements (ceLabels C) labels = Some rs \<longrightarrow>
        (\<forall>o2 \<in> set (Offerings_Compatible (ceLabels C) (itOfferings t) rs). ofPrice o2 < MaxFloat64 \<longrightarrow> ofPrice o1 < ofPrice o2))"

definition sound_batch :: "'q consol_env \<Rightarrow> 'q Candidate list \<Rightarrow> 'q Command \<Rightarrow> bool" where
  "sound_batch C batch cmd \<longleftrightarrow>
     cmdCandidates cmd = batch \<and> AllNonPendingPodsScheduled (cmdResults cmd) \<and> length (cmdReplacements cmd) \<le> 1 \<and>
     (\<forall>n \<in> set (cmdReplacements cmd). \<forall>o1. can_launch C n o1 \<longrightarrow>
        ofPrice o1 < sumCandidatePrices batch * (1 - ConsolidationReplaceMinSavings (ceOptions C)) \<and> cheaper_than_removed C batch n o1)"

lemma replaced_sound:
  assumes env: "pricing_env C" and mn: "extremal (deMinBy (ceD C))" and cmd0: "cmdCandidates cmd0 = batch" "AllNonPendingPodsScheduled (cmdResults cmd0)"
    and reps: "cmdReplacements cmd0 = [n]" and cheap: "saves C (sumCandidatePrices batch * (1 - ConsolidationReplaceMinSavings (ceOptions C))) [n]" "priceable C n"
    and f: "filterOutSameInstanceType C n batch = Some (n', ok)"
  shows "sound_batch C batch (set_replacement n' cmd0)"
proof -
  have plain: "plain_labels (ceLabels C)" and mx: "extremal (ceMaxBy C)" using env by (simp_all add: pricing_env_def)
  note nar = filterOut_cheaper(1)[OF f mn]
  have opts: "itName ` set (claim_options n') \<subseteq> itName ` set (claim_options n)" and reqs: "claim_reqs n' = claim_reqs n"
    using nar by (auto simp: narrowed_def)
  have "ofPrice o1 < sumCandidatePrices batch * (1 - ConsolidationReplaceMinSavings (ceOptions C)) \<and> cheaper_than_removed C batch n' o1"
    if o1: "can_launch C n' o1" for o1
  proof
    have "list_all2 (can_launch C) [n'] [o1]" using o1 by simp
    then show "ofPrice o1 < sumCandidatePrices batch * (1 - ConsolidationReplaceMinSavings (ceOptions C))"
      using saves_narrowed[OF cheap(1), of "[n']"] nar unfolding saves_def by force
    obtain it where it: "it \<in> set (claim_options n')" "o1 \<in> set (itOfferings it)" "ofAvailable o1"
        "offering_compatible (ceLabels C) (claim_reqs n') o1"
      using o1 by (auto simp: can_launch_def list_ex_iff)
    have "ofPrice o1 \<le> worst_price C (claim_reqs n) it"
      using priceable_bound[OF plain mx narrowed_priceable[OF nar cheap(2)] it] by (simp add: reqs)
    then show "cheaper_than_removed C batch n' o1"
      unfolding cheaper_than_removed_def using filterOut_cheaper(2)[OF f mn it(1)] opts by (meson order_le_less_trans subsetD)
  qed
  then show ?thesis using cmd0 reps by (simp add: sound_batch_def set_replacement_def AllNonPendingPodsScheduled_def)
qed

lemma batch_accepted_sound:
  assumes env: "pricing_env C" and mn: "extremal (deMinBy (ceD C))" and sim: "simulates_well C (take k cs)" and price: "0 \<le> sumCandidatePrices (take k cs)"
    and acc: "batch_accepted C ev cs k cmd" and k: "2 \<le> k" "k \<le> length cs"
  shows "sound_batch C (take k cs) cmd"
proof -
  from acc obtain st st' cmd0 where c: "computeConsolidation C (take k cs) st = Ok (st', cmd0)" and j: "judge C ev (take k cs) cmd0 = Some (cmd, True)"
    by (auto simp: batch_accepted_def)
  have len: "length (take k cs) \<noteq> 1" using k by simp
  note ch = computeConsolidation_cheap[OF env sim price c, unfolded if_not_P[OF len]]
  show ?thesis
  proof (cases "Command_Decision cmd0")
    case NoOpDecision
    then show ?thesis using j by (auto simp: judge_def)
  next
    case DeleteDecision
    then have "cmd = cmd0" "cmdReplacements cmd0 = []" using j by (auto simp: judge_def Command_Decision_def split: if_splits)
    then show ?thesis using ch DeleteDecision by (simp add: cheap_command_def sound_batch_def)
  next
    case ReplaceDecision
    obtain n where n: "cmdReplacements cmd0 = [n]"
      using ch ReplaceDecision by (cases "cmdReplacements cmd0") (auto simp: cheap_command_def Command_Decision_def split: if_splits)
    obtain n' ok where f: "filterOutSameInstanceType C n (take k cs) = Some (n', ok)" "cmd = set_replacement n' cmd0"
      using j ReplaceDecision n by (auto simp: judge_def)
    show ?thesis unfolding f(2)
      by (rule replaced_sound[OF env mn _ _ n _ _ f(1)]) (use ch ReplaceDecision n in \<open>simp_all add: cheap_command_def\<close>)
  qed
qed


section \<open>Two nodes for one\<close>

definition nth_node :: "string \<Rightarrow> string \<Rightarrow> int StateNode" where
  "nth_node name pid = empty_node\<lparr>
     stNode := map_option (\<lambda>n. n\<lparr>cnName := name, cnProviderID := pid\<rparr>) (stNode empty_node),
     stNodeClaim := map_option (\<lambda>n. n\<lparr>ncName := name, ncUID := name, ncProviderID := pid\<rparr>) (stNodeClaim empty_node)\<rparr>"

definition two_at_a_time :: "int NodePool" where
  "two_at_a_time = one_at_a_time\<lparr>npConsolidationPolicy := ConsolidationPolicyWhenEmptyOrUnderutilized,
     npBudgets := [\<lparr>bReasons = None, bNodes = ''2'', bSchedule = None, bDuration = None\<rparr>]\<rparr>"

definition two_world :: "int world" where
  "two_world = demo_world\<lparr>wCluster := NewCluster\<lparr>clNodes := [(''i-1'', nth_node ''n1'' ''i-1''), (''i-2'', nth_node ''n2'' ''i-2'')]\<rparr>,
     wPools := Ok [two_at_a_time]\<rparr>"

definition nth_candidate :: "string \<Rightarrow> string \<Rightarrow> int Candidate" where
  "nth_candidate name pid = (demo_candidate 10)\<lparr>cdNode := nth_node name pid, cdNodePool := two_at_a_time,
     cdInstanceType := Some (small_type\<lparr>itOfferings := [sold CapacityTypeSpot 11]\<rparr>)\<rparr>"

definition spot_consol :: "int consol_env" where
  "spot_consol = demo_consol [CapacityTypeSpot, CapacityTypeOnDemand] spot_or_demand"

definition two_nodes :: "int Candidate list" where
  "two_nodes = [nth_candidate ''n1'' ''i-1'', nth_candidate ''n2'' ''i-2'']"

lemma two_consolidates:
  "case MultiNode_ComputeCommands spot_consol None id (Consolidation_Validate spot_consol two_world two_world (\<lambda>_. True)) False [(''p'', 2)] two_nodes fresh_pass of
     Ok (cmds, mark) \<Rightarrow> map (\<lambda>cmd. (map candidate_name (cmdCandidates cmd), length (cmdReplacements cmd))) cmds = [([''n1'', ''n2''], 1)]
   | _ \<Rightarrow> False"
  by code_simp


lemma two_found:
  "case firstNConsolidationOption spot_consol None two_nodes 2 fresh_pass of Ok (st', cmd, timedOut) \<Rightarrow> \<not> timedOut \<and> Command_Decision cmd = ReplaceDecision | _ \<Rightarrow> False"
  by code_simp

theorem firstN_boundary_witness:
  "\<exists>st' cmd. firstNConsolidationOption spot_consol None two_nodes 2 fresh_pass = Ok (st', cmd, False) \<and> batch_accepted spot_consol None two_nodes 2 cmd"
proof -
  obtain st' cmd where r: "firstNConsolidationOption spot_consol None two_nodes 2 fresh_pass = Ok (st', cmd, False)" "Command_Decision cmd = ReplaceDecision"
    using two_found by (auto split: result.splits)
  have len: "length two_nodes = 2" by (simp add: two_nodes_def)
  have "cmd \<noteq> no_command" using r(2) by (auto simp: no_command_def Command_Decision_def)
  then show ?thesis using firstN_boundary[OF r(1)] r(1) by (auto simp: len dest: antisym)
qed

section \<open>The largest batch\<close>

text \<open>A simulation that never needs a new node.\<close>

definition always_fits :: "'q consol_env \<Rightarrow> 'q Results \<Rightarrow> bool" where
  "always_fits C results \<longleftrightarrow> (\<forall>lim batch. ceSimulate C lim batch = Ok results) \<and> rNewNodeClaims results = [] \<and> AllNonPendingPodsScheduled results"

lemma fits_deleted:
  assumes "always_fits C results" "batch \<noteq> []"
  shows "computeConsolidation C batch st = Ok (st, replace_command batch results [] 0)"
    and "judge C None batch (replace_command batch results [] 0) = Some (replace_command batch results [] 0, True)"
  using assms
  by (simp_all add: always_fits_def computeConsolidation_def computeConsolidationWithOptions_def compute_with_def
      judge_def Command_Decision_def replace_command_def ApproveCommand_def)

lemma fits_loop:
  assumes "always_fits C results" "cs \<noteq> []"
  shows "mn \<le> mx \<Longrightarrow> first_n_loop C None cs mn mx st cmd = Ok (st, replace_command (take (Suc mx) cs) results [] 0, False)"
proof (induction "mx - mn" arbitrary: mn cmd rule: less_induct)
  case less
  define mid where "mid = (mn + mx) div 2"
  have mid: "mn \<le> mid" "mid \<le> mx" using less.prems by (simp_all add: mid_def)
  have step: "first_n_loop C None cs mn mx st cmd = first_n_loop C None cs (mid + 1) mx st (replace_command (take (mid + 1) cs) results [] 0)"
    using less.prems assms fits_deleted[OF assms(1), of "take (mid + 1) cs"]
    by (subst first_n_loop.simps) (simp add: Let_def mid_def[symmetric])
  show ?case
  proof (cases "mid = mx")
    case True
    then show ?thesis unfolding step by (subst first_n_loop.simps) simp
  next
    case False
    then show ?thesis unfolding step using mid by (intro less.hyps) auto
  qed
qed

text \<open>
  C40. A batch may be larger than the announced maximum of 100 nodes: where the budgets leave more than
  100 candidates and the pods of any of them fit elsewhere, the first 101 are removed at once.
\<close>

theorem batch_exceeds_maximum:
  assumes "fst (spend_budget budgets (sortCandidates cs)) = ds" "MaxParallel < length ds" "always_fits C results"
  shows "\<exists>cmd. MultiNode_ComputeCommands C None sortCandidates Ok False budgets cs st = Ok ([cmd], False) \<and>
     Command_Decision cmd = DeleteDecision \<and> cmdCandidates cmd = take 101 ds \<and> length (cmdCandidates cmd) = Suc MaxParallel"
proof -
  obtain m k where sp: "spend_budget budgets (sortCandidates cs) = (ds, m, k)" using assms(1) by (metis prod.collapse)
  have "ds \<noteq> []" using assms(2) by auto
  then have "firstNConsolidationOption C None ds (min (length ds) MaxParallel) st = Ok (st, replace_command (take 101 ds) results [] 0, False)"
    using fits_loop[OF assms(3), of ds 1 100] assms(2) by (simp add: firstNConsolidationOption_def MaxParallel_def min_def)
  then show ?thesis
    using assms(2) \<open>ds \<noteq> []\<close> by (simp add: MultiNode_ComputeCommands_def sp Command_Decision_def replace_command_def MaxParallel_def)
qed

definition roomy_consol :: "int consol_env" where
  "roomy_consol = spot_consol\<lparr>ceSimulate := (\<lambda>_ _. Ok \<lparr>rNewNodeClaims = [], rExistingNodes = [], rPodErrors = []\<rparr>)\<rparr>"

lemma roomy_fits: "always_fits roomy_consol \<lparr>rNewNodeClaims = [], rExistingNodes = [], rPodErrors = []\<rparr>"
  by (simp add: always_fits_def roomy_consol_def AllNonPendingPodsScheduled_def)

lemma spend_replicate: "fst (spend_budget [(cdPool c, int n)] (replicate n c)) = replicate n c"
  by (induction n) (auto simp: mget_def split: prod.splits)

theorem batch_exceeds_maximum_witness:
  "\<exists>cmd. MultiNode_ComputeCommands roomy_consol None id Ok False [(cdPool (demo_candidate 10), 150)] (replicate 150 (demo_candidate 10)) fresh_pass = Ok ([cmd], False) \<and>
     length (cmdCandidates cmd) = 101"
  using batch_exceeds_maximum[OF _ _ roomy_fits, of "[(cdPool (demo_candidate 10), 150)]" id "replicate 150 (demo_candidate 10)"
      "replicate 150 (demo_candidate 10)" fresh_pass] spend_replicate[of "demo_candidate 10" 150]
  by (auto simp: MaxParallel_def)

end
