(* ===== verification/Spec2Isabelle.thy ===== *)
theory Spec2Isabelle
  imports HostPort Pods Reservation SchedQueue Taints VolumeTopology TopologyLaws GroupKeys Parallel DaemonOverhead ClusterLaws PoolLaws SolveLaws
    MultiNodeLaws
begin

text \<open>
  A verification development of the scheduling core of kraftsman, a fork of Karpenter.

  Karpenter watches pods that cannot be scheduled, simulates the Kubernetes scheduler against the
  instance types a cloud provider offers, launches nodes for the pods (provisioning) and later
  removes or replaces nodes (disruption). The theories follow the packages of the source.

  Foundations:
  \<^item> \<open>Prelude\<close>: Go's machine integers with their wrap-around, Go maps as association lists, results
    with errors and panics, runs of state machines (two locales, interpreted by the components).
  \<^item> \<open>Strconv\<close>: \<^verbatim>\<open>strconv.Atoi\<close> and \<^verbatim>\<open>strconv.FormatInt\<close>, with their round trip.
  \<^item> \<open>Kube\<close>: the Kubernetes objects the code reads (pods, nodes, selectors, volumes).

  Requirements (\<^verbatim>\<open>pkg/scheduling\<close>, \<^verbatim>\<open>pkg/apis/v1\<close>):
  \<^item> \<open>Labels\<close>: \<^verbatim>\<open>labels.go\<close> and the validation of \<^verbatim>\<open>nodeclaim_validation.go\<close>.
  \<^item> \<open>Requirement\<close>, \<open>Requirements\<close>: \<^verbatim>\<open>requirement.go\<close>, \<^verbatim>\<open>requirements.go\<close>. A requirement stands for
    the set of label values it accepts; intersection, inclusion, compatibility and conversion to
    and from selector expressions are shown exact with respect to that reading, and the cases in
    which a conversion loses information or a drawn value panics are proved as such.
  \<^item> \<open>Taints\<close>: \<^verbatim>\<open>taints.go\<close> and taint validation.

  What a node holds:
  \<^item> \<open>Resources\<close>: \<^verbatim>\<open>pkg/utils/resources\<close>; a node on which pods are placed only where they fit is
    never overcommitted.
  \<^item> \<open>HostPort\<close>, \<open>VolumeUsage\<close>, \<open>VolumeTopology\<close>: \<^verbatim>\<open>hostportusage.go\<close>, \<^verbatim>\<open>volumeusage.go\<close>,
    \<^verbatim>\<open>volumetopology.go\<close>; ports never collide, attachment limits are respected, and the zones of
    bound volumes become requirements.
  \<^item> \<open>Pods\<close>: \<^verbatim>\<open>pkg/utils/pod\<close> and \<^verbatim>\<open>pkg/utils/pdb\<close>; when a pod may be evicted.

  The scheduler (\<^verbatim>\<open>pkg/cloudprovider/types.go\<close>, \<^verbatim>\<open>pkg/controllers/provisioning/scheduling\<close>):
  \<^item> \<open>InstanceTypes\<close>: offerings, minimum values, truncation and launch prices.
  \<^item> \<open>Reservation\<close>: \<^verbatim>\<open>reservationmanager.go\<close>; capacity left plus hosts holding a reservation is
    constant.
  \<^item> \<open>SchedQueue\<close>: \<^verbatim>\<open>queue.go\<close>; the number of attempts that drain the queue.
  \<^item> \<open>TopologyCounts\<close>, \<open>TopologySpread\<close>: \<^verbatim>\<open>topologygroup.go\<close>, \<^verbatim>\<open>topologynodefilter.go\<close>,
    \<^verbatim>\<open>topologydomaingroup.go\<close>; the counts refine the list of recorded pods, the next domain is
    characterised for spread, affinity and anti-affinity, and the skew stays bounded.
  \<^item> \<open>Topology\<close>, \<open>TopologyLaws\<close>, \<open>GroupKeys\<close>: \<^verbatim>\<open>topology.go\<close> and the keys of
    \<^verbatim>\<open>inverseaffinitycache.go\<close>; what a pod's topologies add to a node's requirements, and that
    pods excluding each other are kept apart.

  \<^item> \<open>Parallel\<close>: the worker pool of \<^verbatim>\<open>parallelizeUntil\<close> as a step relation; whatever the interleaving,
    the verdict of the smallest index wins.
  \<^item> \<open>Preferences\<close>: \<^verbatim>\<open>preferences.go\<close>; each relaxation drops one soft constraint and no hard one.
  \<^item> \<open>NodePools\<close>, \<open>DaemonOverhead\<close>: NodePools, \<^verbatim>\<open>nodeclaimtemplate.go\<close>, disruption costs, and the
    daemon overhead of \<^verbatim>\<open>scheduler.go\<close> and \<^verbatim>\<open>daemonoverheadcache.go\<close>; the overhead reserved covers
    every daemon that can land on the node.
  \<^item> \<open>NodeClaims\<close>, \<open>NodeClaimLaws\<close>: \<^verbatim>\<open>nodeclaim.go\<close>; every instance type left on a NodeClaim can host
    its pods and daemons.
  \<^item> \<open>ExistingNodes\<close>: \<^verbatim>\<open>existingnode.go\<close>.
  \<^item> \<open>Scheduler\<close>, \<open>SchedulerLaws\<close>, \<open>SolveLaws\<close>: \<^verbatim>\<open>scheduler.go\<close> and \<^verbatim>\<open>packing.go\<close>. A run keeps one invariant
    (\<open>sched_ok\<close>) through every search and commit; from it follow that a run ends and accounts for every
    pod, that every place has room, and that the limits of NodePools are kept.

  The state of the cluster (\<^verbatim>\<open>pkg/controllers/state\<close>):
  \<^item> \<open>StateNodes\<close>, \<open>Cluster\<close>, \<open>ClusterLaws\<close>: \<^verbatim>\<open>statenode.go\<close>, \<^verbatim>\<open>cluster.go\<close>; through any sequence of watch
    events the resources of a NodePool are the sum over its live nodes and every pod is counted
    on one node.
  \<^item> \<open>PoolStates\<close>, \<open>PoolLaws\<close>: \<^verbatim>\<open>nodepoolstate.go\<close>; the node count reserved never exceeds the limit.

  Disruption (\<^verbatim>\<open>pkg/controllers/disruption\<close>):
  \<^item> \<open>Candidates\<close>: \<^verbatim>\<open>types.go\<close>, \<^verbatim>\<open>balanced.go\<close>; candidates, commands and the score of a move.
  \<^item> \<open>Consolidation\<close>, \<open>ConsolidationLaws\<close>: \<^verbatim>\<open>consolidation.go\<close>, \<^verbatim>\<open>spottospot.go\<close>, \<^verbatim>\<open>splitconsolidation.go\<close>.
    The scheduling simulation is an argument. Whatever it returns, a replacement costs less than
    what it replaces, and a spot market advised against is not launched into; two theorems show
    where these need the hypotheses on offerings.
  \<^item> \<open>Disruption\<close>, \<open>DisruptionLaws\<close>: \<^verbatim>\<open>helpers.go\<close>, \<^verbatim>\<open>validation.go\<close>, \<^verbatim>\<open>emptiness.go\<close>; disruptions stay within the
    budgets of NodePools, and a validated command is one that the repeated simulation still supports.
    \<open>Matching\<close> holds the matching of replacements with simulated NodeClaims, which is exact.
  \<^item> \<open>MultiNode\<close>, \<open>MultiNodeLaws\<close>: \<^verbatim>\<open>multinodeconsolidation.go\<close>; the binary search ends at a boundary and the
    batch it finds is replaced by something cheaper than any removed node of the same type.

  Conventions. A Go \<^verbatim>\<open>int\<close> is an \<^typ>\<open>int\<close> with \<open>wrap64\<close> or \<open>wrap32\<close> after arithmetic; where a
  theorem needs a count not to overflow, the bound is a hypothesis. The order in which a map is
  ranged over is the order of its list and arbitrary. Sorting routines, label selector parsing,
  hashing, quantities and the API server are parameters with the laws the code relies on as named
  predicates. Prices are rationals. Two definitions use fuel: the loop that relaxes a pod runs
  with as many rounds as the pod has soft constraints, and \<open>SolveLaws\<close> shows that this is enough; the
  search for an augmenting path nests one deeper than there are columns, and \<open>match_all_exact\<close> in
  \<open>Matching\<close> shows that it then finds a matching whenever there is one.

  Not modelled: metrics, events, logging, tracing, the wiring of controllers, generated code, test
  helpers, caches that return what the computation they wrap returns, and the allocation of dynamic
  resources (the scheduler is modelled without an allocator).
\<close>

end
